(* ===== verification/Prelude.thy ===== *)
theory Prelude
  imports Main "HOL-Library.Word" "HOL-Library.AList"
begin

text \<open>
  Shared vocabulary of the development: bytes and byte arrays, JavaScript results with
  thrown errors as values, the integer/byte conversions that every component of the SDK
  writes as its own loop, and the interface of a fixed-width codec.

  JavaScript values are modelled as follows. A \<open>bigint\<close> is an \<^typ>\<open>int\<close>; a
  \<open>number\<close> that holds an index, a count or a small flag is an \<^typ>\<open>int\<close> or a
  \<^typ>\<open>nat\<close> (all of them are far below \<open>2 ^ 53\<close>, where doubles are exact); an element
  of a \<open>Uint8Array\<close> is an \<open>8 word\<close>, so storing a number keeps its low eight bits; a
  string is a \<^typ>\<open>string\<close>; a \<open>Map\<close> is an association list in insertion order.
\<close>

unbundle bit_operations_syntax

section \<open>Types and results\<close>

type_synonym byte = "8 word"
type_synonym bytes = "byte list"

text \<open>What a function of the SDK can throw. \<open>Error\<close> carries the fixed part of the message.\<close>

datatype js_error =
    Error string
  | RangeError
  | TypeError
  | SyntaxError
  | InvalidCharacterError

type_synonym 'a result = "js_error + 'a"

definition js_bind :: "'e + 'a \<Rightarrow> ('a \<Rightarrow> 'e + 'b) \<Rightarrow> 'e + 'b" where
  "js_bind m f = (case m of Inl e \<Rightarrow> Inl e | Inr x \<Rightarrow> f x)"

text \<open>
  A loop over a list that stops at the first throw. The error type is open, so that the
  models of the on-chain program use the same combinators with the program's own errors.
\<close>

fun js_fold :: "('a \<Rightarrow> 's \<Rightarrow> 'e + 's) \<Rightarrow> 'a list \<Rightarrow> 's \<Rightarrow> 'e + 's" where
  "js_fold f [] s = Inr s"
| "js_fold f (x # xs) s = js_bind (f x s) (js_fold f xs)"

text \<open>\<open>Array.prototype.map\<close> with a callback that may throw.\<close>

fun js_mapM :: "('a \<Rightarrow> 'e + 'b) \<Rightarrow> 'a list \<Rightarrow> 'e + 'b list" where
  "js_mapM f [] = Inr []"
| "js_mapM f (x # xs) = js_bind (f x) (\<lambda>y. js_bind (js_mapM f xs) (\<lambda>ys. Inr (y # ys)))"

text \<open>\<open>slice(a, b)\<close> of an array or a typed array, for \<open>0 \<le> a\<close> and \<open>0 \<le> b\<close>.\<close>

definition js_slice :: "'a list \<Rightarrow> nat \<Rightarrow> nat \<Rightarrow> 'a list" where
  "js_slice xs a b = take (b - a) (drop a xs)"

named_theorems js_simps \<open>evaluation of results, slices and loops\<close>
named_theorems codec_simps \<open>widths and round trips of the byte encodings\<close>

lemma js_bind_simps [simp, js_simps]:
  "js_bind (Inl e) f = Inl e"
  "js_bind (Inr x) f = f x"
  by (simp_all add: js_bind_def)

lemma js_bind_assoc: "js_bind (js_bind m f) g = js_bind m (\<lambda>x. js_bind (f x) g)"
  by (cases m) simp_all

lemma js_bind_Inr_iff: "js_bind m f = Inr y \<longleftrightarrow> (\<exists>x. m = Inr x \<and> f x = Inr y)"
  by (cases m) simp_all

lemma js_bind_Inl_iff:
  "js_bind m f = Inl e \<longleftrightarrow> m = Inl e \<or> (\<exists>x. m = Inr x \<and> f x = Inl e)"
  by (cases m) simp_all

lemma js_bind_cong [fundef_cong]:
  "m = m' \<Longrightarrow> (\<And>x. m' = Inr x \<Longrightarrow> f x = g x) \<Longrightarrow> js_bind m f = js_bind m' g"
  by (cases m') simp_all

lemma js_fold_append: "js_fold f (xs @ ys) s = js_bind (js_fold f xs s) (js_fold f ys)"
proof (induction xs arbitrary: s)
  case (Cons x xs)
  then show ?case by (cases "f x s") simp_all
qed simp

lemma js_mapM_Inr: "(\<And>x. x \<in> set xs \<Longrightarrow> f x = Inr (g x)) \<Longrightarrow> js_mapM f xs = Inr (map g xs)"
  by (induction xs) simp_all

lemma js_slice_length [simp]: "length (js_slice xs a b) = min (b - a) (length xs - a)"
  by (simp add: js_slice_def)

lemma js_slice_append_skip: "length xs \<le> a \<Longrightarrow> js_slice (xs @ ys) a b = js_slice ys (a - length xs) (b - length xs)"
  by (simp add: js_slice_def)

lemma js_slice_exact: "length ys = b - length xs \<Longrightarrow> js_slice (xs @ ys @ zs) (length xs) b = ys"
  by (simp add: js_slice_def)

lemma js_slice_all: "length xs \<le> b \<Longrightarrow> js_slice xs 0 b = xs"
  by (simp add: js_slice_def)

section \<open>Integers and bytes\<close>

lemma and_255: "(x::int) AND 255 = x mod 256"
proof -
  have "(255::int) = mask 8" by (simp add: mask_eq_exp_minus_1)
  then show ?thesis by (simp only: take_bit_eq_mask [symmetric]) (simp add: take_bit_eq_mod)
qed

lemma shift_or_byte: "push_bit 8 r OR uint (b::byte) = 256 * r + uint b"
proof -
  have "uint b = take_bit 8 (uint b)"
    by (rule sym, rule take_bit_int_eq_self) (use uint_lt2p [of b] in auto)
  then have "push_bit 8 r AND uint b = 0"
    by (metis and.commute bit_eqI bit_and_iff bit_push_bit_iff bit_take_bit_iff bit_0_eq bot_apply bot_bool_def not_le)
  then have "push_bit 8 r OR uint b = push_bit 8 r + uint b"
    by (simp add: disjunctive_add_eq_or)
  then show ?thesis by (simp add: push_bit_eq_mult)
qed

text \<open>Reference encodings: \<open>n\<close> bytes of an integer, least or most significant first.\<close>

fun le_bytes :: "nat \<Rightarrow> int \<Rightarrow> bytes" where
  "le_bytes 0 v = []"
| "le_bytes (Suc n) v = word_of_int v # le_bytes n (v div 256)"

fun le_val :: "bytes \<Rightarrow> int" where
  "le_val [] = 0"
| "le_val (b # bs) = uint b + 256 * le_val bs"

definition be_bytes :: "nat \<Rightarrow> int \<Rightarrow> bytes" where
  "be_bytes n v = rev (le_bytes n v)"

definition be_val :: "bytes \<Rightarrow> int" where
  "be_val bs = le_val (rev bs)"

lemma length_le_bytes [simp, codec_simps]: "length (le_bytes n v) = n"
  by (induction n arbitrary: v) simp_all

lemma length_be_bytes [simp, codec_simps]: "length (be_bytes n v) = n"
  by (simp add: be_bytes_def)

lemma uint_word_of_int_byte: "uint (word_of_int v :: byte) = v mod 256"
  by (simp add: uint_word_of_int)

lemma byte_range: "0 \<le> uint (b::byte)" "uint (b::byte) < 256"
  using uint_lt2p [of b] by simp_all

lemma unat_byte: "unat (b::byte) < 256"
proof -
  have "unat b = nat (uint b)" by simp
  also have "\<dots> < 256" using byte_range(2) [of b] by linarith
  finally show ?thesis .
qed

lemma le_val_le_bytes [codec_simps]: "le_val (le_bytes n v) = v mod 256 ^ n"
proof (induction n arbitrary: v)
  case (Suc n)
  have "v mod 256 + 256 * (v div 256 mod 256 ^ n) = v mod (256 * 256 ^ n)"
    by (simp add: zmod_zmult2_eq)
  with Suc show ?case by (simp add: uint_word_of_int_byte)
qed simp

lemma be_val_be_bytes [codec_simps]: "be_val (be_bytes n v) = v mod 256 ^ n"
  by (simp add: be_val_def be_bytes_def le_val_le_bytes)

lemma le_val_nonneg [simp]: "0 \<le> le_val bs"
  by (induction bs) (simp_all add: byte_range)

lemma le_val_bound: "le_val bs < 256 ^ length bs"
proof (induction bs)
  case (Cons b bs)
  then have "256 * le_val bs + 256 \<le> 256 * 256 ^ length bs" by simp
  with byte_range(2) [of b] show ?case by simp
qed simp

lemma be_val_nonneg [simp]: "0 \<le> be_val bs"
  by (simp add: be_val_def)

lemma be_val_bound: "be_val bs < 256 ^ length bs"
  using le_val_bound [of "rev bs"] by (simp add: be_val_def)

lemma le_bytes_le_val [codec_simps]: "length bs = n \<Longrightarrow> le_bytes n (le_val bs) = bs"
proof (induction bs arbitrary: n)
  case (Cons b bs)
  have "(uint b + 256 * le_val bs) div 256 = le_val bs"
    using byte_range [of b] by simp
  moreover have "word_of_int (uint b + 256 * le_val bs) = b"
    by (rule word_uint_eqI) (simp only: uint_word_of_int_byte, simp add: byte_range)
  ultimately show ?case using Cons by auto
qed simp

lemma be_bytes_be_val [codec_simps]: "length bs = n \<Longrightarrow> be_bytes n (be_val bs) = bs"
  by (simp add: be_bytes_def be_val_def le_bytes_le_val)

lemma le_bytes_nth: "i < n \<Longrightarrow> le_bytes n v ! i = word_of_int (v div 256 ^ i)"
proof (induction n arbitrary: v i)
  case (Suc n)
  then show ?case by (cases i) (simp_all add: zdiv_zmult2_eq)
qed simp

lemma le_bytes_mod: "le_bytes n (v mod 256 ^ n) = le_bytes n v"
  by (metis le_bytes_le_val le_val_le_bytes length_le_bytes)

lemma le_bytes_inject: "le_bytes n v = le_bytes n w \<longleftrightarrow> v mod 256 ^ n = w mod 256 ^ n"
  by (metis le_bytes_mod le_val_le_bytes)

lemma be_bytes_inject: "be_bytes n v = be_bytes n w \<longleftrightarrow> v mod 256 ^ n = w mod 256 ^ n"
  by (simp add: be_bytes_def le_bytes_inject)

lemma le_val_append: "le_val (xs @ ys) = le_val xs + 256 ^ length xs * le_val ys"
  by (induction xs) (simp_all add: algebra_simps)

lemma be_val_Cons: "be_val (b # bs) = uint b * 256 ^ length bs + be_val bs"
  by (simp add: be_val_def le_val_append)

lemma be_val_Nil [simp]: "be_val [] = 0"
  by (simp add: be_val_def)

lemma be_val_zeros [simp]: "be_val (replicate n 0) = 0"
  by (induction n) (simp_all add: be_val_Cons)

lemma be_val_inject: "length xs = length ys \<Longrightarrow> be_val xs = be_val ys \<longleftrightarrow> xs = ys"
  by (metis be_bytes_be_val)

section \<open>The conversion loops of the source\<close>

text \<open>
  The loop \<open>result = (result << 8n) | BigInt(b)\<close> over the bytes in the order given: over
  the array it reads big-endian, over the reversed array little-endian.
\<close>

definition shift_in :: "bytes \<Rightarrow> int" where
  "shift_in bs = foldl (\<lambda>result b. push_bit 8 result OR uint b) 0 bs"

text \<open>
  The loop \<open>for (i = n - 1; i >= 0; i--) { buf[i] = Number(t & 0xffn); t >>= 8n; }\<close>;
  the counter of the model is \<open>i + 1\<close>. It returns the rest of the number and the buffer.
\<close>

fun store_be :: "nat \<Rightarrow> int \<Rightarrow> bytes \<Rightarrow> int \<times> bytes" where
  "store_be 0 t buf = (t, buf)"
| "store_be (Suc i) t buf = store_be i (drop_bit 8 t) (buf[i := word_of_int (t AND 255)])"

text \<open>
  The loop \<open>for (i = 0; i < n; i++) { buf[off + i] = Number(t & 0xffn); t >>= 8n; }\<close>.
\<close>

fun store_le :: "nat \<Rightarrow> nat \<Rightarrow> int \<Rightarrow> bytes \<Rightarrow> int \<times> bytes" where
  "store_le 0 off t buf = (t, buf)"
| "store_le (Suc n) off t buf =
     store_le n (Suc off) (drop_bit 8 t) (buf[off := word_of_int (t AND 255)])"

lemma shift_in_be_val: "shift_in bs = be_val bs"
proof -
  have "foldl (\<lambda>result b. push_bit 8 result OR uint b) r bs = r * 256 ^ length bs + be_val bs" for r
  proof (induction bs arbitrary: r rule: rev_induct)
    case (snoc b bs)
    then show ?case by (simp add: shift_or_byte be_val_def algebra_simps)
  qed (simp add: be_val_def)
  then show ?thesis by (simp add: shift_in_def)
qed

lemma shift_in_rev: "shift_in (rev bs) = le_val bs"
  by (simp add: shift_in_be_val be_val_def)

lemma word_of_int_and_255: "(word_of_int (t AND 255) :: byte) = word_of_int t"
  by (rule word_uint_eqI) (simp add: uint_word_of_int_byte and_255)

lemma drop_bit_8: "drop_bit 8 (t::int) = t div 256"
  by (simp add: drop_bit_eq_div)

lemma store_be_eq:
  "n \<le> length buf \<Longrightarrow> store_be n t buf = (t div 256 ^ n, be_bytes n t @ drop n buf)"
proof (induction n arbitrary: t buf)
  case (Suc n)
  let ?buf = "buf[n := word_of_int t]"
  have "drop n ?buf = word_of_int t # drop (Suc n) buf"
    using Suc.prems by (simp add: Cons_nth_drop_Suc [symmetric] drop_update_swap)
  moreover have "t div 256 div 256 ^ n = t div 256 ^ Suc n"
    by (simp add: div_mult2_eq zdiv_zmult2_eq)
  ultimately show ?case
    using Suc.IH [of ?buf "t div 256"] Suc.prems
    by (simp add: word_of_int_and_255 drop_bit_8 be_bytes_def)
qed (simp add: be_bytes_def)

lemma store_le_eq:
  "off + n \<le> length buf \<Longrightarrow>
   store_le n off t buf = (t div 256 ^ n, take off buf @ le_bytes n t @ drop (off + n) buf)"
proof (induction n arbitrary: t buf off)
  case (Suc n)
  let ?buf = "buf[off := word_of_int t]"
  have "take (Suc off) ?buf = take off buf @ [word_of_int t]"
    using Suc.prems by (simp add: take_Suc_conv_app_nth)
  moreover have "drop (Suc (off + n)) ?buf = drop (Suc (off + n)) buf" by simp
  moreover have "t div 256 div 256 ^ n = t div 256 ^ Suc n"
    by (simp add: zdiv_zmult2_eq)
  ultimately show ?case
    using Suc.IH [of "Suc off" ?buf "t div 256"] Suc.prems
    by (simp add: word_of_int_and_255 drop_bit_8)
qed simp

section \<open>Fixed-width codecs\<close>

text \<open>
  The contract of a byte encoding: every valid value has an encoding of one width, which the
  decoder takes back to the value. Injectivity and the decoding of a sequence of fields laid
  end to end follow for every provider of the contract.
\<close>

fun chunks :: "nat \<Rightarrow> nat \<Rightarrow> 'a list \<Rightarrow> 'a list list" where
  "chunks w 0 xs = []"
| "chunks w (Suc n) xs = take w xs # chunks w n (drop w xs)"

lemma length_chunks [simp]: "length (chunks w n xs) = n"
  by (induction n arbitrary: xs) simp_all

lemma chunks_concat:
  "\<forall>x \<in> set xs. length x = w \<Longrightarrow> chunks w (length xs) (concat xs @ rest) = xs"
  by (induction xs) simp_all

lemma chunks_widths: "w * n \<le> length xs \<Longrightarrow> \<forall>x \<in> set (chunks w n xs). length x = w"
proof (induction n arbitrary: xs)
  case (Suc n)
  from Suc.prems have "w * n \<le> length (drop w xs)" by simp
  from Suc.IH [OF this] Suc.prems show ?case by simp
qed simp

lemma concat_chunks: "w * n \<le> length xs \<Longrightarrow> concat (chunks w n xs) = take (w * n) xs"
proof (induction n arbitrary: xs)
  case (Suc n)
  have "take (w + w * n) xs = take w xs @ take (w * n) (drop w xs)"
    by (simp add: take_add)
  with Suc show ?case by simp
qed simp

lemma length_concat_width: "\<forall>x \<in> set xs. length x = w \<Longrightarrow> length (concat xs) = length xs * w"
  by (induction xs) simp_all

locale codec =
  fixes enc :: "'a \<Rightarrow> bytes"
    and dec :: "bytes \<Rightarrow> 'a result"
    and valid :: "'a \<Rightarrow> bool"
    and width :: nat
  assumes enc_width: "valid x \<Longrightarrow> length (enc x) = width"
    and dec_enc: "valid x \<Longrightarrow> dec (enc x) = Inr x"
begin

lemma enc_inj: "valid x \<Longrightarrow> valid y \<Longrightarrow> enc x = enc y \<Longrightarrow> x = y"
  by (metis Inr_inject dec_enc)

lemma enc_append_inj:
  assumes "valid x" "valid y" "enc x @ r = enc y @ s"
  shows "x = y \<and> r = s"
  using assms by (metis append_eq_append_conv enc_inj enc_width)

lemma dec_field: "valid x \<Longrightarrow> dec (take width (enc x @ rest)) = Inr x"
  by (simp add: enc_width dec_enc)

lemma dec_sequence:
  assumes "\<forall>x \<in> set xs. valid x"
  shows "js_mapM dec (chunks width (length xs) (concat (map enc xs) @ rest)) = Inr xs"
proof -
  have "chunks width (length (map enc xs)) (concat (map enc xs) @ rest) = map enc xs"
    using assms by (intro chunks_concat) (auto simp: enc_width)
  moreover have "js_mapM dec (map enc xs) = Inr xs"
    using assms by (induction xs) (simp_all add: dec_enc)
  ultimately show ?thesis by simp
qed

end

definition fits :: "nat \<Rightarrow> int \<Rightarrow> bool" where
  "fits n v \<longleftrightarrow> 0 \<le> v \<and> v < 256 ^ n"

lemma fits_mod [simp]: "fits n v \<Longrightarrow> v mod 256 ^ n = v"
  by (simp add: fits_def)

lemma fits_le_val [simp]: "length bs = n \<Longrightarrow> fits n (le_val bs)"
  using le_val_bound [of bs] by (auto simp: fits_def)

lemma fits_be_val [simp]: "length bs = n \<Longrightarrow> fits n (be_val bs)"
  using be_val_bound [of bs] by (auto simp: fits_def)

interpretation le: codec "le_bytes n" "\<lambda>bs. Inr (le_val bs)" "fits n" n for n
  by unfold_locales (simp_all add: le_val_le_bytes)

interpretation be: codec "be_bytes n" "\<lambda>bs. Inr (be_val bs)" "fits n" n for n
  by unfold_locales (simp_all add: be_val_be_bytes)

end
