(* ===== verification/JsBuffer.thy ===== *)
theory JsBuffer
  imports Prelude
begin

text \<open>
  Writes to a \<open>Uint8Array\<close> through the array itself and through a \<open>DataView\<close> on it, and
  the cursor programs in which the instruction builders of the SDK are written. The layout
  theorem reduces a cursor program to the concatenation of its fields.
\<close>

section \<open>Single writes\<close>

text \<open>\<open>dst.set(src, off)\<close>: a \<open>RangeError\<close> when the source does not fit behind the offset.\<close>

definition js_set :: "bytes \<Rightarrow> bytes \<Rightarrow> nat \<Rightarrow> bytes result" where
  "js_set dst src off =
     (if off + length src \<le> length dst
      then Inr (take off dst @ src @ drop (off + length src) dst)
      else Inl RangeError)"

text \<open>
  \<open>view.setUint16/32(off, v, true)\<close> and \<open>view.setBigUint64(off, v, true)\<close>: the low
  \<open>n\<close> bytes of the value, least significant first.
\<close>

definition view_set_le :: "nat \<Rightarrow> bytes \<Rightarrow> nat \<Rightarrow> int \<Rightarrow> bytes result" where
  "view_set_le n buf off v = js_set buf (le_bytes n v) off"

text \<open>\<open>view.getUint32(off, true)\<close> and its kin.\<close>

definition view_get_le :: "nat \<Rightarrow> bytes \<Rightarrow> nat \<Rightarrow> int result" where
  "view_get_le n buf off =
     (if off + n \<le> length buf then Inr (le_val (js_slice buf off (off + n))) else Inl RangeError)"

text \<open>\<open>buf[i] = v\<close>: the value modulo 256, and nothing at all beyond the end.\<close>

definition js_put :: "bytes \<Rightarrow> nat \<Rightarrow> int \<Rightarrow> bytes" where
  "js_put buf i v = buf[i := word_of_int v]"

lemma js_set_length: "js_set dst src off = Inr d \<Longrightarrow> length d = length dst"
  by (auto simp: js_set_def split: if_splits)

lemma js_set_mid:
  "length src \<le> m \<Longrightarrow>
   js_set (pre @ replicate m 0) src (length pre) = Inr ((pre @ src) @ replicate (m - length src) 0)"
  by (simp add: js_set_def)

lemma view_get_le_field:
  "length bs = n \<Longrightarrow> view_get_le n (pre @ bs @ post) (length pre) = Inr (le_val bs)"
  by (simp add: view_get_le_def js_slice_def)

section \<open>Cursor programs\<close>

text \<open>
  One statement of a builder that keeps a running \<open>offset\<close>:
  \<^item> \<open>PutByte v\<close> is \<open>data[offset++] = v\<close>;
  \<^item> \<open>PutBytes src n\<close> is \<open>data.set(src, offset); offset += n\<close>, where the step \<open>n\<close> is the
    one written in the source, not the length of \<open>src\<close>;
  \<^item> \<open>PutLE n v\<close> is a \<open>DataView\<close> store of \<open>n\<close> bytes at \<open>offset\<close>, which then advances by \<open>n\<close>.
\<close>

datatype wop =
    PutByte int
  | PutBytes bytes nat
  | PutLE nat int

fun exec1 :: "wop \<Rightarrow> nat \<times> bytes \<Rightarrow> (nat \<times> bytes) result" where
  "exec1 (PutByte v) (off, d) = Inr (Suc off, js_put d off v)"
| "exec1 (PutBytes src n) (off, d) = js_bind (js_set d src off) (\<lambda>d'. Inr (off + n, d'))"
| "exec1 (PutLE n v) (off, d) = js_bind (view_set_le n d off v) (\<lambda>d'. Inr (off + n, d'))"

definition exec :: "wop list \<Rightarrow> nat \<times> bytes \<Rightarrow> (nat \<times> bytes) result" where
  "exec ops s = js_fold exec1 ops s"

text \<open>A builder: allocate a zeroed array of the given size, run the statements, return the array.\<close>

definition build :: "nat \<Rightarrow> wop list \<Rightarrow> bytes result" where
  "build sz ops = js_bind (exec ops (0, replicate sz 0)) (\<lambda>(off, d). Inr d)"

text \<open>The field a statement leaves behind, and when it stays within its own step.\<close>

fun wop_width :: "wop \<Rightarrow> nat" where
  "wop_width (PutByte v) = 1"
| "wop_width (PutBytes src n) = n"
| "wop_width (PutLE n v) = n"

fun wop_field :: "wop \<Rightarrow> bytes" where
  "wop_field (PutByte v) = [word_of_int v]"
| "wop_field (PutBytes src n) = src @ replicate (n - length src) 0"
| "wop_field (PutLE n v) = le_bytes n v"

fun wop_fits :: "wop \<Rightarrow> bool" where
  "wop_fits (PutBytes src n) \<longleftrightarrow> length src \<le> n"
| "wop_fits _ \<longleftrightarrow> True"

definition wop_total :: "wop list \<Rightarrow> nat" where
  "wop_total ops = sum_list (map wop_width ops)"

definition wop_layout :: "wop list \<Rightarrow> bytes" where
  "wop_layout ops = concat (map wop_field ops)"

named_theorems layout_simps \<open>widths and fields of cursor programs\<close>

lemma wop_total_simps [simp, layout_simps]:
  "wop_total [] = 0"
  "wop_total (op # ops) = wop_width op + wop_total ops"
  "wop_total (ops @ ops') = wop_total ops + wop_total ops'"
  by (simp_all add: wop_total_def)

lemma wop_layout_simps [simp, layout_simps]:
  "wop_layout [] = []"
  "wop_layout (op # ops) = wop_field op @ wop_layout ops"
  "wop_layout (ops @ ops') = wop_layout ops @ wop_layout ops'"
  by (simp_all add: wop_layout_def)

lemma wop_total_map: "(\<And>x. x \<in> set xs \<Longrightarrow> wop_width (f x) = n) \<Longrightarrow> wop_total (map f xs) = length xs * n"
  by (induction xs) simp_all

lemma wop_layout_map: "(\<And>x. x \<in> set xs \<Longrightarrow> wop_field (f x) = g x) \<Longrightarrow> wop_layout (map f xs) = concat (map g xs)"
  by (induction xs) simp_all

lemma length_wop_field: "wop_fits op \<Longrightarrow> length (wop_field op) = wop_width op"
  by (cases op) simp_all

lemma length_wop_layout: "\<forall>op \<in> set ops. wop_fits op \<Longrightarrow> length (wop_layout ops) = wop_total ops"
  by (induction ops) (simp_all add: length_wop_field)

lemma exec1_layout:
  assumes "wop_fits op" "wop_width op \<le> m"
  shows "exec1 op (length pre, pre @ replicate m 0) =
    Inr (length (pre @ wop_field op), (pre @ wop_field op) @ replicate (m - wop_width op) 0)"
proof (cases op)
  case (PutByte v)
  with assms obtain k where "m = Suc k" by (cases m) auto
  with PutByte show ?thesis by (simp add: js_put_def list_update_append)
next
  case (PutBytes src n)
  with assms have "replicate (m - length src) (0::byte) =
      replicate (n - length src) 0 @ replicate (m - n) 0"
    by (simp add: replicate_add [symmetric])
  with PutBytes assms show ?thesis by (simp add: js_set_mid)
next
  case (PutLE n v)
  with assms show ?thesis by (simp add: view_set_le_def js_set_mid)
qed

lemma exec_layout:
  assumes "\<forall>op \<in> set ops. wop_fits op" "wop_total ops \<le> m"
  shows "exec ops (length pre, pre @ replicate m 0) =
    Inr (length pre + wop_total ops, pre @ wop_layout ops @ replicate (m - wop_total ops) 0)"
  using assms
proof (induction ops arbitrary: pre m)
  case (Cons op ops)
  then have "exec ops (length (pre @ wop_field op), (pre @ wop_field op) @ replicate (m - wop_width op) 0) =
      Inr (length (pre @ wop_field op) + wop_total ops,
        (pre @ wop_field op) @ wop_layout ops @ replicate (m - wop_width op - wop_total ops) 0)"
    by (intro Cons.IH) simp_all
  moreover have "exec1 op (length pre, pre @ replicate m 0) =
      Inr (length (pre @ wop_field op), (pre @ wop_field op) @ replicate (m - wop_width op) 0)"
    using Cons.prems by (intro exec1_layout) simp_all
  ultimately show ?case
    using Cons.prems by (simp add: exec_def length_wop_field diff_diff_left)
qed (simp add: exec_def)

text \<open>
  The layout theorem: a program whose fields fit their steps and fill the array exactly
  returns the concatenation of its fields.
\<close>

lemma build_layout:
  assumes "\<forall>op \<in> set ops. wop_fits op" "wop_total ops = sz"
  shows "build sz ops = Inr (wop_layout ops)"
  using exec_layout [of ops sz "[]"] assms by (simp add: build_def)

lemma exec1_length: "exec1 op (off, d) = Inr (off', d') \<Longrightarrow> length d' = length d"
  by (cases op) (auto simp: js_put_def js_bind_Inr_iff view_set_le_def dest: js_set_length)

lemma exec_length: "exec ops (off, d) = Inr (off', d') \<Longrightarrow> length d' = length d"
proof (induction ops arbitrary: off d)
  case (Cons op ops)
  then obtain o1 d1 where "exec1 op (off, d) = Inr (o1, d1)" "exec ops (o1, d1) = Inr (off', d')"
    by (auto simp: exec_def js_bind_Inr_iff)
  with Cons.IH [of o1 d1] exec1_length show ?case by force
qed (simp add: exec_def)

text \<open>Whatever a builder is given, the array it returns has the size it allocated.\<close>

lemma build_length: "build sz ops = Inr d \<Longrightarrow> length d = sz"
  by (auto simp: build_def js_bind_Inr_iff dest: exec_length)

text \<open>
  The concatenation loop of the SDK: allocate the total length, then \<open>set\<close> each part at a
  running offset.
\<close>

definition concat_loop :: "bytes list \<Rightarrow> bytes result" where
  "concat_loop parts =
     build (foldl (\<lambda>sum part. sum + length part) 0 parts) (map (\<lambda>part. PutBytes part (length part)) parts)"

lemma foldl_lengths: "foldl (\<lambda>sum part. sum + length part) n parts = n + length (concat parts)"
  by (induction parts arbitrary: n) simp_all

lemma concat_loop_eq: "concat_loop parts = Inr (concat parts)"
proof -
  have "wop_total (map (\<lambda>part. PutBytes part (length part)) parts) = length (concat parts)"
    "wop_layout (map (\<lambda>part. PutBytes part (length part)) parts) = concat parts"
    by (induction parts) simp_all
  then show ?thesis by (simp add: concat_loop_def foldl_lengths build_layout)
qed

end
