(* ===== verification/JsString.thy ===== *)
theory JsString
  imports Prelude
begin

text \<open>
  Numbers as text: \<open>toString(radix)\<close>, \<open>padStart\<close>, \<open>BigInt(string)\<close> and
  \<open>parseInt(string, 16)\<close>, and the hexadecimal helpers of \<open>src/sdk/src/crypto.ts\<close> built
  on them. Strings are Latin-1; the SDK only produces and parses ASCII here.
\<close>

section \<open>Digits\<close>

definition digit_char :: "nat \<Rightarrow> char" where
  "digit_char d = (if d < 10 then char_of (48 + d) else char_of (87 + d))"

definition digit_val :: "char \<Rightarrow> nat option" where
  "digit_val c =
     (let k = (of_char c :: nat) in
      if 48 \<le> k \<and> k \<le> 57 then Some (k - 48)
      else if 97 \<le> k \<and> k \<le> 102 then Some (k - 87)
      else if 65 \<le> k \<and> k \<le> 70 then Some (k - 55)
      else None)"

definition is_ws :: "char \<Rightarrow> bool" where
  "is_ws c \<longleftrightarrow> (of_char c :: nat) \<in> {9, 10, 11, 12, 13, 32, 160}"

function radix_str :: "nat \<Rightarrow> nat \<Rightarrow> string" where
  "radix_str b n =
     (if b < 2 \<or> n < b then [digit_char n] else radix_str b (n div b) @ [digit_char (n mod b)])"
  by pat_completeness auto
termination
  by (relation "measure snd") (auto intro: div_less_dividend)

declare radix_str.simps [simp del]

text \<open>\<open>v.toString(b)\<close>.\<close>

definition js_toString :: "nat \<Rightarrow> int \<Rightarrow> string" where
  "js_toString b v = (if v < 0 then CHR ''-'' # radix_str b (nat (- v)) else radix_str b (nat v))"

text \<open>\<open>s.padStart(n, "0")\<close>.\<close>

definition padStart0 :: "nat \<Rightarrow> string \<Rightarrow> string" where
  "padStart0 n s = replicate (n - length s) (CHR ''0'') @ s"

fun parse_digits :: "nat \<Rightarrow> nat \<Rightarrow> string \<Rightarrow> nat option" where
  "parse_digits b acc [] = Some acc"
| "parse_digits b acc (c # cs) =
     (case digit_val c of
        None \<Rightarrow> None
      | Some d \<Rightarrow> if d < b then parse_digits b (acc * b + d) cs else None)"

definition trim :: "string \<Rightarrow> string" where
  "trim s = rev (dropWhile is_ws (rev (dropWhile is_ws s)))"

definition parse_unsigned :: "nat \<Rightarrow> string \<Rightarrow> int result" where
  "parse_unsigned b s =
     (if s = [] then Inl SyntaxError
      else case parse_digits b 0 s of None \<Rightarrow> Inl SyntaxError | Some n \<Rightarrow> Inr (int n))"

text \<open>
  \<open>BigInt(s)\<close> on a string: surrounding white space is dropped, the empty string is zero, a
  prefixed literal has no sign, a decimal one may have one.
\<close>

definition js_BigInt :: "string \<Rightarrow> int result" where
  "js_BigInt s =
     (let t = trim s in
      if t = [] then Inr 0
      else if take 2 t \<in> {''0x'', ''0X''} then parse_unsigned 16 (drop 2 t)
      else if take 2 t \<in> {''0o'', ''0O''} then parse_unsigned 8 (drop 2 t)
      else if take 2 t \<in> {''0b'', ''0B''} then parse_unsigned 2 (drop 2 t)
      else if hd t = CHR ''-'' then js_bind (parse_unsigned 10 (tl t)) (\<lambda>v. Inr (- v))
      else if hd t = CHR ''+'' then parse_unsigned 10 (tl t)
      else parse_unsigned 10 t)"

text \<open>
  \<open>parseInt(s, 16)\<close>: white space, a sign and a \<open>0x\<close> prefix are skipped, then the longest
  run of hexadecimal digits is read; \<open>None\<close> is \<open>NaN\<close>.
\<close>

definition js_parseInt16 :: "string \<Rightarrow> int option" where
  "js_parseInt16 s =
     (let s1 = dropWhile is_ws s;
          neg = (s1 \<noteq> [] \<and> hd s1 = CHR ''-'');
          s2 = (if s1 \<noteq> [] \<and> hd s1 \<in> {CHR ''-'', CHR ''+''} then tl s1 else s1);
          s3 = (if take 2 s2 \<in> {''0x'', ''0X''} then drop 2 s2 else s2);
          ds = takeWhile (\<lambda>c. digit_val c \<noteq> None) s3
      in if ds = [] then None
         else map_option (\<lambda>n. if neg then - int n else int n) (parse_digits 16 0 ds))"

text \<open>Storing a number in a \<open>Uint8Array\<close>: \<open>NaN\<close> becomes zero.\<close>

definition to_uint8 :: "int option \<Rightarrow> byte" where
  "to_uint8 v = (case v of None \<Rightarrow> 0 | Some n \<Rightarrow> word_of_int n)"

section \<open>Facts about digits\<close>

lemma of_char_digit: "d < 16 \<Longrightarrow> (of_char (digit_char d) :: nat) = (if d < 10 then 48 + d else 87 + d)"
  by (simp add: digit_char_def)

lemma digit_val_char [simp]: "d < 16 \<Longrightarrow> digit_val (digit_char d) = Some d"
  by (auto simp: digit_val_def of_char_digit Let_def)

lemma digit_not_ws [simp]: "d < 16 \<Longrightarrow> \<not> is_ws (digit_char d)"
  by (auto simp: is_ws_def of_char_digit)

lemma digit_char_neq:
  assumes "d < 16"
  shows "digit_char d \<noteq> CHR ''x''" "digit_char d \<noteq> CHR ''X''" "digit_char d \<noteq> CHR ''o''"
    "digit_char d \<noteq> CHR ''O''" "digit_char d \<noteq> CHR ''B''" "digit_char d \<noteq> CHR ''-''" "digit_char d \<noteq> CHR ''+''"
  using assms by (auto dest!: arg_cong [where f = "of_char :: char \<Rightarrow> nat"] simp: of_char_digit split: if_splits)

lemma digit_char_b: "d < 10 \<Longrightarrow> digit_char d \<noteq> CHR ''b''"
  by (auto dest!: arg_cong [where f = "of_char :: char \<Rightarrow> nat"] simp: of_char_digit)

lemma digit_val_0: "digit_val (CHR ''0'') = Some 0"
  by (simp add: digit_val_def)

lemma radix_str_nonempty [simp]: "radix_str b n \<noteq> []"
  by (subst radix_str.simps) simp

lemma radix_str_digits:
  assumes "2 \<le> b"
  shows "\<forall>c \<in> set (radix_str b n). \<exists>d < b. c = digit_char d"
  using assms
proof (induction b n rule: radix_str.induct)
  case (1 b n)
  show ?case
  proof (cases "n < b")
    case True
    with "1.prems" show ?thesis by (subst radix_str.simps) auto
  next
    case False
    have "n mod b < b" using "1.prems" by simp
    then have "\<exists>d<b. digit_char (n mod b) = digit_char d" by blast
    with False "1.prems" "1.IH" show ?thesis by (subst radix_str.simps) auto
  qed
qed

lemma parse_digits_append:
  "parse_digits b acc (xs @ ys) = Option.bind (parse_digits b acc xs) (\<lambda>a. parse_digits b a ys)"
  by (induction xs arbitrary: acc) (simp_all split: option.splits)

lemma parse_radix:
  assumes "2 \<le> b" "b \<le> 16"
  shows "parse_digits b 0 (radix_str b n) = Some n"
  using assms
proof (induction b n rule: radix_str.induct)
  case (1 b n)
  show ?case
  proof (cases "n < b")
    case True
    with 1 show ?thesis by (subst radix_str.simps) simp
  next
    case False
    have "n mod b < 16" using "1.prems" mod_less_divisor [of b n] by linarith
    with False 1 show ?thesis
      by (subst radix_str.simps) (simp add: parse_digits_append)
  qed
qed

lemma parse_padded: "2 \<le> b \<Longrightarrow> parse_digits b 0 (padStart0 n s) = parse_digits b 0 s"
proof -
  assume "2 \<le> b"
  then have "parse_digits b 0 (replicate k (CHR ''0'')) = Some 0" for k
    by (induction k) (simp_all add: digit_val_0)
  then show ?thesis by (simp add: padStart0_def parse_digits_append)
qed

lemma trim_id: "\<forall>c \<in> set s. \<not> is_ws c \<Longrightarrow> trim s = s"
proof -
  assume a: "\<forall>c \<in> set s. \<not> is_ws c"
  then have "dropWhile is_ws s = s" by (simp add: dropWhile_eq_self_iff)
  moreover from a have "dropWhile is_ws (rev s) = rev s"
    by (cases "s = []") (simp_all add: dropWhile_eq_self_iff hd_rev)
  ultimately show ?thesis by (simp add: trim_def)
qed

lemma not_ws_lits [simp]: "\<not> is_ws (CHR ''0'')" "\<not> is_ws (CHR ''x'')" "\<not> is_ws (CHR ''-'')"
  by (simp_all add: is_ws_def)

lemma radix_no_ws: "2 \<le> b \<Longrightarrow> b \<le> 16 \<Longrightarrow> c \<in> set (radix_str b n) \<Longrightarrow> \<not> is_ws c"
  using radix_str_digits [of b n] by force

section \<open>Round trips\<close>

text \<open>The padded hexadecimal form that keys the commitment map: \<open>v.toString(16).padStart(64, "0")\<close>.\<close>

definition hexKey :: "int \<Rightarrow> string" where
  "hexKey v = padStart0 64 (js_toString 16 v)"

lemma parse_hexKey: "0 \<le> v \<Longrightarrow> parse_unsigned 16 (hexKey v) = Inr v"
  by (simp add: parse_unsigned_def hexKey_def parse_padded js_toString_def parse_radix padStart0_def)
     (simp add: parse_padded [unfolded padStart0_def] parse_radix)

lemma hexKey_inject: "0 \<le> v \<Longrightarrow> 0 \<le> w \<Longrightarrow> hexKey v = hexKey w \<longleftrightarrow> v = w"
  by (metis Inr_inject parse_hexKey)

lemma hexKey_no_ws: "0 \<le> v \<Longrightarrow> c \<in> set (hexKey v) \<Longrightarrow> \<not> is_ws c"
  using radix_no_ws [of 16 c "nat v"] by (auto simp: hexKey_def padStart0_def js_toString_def)

lemma hexKey_no_0x: "0 \<le> v \<Longrightarrow> take 2 (hexKey v) \<noteq> ''0x''"
proof
  assume v: "0 \<le> v" and "take 2 (hexKey v) = ''0x''"
  then have "CHR ''x'' \<in> set (hexKey v)" by (metis in_set_takeD list.set_intros)
  then have "CHR ''x'' \<in> set (radix_str 16 (nat v))" using v by (auto simp: hexKey_def padStart0_def js_toString_def)
  then show False using radix_str_digits [of 16 "nat v"] digit_char_neq by fastforce
qed

lemma BigInt_hexKey: "0 \<le> v \<Longrightarrow> js_BigInt (''0x'' @ hexKey v) = Inr v"
proof -
  assume v: "0 \<le> v"
  have "trim (''0x'' @ hexKey v) = ''0x'' @ hexKey v"
    using hexKey_no_ws [OF v] by (intro trim_id) auto
  with v show ?thesis by (simp add: js_BigInt_def Let_def parse_hexKey)
qed

lemma parse_unsigned_radix: "2 \<le> b \<Longrightarrow> b \<le> 16 \<Longrightarrow> parse_unsigned b (radix_str b n) = Inr (int n)"
  by (simp add: parse_unsigned_def parse_radix)

lemma radix_str_head: "2 \<le> b \<Longrightarrow> \<exists>d < b. \<exists>ds. radix_str b n = digit_char d # ds \<and> set ds \<subseteq> digit_char ` {..<b}"
proof -
  assume "2 \<le> b"
  then have "\<forall>c \<in> set (radix_str b n). \<exists>d < b. c = digit_char d" by (rule radix_str_digits)
  moreover obtain c cs where "radix_str b n = c # cs"
    using radix_str_nonempty by (meson neq_Nil_conv)
  ultimately show ?thesis by fastforce
qed

lemma BigInt_toString10: "js_BigInt (js_toString 10 v) = Inr v"
proof -
  obtain d ds where r: "radix_str 10 (nat \<bar>v\<bar>) = digit_char d # ds" "d < 10" "set ds \<subseteq> digit_char ` {..<10}"
    using radix_str_head [of 10 "nat \<bar>v\<bar>"] by auto
  have p: "parse_unsigned 10 (radix_str 10 (nat \<bar>v\<bar>)) = Inr \<bar>v\<bar>"
    by (simp add: parse_unsigned_radix)
  have ws: "\<forall>c \<in> set (js_toString 10 v). \<not> is_ws c"
    using radix_no_ws [of 10] by (auto simp: js_toString_def)
  have pre: "take 2 (digit_char d # ds) \<notin> {''0x'', ''0X'', ''0o'', ''0O'', ''0b'', ''0B''}"
    using r(3) digit_char_neq digit_char_b by (cases ds) auto
  show ?thesis
  proof (cases "v < 0")
    case True
    then have "js_toString 10 v = CHR ''-'' # digit_char d # ds"
      using r(1) by (simp add: js_toString_def)
    moreover have "take 2 (CHR ''-'' # digit_char d # ds) = [CHR ''-'', digit_char d]" by simp
    ultimately show ?thesis
      using True p r(1) ws by (simp add: js_BigInt_def Let_def trim_id)
  next
    case False
    then have "js_toString 10 v = digit_char d # ds"
      using r(1) by (simp add: js_toString_def)
    with False p r pre ws digit_char_neq [of d] show ?thesis
      by (auto simp add: js_BigInt_def Let_def trim_id)
  qed
qed

section \<open>Hexadecimal strings\<close>

text \<open>\<open>bytesToHex\<close> of \<open>crypto.ts\<close>.\<close>

definition bytesToHex :: "bytes \<Rightarrow> string" where
  "bytesToHex bs = concat (map (\<lambda>b. padStart0 2 (js_toString 16 (uint b))) bs)"

text \<open>
  \<open>hexToBytes\<close> of \<open>crypto.ts\<close>. The array has \<open>cleanHex.length / 2\<close> elements, rounded
  down; on an odd length the last store of the loop is out of range and ignored.
\<close>

definition clean_hex :: "string \<Rightarrow> string" where
  "clean_hex hex = (if take 2 hex = ''0x'' then drop 2 hex else hex)"

definition hexToBytes :: "string \<Rightarrow> bytes" where
  "hexToBytes hex =
     (let cleanHex = clean_hex hex in
      map (\<lambda>i. to_uint8 (js_parseInt16 (take 2 (drop (2 * i) cleanHex)))) [0..<length cleanHex div 2])"

lemma pad2_byte:
  "padStart0 2 (js_toString 16 (uint (b::byte))) = [digit_char (unat b div 16), digit_char (unat b mod 16)]"
proof -
  have *: "nat (uint b) = unat b" by simp
  have "unat b div 16 < 16" using unat_byte [of b] by (simp add: less_mult_imp_div_less)
  moreover have "digit_char 0 = CHR ''0''"
    using of_char_digit [of 0] by (subst of_char_eq_iff [where 'a = nat, symmetric]) simp
  ultimately show ?thesis
    by (cases "unat b < 16")
       (simp_all add: js_toString_def * padStart0_def radix_str.simps [of 16 "unat b"]
          radix_str.simps [of 16 "unat b div 16"])
qed

lemma parseInt16_two_digits:
  assumes "h < 16" "l < 16"
  shows "js_parseInt16 [digit_char h, digit_char l] = Some (int (16 * h + l))"
  using assms digit_char_neq [of h] digit_char_neq [of l]
  by (simp add: js_parseInt16_def Let_def)

lemma hex_pair_byte: "to_uint8 (js_parseInt16 [digit_char (unat b div 16), digit_char (unat b mod 16)]) = (b::byte)"
proof -
  have "unat b div 16 < 16" using unat_byte [of b] by (simp add: less_mult_imp_div_less)
  then have "js_parseInt16 [digit_char (unat b div 16), digit_char (unat b mod 16)] = Some (int (unat b))"
    by (subst parseInt16_two_digits) simp_all
  then show ?thesis by (simp add: to_uint8_def)
qed

lemma bytesToHex_simps [simp]:
  "bytesToHex [] = []"
  "bytesToHex (b # bs) = digit_char (unat b div 16) # digit_char (unat b mod 16) # bytesToHex bs"
  by (simp_all add: bytesToHex_def pad2_byte)

lemma length_bytesToHex [simp]: "length (bytesToHex bs) = 2 * length bs"
  by (induction bs) simp_all

lemma clean_bytesToHex: "clean_hex (bytesToHex bs) = bytesToHex bs"
  by (cases bs) (auto simp: clean_hex_def digit_char_neq)

lemma take_drop_bytesToHex:
  "i < length bs \<Longrightarrow>
   take 2 (drop (2 * i) (bytesToHex bs)) = [digit_char (unat (bs ! i) div 16), digit_char (unat (bs ! i) mod 16)]"
proof (induction bs arbitrary: i)
  case (Cons b bs)
  then show ?case by (cases i) simp_all
qed simp

lemma hexToBytes_bytesToHex: "hexToBytes (bytesToHex bs) = bs"
proof -
  have "hexToBytes (bytesToHex bs) = map (\<lambda>i. bs ! i) [0..<length bs]"
    by (simp add: hexToBytes_def clean_bytesToHex Let_def take_drop_bytesToHex hex_pair_byte)
  then show ?thesis by (simp add: map_nth)
qed

end
