(* ===== verification/Crypto.thy ===== *)
theory Crypto
  imports JsBuffer JsString
begin

text \<open>
  The conversions of \<open>src/sdk/src/crypto.ts\<close> and the hashes of \<open>src/sdk/src/poseidon.ts\<close>.

  Poseidon is the package \<open>poseidon-lite\<close> and SHA-256 is \<open>@noble/hashes\<close>; neither is part
  of the repository. They are parameters of the model: \<open>P n xs\<close> is \<open>poseidon<n>(xs)\<close> and
  \<open>H bs\<close> is \<open>sha256(bs)\<close>.
\<close>

type_synonym poseidon = "nat \<Rightarrow> int list \<Rightarrow> int"
type_synonym sha = "bytes \<Rightarrow> bytes"

text \<open>Documented behaviour of SHA-256: the digest has 32 bytes.\<close>

definition sha_ok :: "sha \<Rightarrow> bool" where
  "sha_ok H \<longleftrightarrow> (\<forall>bs. length (H bs) = 32)"

definition BN254_FIELD_PRIME :: int where
  "BN254_FIELD_PRIME =
     21888242871839275222246405745257275088548364400416034343698204186575808495617"

definition BN254_SCALAR_FIELD :: int where
  "BN254_SCALAR_FIELD =
     21888242871839275222246405745257275088548364400416034343698204186575808495617"

definition BABYJUB_ORDER :: int where
  "BABYJUB_ORDER =
     2736030358979909402780800718157159386076813972158567259200215660948447373041"

section \<open>Byte conversions\<close>

definition bigintToBytes :: "int \<Rightarrow> bytes" where
  "bigintToBytes value = snd (store_be 32 value (replicate 32 0))"

definition bytesToBigint :: "bytes \<Rightarrow> int" where
  "bytesToBigint bs = shift_in bs"

text \<open>\<open>n % p\<close> on \<open>bigint\<close> takes the sign of \<open>n\<close>; \<open>mod\<close> then adds \<open>p\<close> to a negative rest.\<close>

definition bigint_rem :: "int \<Rightarrow> int \<Rightarrow> int" where
  "bigint_rem n p = (if n < 0 then - ((- n) mod \<bar>p\<bar>) else n mod \<bar>p\<bar>)"

definition bigint_mod :: "int \<Rightarrow> int \<Rightarrow> int" where
  "bigint_mod n p = (let result = bigint_rem n p in if result \<ge> 0 then result else result + p)"

text \<open>\<open>randomFieldElement\<close>; the 32 random bytes are an argument.\<close>

definition randomFieldElement :: "bytes \<Rightarrow> int" where
  "randomFieldElement rnd = bigint_rem (bytesToBigint rnd) BN254_FIELD_PRIME"

definition scalarFromBytes :: "bytes \<Rightarrow> int" where
  "scalarFromBytes bs = bigint_mod (shift_in bs) BABYJUB_ORDER"

definition scalarToBytes :: "int \<Rightarrow> bytes" where
  "scalarToBytes scalar = snd (store_be 32 (bigint_mod scalar BABYJUB_ORDER) (replicate 32 0))"

definition sha256Hash :: "sha \<Rightarrow> bytes \<Rightarrow> bytes" where
  "sha256Hash H bs = H bs"

definition doubleSha256 :: "sha \<Rightarrow> bytes \<Rightarrow> bytes" where
  "doubleSha256 H bs = H (H bs)"

text \<open>\<open>TextEncoder.encode\<close> on ASCII text: one byte per character.\<close>

definition text_encode :: "string \<Rightarrow> bytes" where
  "text_encode s = map (\<lambda>c. word_of_nat (of_char c)) s"

definition taggedHash :: "sha \<Rightarrow> string \<Rightarrow> bytes \<Rightarrow> bytes result" where
  "taggedHash H tag bs =
     (let tagHash = H (text_encode tag);
          combined = replicate (64 + length bs) 0
      in js_bind (js_set combined tagHash 0) (\<lambda>c1.
         js_bind (js_set c1 tagHash 32) (\<lambda>c2.
         js_bind (js_set c2 bs 64) (\<lambda>c3. Inr (H c3)))))"

section \<open>Poseidon\<close>

definition poseidonHashSync :: "poseidon \<Rightarrow> int list \<Rightarrow> int result" where
  "poseidonHashSync P inputs =
     (let n = length inputs in
      if n < 1 \<or> n > 16 then Inl (Error ''Poseidon: unsupported input count'') else Inr (P n inputs))"

text \<open>
  The fixed-arity helpers call \<open>poseidonHashSync\<close> with an array literal of one to three
  elements, for which it never throws; they return its value.
\<close>

definition poseidon_fixed :: "poseidon \<Rightarrow> int list \<Rightarrow> int" where
  "poseidon_fixed P inputs = (case poseidonHashSync P inputs of Inl e \<Rightarrow> 0 | Inr h \<Rightarrow> h)"

definition computeUnifiedCommitmentSync :: "poseidon \<Rightarrow> int \<Rightarrow> int \<Rightarrow> int" where
  "computeUnifiedCommitmentSync P pubKeyX amount = poseidon_fixed P [pubKeyX, amount]"

definition computeNullifierSync :: "poseidon \<Rightarrow> int \<Rightarrow> int \<Rightarrow> int" where
  "computeNullifierSync P privKey leafIndex = poseidon_fixed P [privKey, leafIndex]"

definition hashNullifierSync :: "poseidon \<Rightarrow> int \<Rightarrow> int" where
  "hashNullifierSync P nullifier = poseidon_fixed P [nullifier]"

definition computeMPKSync :: "poseidon \<Rightarrow> int \<Rightarrow> int \<Rightarrow> int \<Rightarrow> int" where
  "computeMPKSync P pkX pkY nullifyingKey = poseidon_fixed P [pkX, pkY, nullifyingKey]"

definition computeNPKSync :: "poseidon \<Rightarrow> int \<Rightarrow> int \<Rightarrow> int" where
  "computeNPKSync P mpk random = poseidon_fixed P [mpk, random]"

definition computeJoinSplitCommitmentSync :: "poseidon \<Rightarrow> int \<Rightarrow> int \<Rightarrow> int \<Rightarrow> int" where
  "computeJoinSplitCommitmentSync P npk token amount = poseidon_fixed P [npk, token, amount]"

definition computeJoinSplitNullifierSync :: "poseidon \<Rightarrow> int \<Rightarrow> int \<Rightarrow> int" where
  "computeJoinSplitNullifierSync P nullifyingKey leafIndex = poseidon_fixed P [nullifyingKey, leafIndex]"

definition reduceToField :: "bytes \<Rightarrow> int" where
  "reduceToField bs = bigint_rem (shift_in bs) BN254_SCALAR_FIELD"

definition computeTokenId :: "poseidon \<Rightarrow> bytes \<Rightarrow> int" where
  "computeTokenId P mintBytes = poseidon_fixed P [reduceToField mintBytes, 0]"

section \<open>Facts\<close>

lemma poseidon_fixed_eq: "xs \<noteq> [] \<Longrightarrow> length xs \<le> 16 \<Longrightarrow> poseidon_fixed P xs = P (length xs) xs"
  by (cases xs) (simp_all add: poseidon_fixed_def poseidonHashSync_def Let_def)

lemma bigintToBytes_eq [codec_simps]: "bigintToBytes v = be_bytes 32 v"
  by (simp add: bigintToBytes_def store_be_eq)

lemma bytesToBigint_eq [codec_simps]: "bytesToBigint bs = be_val bs"
  by (simp add: bytesToBigint_def shift_in_be_val)

lemma length_bigintToBytes [simp]: "length (bigintToBytes v) = 32"
  by (simp add: bigintToBytes_eq)

lemma bigint_mod_eq: "p > 0 \<Longrightarrow> bigint_mod n p = n mod p"
proof (cases "n < 0")
  case True
  assume p: "p > 0"
  then have r: "bigint_rem n p = - ((- n) mod p)" using True by (simp add: bigint_rem_def)
  show ?thesis
  proof (cases "(- n) mod p = 0")
    case True
    then have "n mod p = 0" by (simp add: mod_eq_0_iff_dvd)
    with r True show ?thesis by (simp add: bigint_mod_def)
  next
    case False
    with p have "(- n) mod p > 0" by (simp add: pos_mod_sign order_less_le)
    moreover have "n mod p = p - (- n) mod p"
      using False p zmod_zminus1_eq_if [of "- n" p] by simp
    ultimately show ?thesis using r by (simp add: bigint_mod_def)
  qed
qed (simp add: bigint_mod_def bigint_rem_def)

lemma bigint_rem_nonneg: "0 \<le> n \<Longrightarrow> p > 0 \<Longrightarrow> bigint_rem n p = n mod p"
  by (simp add: bigint_rem_def)

lemma field_prime_pos: "0 < BN254_FIELD_PRIME" "BN254_FIELD_PRIME < 256 ^ 32"
  by (simp_all add: BN254_FIELD_PRIME_def)

lemma order_pos: "0 < BABYJUB_ORDER" "BABYJUB_ORDER < 256 ^ 32"
  by (simp_all add: BABYJUB_ORDER_def)

interpretation fe: codec bigintToBytes "\<lambda>bs. Inr (bytesToBigint bs)" "fits 32" 32
  by unfold_locales (simp_all only: bigintToBytes_eq bytesToBigint_eq be_val_be_bytes length_be_bytes fits_mod)

end
