(* ===== verification/Onchain_Field.thy ===== *)
theory Onchain_Field
  imports Crypto
begin

text \<open>
  The field arithmetic of the on-chain program, \<open>contracts/programs/utxopia/src/utils/crypto.rs\<close>,
  on big-endian byte arrays: the comparison with the modulus of BN254, its subtraction with
  borrow, the two reductions, and the hashes built on the Poseidon system call. An array of
  type \<open>[u8; 32]\<close> is a list of 32 bytes.

  The system call \<open>solana_poseidon::hashv\<close> is not part of the repository: it is the parameter
  \<open>hashv\<close>.
\<close>

section \<open>Definitions\<close>

datatype program_error =
    InvalidAccountData
  | InvalidArgument
  | InvalidInstructionData
  | NotEnoughAccountKeys
  | MissingRequiredSignature
  | InvalidSeeds
  | IncorrectProgramId
  | PoolPaused
  | InvalidAccountOwner
  | AccountNotWritable
  | InvalidMerkleProof
  | NullifierAlreadyUsed
  | InvalidBtcAddress
  | InvalidBoundParams
  | InvalidVkRegistry
  | ProofRejected
  | CreateAccountFailed
  | TreeFull
  | InvalidSpvProof
  | InvalidStealthOpReturn
  | AmountTooSmall
  | AmountTooLarge
  | ArithmeticOverflow
  | Panic

type_synonym 'a pres = "program_error + 'a"

type_synonym syscall = "bytes list \<Rightarrow> bytes option"

definition BN254_FR_MODULUS :: bytes where
  "BN254_FR_MODULUS =
     [0x30, 0x64, 0x4e, 0x72, 0xe1, 0x31, 0xa0, 0x29,
      0xb8, 0x50, 0x45, 0xb6, 0x81, 0x81, 0x58, 0x5d,
      0x28, 0x33, 0xe8, 0x48, 0x79, 0xb9, 0x70, 0x91,
      0x43, 0xe1, 0xf5, 0x93, 0xf0, 0x00, 0x00, 0x01]"

fun ge_loop :: "bytes \<Rightarrow> bytes \<Rightarrow> bool" where
  "ge_loop (v # vs) (m # ms) = (if v < m then False else if v > m then True else ge_loop vs ms)"
| "ge_loop _ _ = True"

definition is_ge_modulus :: "bytes \<Rightarrow> bool" where
  "is_ge_modulus val = ge_loop val BN254_FR_MODULUS"

definition reduce_to_field :: "bytes \<Rightarrow> bytes" where
  "reduce_to_field val = (if \<not> is_ge_modulus val then val else val[0 := val ! 0 AND 0x2F])"

text \<open>The loop from the last byte to the first, with the borrow in 16 bits.\<close>

fun subtract_loop :: "16 word \<Rightarrow> bytes \<Rightarrow> bytes \<Rightarrow> bytes" where
  "subtract_loop borrow (v # vs) (m # ms) =
     (let diff = (ucast v :: 16 word) - (ucast m :: 16 word) - borrow in
      (ucast diff :: byte) # subtract_loop (if diff > 0xFF then 1 else 0) vs ms)"
| "subtract_loop borrow _ _ = []"

definition subtract_modulus :: "bytes \<Rightarrow> bytes" where
  "subtract_modulus val = rev (subtract_loop 0 (rev val) (rev BN254_FR_MODULUS))"

definition poseidon2_hash :: "syscall \<Rightarrow> bytes \<Rightarrow> bytes \<Rightarrow> bytes pres" where
  "poseidon2_hash hashv left right =
     (case hashv [reduce_to_field left, reduce_to_field right] of
        None \<Rightarrow> Inl InvalidArgument
      | Some h \<Rightarrow> Inr h)"

definition poseidon3_hash :: "syscall \<Rightarrow> bytes \<Rightarrow> bytes \<Rightarrow> bytes \<Rightarrow> bytes pres" where
  "poseidon3_hash hashv a b c =
     (case hashv [reduce_to_field a, reduce_to_field b, reduce_to_field c] of
        None \<Rightarrow> Inl InvalidArgument
      | Some h \<Rightarrow> Inr h)"

text \<open>\<open>buf[a..b].copy_from_slice(src)\<close>: panics unless the range is inside and the lengths agree.\<close>

definition copy_from_slice :: "bytes \<Rightarrow> nat \<Rightarrow> nat \<Rightarrow> bytes \<Rightarrow> bytes pres" where
  "copy_from_slice buf a b src =
     (if a \<le> b \<and> b \<le> length buf \<and> length src = b - a then Inr (take a buf @ src @ drop b buf) else Inl Panic)"

section \<open>The comparison and the subtraction\<close>

lemma length_modulus [simp]: "length BN254_FR_MODULUS = 32"
  by (simp add: BN254_FR_MODULUS_def)

lemma modulus_val: "be_val BN254_FR_MODULUS = BN254_SCALAR_FIELD"
  by (simp add: BN254_FR_MODULUS_def be_val_def BN254_SCALAR_FIELD_def)

lemma scalar_field_pos: "0 < BN254_SCALAR_FIELD" "BN254_SCALAR_FIELD < 256 ^ 32"
  by (simp_all add: BN254_SCALAR_FIELD_def)

lemma be_val_less:
  assumes "length vs = length ms" "v < (m :: byte)"
  shows "be_val (v # vs) < be_val (m # ms)"
proof -
  have "uint v + 1 \<le> uint m" using assms(2) by (simp add: word_less_def)
  then have "(uint v + 1) * 256 ^ length vs \<le> uint m * 256 ^ length vs" by (intro mult_right_mono) auto
  moreover have "0 \<le> be_val ms" "be_val vs < 256 ^ length vs" by (simp, rule be_val_bound)
  ultimately show ?thesis
    unfolding be_val_Cons assms(1) [symmetric] distrib_right by linarith
qed

lemma ge_loop_iff: "length vs = length ms \<Longrightarrow> ge_loop vs ms \<longleftrightarrow> be_val ms \<le> be_val vs"
proof (induction vs ms rule: ge_loop.induct)
  case (1 v vs m ms)
  then show ?case
    using be_val_less [of vs ms v m] be_val_less [of ms vs m v] by (cases "v = m") (auto simp: be_val_Cons)
qed auto

lemma is_ge_modulus_iff: "length val = 32 \<Longrightarrow> is_ge_modulus val \<longleftrightarrow> BN254_SCALAR_FIELD \<le> be_val val"
  by (simp add: is_ge_modulus_def ge_loop_iff modulus_val)

lemma length_subtract_loop: "length vs = length ms \<Longrightarrow> length (subtract_loop b vs ms) = length vs"
  by (induction b vs ms rule: subtract_loop.induct) (simp_all add: Let_def)

lemma borrow_values:
  assumes "- 256 \<le> (d::int)" "d < 0"
  shows "d mod 65536 = d + 65536" "d div 256 = - 1"
proof -
  have "(d + 65536) mod 65536 = d + 65536" by (rule mod_pos_pos_trivial) (use assms in auto)
  then show "d mod 65536 = d + 65536" by (simp only: mod_add_self2)
  have "(d + 256) div 256 = 0" by (rule div_pos_pos_trivial) (use assms in auto)
  then show "d div 256 = - 1" by simp
qed

text \<open>One digit of the subtraction: the byte kept and the borrow carried on.\<close>

lemma subtract_digit:
  fixes v m :: byte and b :: "16 word"
  assumes "b = 0 \<or> b = 1"
  defines "diff \<equiv> (ucast v :: 16 word) - (ucast m :: 16 word) - b"
  shows "uint ((ucast diff :: byte)) = (uint v - uint m - uint b) mod 256"
    and "uint (if diff > 0xFF then 1 else (0 :: 16 word)) = - ((uint v - uint m - uint b) div 256)"
proof -
  let ?d = "uint v - uint m - uint b"
  have "uint b = 0 \<or> uint b = 1" using assms(1) by auto
  then have r: "- 256 \<le> ?d" "?d < 256"
    using byte_range [of v] byte_range [of m] by linarith+
  have b: "uint ((ucast x :: 16 word)) = uint x" for x :: byte by (simp add: uint_up_ucast is_up)
  have u: "uint diff = ?d mod 65536"
    unfolding diff_def uint_word_ariths b by (simp add: mod_simps)
  have "uint ((ucast diff :: byte)) = uint diff mod 256"
    by (simp add: unsigned_ucast_eq take_bit_eq_mod)
  also have "\<dots> = ?d mod 256" by (simp add: u mod_mod_cancel)
  finally show "uint ((ucast diff :: byte)) = ?d mod 256" .
  show "uint (if diff > 0xFF then 1 else (0 :: 16 word)) = - (?d div 256)"
  proof (cases "?d < 0")
    case True
    with r have m: "?d mod 65536 = ?d + 65536" "?d div 256 = - 1" by (simp_all only: borrow_values)
    then show ?thesis using u r by (simp add: word_less_def)
  next
    case False
    with r have m: "?d mod 65536 = ?d" "?d div 256 = 0" by auto
    then show ?thesis using u r by (simp add: word_less_def)
  qed
qed

lemma digit_mod: "0 \<le> r \<Longrightarrow> r < 256 \<Longrightarrow> (256 * q + r) mod (256 * 256 ^ n) = r + 256 * ((q::int) mod 256 ^ n)"
  by (simp add: zmod_zmult2_eq)

lemma subtract_loop_val:
  assumes "length vs = length ms" "b = 0 \<or> b = 1"
  shows "le_val (subtract_loop b vs ms) = (le_val vs - le_val ms - uint b) mod 256 ^ length vs"
  using assms
proof (induction b vs ms rule: subtract_loop.induct)
  case (1 b v vs m ms)
  let ?diff = "(ucast v :: 16 word) - ucast m - b" and ?d = "uint v - uint m - uint b"
  let ?b = "if ?diff > 0xFF then 1 else (0 :: 16 word)"
  note digit = subtract_digit [OF "1.prems"(2), of v m]
  have IH: "le_val (subtract_loop ?b vs ms) = (le_val vs - le_val ms - uint ?b) mod 256 ^ length vs"
    using "1.IH" [OF refl] "1.prems"(1) by simp
  have split: "?d = ?d mod 256 + 256 * (?d div 256)" by simp
  have "le_val (subtract_loop b (v # vs) (m # ms)) =
      ?d mod 256 + 256 * ((le_val vs - le_val ms + ?d div 256) mod 256 ^ length vs)"
    unfolding subtract_loop.simps Let_def le_val.simps IH digit by simp
  also have "\<dots> = (256 * (le_val vs - le_val ms + ?d div 256) + ?d mod 256) mod (256 * 256 ^ length vs)"
    using digit_mod [of "?d mod 256" "le_val vs - le_val ms + ?d div 256" "length vs"] by simp
  also have "256 * (le_val vs - le_val ms + ?d div 256) + ?d mod 256 = le_val (v # vs) - le_val (m # ms) - uint b"
    using split by (simp add: algebra_simps)
  finally show ?case by simp
qed simp_all

lemma length_subtract_modulus: "length val = 32 \<Longrightarrow> length (subtract_modulus val) = 32"
  by (simp add: subtract_modulus_def length_subtract_loop)

lemma subtract_modulus_val:
  assumes "length val = 32" "is_ge_modulus val"
  shows "be_val (subtract_modulus val) = be_val val - BN254_SCALAR_FIELD"
proof -
  have "be_val (subtract_modulus val) = (be_val val - BN254_SCALAR_FIELD) mod 256 ^ 32"
    unfolding modulus_val [symmetric]
    using assms(1) by (simp add: subtract_modulus_def be_val_def subtract_loop_val)
  moreover have "0 \<le> be_val val - BN254_SCALAR_FIELD" using assms by (simp add: is_ge_modulus_iff)
  moreover have "be_val val - BN254_SCALAR_FIELD < 256 ^ 32"
    using be_val_bound [of val] assms(1) scalar_field_pos(1) by simp
  ultimately show ?thesis by simp
qed

text \<open>
  The loop of repeated subtraction. An array of type \<open>[u8; 32]\<close> has 32 bytes; for such an
  array every round decreases the number, so the loop ends.
\<close>

function reduce_to_field_exact :: "bytes \<Rightarrow> bytes" where
  "reduce_to_field_exact result =
     (if length result = 32 \<and> is_ge_modulus result
      then reduce_to_field_exact (subtract_modulus result) else result)"
  by pat_completeness auto
termination
  by (relation "measure (\<lambda>r. nat (be_val r))")
     (auto simp: subtract_modulus_val is_ge_modulus_iff BN254_SCALAR_FIELD_def)

declare reduce_to_field_exact.simps [simp del]

lemma reduce_to_field_exact_eq:
  "length val = 32 \<Longrightarrow> reduce_to_field_exact val = be_bytes 32 (be_val val mod BN254_SCALAR_FIELD)"
proof (induction val rule: reduce_to_field_exact.induct)
  case (1 val)
  show ?case
  proof (cases "is_ge_modulus val")
    case True
    have "(be_val val - BN254_SCALAR_FIELD) mod BN254_SCALAR_FIELD = be_val val mod BN254_SCALAR_FIELD" by simp
    with True 1 show ?thesis
      by (simp add: reduce_to_field_exact.simps [of val] length_subtract_modulus subtract_modulus_val)
  next
    case False
    with 1 have "be_val val mod BN254_SCALAR_FIELD = be_val val" by (simp add: is_ge_modulus_iff)
    with False 1 show ?thesis by (simp add: reduce_to_field_exact.simps [of val] be_bytes_be_val)
  qed
qed

section \<open>The hashes\<close>

definition compute_token_id :: "syscall \<Rightarrow> bytes \<Rightarrow> bytes pres" where
  "compute_token_id hashv mint_bytes = poseidon2_hash hashv (reduce_to_field_exact mint_bytes) (replicate 32 0)"

definition compute_commitment :: "syscall \<Rightarrow> bytes \<Rightarrow> bytes \<Rightarrow> int \<Rightarrow> bytes pres" where
  "compute_commitment hashv npk token_id amount_sats =
     poseidon3_hash hashv npk token_id (replicate 24 0 @ be_bytes 8 amount_sats)"

text \<open>
  What the program relies on of the system call: on arrays below the modulus it returns the
  big-endian bytes of the Poseidon hash the SDK computes, which is a field element.
\<close>

definition in_field :: "int \<Rightarrow> bool" where
  "in_field v \<longleftrightarrow> 0 \<le> v \<and> v < BN254_SCALAR_FIELD"

definition syscall_ok :: "poseidon \<Rightarrow> syscall \<Rightarrow> bool" where
  "syscall_ok P hashv \<longleftrightarrow>
     (\<forall>xs. (xs \<noteq> [] \<and> length xs \<le> 16 \<and> (\<forall>x \<in> set xs. length x = 32 \<and> in_field (be_val x))) \<longrightarrow>
        hashv xs = Some (be_bytes 32 (P (length xs) (map be_val xs)))) \<and>
     (\<forall>n xs. in_field (P n xs))"

lemma in_field_fits: "in_field v \<Longrightarrow> fits 32 v"
  using scalar_field_pos by (simp add: in_field_def fits_def)

lemma be_val_field [simp]: "in_field v \<Longrightarrow> be_val (be_bytes 32 v) = v"
  by (simp only: be_val_be_bytes fits_mod in_field_fits)

lemma reduce_id: "length x = 32 \<Longrightarrow> in_field (be_val x) \<Longrightarrow> reduce_to_field x = x"
  by (simp add: reduce_to_field_def is_ge_modulus_iff in_field_def)

lemma syscall_hash:
  assumes "syscall_ok P hashv" "xs \<noteq> []" "length xs \<le> 16" "\<forall>x \<in> set xs. length x = 32 \<and> in_field (be_val x)"
  shows "hashv xs = Some (be_bytes 32 (P (length xs) (map be_val xs)))"
  using assms unfolding syscall_ok_def by blast

lemma poseidon2_hash_eq:
  assumes "syscall_ok P hashv" "length l = 32" "length r = 32" "in_field (be_val l)" "in_field (be_val r)"
  shows "poseidon2_hash hashv l r = Inr (be_bytes 32 (P 2 [be_val l, be_val r]))"
proof -
  have "hashv [l, r] = Some (be_bytes 32 (P (length [l, r]) (map be_val [l, r])))"
    using assms by (intro syscall_hash) auto
  with assms show ?thesis by (simp add: poseidon2_hash_def reduce_id numeral_2_eq_2)
qed

lemma poseidon3_hash_eq:
  assumes "syscall_ok P hashv" "\<forall>x \<in> {a, b, c}. length x = 32 \<and> in_field (be_val x)"
  shows "poseidon3_hash hashv a b c = Inr (be_bytes 32 (P 3 [be_val a, be_val b, be_val c]))"
proof -
  have "hashv [a, b, c] = Some (be_bytes 32 (P (length [a, b, c]) (map be_val [a, b, c])))"
    using assms by (intro syscall_hash) auto
  with assms show ?thesis by (simp add: poseidon3_hash_def reduce_id numeral_3_eq_3)
qed

end
