(* ===== verification/Merkle_Spec.thy ===== *)
theory Merkle_Spec
  imports Crypto
begin

text \<open>
  The specification side of the commitment tree: the constants of
  \<open>src/sdk/src/commitment-tree.ts\<close>, the value of every node of the complete binary tree over
  a list of leaves, the path check of \<open>src/circuits/circom/lib/merkle.circom\<close>, and the
  interface of an append-only Merkle accumulator, which the index of the SDK and the account
  of the on-chain program both implement.
\<close>

section \<open>Constants\<close>

definition TREE_DEPTH :: nat where
  "TREE_DEPTH = 16"

definition ROOT_HISTORY_SIZE :: nat where
  "ROOT_HISTORY_SIZE = 100"

definition MAX_LEAVES :: int where
  "MAX_LEAVES = push_bit TREE_DEPTH 1"

definition COMMITMENT_TREE_DISCRIMINATOR :: int where
  "COMMITMENT_TREE_DISCRIMINATOR = 0x05"

definition ZERO_HASHES :: "int list" where
  "ZERO_HASHES =
     [0x0000000000000000000000000000000000000000000000000000000000000000,
      0x2098f5fb9e239eab3ceac3f27b81e481dc3124d55ffed523a839ee8446b64864,
      0x1069673dcdb12263df301a6ff584a7ec261a44cb9dc68df067a4774460b1f1e1,
      0x18f43331537ee2af2e3d758d50f72106467c6eea50371dd528d57eb2b856d238,
      0x07f9d837cb17b0d36320ffe93ba52345f1b728571a568265caac97559dbc952a,
      0x2b94cf5e8746b3f5c9631f4c5df32907a699c58c94b2ad4d7b5cec1639183f55,
      0x2dee93c5a666459646ea7d22cca9e1bcfed71e6951b953611d11dda32ea09d78,
      0x078295e5a22b84e982cf601eb639597b8b0515a88cb5ac7fa8a4aabe3c87349d,
      0x2fa5e5f18f6027a6501bec864564472a616b2e274a41211a444cbe3a99f3cc61,
      0x0e884376d0d8fd21ecb780389e941f66e45e7acce3e228ab3e2156a614fcd747,
      0x1b7201da72494f1e28717ad1a52eb469f95892f957713533de6175e5da190af2,
      0x1f8d8822725e36385200c0b201249819a6e6e1e4650808b5bebc6bface7d7636,
      0x2c5d82f66c914bafb9701589ba8cfcfb6162b0a12acf88a8d0879a0471b5f85a,
      0x14c54148a0940bb820957f5adf3fa1134ef5c4aaa113f4646458f270e0bfbfd0,
      0x190d33b12f986f961e10c0ee44d8b9af11be25588cad89d416118e4bf4ebe80c,
      0x22f98aa9ce704152ac17354914ad73ed1167ae6596af510aa5b3649325e06c92,
      0x2a7c7c9b6ce5880b9f6f228d72bf6a575a526f29c66ecceef8b753d38bba7323,
      0x2e8186e558698ec1c67af9c14d463ffc470043c9c2988b954d75dd643f36b992,
      0x0f57c5571e9a4eab49e2c8cf050dae948aef6ead647392273546249d1c1ff10f,
      0x1830ee67b5fb554ad5f63d4388800e1cfe78e310697d46e43c9ce36134f72cca,
      0x2134e76ac5d21aab186c2be1dd8f84ee880a1e46eaf712f9d371b6df22191f3e]"

lemma TREE_DEPTH_16 [simp]: "TREE_DEPTH = 16"
  by (simp add: TREE_DEPTH_def)

lemma MAX_LEAVES_eq: "MAX_LEAVES = 65536"
  by (simp add: MAX_LEAVES_def push_bit_eq_mult)

lemma length_ZERO_HASHES [simp]: "length ZERO_HASHES = 21"
  by (simp add: ZERO_HASHES_def)

lemma zero_hash_0 [simp]: "ZERO_HASHES ! 0 = 0"
  by (simp add: ZERO_HASHES_def)

text \<open>
  What the code relies on of Poseidon: the table holds the hashes of empty subtrees
  (\<open>ZERO[i] = Poseidon(ZERO[i-1], ZERO[i-1])\<close>).
\<close>

definition zero_ok :: "poseidon \<Rightarrow> bool" where
  "zero_ok P \<longleftrightarrow> (\<forall>l < 16. ZERO_HASHES ! Suc l = P 2 [ZERO_HASHES ! l, ZERO_HASHES ! l])"

section \<open>The nodes of the tree\<close>

fun node :: "poseidon \<Rightarrow> int list \<Rightarrow> nat \<Rightarrow> nat \<Rightarrow> int" where
  "node P ls 0 i = (if i < length ls then ls ! i else 0)"
| "node P ls (Suc l) i = P 2 [node P ls l (2 * i), node P ls l (2 * i + 1)]"

definition merkle_root :: "poseidon \<Rightarrow> int list \<Rightarrow> int" where
  "merkle_root P ls = node P ls 16 0"

text \<open>The path check of the circuit: hash the leaf with each sibling, on the side the index bit says.\<close>

fun MerkleProofVerifier :: "poseidon \<Rightarrow> int \<Rightarrow> int list \<Rightarrow> int list \<Rightarrow> int option" where
  "MerkleProofVerifier P h [] [] = Some h"
| "MerkleProofVerifier P h (s # ss) (b # bs) =
     (if b * (1 - b) = 0
      then MerkleProofVerifier P (if b = 0 then P 2 [h, s] else P 2 [s, h]) ss bs
      else None)"
| "MerkleProofVerifier P h _ _ = None"

lemma node_empty:
  assumes "zero_ok P" "l \<le> 16" "length ls \<le> i * 2 ^ l"
  shows "node P ls l i = ZERO_HASHES ! l"
  using assms(2,3)
proof (induction l arbitrary: i)
  case (Suc l)
  then have "length ls \<le> (2 * i) * 2 ^ l" "length ls \<le> (2 * i + 1) * 2 ^ l"
    by (simp_all add: algebra_simps)
  with Suc assms(1) show ?case by (simp add: zero_ok_def)
qed simp

text \<open>A node whose leaves are all present does not change when leaves are appended.\<close>

lemma node_append:
  "(i + 1) * 2 ^ l \<le> length ls \<Longrightarrow> node P (ls @ xs) l i = node P ls l i"
proof (induction l arbitrary: i)
  case (Suc l)
  then have "(2 * i + 1) * 2 ^ l \<le> length ls" "(2 * i + 1 + 1) * 2 ^ l \<le> length ls"
    by (simp_all add: algebra_simps)
  with Suc.IH [of "2 * i"] Suc.IH [of "2 * i + 1"] show ?case by simp
qed (simp add: nth_append)

lemma node_parent:
  "node P ls (Suc l) (k div 2) =
     (if even k then P 2 [node P ls l k, node P ls l (k + 1)] else P 2 [node P ls l (k - 1), node P ls l k])"
  by (auto elim!: oddE)

lemma div_pow_Suc: "i div 2 ^ Suc l = i div 2 ^ l div (2::nat)"
  by (metis div_mult2_eq power_Suc2)

text \<open>The node a path has reached, with its sibling, gives the next node of the path.\<close>

definition sibling :: "nat \<Rightarrow> nat" where
  "sibling k = (if even k then k + 1 else k - 1)"

lemma verify_step:
  "MerkleProofVerifier P (node P ls l k) (node P ls l (sibling k) # ss) (int (k mod 2) # bs) =
   MerkleProofVerifier P (node P ls (Suc l) (k div 2)) ss bs"
  by (simp add: sibling_def node_parent odd_iff_mod_2_eq_one del: node.simps)

lemma verify_nodes:
  "MerkleProofVerifier P (node P ls l (i div 2 ^ l))
     (map (\<lambda>j. node P ls j (sibling (i div 2 ^ j))) [l..<l + k])
     (map (\<lambda>j. int (i div 2 ^ j mod 2)) [l..<l + k]) = Some (node P ls (l + k) (i div 2 ^ (l + k)))"
proof (induction k arbitrary: l)
  case (Suc k)
  have u: "[l..<l + Suc k] = l # [Suc l..<Suc l + k]" by (simp add: upt_conv_Cons del: upt_Suc)
  show ?case
    using Suc.IH [of "Suc l"] unfolding u list.map verify_step div_pow_Suc [of i l, symmetric] by simp
qed simp

section \<open>The accumulator interface\<close>

text \<open>
  An append-only accumulator: \<open>insert\<close> appends the leaf of its argument or fails when the
  capacity is reached, and \<open>root\<close> is a function of the leaves alone. \<open>ok\<close> is what the
  provider relies on of its hash.
\<close>

locale accumulator =
  fixes ok :: bool
    and empty :: "'s"
    and insert :: "'x \<Rightarrow> 's \<Rightarrow> 'e + 's"
    and leaf :: "'x \<Rightarrow> 'a"
    and accept :: "'x \<Rightarrow> bool"
    and contents :: "'s \<Rightarrow> 'a list"
    and root :: "'s \<Rightarrow> 'r"
    and invar :: "'s \<Rightarrow> bool"
    and spec_root :: "'a list \<Rightarrow> 'r"
    and capacity :: nat
  assumes invar_empty: "ok \<Longrightarrow> invar empty"
    and contents_empty: "contents empty = []"
    and insert_room: "ok \<Longrightarrow> invar s \<Longrightarrow> accept x \<Longrightarrow> length (contents s) < capacity \<Longrightarrow>
        \<exists>s'. insert x s = Inr s' \<and> invar s' \<and> contents s' = contents s @ [leaf x]"
    and insert_full: "ok \<Longrightarrow> invar s \<Longrightarrow> \<not> length (contents s) < capacity \<Longrightarrow> \<exists>e. insert x s = Inl e"
    and root_spec: "ok \<Longrightarrow> invar s \<Longrightarrow> root s = spec_root (contents s)"
begin

lemma insert_all:
  assumes "ok" "invar s" "\<forall>x \<in> set xs. accept x" "length (contents s) + length xs \<le> capacity"
  shows "\<exists>s'. js_fold insert xs s = Inr s' \<and> invar s' \<and> contents s' = contents s @ map leaf xs"
  using assms
proof (induction xs arbitrary: s)
  case (Cons x xs)
  then obtain s1 where "insert x s = Inr s1" "invar s1" "contents s1 = contents s @ [leaf x]"
    using insert_room [of s x] by auto
  with Cons.IH [of s1] Cons.prems show ?case by auto
qed simp

theorem build_root:
  assumes "ok" "\<forall>x \<in> set xs. accept x" "length xs \<le> capacity"
  shows "\<exists>s. js_fold insert xs empty = Inr s \<and> invar s \<and> contents s = map leaf xs
           \<and> root s = spec_root (map leaf xs)"
  using insert_all [of empty xs] assms invar_empty contents_empty root_spec by fastforce

theorem build_overflow:
  assumes "ok" "\<forall>x \<in> set xs. accept x" "capacity < length xs"
  shows "\<exists>e. js_fold insert xs empty = Inl e"
proof -
  obtain ys x zs where xs: "xs = ys @ x # zs" "length ys = capacity"
    using assms(3) by (metis id_take_nth_drop length_take min.absorb4)
  then obtain s where "js_fold insert ys empty = Inr s" "invar s" "contents s = map leaf ys"
    using insert_all [of empty ys] assms invar_empty contents_empty by auto
  with xs insert_full [of s x] assms(1) show ?thesis by (auto simp: js_fold_append)
qed

end

end
