(* ===== verification/Commitment_Tree.thy ===== *)
theory Commitment_Tree
  imports Merkle_Spec
begin

text \<open>
  The commitment tree client of \<open>src/sdk/src/commitment-tree.ts\<close>: the parser of the
  on-chain account, the class \<open>CommitmentTreeIndex\<close> with every method that reads or changes
  its state, persistence, and the functions that build an index from indexer data.

  Methods take the object as a record and return the changed record beside their result;
  \<open>async\<close> functions are modelled as the value their promise settles with.
\<close>

section \<open>On-chain state\<close>

record CommitmentTreeState =
  cts_discriminator :: int
  cts_bump :: int
  cts_currentRoot :: bytes
  cts_nextIndex :: int
  cts_frontier :: "bytes list"
  cts_rootHistory :: "bytes list"
  cts_rootHistoryIndex :: int

definition bytesToBigintLE :: "bytes \<Rightarrow> int" where
  "bytesToBigintLE bs = shift_in (rev bs)"

text \<open>\<open>n\<close> slices of 32 bytes, from \<open>offset\<close> on; the offset advances by 32 each time.\<close>

fun read_slices :: "nat \<Rightarrow> nat \<Rightarrow> bytes \<Rightarrow> bytes list" where
  "read_slices 0 offset bs = []"
| "read_slices (Suc n) offset bs = js_slice bs offset (offset + 32) # read_slices n (offset + 32) bs"

text \<open>\<open>x << k\<close> on numbers: a 32-bit signed result.\<close>

definition js_shl32 :: "int \<Rightarrow> nat \<Rightarrow> int" where
  "js_shl32 x k = signed_take_bit 31 (push_bit k x)"

definition parseCommitmentTreeData :: "bytes \<Rightarrow> CommitmentTreeState result" where
  "parseCommitmentTreeData bs =
     (let EXPECTED_MIN_SIZE = 8 + 32 + 8 + TREE_DEPTH * 32 + ROOT_HISTORY_SIZE * 32 + 4 + 60 in
      if length bs < EXPECTED_MIN_SIZE then Inl (Error ''Invalid commitment tree data length'')
      else if uint (bs ! 0) \<noteq> COMMITMENT_TREE_DISCRIMINATOR
      then Inl (Error ''Invalid commitment tree discriminator'')
      else
        (let offset1 = 48 + TREE_DEPTH * 32; offset2 = offset1 + ROOT_HISTORY_SIZE * 32 in
         Inr \<lparr> cts_discriminator = uint (bs ! 0),
               cts_bump = uint (bs ! 1),
               cts_currentRoot = js_slice bs 8 40,
               cts_nextIndex = bytesToBigintLE (js_slice bs 40 48),
               cts_frontier = read_slices TREE_DEPTH 48 bs,
               cts_rootHistory = read_slices ROOT_HISTORY_SIZE offset1 bs,
               cts_rootHistoryIndex =
                 uint (bs ! offset2) OR js_shl32 (uint (bs ! (offset2 + 1))) 8
                 OR js_shl32 (uint (bs ! (offset2 + 2))) 16 OR js_shl32 (uint (bs ! (offset2 + 3))) 24 \<rparr>))"

text \<open>The loop over the indices of \<open>arraysEqual\<close>, with its early exit.\<close>

fun arrays_eq_from :: "nat \<Rightarrow> nat \<Rightarrow> bytes \<Rightarrow> bytes \<Rightarrow> bool" where
  "arrays_eq_from 0 i a b = True"
| "arrays_eq_from (Suc n) i a b = (if a ! i \<noteq> b ! i then False else arrays_eq_from n (Suc i) a b)"

definition arraysEqual :: "bytes \<Rightarrow> bytes \<Rightarrow> bool" where
  "arraysEqual a b = (if length a \<noteq> length b then False else arrays_eq_from (length a) 0 a b)"

definition isValidRoot :: "CommitmentTreeState \<Rightarrow> bytes \<Rightarrow> bool" where
  "isValidRoot state root =
     (if arraysEqual (cts_currentRoot state) root then True
      else \<exists>histRoot \<in> set (cts_rootHistory state). arraysEqual histRoot root)"

text \<open>The module's own conversions, which go through the hexadecimal text.\<close>

definition bigintToBytes32 :: "int \<Rightarrow> bytes" where
  "bigintToBytes32 n =
     (let hex = hexKey n in map (\<lambda>i. to_uint8 (js_parseInt16 (js_slice hex (i * 2) (i * 2 + 2)))) [0..<32])"

definition bytes32ToBigint :: "bytes \<Rightarrow> int result" where
  "bytes32ToBigint bs = js_BigInt (''0x'' @ bytesToHex bs)"

section \<open>The index\<close>

record entry =
  e_index :: int
  e_amount :: int

record CommitmentTreeIndex =
  ct_commitments :: "(string \<times> entry) list"
  ct_leaves :: "int list"
  ct_frontier :: "int list"
  ct_currentRoot :: int
  ct_nextIndex :: int

definition new_CommitmentTreeIndex :: CommitmentTreeIndex where
  "new_CommitmentTreeIndex =
     \<lparr> ct_commitments = [], ct_leaves = [], ct_frontier = replicate TREE_DEPTH 0,
       ct_currentRoot = ZERO_HASHES ! TREE_DEPTH, ct_nextIndex = 0 \<rparr>"

text \<open>
  The walk from the leaf to the root of \<open>addCommitment\<close>: the number of levels left, the
  level, the hash and the index at that level, and the frontier.
\<close>

fun insert_path :: "poseidon \<Rightarrow> nat \<Rightarrow> nat \<Rightarrow> int \<Rightarrow> nat \<Rightarrow> int list \<Rightarrow> int \<times> int list" where
  "insert_path P 0 level currentHash currentIndex frontier = (currentHash, frontier)"
| "insert_path P (Suc n) level currentHash currentIndex frontier =
     (if currentIndex mod 2 = 0
      then insert_path P n (Suc level) (poseidon_fixed P [currentHash, ZERO_HASHES ! level])
             (currentIndex div 2) (frontier[level := currentHash])
      else insert_path P n (Suc level) (poseidon_fixed P [frontier ! level, currentHash])
             (currentIndex div 2) frontier)"

definition addCommitment ::
  "poseidon \<Rightarrow> CommitmentTreeIndex \<Rightarrow> int \<Rightarrow> int \<Rightarrow> (int \<times> CommitmentTreeIndex) result" where
  "addCommitment P t commitment amount =
     (let leafIndex = ct_nextIndex t in
      if leafIndex \<ge> MAX_LEAVES then Inl (Error ''Tree is full'')
      else
        (let (currentHash, frontier) = insert_path P TREE_DEPTH 0 commitment (nat leafIndex) (ct_frontier t) in
         Inr (leafIndex,
           t\<lparr> ct_commitments := AList.update (hexKey commitment)
                 \<lparr> e_index = leafIndex, e_amount = amount \<rparr> (ct_commitments t),
              ct_leaves := ct_leaves t @ [commitment],
              ct_frontier := frontier,
              ct_currentRoot := currentHash,
              ct_nextIndex := leafIndex + 1 \<rparr>)))"

text \<open>\<open>currentLevel[i] ?? ZERO_HASHES[level]\<close>.\<close>

definition node_at :: "nat \<Rightarrow> int list \<Rightarrow> nat \<Rightarrow> int" where
  "node_at level currentLevel i = (if i < length currentLevel then currentLevel ! i else ZERO_HASHES ! level)"

definition next_level :: "poseidon \<Rightarrow> nat \<Rightarrow> nat \<Rightarrow> int list \<Rightarrow> int list" where
  "next_level P level neededIdx currentLevel =
     (let numPairs = (length currentLevel + 1) div 2;
          nextLevel = map (\<lambda>i. poseidon_fixed P [node_at level currentLevel (i * 2), node_at level currentLevel (i * 2 + 1)])
                        [0..<numPairs]
      in nextLevel @ replicate (Suc neededIdx - length nextLevel) (ZERO_HASHES ! (level + 1)))"

fun proof_levels :: "poseidon \<Rightarrow> nat \<Rightarrow> nat \<Rightarrow> nat \<Rightarrow> int list \<Rightarrow> int list \<times> int list" where
  "proof_levels P 0 level leafIndex currentLevel = ([], [])"
| "proof_levels P (Suc n) level leafIndex currentLevel =
     (let idx = drop_bit level leafIndex;
          siblingIdx = idx XOR 1;
          sibling = node_at level currentLevel siblingIdx;
          (siblings, indices) = proof_levels P n (Suc level) leafIndex (next_level P level (idx div 2) currentLevel)
      in (sibling # siblings, int (idx AND 1) # indices))"

definition computeMerkleProof :: "poseidon \<Rightarrow> CommitmentTreeIndex \<Rightarrow> nat \<Rightarrow> int list \<times> int list" where
  "computeMerkleProof P t leafIndex =
     (if length (ct_leaves t) = 0
      then (map (\<lambda>level. ZERO_HASHES ! level) [0..<TREE_DEPTH],
            map (\<lambda>level. int (drop_bit level leafIndex AND 1)) [0..<TREE_DEPTH])
      else proof_levels P TREE_DEPTH 0 leafIndex (ct_leaves t))"

record tree_proof =
  tp_siblings :: "int list"
  tp_indices :: "int list"
  tp_leafIndex :: int
  tp_root :: int

definition getMerkleProof :: "poseidon \<Rightarrow> CommitmentTreeIndex \<Rightarrow> int \<Rightarrow> tree_proof option" where
  "getMerkleProof P t commitment =
     (case map_of (ct_commitments t) (hexKey commitment) of
        None \<Rightarrow> None
      | Some e \<Rightarrow>
          (let pr = computeMerkleProof P t (nat (e_index e)) in
           Some \<lparr> tp_siblings = fst pr, tp_indices = snd pr,
                  tp_leafIndex = e_index e, tp_root = ct_currentRoot t \<rparr>))"

definition getCommitment :: "CommitmentTreeIndex \<Rightarrow> string \<Rightarrow> entry option" where
  "getCommitment t commitmentHex = map_of (ct_commitments t) commitmentHex"

definition getRoot :: "CommitmentTreeIndex \<Rightarrow> int" where
  "getRoot t = ct_currentRoot t"

definition getRootBytes :: "CommitmentTreeIndex \<Rightarrow> bytes" where
  "getRootBytes t = bigintToBytes32 (ct_currentRoot t)"

definition tree_size :: "CommitmentTreeIndex \<Rightarrow> nat" where
  "tree_size t = length (ct_leaves t)"

definition getNextIndex :: "CommitmentTreeIndex \<Rightarrow> int" where
  "getNextIndex t = ct_nextIndex t"

definition getStatus :: "CommitmentTreeIndex \<Rightarrow> string \<times> int \<times> nat" where
  "getStatus t = (hexKey (ct_currentRoot t), ct_nextIndex t, length (ct_leaves t))"

record path_response =
  pr_siblings :: "string list"
  pr_indices :: "int list"
  pr_leafIndex :: string
  pr_root :: string

definition getPath :: "poseidon \<Rightarrow> CommitmentTreeIndex \<Rightarrow> string \<Rightarrow> path_response option result" where
  "getPath P t commitmentHex =
     (let normalized = (if take 2 commitmentHex = ''0x'' then drop 2 commitmentHex else commitmentHex) in
      js_bind (js_BigInt (''0x'' @ normalized)) (\<lambda>commitment.
        Inr (case getMerkleProof P t commitment of
               None \<Rightarrow> None
             | Some pr \<Rightarrow> Some \<lparr> pr_siblings = map hexKey (tp_siblings pr), pr_indices = tp_indices pr,
                             pr_leafIndex = js_toString 10 (tp_leafIndex pr), pr_root = hexKey (tp_root pr) \<rparr>)))"

section \<open>Persistence\<close>

type_synonym exported = "(string \<times> string \<times> string) list"

definition export_index :: "CommitmentTreeIndex \<Rightarrow> exported" where
  "export_index t =
     map (\<lambda>(k, v). (k, js_toString 10 (e_index v), js_toString 10 (e_amount v))) (ct_commitments t)"

text \<open>
  The loop of \<open>import\<close>. An exception leaves the object as the entries before it made it, so
  the result is the object and, after a throw, the error.
\<close>

fun import_entries ::
  "poseidon \<Rightarrow> exported \<Rightarrow> CommitmentTreeIndex \<Rightarrow> CommitmentTreeIndex \<times> js_error option" where
  "import_entries P [] t = (t, None)"
| "import_entries P ((hexCommitment, idx, amt) # es) t =
     (case js_BigInt (''0x'' @ hexCommitment) of
        Inl err \<Rightarrow> (t, Some err)
      | Inr commitment \<Rightarrow>
          (case js_BigInt amt of
             Inl err \<Rightarrow> (t, Some err)
           | Inr amount \<Rightarrow>
               (case addCommitment P t commitment amount of
                  Inl err \<Rightarrow> (t, Some err)
                | Inr (i, t') \<Rightarrow> import_entries P es t')))"

text \<open>
  The comparator of the sort parses both indices, so with two entries or more an index that
  does not parse throws after the reset. \<open>Array.prototype.sort\<close> is stable.
\<close>

definition import_key :: "string \<times> string \<times> string \<Rightarrow> int" where
  "import_key e = (case js_BigInt (fst (snd e)) of Inl err \<Rightarrow> 0 | Inr i \<Rightarrow> i)"

definition import_index ::
  "poseidon \<Rightarrow> exported \<Rightarrow> CommitmentTreeIndex \<Rightarrow> CommitmentTreeIndex \<times> js_error option" where
  "import_index P es t =
     (let t0 = t\<lparr> ct_commitments := [], ct_leaves := [], ct_frontier := replicate TREE_DEPTH 0,
                  ct_currentRoot := ZERO_HASHES ! TREE_DEPTH, ct_nextIndex := 0 \<rparr>
      in if length es \<ge> 2 \<and> (\<exists>e \<in> set es. isl (js_BigInt (fst (snd e)))) then (t0, Some SyntaxError)
         else import_entries P (sort_key import_key es) t0)"

definition importFromOnChainState ::
  "CommitmentTreeState \<Rightarrow> CommitmentTreeIndex \<Rightarrow> CommitmentTreeIndex result" where
  "importFromOnChainState state t =
     js_bind (js_mapM bytes32ToBigint (cts_frontier state)) (\<lambda>frontier.
     js_bind (bytes32ToBigint (cts_currentRoot state)) (\<lambda>currentRoot.
       Inr (t\<lparr> ct_commitments := [], ct_leaves := [], ct_nextIndex := cts_nextIndex state,
               ct_frontier := frontier, ct_currentRoot := currentRoot \<rparr>)))"

text \<open>\<open>fetchCommitmentTree\<close>; the account the connection returns is an argument.\<close>

definition fetchCommitmentTree :: "bytes option \<Rightarrow> CommitmentTreeState option result" where
  "fetchCommitmentTree accountInfo =
     (case accountInfo of
        None \<Rightarrow> Inr None
      | Some bs \<Rightarrow> js_bind (parseCommitmentTreeData bs) (\<lambda>s. Inr (Some s)))"

text \<open>
  The module's global instance and the browser's storage. \<open>JSON.stringify\<close> and
  \<open>JSON.parse\<close> are inverse on the exported value, an array of triples of strings, so the
  storage holds the value itself; \<open>None\<close> is an absent item or a platform with no storage.
\<close>

record global_state =
  globalIndex :: "CommitmentTreeIndex option"
  stored_index :: "exported option"
  has_storage :: bool

definition getCommitmentIndex :: "poseidon \<Rightarrow> global_state \<Rightarrow> CommitmentTreeIndex \<times> global_state" where
  "getCommitmentIndex P g =
     (case globalIndex g of
        Some t \<Rightarrow> (t, g)
      | None \<Rightarrow>
          (let t = (case (if has_storage g then stored_index g else None) of
                      None \<Rightarrow> new_CommitmentTreeIndex
                    | Some stored \<Rightarrow> fst (import_index P stored new_CommitmentTreeIndex))
           in (t, g\<lparr> globalIndex := Some t \<rparr>)))"

definition saveCommitmentIndex :: "global_state \<Rightarrow> global_state" where
  "saveCommitmentIndex g =
     (case globalIndex g of
        None \<Rightarrow> g
      | Some t \<Rightarrow> if has_storage g then g\<lparr> stored_index := Some (export_index t) \<rparr> else g)"

section \<open>Building an index from indexer data\<close>

lemma addCommitment_nextIndex: "addCommitment P t c a = Inr (i, t') \<Longrightarrow> ct_nextIndex t' = ct_nextIndex t + 1"
  by (auto simp: addCommitment_def Let_def split: if_splits prod.splits)

text \<open>\<open>while (tree.getNextIndex() < BigInt(leafIndex)) tree.addCommitment(0n, 0n)\<close>.\<close>

function fill_gaps :: "poseidon \<Rightarrow> int \<Rightarrow> CommitmentTreeIndex \<Rightarrow> CommitmentTreeIndex result" where
  "fill_gaps P leafIndex t =
     (if getNextIndex t < leafIndex
      then js_bind (addCommitment P t 0 0) (\<lambda>r. fill_gaps P leafIndex (snd r))
      else Inr t)"
  by pat_completeness auto
termination
proof (relation "measure (\<lambda>(P, leafIndex, t). nat (leafIndex - ct_nextIndex t))")
  fix P leafIndex t x
  assume "getNextIndex t < leafIndex" "addCommitment P t 0 0 = Inr x"
  then show "((P, leafIndex, snd x), P, leafIndex, t) \<in> measure (\<lambda>(P, leafIndex, t). nat (leafIndex - ct_nextIndex t))"
    by (cases x) (auto simp: getNextIndex_def dest: addCommitment_nextIndex)
qed simp

declare fill_gaps.simps [simp del]

definition build_step :: "poseidon \<Rightarrow> int \<times> int \<Rightarrow> CommitmentTreeIndex \<Rightarrow> CommitmentTreeIndex result" where
  "build_step P e t =
     js_bind (fill_gaps P (fst e) t) (\<lambda>t1. js_bind (addCommitment P t1 (snd e) 0) (\<lambda>r. Inr (snd r)))"

record build_options =
  bo_maxLeafIndex :: "int option"
  bo_commitments :: "(int \<times> int) list option"

definition buildCommitmentTreeFromChain :: "poseidon \<Rightarrow> build_options option \<Rightarrow> CommitmentTreeIndex result" where
  "buildCommitmentTreeFromChain P options =
     (let commitmentsByIndex =
            (case Option.bind options bo_commitments of None \<Rightarrow> [] | Some m \<Rightarrow> m);
          sortedEntries = sort_key fst commitmentsByIndex;
          kept = (case Option.bind options bo_maxLeafIndex of
                    None \<Rightarrow> sortedEntries
                  | Some maxIdx \<Rightarrow> rev (dropWhile (\<lambda>e. fst e \<ge> maxIdx) (rev sortedEntries)))
      in js_fold (build_step P) kept new_CommitmentTreeIndex)"

definition getLeafIndexForCommitment :: "poseidon \<Rightarrow> int \<Rightarrow> int" where
  "getLeafIndexForCommitment P commitment =
     (case buildCommitmentTreeFromChain P None of
        Inl err \<Rightarrow> - 1
      | Inr tree \<Rightarrow> (case getMerkleProof P tree commitment of None \<Rightarrow> - 1 | Some pr \<Rightarrow> tp_leafIndex pr))"

record OnChainMerkleProof =
  oc_siblings :: "int list"
  oc_indices :: "int list"
  oc_leafIndex :: int
  oc_root :: int
  oc_commitment :: int

definition getMerkleProofFromTree :: "poseidon \<Rightarrow> CommitmentTreeIndex \<Rightarrow> int \<Rightarrow> OnChainMerkleProof option" where
  "getMerkleProofFromTree P tree commitment =
     (case getMerkleProof P tree commitment of
        None \<Rightarrow> None
      | Some pr \<Rightarrow> Some \<lparr> oc_siblings = tp_siblings pr, oc_indices = tp_indices pr,
                        oc_leafIndex = tp_leafIndex pr, oc_root = tp_root pr, oc_commitment = commitment \<rparr>)"

definition fetchMerkleProofForCommitment :: "poseidon \<Rightarrow> int \<Rightarrow> OnChainMerkleProof option result" where
  "fetchMerkleProofForCommitment P commitment =
     js_bind (buildCommitmentTreeFromChain P None) (\<lambda>tree.
       Inr (case getMerkleProof P tree commitment of
              None \<Rightarrow> None
            | Some pr \<Rightarrow> Some \<lparr> oc_siblings = tp_siblings pr, oc_indices = tp_indices pr,
                              oc_leafIndex = tp_leafIndex pr, oc_root = tp_root pr, oc_commitment = commitment \<rparr>))"

section \<open>The invariant of the index\<close>

text \<open>
  The frontier holds, at every level whose node count is odd, the last complete left node.
\<close>

definition frontier_ok :: "poseidon \<Rightarrow> int list \<Rightarrow> int list \<Rightarrow> bool" where
  "frontier_ok P ls fr \<longleftrightarrow> length fr = 16 \<and>
     (\<forall>l < 16. odd (length ls div 2 ^ l) \<longrightarrow> fr ! l = node P ls l (length ls div 2 ^ l - 1))"

text \<open>The map holds, for every key, the last leaf with that key.\<close>

definition map_ok :: "int list \<Rightarrow> (string \<times> entry) list \<Rightarrow> bool" where
  "map_ok ls m \<longleftrightarrow> distinct (map fst m) \<and>
     (\<forall>i < length ls. map_of m (hexKey (ls ! i)) \<noteq> None) \<and>
     (\<forall>k e. map_of m k = Some e \<longrightarrow>
        (\<exists>i < length ls. e_index e = int i \<and> hexKey (ls ! i) = k \<and>
           (\<forall>j. i < j \<longrightarrow> j < length ls \<longrightarrow> hexKey (ls ! j) \<noteq> k)))"

definition tree_inv :: "poseidon \<Rightarrow> CommitmentTreeIndex \<Rightarrow> bool" where
  "tree_inv P t \<longleftrightarrow>
     ct_nextIndex t = int (length (ct_leaves t)) \<and> length (ct_leaves t) \<le> 65536 \<and>
     ct_currentRoot t = merkle_root P (ct_leaves t) \<and>
     frontier_ok P (ct_leaves t) (ct_frontier t) \<and> map_ok (ct_leaves t) (ct_commitments t)"

subsection \<open>The walk to the root\<close>

lemma poseidon_fixed_2 [simp]: "poseidon_fixed P [a, b] = P 2 [a, b]"
  by (simp add: poseidon_fixed_eq numeral_2_eq_2)

lemma right_sibling_empty:
  assumes "zero_ok P" "l \<le> 16"
  shows "node P (ls @ [c]) l (length ls div 2 ^ l + 1) = ZERO_HASHES ! l"
proof (rule node_empty [OF assms])
  have "length ls < (length ls div 2 ^ l + 1) * 2 ^ l"
    using dividend_less_times_div [of "2 ^ l" "length ls"] by (simp add: mult.commute)
  then show "length (ls @ [c]) \<le> (length ls div 2 ^ l + 1) * 2 ^ l" by simp
qed

lemma left_sibling_complete:
  assumes "odd (length ls div 2 ^ l)"
  shows "node P (ls @ xs) l (length ls div 2 ^ l - 1) = node P ls l (length ls div 2 ^ l - 1)"
proof (rule node_append)
  have "length ls div 2 ^ l - 1 + 1 = length ls div 2 ^ l" using assms by (cases "length ls div 2 ^ l") auto
  then show "(length ls div 2 ^ l - 1 + 1) * 2 ^ l \<le> length ls" by (simp add: div_times_less_eq_dividend)
qed

lemma insert_path_node:
  assumes "zero_ok P" "frontier_ok P ls fr0"
  shows "l + n = 16 \<Longrightarrow> length fr = 16 \<Longrightarrow> (\<forall>j < 16. l \<le> j \<longrightarrow> fr ! j = fr0 ! j) \<Longrightarrow>
    insert_path P n l (node P (ls @ [c]) l (length ls div 2 ^ l)) (length ls div 2 ^ l) fr =
    (node P (ls @ [c]) 16 (length ls div 2 ^ 16),
     map (\<lambda>j. if l \<le> j \<and> even (length ls div 2 ^ j) then node P (ls @ [c]) j (length ls div 2 ^ j) else fr ! j) [0..<16])"
proof (induction n arbitrary: l fr)
  case 0
  then show ?case by (auto intro!: nth_equalityI)
next
  case (Suc n)
  let ?i = "length ls div 2 ^ l" and ?ls = "ls @ [c]"
  have up: "length ls div 2 ^ l div 2 = length ls div 2 ^ Suc l" by (rule div_pow_Suc [symmetric])
  show ?case
  proof (cases "even ?i")
    case True
    have h: "P 2 [node P ?ls l ?i, ZERO_HASHES ! l] = node P ?ls (Suc l) (length ls div 2 ^ Suc l)"
      using True right_sibling_empty [of P l ls c] assms(1) Suc.prems
      by (simp only: up [symmetric] node_parent if_True)
    have "insert_path P n (Suc l) (node P ?ls (Suc l) (length ls div 2 ^ Suc l)) (length ls div 2 ^ Suc l)
        (fr[l := node P ?ls l ?i]) = (node P ?ls 16 (length ls div 2 ^ 16),
        map (\<lambda>j. if Suc l \<le> j \<and> even (length ls div 2 ^ j) then node P ?ls j (length ls div 2 ^ j)
          else fr[l := node P ?ls l ?i] ! j) [0..<16])"
      using Suc.prems by (intro Suc.IH) auto
    with True h up show ?thesis
      using Suc.prems by (auto simp: even_iff_mod_2_eq_zero nth_list_update le_less_Suc_eq not_less_eq_eq simp del: node.simps power_Suc intro!: nth_equalityI)
  next
    case False
    then have "fr ! l = node P ?ls l (?i - 1)"
      using Suc.prems assms(2) left_sibling_complete [OF False, of P "[c]"] by (simp add: frontier_ok_def)
    then have h: "P 2 [fr ! l, node P ?ls l ?i] = node P ?ls (Suc l) (length ls div 2 ^ Suc l)"
      using False by (simp only: up [symmetric] node_parent if_False)
    have "insert_path P n (Suc l) (node P ?ls (Suc l) (length ls div 2 ^ Suc l)) (length ls div 2 ^ Suc l) fr =
        (node P ?ls 16 (length ls div 2 ^ 16),
        map (\<lambda>j. if Suc l \<le> j \<and> even (length ls div 2 ^ j) then node P ?ls j (length ls div 2 ^ j) else fr ! j) [0..<16])"
      using Suc.prems by (intro Suc.IH) auto
    moreover have "(Suc l \<le> j \<and> even (length ls div 2 ^ j)) = (l \<le> j \<and> even (length ls div 2 ^ j))" for j
      using False by (cases "j = l") auto
    ultimately show ?thesis
      using False h up by (simp add: even_iff_mod_2_eq_zero del: node.simps power_Suc upt_Suc)
  qed
qed

lemma Suc_div_pow: "Suc n div 2 ^ l = n div 2 ^ l \<or> Suc n div 2 ^ l = n div 2 ^ l + (1::nat)"
  by (simp add: div_Suc)

lemma frontier_ok_insert:
  assumes "zero_ok P" "frontier_ok P ls fr" "length ls < 65536"
  shows "\<exists>fr'. insert_path P 16 0 c (length ls) fr = (merkle_root P (ls @ [c]), fr') \<and> frontier_ok P (ls @ [c]) fr'"
proof -
  let ?ls = "ls @ [c]" and ?n = "length ls"
  let ?fr = "map (\<lambda>j. if even (?n div 2 ^ j) then node P ?ls j (?n div 2 ^ j) else fr ! j) [0..<16]"
  have "?n div 2 ^ 16 = 0" using assms(3) by simp
  moreover have "node P ?ls 0 ?n = c" by simp
  ultimately have "insert_path P 16 0 c ?n fr = (merkle_root P ?ls, ?fr)"
    using insert_path_node [OF assms(1,2), of 0 16 fr c] assms(2)
    by (simp add: merkle_root_def frontier_ok_def del: node.simps upt_Suc)
  moreover have "frontier_ok P ?ls ?fr"
    unfolding frontier_ok_def
  proof (intro conjI allI impI)
    fix l :: nat
    assume l: "l < 16" and odd: "odd (length ?ls div 2 ^ l)"
    show "?fr ! l = node P ?ls l (length ?ls div 2 ^ l - 1)"
    proof (cases "even (?n div 2 ^ l)")
      case True
      with odd have "length ?ls div 2 ^ l = ?n div 2 ^ l + 1" using Suc_div_pow [of ?n l] by auto
      with True l show ?thesis by (simp del: upt_Suc)
    next
      case False
      with odd have "length ?ls div 2 ^ l = ?n div 2 ^ l" using Suc_div_pow [of ?n l] by auto
      moreover have "fr ! l = node P ls l (?n div 2 ^ l - 1)"
        using False l assms(2) by (simp add: frontier_ok_def)
      ultimately show ?thesis
        using False l left_sibling_complete [OF False, of P "[c]"] by (simp del: upt_Suc)
    qed
  qed simp
  ultimately show ?thesis by blast
qed

lemma map_ok_insert:
  assumes "map_ok ls m"
  shows "map_ok (ls @ [c]) (AList.update (hexKey c) \<lparr> e_index = int (length ls), e_amount = a \<rparr> m)"
proof -
  have "\<exists>i < length (ls @ [c]). e_index e = int i \<and> hexKey ((ls @ [c]) ! i) = k \<and>
      (\<forall>j. i < j \<longrightarrow> j < length (ls @ [c]) \<longrightarrow> hexKey ((ls @ [c]) ! j) \<noteq> k)"
    if e: "map_of (AList.update (hexKey c) \<lparr> e_index = int (length ls), e_amount = a \<rparr> m) k = Some e" for k e
  proof (cases "k = hexKey c")
    case True
    with e show ?thesis by (intro exI [of _ "length ls"]) (auto simp: update_conv')
  next
    case False
    with e have "map_of m k = Some e" by (simp add: update_conv')
    then obtain i where "i < length ls" "e_index e = int i" "hexKey (ls ! i) = k"
      "\<forall>j. i < j \<longrightarrow> j < length ls \<longrightarrow> hexKey (ls ! j) \<noteq> k"
      using assms unfolding map_ok_def by blast
    with False show ?thesis by (intro exI [of _ i]) (auto simp: nth_append less_Suc_eq)
  qed
  with assms show ?thesis
    by (auto simp: map_ok_def update_conv' nth_append less_Suc_eq distinct_update)
qed

text \<open>Every insertion below the capacity keeps the invariant and appends the leaf.\<close>

lemma addCommitment_inv:
  assumes "zero_ok P" "tree_inv P t" "length (ct_leaves t) < 65536"
  shows "\<exists>t'. addCommitment P t c a = Inr (int (length (ct_leaves t)), t') \<and> tree_inv P t' \<and>
     ct_leaves t' = ct_leaves t @ [c] \<and>
     ct_commitments t' = AList.update (hexKey c) \<lparr> e_index = int (length (ct_leaves t)), e_amount = a \<rparr> (ct_commitments t)"
proof -
  from assms obtain fr' where "insert_path P 16 0 c (length (ct_leaves t)) (ct_frontier t) =
      (merkle_root P (ct_leaves t @ [c]), fr')" "frontier_ok P (ct_leaves t @ [c]) fr'"
    using frontier_ok_insert [of P "ct_leaves t" "ct_frontier t" c] by (auto simp: tree_inv_def)
  with assms map_ok_insert [of "ct_leaves t" "ct_commitments t" c a] show ?thesis
    by (simp add: addCommitment_def tree_inv_def MAX_LEAVES_eq Let_def)
qed

lemma addCommitment_full:
  "ct_nextIndex t \<ge> 65536 \<Longrightarrow> addCommitment P t c a = Inl (Error ''Tree is full'')"
  by (simp add: addCommitment_def MAX_LEAVES_eq Let_def)

lemma merkle_root_Nil: "zero_ok P \<Longrightarrow> merkle_root P [] = ZERO_HASHES ! 16"
  by (simp add: merkle_root_def node_empty del: node.simps)

lemma new_tree_inv: "zero_ok P \<Longrightarrow> tree_inv P new_CommitmentTreeIndex"
  by (simp add: tree_inv_def new_CommitmentTreeIndex_def merkle_root_Nil frontier_ok_def map_ok_def)

definition insert_pair :: "poseidon \<Rightarrow> int \<times> int \<Rightarrow> CommitmentTreeIndex \<Rightarrow> CommitmentTreeIndex result" where
  "insert_pair P e t = js_bind (addCommitment P t (fst e) (snd e)) (\<lambda>r. Inr (snd r))"

interpretation sdk: accumulator "zero_ok P" new_CommitmentTreeIndex "insert_pair P" fst "\<lambda>_. True"
  ct_leaves getRoot "tree_inv P" "merkle_root P" 65536 for P
proof (unfold_locales, goal_cases)
  case 1
  then show ?case by (rule new_tree_inv)
next
  case 2
  show ?case by (simp add: new_CommitmentTreeIndex_def)
next
  case (3 s x)
  then show ?case
    using addCommitment_inv [of P s "fst x" "snd x"] by (auto simp: insert_pair_def)
next
  case (4 s x)
  then have "ct_nextIndex s \<ge> 65536" by (simp add: tree_inv_def)
  then show ?case by (auto simp: insert_pair_def addCommitment_full)
next
  case (5 s)
  then show ?case by (simp add: getRoot_def tree_inv_def)
qed

section \<open>Proofs\<close>

lemma sibling_xor: "(k::nat) XOR Suc 0 = sibling k"
  by (simp add: sibling_def xor_Suc_0_eq)

lemma drop_bit_nat: "drop_bit l (i::nat) = i div 2 ^ l"
  by (simp add: drop_bit_eq_div)

lemma node_at_next:
  assumes "zero_ok P" "l < 16" "\<And>j. node_at l cur j = node P ls l j"
  shows "node_at (Suc l) (next_level P l m cur) j = node P ls (Suc l) j"
proof (cases "j < (length cur + 1) div 2")
  case True
  then show ?thesis by (simp add: node_at_def [of "Suc l"] next_level_def Let_def nth_append assms(3) mult.commute)
next
  case False
  then have "length cur \<le> 2 * j" by linarith
  then have "node P ls (Suc l) j = ZERO_HASHES ! Suc l"
    using assms by (simp add: assms(3) [symmetric] node_at_def zero_ok_def)
  with False show ?thesis by (simp add: node_at_def next_level_def Let_def nth_append del: node.simps)
qed

lemma proof_levels_nodes:
  assumes "zero_ok P"
  shows "l + n \<le> 16 \<Longrightarrow> (\<And>j. node_at l cur j = node P ls l j) \<Longrightarrow>
    proof_levels P n l i cur =
      (map (\<lambda>j. node P ls j (sibling (i div 2 ^ j))) [l..<l + n], map (\<lambda>j. int (i div 2 ^ j mod 2)) [l..<l + n])"
proof (induction n arbitrary: l cur)
  case (Suc n)
  let ?next = "next_level P l (drop_bit l i div 2) cur"
  have "proof_levels P n (Suc l) i ?next =
      (map (\<lambda>j. node P ls j (sibling (i div 2 ^ j))) [Suc l..<Suc l + n], map (\<lambda>j. int (i div 2 ^ j mod 2)) [Suc l..<Suc l + n])"
    using Suc.prems assms by (intro Suc.IH node_at_next) simp_all
  moreover have u: "[l..<l + Suc n] = l # [Suc l..<Suc l + n]" by (simp add: upt_conv_Cons del: upt_Suc)
  ultimately show ?case
    unfolding u by (simp add: Suc.prems(2) sibling_xor drop_bit_nat and_one_eq Let_def del: upt_Suc)
qed simp

lemma computeMerkleProof_nodes:
  assumes "zero_ok P"
  shows "computeMerkleProof P t i =
    (map (\<lambda>j. node P (ct_leaves t) j (sibling (i div 2 ^ j))) [0..<16], map (\<lambda>j. int (i div 2 ^ j mod 2)) [0..<16])"
proof (cases "ct_leaves t = []")
  case True
  with assms show ?thesis
    by (simp add: computeMerkleProof_def node_empty drop_bit_nat and_one_eq del: upt_Suc node.simps)
next
  case False
  have "proof_levels P 16 0 i (ct_leaves t) = (map (\<lambda>j. node P (ct_leaves t) j (sibling (i div 2 ^ j))) [0..<0 + 16],
      map (\<lambda>j. int (i div 2 ^ j mod 2)) [0..<0 + 16])"
    by (rule proof_levels_nodes [OF assms]) (simp_all add: node_at_def)
  with False show ?thesis by (simp add: computeMerkleProof_def del: upt_Suc)
qed

text \<open>The proof of any position of the tree leads the circuit's check to the root.\<close>

lemma proof_verifies:
  assumes "zero_ok P" "i < 65536"
  shows "MerkleProofVerifier P (node P (ct_leaves t) 0 i) (fst (computeMerkleProof P t i))
    (snd (computeMerkleProof P t i)) = Some (merkle_root P (ct_leaves t))"
  using verify_nodes [of P "ct_leaves t" 0 i 16] assms
  by (simp add: computeMerkleProof_nodes merkle_root_def del: upt_Suc node.simps)

lemma getMerkleProof_cases:
  assumes "tree_inv P t" "getMerkleProof P t c = Some pr"
  obtains i where "i < length (ct_leaves t)" "hexKey (ct_leaves t ! i) = hexKey c" "tp_leafIndex pr = int i"
    "tp_siblings pr = fst (computeMerkleProof P t i)" "tp_indices pr = snd (computeMerkleProof P t i)"
    "tp_root pr = merkle_root P (ct_leaves t)"
proof -
  from assms(2) obtain e where e: "map_of (ct_commitments t) (hexKey c) = Some e"
    "pr = \<lparr> tp_siblings = fst (computeMerkleProof P t (nat (e_index e))),
            tp_indices = snd (computeMerkleProof P t (nat (e_index e))),
            tp_leafIndex = e_index e, tp_root = ct_currentRoot t \<rparr>"
    by (auto simp: getMerkleProof_def Let_def split: option.splits)
  then obtain i where "i < length (ct_leaves t)" "e_index e = int i" "hexKey (ct_leaves t ! i) = hexKey c"
    using assms(1) unfolding tree_inv_def map_ok_def by blast
  with e assms(1) that show ?thesis by (simp add: tree_inv_def)
qed

section \<open>Parsing and comparing\<close>

lemma arrays_eq_from_iff: "arrays_eq_from n i a b \<longleftrightarrow> (\<forall>j. i \<le> j \<and> j < i + n \<longrightarrow> a ! j = b ! j)"
proof (induction n arbitrary: i)
  case (Suc n)
  have "(i \<le> j \<and> j < i + Suc n) \<longleftrightarrow> j = i \<or> (Suc i \<le> j \<and> j < Suc i + n)" for j by auto
  with Suc.IH show ?case by auto
qed auto

lemma arraysEqual_iff: "arraysEqual a b \<longleftrightarrow> a = b"
  by (auto simp: arraysEqual_def arrays_eq_from_iff list_eq_iff_nth_eq)

lemma read_slices_chunks: "read_slices n offset bs = chunks 32 n (drop offset bs)"
  by (induction n arbitrary: offset) (simp_all add: js_slice_def add.commute)

text \<open>The account as the program lays it out, field after field.\<close>

definition account_bytes :: "byte \<Rightarrow> bytes \<Rightarrow> bytes \<Rightarrow> int \<Rightarrow> bytes list \<Rightarrow> bytes list \<Rightarrow> int \<Rightarrow> bytes \<Rightarrow> bytes" where
  "account_bytes bump padding root nextIndex frontier history historyIndex reserved =
     [word_of_int COMMITMENT_TREE_DISCRIMINATOR, bump] @ padding @ root @ le_bytes 8 nextIndex
     @ concat frontier @ concat history @ le_bytes 4 historyIndex @ reserved"

lemma shl32_small: "0 \<le> x \<Longrightarrow> x * 2 ^ k < 2 ^ 31 \<Longrightarrow> js_shl32 x k = x * 2 ^ k"
proof -
  assume x: "0 \<le> x" "x * 2 ^ k < 2 ^ 31"
  then have "- (2 ^ 31) \<le> x * 2 ^ k" by (smt (verit) mult_nonneg_nonneg zero_le_power)
  with x(2) show ?thesis
    unfolding js_shl32_def push_bit_eq_mult by (simp only: signed_take_bit_int_eq_self)
qed

lemma or_bytes_le:
  assumes "uint (d::byte) < 128"
  shows "uint (a::byte) OR js_shl32 (uint (b::byte)) 8 OR js_shl32 (uint (c::byte)) 16 OR js_shl32 (uint d) 24 =
    le_val [a, b, c, d]"
proof -
  have r: "0 \<le> uint x" "uint x < 256" for x :: byte by (rule byte_range)+
  have "uint c OR push_bit 8 (uint d) = 256 * uint d + uint c"
    using shift_or_byte [of "uint d" c] by (simp add: or.commute)
  moreover have "uint b OR push_bit 8 (256 * uint d + uint c) = 256 * (256 * uint d + uint c) + uint b"
    using shift_or_byte [of "256 * uint d + uint c" b] by (simp add: or.commute)
  moreover have "uint a OR push_bit 8 (256 * (256 * uint d + uint c) + uint b) =
      256 * (256 * (256 * uint d + uint c) + uint b) + uint a"
    using shift_or_byte [of "256 * (256 * uint d + uint c) + uint b" a] by (simp add: or.commute)
  moreover have "js_shl32 (uint b) 8 = push_bit 8 (uint b)" "js_shl32 (uint c) 16 = push_bit 16 (uint c)"
    "js_shl32 (uint d) 24 = push_bit 24 (uint d)"
    using assms r(2) [of b] r(2) [of c] by (simp_all add: shl32_small push_bit_eq_mult)
  moreover have "push_bit 8 (uint b) OR push_bit 16 (uint c) OR push_bit 24 (uint d) =
      push_bit 8 (uint b OR push_bit 8 (uint c OR push_bit 8 (uint d)))"
    by (simp add: push_bit_or)
  ultimately show ?thesis by (simp add: algebra_simps or.assoc)
qed

lemma base256_mono: "k \<le> x \<Longrightarrow> 256 * k \<le> uint (b::byte) + 256 * x"
  using byte_range(1) [of b] by linarith

lemma base256_top:
  assumes "uint (a::byte) + 256 * (uint (b::byte) + 256 * (uint (c::byte) + 256 * d)) < 2147483648"
  shows "d < 128"
proof (rule ccontr)
  assume "\<not> d < 128"
  then have "256 * (256 * (256 * 128)) \<le> uint a + 256 * (uint b + 256 * (uint c + 256 * d))"
    by (intro base256_mono) simp
  with assms show False by simp
qed

lemma parse_account:
  assumes "length padding = 6" "length root = 32" "fits 8 nextIndex" "length frontier = 16"
    "\<forall>x \<in> set frontier. length x = 32" "length history = 100" "\<forall>x \<in> set history. length x = 32"
    "0 \<le> historyIndex" "historyIndex < 2 ^ 31" "60 \<le> length reserved"
  shows "parseCommitmentTreeData (account_bytes bump padding root nextIndex frontier history historyIndex reserved) =
    Inr \<lparr> cts_discriminator = COMMITMENT_TREE_DISCRIMINATOR, cts_bump = uint bump, cts_currentRoot = root,
          cts_nextIndex = nextIndex, cts_frontier = frontier, cts_rootHistory = history,
          cts_rootHistoryIndex = historyIndex \<rparr>"
proof -
  let ?a = "account_bytes bump padding root nextIndex frontier history historyIndex reserved"
  let ?hd = "word_of_int COMMITMENT_TREE_DISCRIMINATOR # bump # padding"
  let ?hi = "le_bytes 4 historyIndex"
  note lens = assms(1,2,4,6) length_concat_width [OF assms(5)] length_concat_width [OF assms(7)]
  have a: "?a = ?hd @ root @ le_bytes 8 nextIndex @ concat frontier @ concat history @ ?hi @ reserved"
    by (simp add: account_bytes_def)
  have len: "3824 \<le> length ?a" using assms(10) by (simp add: a lens)
  have root: "js_slice ?a 8 40 = root" by (simp add: a js_slice_def lens)
  have next_ix: "bytesToBigintLE (js_slice ?a 40 48) = nextIndex"
    using assms(3) by (simp add: a js_slice_def lens bytesToBigintLE_def shift_in_rev le_val_le_bytes fits_def)
  have fr: "read_slices 16 48 ?a = frontier"
    using chunks_concat [OF assms(5), of "concat history @ ?hi @ reserved"]
    by (simp add: a read_slices_chunks lens)
  have hist: "read_slices 100 560 ?a = history"
    using chunks_concat [OF assms(7), of "?hi @ reserved"] by (simp add: a read_slices_chunks lens)
  have drop: "drop 3760 ?a = ?hi @ reserved" by (simp add: a lens)
  obtain b0 b1 b2 b3 where hi: "?hi = [b0, b1, b2, b3]"
    using length_le_bytes [of 4 historyIndex] by (auto simp: length_Suc_conv numeral_eq_Suc)
  have nth: "?a ! (3760 + j) = (?hi @ reserved) ! j" for j
    using drop nth_drop [of 3760 ?a j] len by simp
  have ix: "?a ! 3760 = b0" "?a ! 3761 = b1" "?a ! 3762 = b2" "?a ! 3763 = b3"
    using nth [of 0] nth [of 1] nth [of 2] nth [of 3] by (simp_all add: hi)
  have v: "le_val [b0, b1, b2, b3] = historyIndex"
    using le_val_le_bytes [of 4 historyIndex] assms(8,9) by (simp add: hi [symmetric])
  then have "uint b0 + 256 * (uint b1 + 256 * (uint b2 + 256 * uint b3)) < 2147483648"
    using assms(9) by simp
  then have "uint b3 < 128" using base256_top by blast
  then have "uint b0 OR js_shl32 (uint b1) 8 OR js_shl32 (uint b2) 16 OR js_shl32 (uint b3) 24 = historyIndex"
    using or_bytes_le v by metis
  moreover have "?a ! 0 = word_of_int COMMITMENT_TREE_DISCRIMINATOR" "?a ! 1 = bump" by (simp_all add: a)
  ultimately show ?thesis
    using len root next_ix fr hist ix
    by (simp add: parseCommitmentTreeData_def Let_def ROOT_HISTORY_SIZE_def COMMITMENT_TREE_DISCRIMINATOR_def)
qed

lemma parse_too_short:
  "length bs < 3824 \<Longrightarrow> parseCommitmentTreeData bs = Inl (Error ''Invalid commitment tree data length'')"
  by (simp add: parseCommitmentTreeData_def ROOT_HISTORY_SIZE_def)

end
