(* ===== verification/Tree_Sync.thy ===== *)
theory Tree_Sync
  imports Commitment_Tree
begin

text \<open>
  How an index of the commitment tree is filled: from its own export, from the on-chain
  account, and from the map of the event indexer. The definitions are in
  \<open>Commitment_Tree\<close>; this theory holds the lemmas about them.
\<close>

section \<open>The hexadecimal conversions agree with the arithmetic ones\<close>

fun hex_digits :: "nat \<Rightarrow> nat \<Rightarrow> nat list" where
  "hex_digits 0 n = []"
| "hex_digits (Suc k) n = hex_digits k (n div 16) @ [n mod 16]"

lemma length_hex_digits [simp]: "length (hex_digits k n) = k"
  by (induction k arbitrary: n) simp_all

lemma digit_char_0: "digit_char 0 = CHR ''0''"
  using of_char_digit [of 0] by (subst of_char_eq_iff [where 'a = nat, symmetric]) simp

lemma hex_digits_0: "map digit_char (hex_digits k 0) = replicate k (CHR ''0'')"
  by (induction k) (simp_all add: digit_char_0 replicate_append_same)

lemma radix_str_step: "16 \<le> n \<Longrightarrow> radix_str 16 n = radix_str 16 (n div 16) @ [digit_char (n mod 16)]"
  by (subst radix_str.simps) simp

lemma radix_str_small: "n < 16 \<Longrightarrow> radix_str 16 n = [digit_char n]"
  by (subst radix_str.simps) simp

lemma padded_digits: "n < 16 ^ Suc k \<Longrightarrow> padStart0 (Suc k) (radix_str 16 n) = map digit_char (hex_digits (Suc k) n)"
proof (induction k arbitrary: n)
  case 0
  then show ?case by (simp add: radix_str_small padStart0_def)
next
  case (Suc k)
  show ?case
  proof (cases "n < 16")
    case True
    then show ?thesis by (simp add: radix_str_small padStart0_def hex_digits_0 replicate_append_same digit_char_0)
  next
    case False
    from Suc.prems have "n div 16 < 16 ^ Suc k" by (simp add: less_mult_imp_div_less mult.commute)
    from Suc.IH [OF this] False show ?thesis by (simp add: radix_str_step padStart0_def)
  qed
qed

lemma hexKey_digits: "0 \<le> v \<Longrightarrow> v < 16 ^ 64 \<Longrightarrow> hexKey v = map digit_char (hex_digits 64 (nat v))"
  using padded_digits [of "nat v" 63] by (simp add: hexKey_def js_toString_def nat_less_iff)

lemma hex_digits_bytes: "map digit_char (hex_digits (2 * k) (nat v)) = bytesToHex (be_bytes k v)" if "0 \<le> v"
  using that
proof (induction k arbitrary: v)
  case (Suc k)
  have b: "unat (word_of_int v :: byte) = nat v mod 256"
    using Suc.prems by (simp add: unat_eq_nat_uint uint_word_of_int_byte nat_mod_distrib)
  have "nat (v div 256) = nat v div 16 div 16"
    using Suc.prems by (simp add: nat_div_distrib div_mult2_eq [symmetric])
  moreover have "nat v mod 256 div 16 = nat v div 16 mod 16" "nat v mod 256 mod 16 = nat v mod 16"
    using div_mod_decomp mod_mult2_eq [of "nat v" 16 16] by (simp_all add: mod_mod_cancel)
  moreover have "bytesToHex (xs @ [y]) = bytesToHex xs @ bytesToHex [y]" for xs y
    by (induction xs) simp_all
  ultimately show ?case
    using Suc.IH [of "v div 256"] Suc.prems b by (simp add: be_bytes_def pos_imp_zdiv_nonneg_iff)
qed (simp add: be_bytes_def)

lemma bytesToHex_pairs:
  "length bs = n \<Longrightarrow> map (\<lambda>i. to_uint8 (js_parseInt16 (js_slice (bytesToHex bs) (i * 2) (i * 2 + 2)))) [0..<n] = bs"
  by (rule nth_equalityI)
     (simp_all add: js_slice_def take_drop_bytesToHex [unfolded mult.commute [of 2]] hex_pair_byte)

lemma bigintToBytes32_eq: "fits 32 v \<Longrightarrow> bigintToBytes32 v = bigintToBytes v"
proof -
  assume v: "fits 32 v"
  then have "hexKey v = bytesToHex (be_bytes 32 v)"
    using hexKey_digits [of v] hex_digits_bytes [of v 32] by (simp add: fits_def)
  then show ?thesis
    using bytesToHex_pairs [of "be_bytes 32 v" 32] by (simp add: bigintToBytes32_def bigintToBytes_eq)
qed

lemma parse_bytesToHex: "bs \<noteq> [] \<Longrightarrow> parse_unsigned 16 (bytesToHex bs) = Inr (be_val bs)"
proof -
  have "parse_digits 16 a (bytesToHex bs) = Some (a * 256 ^ length bs + nat (be_val bs))" for a
  proof (induction bs arbitrary: a)
    case (Cons b bs)
    have "unat b div 16 < 16" using unat_byte [of b] by (simp add: less_mult_imp_div_less)
    moreover have "(a * 16 + unat b div 16) * 16 + unat b mod 16 = a * 256 + unat b" by simp
    moreover have "nat (be_val (b # bs)) = unat b * 256 ^ length bs + nat (be_val bs)"
      by (simp add: be_val_Cons nat_add_distrib nat_mult_distrib nat_power_eq byte_range)
    ultimately show ?case by (simp add: Cons.IH algebra_simps)
  qed (simp add: be_val_def)
  from this [of 0] show "bs \<noteq> [] \<Longrightarrow> ?thesis"
    by (cases bs) (simp_all add: parse_unsigned_def del: bytesToHex_simps, simp)
qed

lemma bytes32ToBigint_eq: "bs \<noteq> [] \<Longrightarrow> bytes32ToBigint bs = Inr (be_val bs)"
proof -
  assume bs: "bs \<noteq> []"
  have "\<forall>c \<in> set (bytesToHex bs). \<not> is_ws c"
  proof (induction bs)
    case (Cons b bs)
    have "unat b div 16 < 16" using unat_byte [of b] by (simp add: less_mult_imp_div_less)
    with Cons show ?case by simp
  qed simp
  then have "trim (''0x'' @ bytesToHex bs) = ''0x'' @ bytesToHex bs" by (intro trim_id) auto
  with bs show ?thesis by (simp add: bytes32ToBigint_def js_BigInt_def Let_def parse_bytesToHex)
qed

lemma bytes32ToBigint_Nil: "bytes32ToBigint [] = Inl SyntaxError"
  by (simp add: bytes32ToBigint_def js_BigInt_def Let_def trim_id parse_unsigned_def)

section \<open>Export and import\<close>

lemma insert_pair_state:
  assumes "insert_pair P e t = Inr t'"
  shows "ct_leaves t' = ct_leaves t @ [fst e]" "ct_nextIndex t' = ct_nextIndex t + 1"
    "ct_commitments t' = AList.update (hexKey (fst e)) \<lparr> e_index = ct_nextIndex t, e_amount = snd e \<rparr> (ct_commitments t)"
  using assms by (auto simp: insert_pair_def addCommitment_def Let_def split: if_splits prod.splits)

text \<open>The entries an index holds after insertions of pairwise different commitments.\<close>

definition entries_from :: "int \<Rightarrow> (int \<times> int) list \<Rightarrow> (string \<times> entry) list" where
  "entries_from k es =
     map (\<lambda>(i, c, a). (hexKey c, \<lparr> e_index = k + int i, e_amount = a \<rparr>)) (enumerate 0 es)"

lemma entries_from_Cons:
  "entries_from k ((c, a) # es) = (hexKey c, \<lparr> e_index = k, e_amount = a \<rparr>) # entries_from (k + 1) es"
proof -
  have "enumerate (Suc 0) es = map (\<lambda>(i, x). (Suc i, x)) (enumerate 0 es)"
    by (rule nth_equalityI) (simp_all add: nth_enumerate_eq)
  then show ?thesis by (simp add: entries_from_def case_prod_beta algebra_simps)
qed

lemma update_new: "k \<notin> fst ` set m \<Longrightarrow> AList.update k v m = m @ [(k, v)]"
  by (induction m) auto

lemma built_entries:
  assumes "js_fold (insert_pair P) es t = Inr t'" "distinct (map fst es)" "\<forall>e \<in> set es. 0 \<le> fst e"
    "\<forall>c \<in> fst ` set es. hexKey c \<notin> fst ` set (ct_commitments t)"
  shows "ct_commitments t' = ct_commitments t @ entries_from (ct_nextIndex t) es"
  using assms
proof (induction es arbitrary: t)
  case (Cons e es)
  then obtain t1 where t1: "insert_pair P e t = Inr t1" "js_fold (insert_pair P) es t1 = Inr t'"
    by (auto simp: js_bind_Inr_iff)
  have m: "ct_commitments t1 = ct_commitments t @ [(hexKey (fst e), \<lparr> e_index = ct_nextIndex t, e_amount = snd e \<rparr>)]"
    using insert_pair_state(3) [OF t1(1)] Cons.prems(4) by (simp add: update_new)
  have "hexKey c \<noteq> hexKey (fst e)" if "c \<in> fst ` set es" for c
    using that Cons.prems(2,3) hexKey_inject [of c "fst e"] by (fastforce simp: image_iff)
  then have "ct_commitments t' = ct_commitments t1 @ entries_from (ct_nextIndex t1) es"
    using t1(2) Cons.prems m by (intro Cons.IH) auto
  then show ?case
    using m insert_pair_state(2) [OF t1(1)] by (cases e) (simp add: entries_from_Cons)
qed (simp add: entries_from_def)

definition export_entry :: "string \<times> entry \<Rightarrow> string \<times> string \<times> string" where
  "export_entry p = (fst p, js_toString 10 (e_index (snd p)), js_toString 10 (e_amount (snd p)))"

lemma export_index_map: "export_index t = map export_entry (ct_commitments t)"
  by (simp add: export_index_def export_entry_def case_prod_beta)

lemma import_key_export [simp]: "import_key (export_entry p) = e_index (snd p)"
  by (simp add: import_key_def export_entry_def BigInt_toString10)

lemma sort_key_sorted: "sorted (map f xs) \<Longrightarrow> sort_key f xs = xs"
  by (induction xs) (simp_all add: insort_is_Cons)

lemma entries_index: "map (e_index \<circ> snd) (entries_from k es) = map (\<lambda>i. k + int i) [0..<length es]"
  by (rule nth_equalityI) (auto simp: entries_from_def nth_enumerate_eq case_prod_beta)

lemma sort_export:
  "sort_key import_key (map export_entry (entries_from k es)) = map export_entry (entries_from k es)"
proof (rule sort_key_sorted)
  have "map import_key (map export_entry (entries_from k es)) = map (e_index \<circ> snd) (entries_from k es)" by simp
  moreover have "sorted (map (\<lambda>i. k + int i) [0..<n])" for n
    by (simp add: sorted_map sorted_wrt_upt)
  ultimately show "sorted (map import_key (map export_entry (entries_from k es)))" by (simp only: entries_index)
qed

lemma import_fold:
  assumes "js_fold (insert_pair P) es t = Inr t'" "\<forall>e \<in> set es. 0 \<le> fst e"
  shows "import_entries P (map export_entry (entries_from k es)) t = (t', None)"
  using assms
proof (induction es arbitrary: t k)
  case (Cons e es)
  then obtain t1 where t1: "insert_pair P e t = Inr t1" "js_fold (insert_pair P) es t1 = Inr t'"
    by (auto simp: js_bind_Inr_iff)
  then obtain i where "addCommitment P t (fst e) (snd e) = Inr (i, t1)"
    by (auto simp: insert_pair_def js_bind_Inr_iff)
  with t1(2) Cons.IH [of t1 "k + 1"] Cons.prems show ?case
    by (cases e) (simp add: entries_from_Cons export_entry_def BigInt_hexKey [simplified] BigInt_toString10)
qed (simp add: entries_from_def)

lemma import_export_distinct:
  assumes "js_fold (insert_pair P) es new_CommitmentTreeIndex = Inr t" "distinct (map fst es)"
    "\<forall>e \<in> set es. 0 \<le> fst e"
  shows "import_index P (export_index t) t0 = (t, None)"
proof -
  have "ct_commitments t = entries_from 0 es"
    using built_entries [OF assms] by (simp add: new_CommitmentTreeIndex_def)
  then have ex: "export_index t = map export_entry (entries_from 0 es)" by (simp add: export_index_map)
  have "\<not> isl (js_BigInt (fst (snd (export_entry p))))" for p
    by (simp add: export_entry_def BigInt_toString10)
  then have "\<not> (\<exists>e \<in> set (export_index t). isl (js_BigInt (fst (snd e))))" by (auto simp: ex)
  moreover have "t0\<lparr> ct_commitments := [], ct_leaves := [], ct_frontier := replicate TREE_DEPTH 0,
      ct_currentRoot := ZERO_HASHES ! TREE_DEPTH, ct_nextIndex := 0 \<rparr> = new_CommitmentTreeIndex"
    by (simp add: new_CommitmentTreeIndex_def)
  ultimately show ?thesis
    using import_fold [OF assms(1,3), of 0] by (simp add: import_index_def Let_def ex sort_export)
qed

text \<open>
  In general the import rebuilds one leaf per key of the map. The map keeps one entry per
  commitment, so repeated leaves are lost.
\<close>

lemma import_entries_leaves:
  assumes "ct_nextIndex t + int (length es) \<le> 65536"
    "\<forall>e \<in> set es. \<exists>c a. js_BigInt (''0x'' @ fst e) = Inr c \<and> js_BigInt (snd (snd e)) = Inr a"
  shows "\<exists>t'. import_entries P es t = (t', None) \<and> length (ct_leaves t') = length (ct_leaves t) + length es"
  using assms
proof (induction es arbitrary: t)
  case (Cons e es)
  then obtain c a where ca: "js_BigInt (''0x'' @ fst e) = Inr c" "js_BigInt (snd (snd e)) = Inr a" by auto
  have "ct_nextIndex t < MAX_LEAVES" using Cons.prems(1) by (simp add: MAX_LEAVES_eq)
  then obtain t1 where "addCommitment P t c a = Inr (ct_nextIndex t, t1)" "ct_nextIndex t1 = ct_nextIndex t + 1"
    "ct_leaves t1 = ct_leaves t @ [c]"
    by (cases "insert_path P 16 0 c (nat (ct_nextIndex t)) (ct_frontier t)") (auto simp: addCommitment_def Let_def)
  with ca Cons.IH [of t1] Cons.prems show ?case by (cases e) auto
qed simp

lemma map_ok_keys: "map_ok ls m \<Longrightarrow> fst ` set m = hexKey ` set ls"
proof -
  assume m: "map_ok ls m"
  have "k \<in> fst ` set m \<longleftrightarrow> map_of m k \<noteq> None" for k by (simp add: map_of_eq_None_iff)
  moreover have "map_of m k \<noteq> None \<longleftrightarrow> k \<in> hexKey ` set ls" for k
    using m unfolding map_ok_def by (fastforce simp: in_set_conv_nth image_iff)
  ultimately show ?thesis by blast
qed

lemma import_export_size:
  assumes "tree_inv P t" "\<forall>c \<in> set (ct_leaves t). 0 \<le> c"
  shows "snd (import_index P (export_index t) t0) = None"
    and "tree_size (fst (import_index P (export_index t) t0)) = card (set (ct_leaves t))"
proof -
  let ?es = "sort_key import_key (export_index t)"
  let ?t0 = "t0\<lparr> ct_commitments := [], ct_leaves := [], ct_frontier := replicate TREE_DEPTH 0,
      ct_currentRoot := ZERO_HASHES ! TREE_DEPTH, ct_nextIndex := 0 \<rparr>"
  have m: "map_ok (ct_leaves t) (ct_commitments t)" "length (ct_leaves t) \<le> 65536"
    using assms(1) by (simp_all add: tree_inv_def)
  have "length ?es = card (fst ` set (ct_commitments t))"
    using m(1) by (simp add: export_index_map map_ok_def distinct_card [symmetric, of "map fst (ct_commitments t)", simplified])
  also have "\<dots> = card (set (ct_leaves t))"
    using assms(2) hexKey_inject by (simp add: map_ok_keys [OF m(1)] card_image inj_on_def)
  finally have n: "length ?es = card (set (ct_leaves t))" .
  have le: "length ?es \<le> 65536" using n m(2) card_length [of "ct_leaves t"] by linarith
  have "\<exists>c a. js_BigInt (''0x'' @ fst e) = Inr c \<and> js_BigInt (snd (snd e)) = Inr a" if "e \<in> set ?es" for e
  proof -
    from that obtain p where p: "p \<in> set (ct_commitments t)" "e = export_entry p" by (auto simp: export_index_map)
    then have "fst p \<in> hexKey ` set (ct_leaves t)" using map_ok_keys [OF m(1)] by blast
    with assms(2) p show ?thesis by (auto simp: export_entry_def BigInt_hexKey [simplified] BigInt_toString10)
  qed
  with le obtain t' where t': "import_entries P ?es ?t0 = (t', None)" "length (ct_leaves t') = length ?es"
    using import_entries_leaves [of ?t0 ?es P] by auto
  have "\<not> (\<exists>e \<in> set (export_index t). isl (js_BigInt (fst (snd e))))"
    by (auto simp: export_index_map export_entry_def BigInt_toString10)
  then have "import_index P (export_index t) t0 = (t', None)" using t'(1) by (simp add: import_index_def Let_def)
  with t'(2) n show "snd (import_index P (export_index t) t0) = None"
    "tree_size (fst (import_index P (export_index t) t0)) = card (set (ct_leaves t))"
    by (simp_all add: tree_size_def)
qed

section \<open>Following the on-chain tree\<close>

text \<open>
  An index that follows a tree with leaves \<open>ls\<close> it may not hold itself: next index, frontier
  and root are those of that tree.
\<close>

definition follows :: "poseidon \<Rightarrow> int list \<Rightarrow> CommitmentTreeIndex \<Rightarrow> bool" where
  "follows P ls t \<longleftrightarrow> ct_nextIndex t = int (length ls) \<and> length ls \<le> 65536 \<and>
     ct_currentRoot t = merkle_root P ls \<and> frontier_ok P ls (ct_frontier t)"

lemma follows_add:
  assumes "zero_ok P" "follows P ls t" "length ls < 65536"
  shows "\<exists>t'. addCommitment P t c a = Inr (int (length ls), t') \<and> follows P (ls @ [c]) t'"
proof -
  from assms obtain fr' where "insert_path P 16 0 c (length ls) (ct_frontier t) = (merkle_root P (ls @ [c]), fr')"
    "frontier_ok P (ls @ [c]) fr'"
    using frontier_ok_insert [of P ls "ct_frontier t" c] by (auto simp: follows_def)
  with assms show ?thesis by (simp add: addCommitment_def follows_def MAX_LEAVES_eq Let_def)
qed

lemma follows_add_all:
  assumes "zero_ok P"
  shows "follows P ls t \<Longrightarrow> length ls + length es \<le> 65536 \<Longrightarrow>
    \<exists>t'. js_fold (insert_pair P) es t = Inr t' \<and> follows P (ls @ map fst es) t'"
proof (induction es arbitrary: ls t)
  case (Cons e es)
  then obtain t1 where "insert_pair P e t = Inr t1" "follows P (ls @ [fst e]) t1"
    using follows_add [OF assms, of ls t "fst e" "snd e"] by (auto simp: insert_pair_def)
  with Cons.IH [of "ls @ [fst e]" t1] Cons.prems show ?case by auto
qed simp

lemma import_on_chain:
  assumes "length root = 32" "\<forall>x \<in> set frontier. length x = 32"
    "cts_frontier st = frontier" "cts_currentRoot st = root"
  shows "importFromOnChainState st t = Inr (t\<lparr> ct_commitments := [], ct_leaves := [],
    ct_nextIndex := cts_nextIndex st, ct_frontier := map be_val frontier, ct_currentRoot := be_val root \<rparr>)"
proof -
  have "js_mapM bytes32ToBigint frontier = Inr (map be_val frontier)"
    using assms(2) by (intro js_mapM_Inr bytes32ToBigint_eq) auto
  moreover have "bytes32ToBigint root = Inr (be_val root)" using assms(1) by (intro bytes32ToBigint_eq) auto
  ultimately show ?thesis using assms by (simp add: importFromOnChainState_def)
qed

section \<open>Building from indexer data\<close>

text \<open>The leaves the build loop produces from entries in increasing order of their index.\<close>

fun dense :: "int \<Rightarrow> (int \<times> int) list \<Rightarrow> int list" where
  "dense n [] = []"
| "dense n ((k, c) # es) = replicate (nat (k - n)) 0 @ c # dense (max k n + 1) es"

lemma fill_gaps_inv:
  "zero_ok P \<Longrightarrow> tree_inv P t \<Longrightarrow> k \<le> 65536 \<Longrightarrow>
    \<exists>t'. fill_gaps P k t = Inr t' \<and> tree_inv P t' \<and> ct_leaves t' = ct_leaves t @ replicate (nat (k - ct_nextIndex t)) 0"
proof (induction P k t rule: fill_gaps.induct)
  case (1 P k t)
  show ?case
  proof (cases "ct_nextIndex t < k")
    case True
    with "1.prems" have "length (ct_leaves t) < 65536" by (simp add: tree_inv_def)
    then obtain i t1 where t1: "addCommitment P t 0 0 = Inr (i, t1)" "tree_inv P t1" "ct_leaves t1 = ct_leaves t @ [0]"
      using addCommitment_inv [of P t 0 0] "1.prems" by auto
    have n: "nat (k - ct_nextIndex t) = Suc (nat (k - ct_nextIndex t1))"
      using True addCommitment_nextIndex [OF t1(1)] by simp
    have "\<exists>t'. fill_gaps P k t1 = Inr t' \<and> tree_inv P t' \<and>
        ct_leaves t' = ct_leaves t1 @ replicate (nat (k - ct_nextIndex t1)) 0"
      using "1.IH" [of "(i, t1)"] True t1 "1.prems" by (simp add: getNextIndex_def)
    with True t1 n show ?thesis by (subst fill_gaps.simps) (simp add: getNextIndex_def)
  next
    case False
    with "1.prems" show ?thesis by (subst fill_gaps.simps) (simp add: getNextIndex_def)
  qed
qed

lemma build_step_inv:
  assumes "zero_ok P" "tree_inv P t" "fst e < 65536" "ct_nextIndex t < 65536"
  shows "\<exists>t'. build_step P e t = Inr t' \<and> tree_inv P t' \<and>
    ct_leaves t' = ct_leaves t @ replicate (nat (fst e - ct_nextIndex t)) 0 @ [snd e]"
proof -
  obtain t1 where t1: "fill_gaps P (fst e) t = Inr t1" "tree_inv P t1"
    "ct_leaves t1 = ct_leaves t @ replicate (nat (fst e - ct_nextIndex t)) 0"
    using fill_gaps_inv [of P t "fst e"] assms by auto
  then have "length (ct_leaves t1) < 65536" using assms by (simp add: tree_inv_def)
  with t1 show ?thesis
    using addCommitment_inv [of P t1 "snd e" 0] assms(1) by (auto simp: build_step_def)
qed

lemma build_dense:
  assumes "zero_ok P"
  shows "tree_inv P t \<Longrightarrow> sorted_wrt (<) (map fst es) \<Longrightarrow> \<forall>e \<in> set es. ct_nextIndex t \<le> fst e \<and> fst e < 65536 \<Longrightarrow>
    \<exists>t'. js_fold (build_step P) es t = Inr t' \<and> tree_inv P t' \<and> ct_leaves t' = ct_leaves t @ dense (ct_nextIndex t) es"
proof (induction es arbitrary: t)
  case (Cons e es)
  then obtain t1 where t1: "build_step P e t = Inr t1" "tree_inv P t1"
    "ct_leaves t1 = ct_leaves t @ replicate (nat (fst e - ct_nextIndex t)) 0 @ [snd e]"
    using build_step_inv [OF assms, of t e] by auto
  then have n: "ct_nextIndex t1 = fst e + 1" using Cons.prems by (simp add: tree_inv_def)
  have "fst e + 1 \<le> fst x" if "x \<in> set es" for x using that Cons.prems(2) by auto
  with t1 n Cons.IH [of t1] Cons.prems show ?case by (cases e) (simp add: max_absorb1)
qed simp

lemma dense_spec:
  "sorted_wrt (<) (map fst es) \<Longrightarrow> \<forall>e \<in> set es. n \<le> fst e \<Longrightarrow>
   (\<forall>(k, c) \<in> set es. nat (k - n) < length (dense n es) \<and> dense n es ! nat (k - n) = c) \<and>
   (\<forall>i < length (dense n es). n + int i \<notin> fst ` set es \<longrightarrow> dense n es ! i = 0)"
proof (induction es arbitrary: n)
  case (Cons e es)
  obtain k c where e: "e = (k, c)" by (cases e)
  let ?d = "dense (k + 1) es" and ?g = "nat (k - n)"
  have IH: "(\<forall>(k', c) \<in> set es. nat (k' - (k + 1)) < length ?d \<and> ?d ! nat (k' - (k + 1)) = c) \<and>
      (\<forall>i < length ?d. k + 1 + int i \<notin> fst ` set es \<longrightarrow> ?d ! i = 0)"
    using Cons.prems e by (intro Cons.IH) auto
  have d: "dense n (e # es) = replicate ?g 0 @ c # ?d" using Cons.prems e by (simp add: max_absorb1)
  have "nat (k' - n) < length (dense n (e # es)) \<and> dense n (e # es) ! nat (k' - n) = c'" if "(k', c') \<in> set (e # es)" for k' c'
  proof (cases "(k', c') = e")
    case False
    with that have "(k', c') \<in> set es" by simp
    moreover from this have "k < k'" using Cons.prems(1) e by force
    ultimately have "nat (k' - n) = ?g + Suc (nat (k' - (k + 1)))" using Cons.prems(2) e by auto
    with IH \<open>(k', c') \<in> set es\<close> show ?thesis by (auto simp: d nth_append)
  qed (simp add: d e nth_append)
  moreover have "dense n (e # es) ! i = 0" if "i < length (dense n (e # es))" "n + int i \<notin> fst ` set (e # es)" for i
  proof (cases "i < ?g")
    case False
    with that e Cons.prems(2) have "i \<noteq> ?g" by auto
    with False obtain j where j: "i = ?g + Suc j" by (metis add_Suc_right less_imp_Suc_add linorder_neqE_nat)
    have "k + 1 + int j = n + int i" using j Cons.prems(2) e by simp
    with that(2) have "k + 1 + int j \<notin> fst ` set es" by simp
    moreover have "j < length ?d" using that(1) j by (simp add: d)
    ultimately have "?d ! j = 0" using IH by blast
    with j show ?thesis by (simp add: d nth_append)
  qed (simp add: d nth_append)
  ultimately show ?case by blast
qed simp

lemma sort_entries:
  assumes "distinct (map fst m)"
  shows "sorted_wrt (<) (map fst (sort_key fst (m :: (int \<times> int) list)))"
  using assms sorted_sort_key [of fst m] by (simp add: strict_sorted_iff distinct_map)

lemma build_no_options: "buildCommitmentTreeFromChain P None = Inr new_CommitmentTreeIndex"
  by (simp add: buildCommitmentTreeFromChain_def)

lemma build_from_map:
  assumes "zero_ok P" "distinct (map fst m)" "\<forall>e \<in> set m. 0 \<le> fst e \<and> fst e < 65536"
  shows "\<exists>t. buildCommitmentTreeFromChain P (Some \<lparr> bo_maxLeafIndex = None, bo_commitments = Some m \<rparr>) = Inr t \<and>
     tree_inv P t \<and> ct_leaves t = dense 0 (sort_key fst m)"
proof -
  have "\<exists>t. js_fold (build_step P) (sort_key fst m) new_CommitmentTreeIndex = Inr t \<and> tree_inv P t \<and>
      ct_leaves t = ct_leaves new_CommitmentTreeIndex @ dense (ct_nextIndex new_CommitmentTreeIndex) (sort_key fst m)"
    using assms(3) by (intro build_dense [OF assms(1)] new_tree_inv [OF assms(1)] sort_entries [OF assms(2)])
      (simp add: new_CommitmentTreeIndex_def)
  then show ?thesis by (simp add: buildCommitmentTreeFromChain_def new_CommitmentTreeIndex_def)
qed

lemma dense_sorted_spec:
  assumes "distinct (map fst m)" "\<forall>e \<in> set m. 0 \<le> fst e"
  shows "(\<forall>(k, c) \<in> set m. nat k < length (dense 0 (sort_key fst m)) \<and> dense 0 (sort_key fst m) ! nat k = c) \<and>
   (\<forall>i < length (dense 0 (sort_key fst m)). int i \<notin> fst ` set m \<longrightarrow> dense 0 (sort_key fst m) ! i = 0)"
  using dense_spec [OF sort_entries [OF assms(1)], of 0] assms(2) by simp

end
