(* ===== verification/Onchain_Tree.thy ===== *)
theory Onchain_Tree
  imports Onchain_Field Tree_Sync
begin

text \<open>
  The commitment tree account of the on-chain program,
  \<open>contracts/programs/utxopia/src/state/commitment_tree.rs\<close>: initialisation, insertion of a
  leaf, the ring buffer of past roots, and the account bytes the SDK parses. The account is the
  second provider of the accumulator interface; both providers have the same specification,
  so the SDK and the program agree on every root.
\<close>

section \<open>Definitions\<close>

record CommitmentTree =
  rt_discriminator :: byte
  rt_bump :: byte
  rt_padding :: bytes
  rt_current_root :: bytes
  rt_next_index :: bytes
  rt_frontier :: "bytes list"
  rt_root_history :: "bytes list"
  rt_root_history_index :: bytes
  rt_reserved :: bytes

text \<open>The table of the program: the first seventeen entries, as 32 bytes each.\<close>

definition RUST_ZERO_HASHES :: "bytes list" where
  "RUST_ZERO_HASHES = map (be_bytes 32) (take (TREE_DEPTH + 1) ZERO_HASHES)"

definition tree_init :: CommitmentTree where
  "tree_init =
     \<lparr> rt_discriminator = word_of_int COMMITMENT_TREE_DISCRIMINATOR, rt_bump = 0, rt_padding = replicate 6 0,
       rt_current_root = RUST_ZERO_HASHES ! TREE_DEPTH, rt_next_index = replicate 8 0,
       rt_frontier = replicate TREE_DEPTH (replicate 32 0),
       rt_root_history = replicate ROOT_HISTORY_SIZE (replicate 32 0),
       rt_root_history_index = replicate 4 0, rt_reserved = replicate 60 0 \<rparr>"

definition next_index :: "CommitmentTree \<Rightarrow> int" where
  "next_index t = le_val (rt_next_index t)"

definition root_history_index :: "CommitmentTree \<Rightarrow> int" where
  "root_history_index t = le_val (rt_root_history_index t)"

definition is_valid_root :: "CommitmentTree \<Rightarrow> bytes \<Rightarrow> bool" where
  "is_valid_root t root = (if rt_current_root t = root then True else root \<in> set (rt_root_history t))"

definition update_root :: "bytes \<Rightarrow> CommitmentTree \<Rightarrow> CommitmentTree" where
  "update_root new_root t =
     (let index = root_history_index t in
      t\<lparr> rt_root_history := (rt_root_history t)[nat (index mod int ROOT_HISTORY_SIZE) := rt_current_root t],
         rt_root_history_index := le_bytes 4 (index + 1),
         rt_current_root := new_root \<rparr>)"

fun walk :: "syscall \<Rightarrow> nat \<Rightarrow> nat \<Rightarrow> bytes \<Rightarrow> nat \<Rightarrow> bytes list \<Rightarrow> (bytes \<times> bytes list) pres" where
  "walk hashv 0 level current_hash current_index frontier = Inr (current_hash, frontier)"
| "walk hashv (Suc n) level current_hash current_index frontier =
     (if current_index mod 2 = 0
      then js_bind (poseidon2_hash hashv current_hash (RUST_ZERO_HASHES ! level))
             (\<lambda>h. walk hashv n (Suc level) h (current_index div 2) (frontier[level := current_hash]))
      else js_bind (poseidon2_hash hashv (frontier ! level) current_hash)
             (\<lambda>h. walk hashv n (Suc level) h (current_index div 2) frontier))"

definition insert_leaf :: "syscall \<Rightarrow> bytes \<Rightarrow> CommitmentTree \<Rightarrow> (int \<times> CommitmentTree) pres" where
  "insert_leaf hashv commitment t =
     (let leaf_index = next_index t in
      if leaf_index \<ge> MAX_LEAVES then Inl TreeFull
      else js_bind (walk hashv TREE_DEPTH 0 commitment (nat leaf_index) (rt_frontier t)) (\<lambda>(h, fr).
             Inr (leaf_index, (update_root h (t\<lparr> rt_frontier := fr \<rparr>))\<lparr> rt_next_index := le_bytes 8 (leaf_index + 1) \<rparr>)))"

text \<open>The bytes of the account: the fields in the order of the \<open>repr(C)\<close> struct, which needs no padding.\<close>

definition tree_bytes :: "CommitmentTree \<Rightarrow> bytes" where
  "tree_bytes t = [rt_discriminator t, rt_bump t] @ rt_padding t @ rt_current_root t @ rt_next_index t
     @ concat (rt_frontier t) @ concat (rt_root_history t) @ rt_root_history_index t @ rt_reserved t"

section \<open>The walk refines the walk of the SDK\<close>

lemma rust_zero_nth [simp]: "l \<le> 16 \<Longrightarrow> RUST_ZERO_HASHES ! l = be_bytes 32 (ZERO_HASHES ! l)"
  by (simp add: RUST_ZERO_HASHES_def)

lemma zero_in_field: "l \<le> 16 \<Longrightarrow> in_field (ZERO_HASHES ! l)"
proof -
  have "\<forall>v \<in> set ZERO_HASHES. in_field v" by (simp add: ZERO_HASHES_def in_field_def BN254_SCALAR_FIELD_def)
  then show "l \<le> 16 \<Longrightarrow> in_field (ZERO_HASHES ! l)" by simp
qed

abbreviation field_bytes :: "bytes \<Rightarrow> bool" where
  "field_bytes b \<equiv> length b = 32 \<and> in_field (be_val b)"

lemma field_bytes_be: "in_field v \<Longrightarrow> field_bytes (be_bytes 32 v)"
  by simp

lemma walk_refines:
  assumes "syscall_ok P hashv"
  shows "l + n \<le> 16 \<Longrightarrow> length fr = 16 \<Longrightarrow> field_bytes h \<Longrightarrow> \<forall>x \<in> set fr. field_bytes x \<Longrightarrow>
    \<exists>h' fr'. walk hashv n l h i fr = Inr (h', fr') \<and> field_bytes h' \<and> length fr' = 16 \<and> (\<forall>x \<in> set fr'. field_bytes x) \<and>
      insert_path P n l (be_val h) i (map be_val fr) = (be_val h', map be_val fr')"
proof (induction n arbitrary: l h i fr)
  case (Suc n)
  have P: "in_field (P m xs)" for m xs using assms by (simp add: syscall_ok_def)
  show ?case
  proof (cases "i mod 2 = 0")
    case True
    let ?h = "be_bytes 32 (P 2 [be_val h, ZERO_HASHES ! l])"
    have "poseidon2_hash hashv h (RUST_ZERO_HASHES ! l) = Inr ?h"
      using Suc.prems zero_in_field [of l] by (simp add: poseidon2_hash_eq [OF assms])
    moreover have "\<exists>h' fr'. walk hashv n (Suc l) ?h (i div 2) (fr[l := h]) = Inr (h', fr') \<and> field_bytes h' \<and>
        length fr' = 16 \<and> (\<forall>x \<in> set fr'. field_bytes x) \<and>
        insert_path P n (Suc l) (be_val ?h) (i div 2) (map be_val (fr[l := h])) = (be_val h', map be_val fr')"
      using Suc.prems P by (intro Suc.IH) (auto dest!: set_update_subset_insert [THEN subsetD])
    ultimately show ?thesis using True P by (simp add: map_update)
  next
    case False
    let ?h = "be_bytes 32 (P 2 [be_val (fr ! l), be_val h])"
    have "poseidon2_hash hashv (fr ! l) h = Inr ?h"
      using Suc.prems by (simp add: poseidon2_hash_eq [OF assms])
    moreover have "\<exists>h' fr'. walk hashv n (Suc l) ?h (i div 2) fr = Inr (h', fr') \<and> field_bytes h' \<and>
        length fr' = 16 \<and> (\<forall>x \<in> set fr'. field_bytes x) \<and>
        insert_path P n (Suc l) (be_val ?h) (i div 2) (map be_val fr) = (be_val h', map be_val fr')"
      using Suc.prems P by (intro Suc.IH) auto
    ultimately show ?thesis using False P Suc.prems by simp
  qed
qed simp

section \<open>The invariant of the account\<close>

text \<open>
  The ring buffer: slot \<open>k mod 100\<close> holds the root after \<open>k\<close> insertions, for each of the last
  hundred \<open>k\<close> before the present one; slots not yet written are zero.
\<close>

definition history_ok :: "poseidon \<Rightarrow> int list \<Rightarrow> bytes list \<Rightarrow> bool" where
  "history_ok P ls hist \<longleftrightarrow> length hist = 100 \<and> (\<forall>x \<in> set hist. length x = 32) \<and>
     (\<forall>k < length ls. length ls \<le> k + 100 \<longrightarrow> hist ! (k mod 100) = be_bytes 32 (merkle_root P (take k ls))) \<and>
     (\<forall>j < 100. length ls \<le> j \<longrightarrow> hist ! j = replicate 32 0)"

definition chain_inv :: "poseidon \<Rightarrow> int list \<Rightarrow> CommitmentTree \<Rightarrow> bool" where
  "chain_inv P ls t \<longleftrightarrow> length ls \<le> 65536 \<and>
     rt_discriminator t = word_of_int COMMITMENT_TREE_DISCRIMINATOR \<and> length (rt_padding t) = 6 \<and>
     length (rt_reserved t) = 60 \<and> rt_next_index t = le_bytes 8 (int (length ls)) \<and>
     rt_root_history_index t = le_bytes 4 (int (length ls)) \<and>
     field_bytes (rt_current_root t) \<and> be_val (rt_current_root t) = merkle_root P ls \<and>
     (\<forall>x \<in> set (rt_frontier t). field_bytes x) \<and> frontier_ok P ls (map be_val (rt_frontier t)) \<and>
     history_ok P ls (rt_root_history t)"

lemma chain_inv_init: "zero_ok P \<Longrightarrow> chain_inv P [] tree_init"
proof -
  assume P: "zero_ok P"
  have "in_field 0" by (simp add: in_field_def BN254_SCALAR_FIELD_def)
  moreover have "le_bytes n 0 = replicate n 0" for n by (induction n) simp_all
  ultimately show ?thesis
    using P zero_in_field [of 16]
    by (simp add: chain_inv_def tree_init_def merkle_root_Nil frontier_ok_def history_ok_def ROOT_HISTORY_SIZE_def)
qed

lemma mod_100_neq: "k < n \<Longrightarrow> n < k + 100 \<Longrightarrow> n mod 100 \<noteq> k mod (100::nat)"
proof
  assume k: "k < n" "n < k + 100" and "n mod 100 = k mod 100"
  then have "(n - k) mod 100 = 0" by (metis less_imp_le mod_eq_dvd_iff_nat dvd_imp_mod_0)
  with k show False by (simp add: mod_eq_0_iff_dvd dvd_imp_le)
qed

lemma history_ok_insert:
  assumes "history_ok P ls hist" "length r = 32" "r = be_bytes 32 (merkle_root P ls)"
  shows "history_ok P (ls @ [c]) (hist[length ls mod 100 := r])"
proof -
  let ?n = "length ls" and ?h = "hist[length ls mod 100 := r]"
  have "?h ! (k mod 100) = be_bytes 32 (merkle_root P (take k (ls @ [c])))"
    if k: "k < Suc ?n" "Suc ?n \<le> k + 100" for k
  proof (cases "k = ?n")
    case True
    with assms show ?thesis by (simp add: history_ok_def)
  next
    case False
    with k have "k < ?n" "?n < k + 100" "?n \<le> k + 100" by auto
    with assms mod_100_neq [of k ?n] show ?thesis by (simp add: history_ok_def)
  qed
  moreover have "?h ! j = replicate 32 0" if "j < 100" "Suc ?n \<le> j" for j
    using that assms(1) by (simp add: history_ok_def)
  moreover have "\<forall>x \<in> set ?h. length x = 32"
    using assms(1,2) set_update_subset_insert [of hist "length ls mod 100" r] by (auto simp: history_ok_def)
  ultimately show ?thesis using assms(1) by (simp add: history_ok_def)
qed

lemma le_index: "n \<le> 65536 \<Longrightarrow> le_val (le_bytes 8 (int n)) = int n" "n \<le> 65536 \<Longrightarrow> le_val (le_bytes 4 (int n)) = int n"
  by (simp_all add: le_val_le_bytes)

lemma insert_leaf_inv:
  assumes "zero_ok P" "syscall_ok P hashv" "chain_inv P ls t" "field_bytes c" "length ls < 65536"
  shows "\<exists>t'. insert_leaf hashv c t = Inr (int (length ls), t') \<and> chain_inv P (ls @ [be_val c]) t'"
proof -
  note inv = assms(3) [unfolded chain_inv_def]
  have fr: "length (rt_frontier t) = 16" using inv by (simp add: frontier_ok_def)
  obtain h' fr' where w: "walk hashv 16 0 c (length ls) (rt_frontier t) = Inr (h', fr')" "field_bytes h'"
    "\<forall>x \<in> set fr'. field_bytes x"
    "insert_path P 16 0 (be_val c) (length ls) (map be_val (rt_frontier t)) = (be_val h', map be_val fr')"
    using walk_refines [OF assms(2), of 0 16 "rt_frontier t" c "length ls"] fr inv assms(4) by auto
  then have r: "be_val h' = merkle_root P (ls @ [be_val c])" "frontier_ok P (ls @ [be_val c]) (map be_val fr')"
    using frontier_ok_insert [of P ls "map be_val (rt_frontier t)" "be_val c"] assms inv by auto
  have n: "next_index t = int (length ls)" "root_history_index t = int (length ls)"
    using inv assms(5) by (simp_all add: next_index_def root_history_index_def le_index)
  have f: "root_history_index (t\<lparr> rt_frontier := fr' \<rparr>) = root_history_index t" by (simp add: root_history_index_def)
  have m: "nat (int (length ls) mod 100) = length ls mod 100" by (simp add: nat_mod_distrib)
  have "rt_current_root t = be_bytes 32 (merkle_root P ls)" using inv by (metis be_bytes_be_val)
  then have "history_ok P (ls @ [be_val c]) ((rt_root_history t)[length ls mod 100 := rt_current_root t])"
    using inv by (intro history_ok_insert) simp_all
  with w r n inv assms(5) show ?thesis
    by (simp add: insert_leaf_def Let_def MAX_LEAVES_eq update_root_def chain_inv_def ROOT_HISTORY_SIZE_def f m
        add.commute del: le_bytes.simps)
qed

lemma insert_leaf_full: "next_index t \<ge> 65536 \<Longrightarrow> insert_leaf hashv c t = Inl TreeFull"
  by (simp add: insert_leaf_def MAX_LEAVES_eq Let_def)

text \<open>The account with the leaves it has absorbed, which the account itself does not keep.\<close>

definition insert_traced :: "syscall \<Rightarrow> bytes \<Rightarrow> int list \<times> CommitmentTree \<Rightarrow> (int list \<times> CommitmentTree) pres" where
  "insert_traced hashv c s = js_bind (insert_leaf hashv c (snd s)) (\<lambda>r. Inr (fst s @ [be_val c], snd r))"

interpretation chain: accumulator "zero_ok P \<and> syscall_ok P hashv" "([], tree_init)" "insert_traced hashv" be_val
  field_bytes fst "\<lambda>s. be_val (rt_current_root (snd s))" "\<lambda>s. chain_inv P (fst s) (snd s)" "merkle_root P" 65536
  for P hashv
proof (unfold_locales, goal_cases)
  case 1
  then show ?case by (simp add: chain_inv_init)
next
  case 2
  show ?case by simp
next
  case (3 s x)
  then show ?case
    using insert_leaf_inv [of P hashv "fst s" "snd s" x] by (auto simp: insert_traced_def)
next
  case (4 s x)
  then have "next_index (snd s) \<ge> 65536" by (auto simp: chain_inv_def next_index_def le_val_le_bytes)
  then show ?case by (auto simp: insert_traced_def insert_leaf_full)
next
  case (5 s)
  then show ?case by (simp add: chain_inv_def)
qed

lemma tree_bytes_account:
  assumes "chain_inv P ls t"
  shows "tree_bytes t = account_bytes (rt_bump t) (rt_padding t) (rt_current_root t) (int (length ls))
    (rt_frontier t) (rt_root_history t) (int (length ls)) (rt_reserved t)"
  using assms by (simp add: chain_inv_def tree_bytes_def account_bytes_def)

lemma parse_tree_bytes:
  assumes "chain_inv P ls t"
  shows "parseCommitmentTreeData (tree_bytes t) =
    Inr \<lparr> cts_discriminator = COMMITMENT_TREE_DISCRIMINATOR, cts_bump = uint (rt_bump t),
          cts_currentRoot = rt_current_root t, cts_nextIndex = int (length ls), cts_frontier = rt_frontier t,
          cts_rootHistory = rt_root_history t, cts_rootHistoryIndex = int (length ls) \<rparr>"
  unfolding tree_bytes_account [OF assms]
  using assms by (intro parse_account) (auto simp: chain_inv_def history_ok_def frontier_ok_def fits_def)

end
