(* ===== verification/Ed25519.thy ===== *)
theory Ed25519
  imports Crypto
begin

text \<open>
  Viewing keys and the encryption of note data, \<open>src/sdk/src/crypto-ed25519.ts\<close>. The curve is
  the package \<open>@noble/curves\<close>; the functions the code calls are the fields of a parameter.
\<close>

record curve25519 =
  getPublicKey :: "bytes \<Rightarrow> bytes"
  toMontgomery :: "bytes \<Rightarrow> bytes result"
  toMontgomerySecret :: "bytes \<Rightarrow> bytes"
  getSharedSecret :: "bytes \<Rightarrow> bytes \<Rightarrow> bytes result"

section \<open>Keys\<close>

record ed_keypair =
  ed_privKey :: bytes
  ed_pubKey :: bytes

text \<open>The random secret key is an argument.\<close>

definition ed25519GenerateKeyPair :: "curve25519 \<Rightarrow> bytes \<Rightarrow> ed_keypair" where
  "ed25519GenerateKeyPair C rnd = \<lparr> ed_privKey = rnd, ed_pubKey = getPublicKey C rnd \<rparr>"

definition ed25519GetPublicKey :: "curve25519 \<Rightarrow> bytes \<Rightarrow> bytes" where
  "ed25519GetPublicKey C privKey = getPublicKey C privKey"

definition ed25519DeriveKeyFromSeed :: "curve25519 \<Rightarrow> sha \<Rightarrow> bytes \<Rightarrow> ed_keypair" where
  "ed25519DeriveKeyFromSeed C H seed = \<lparr> ed_privKey = H seed, ed_pubKey = getPublicKey C (H seed) \<rparr>"

definition ed25519PubToX25519 :: "curve25519 \<Rightarrow> bytes \<Rightarrow> bytes result" where
  "ed25519PubToX25519 C edPub = toMontgomery C edPub"

definition x25519Ecdh :: "curve25519 \<Rightarrow> bytes \<Rightarrow> bytes \<Rightarrow> bytes result" where
  "x25519Ecdh C privKey pubKey =
     js_bind (toMontgomery C pubKey) (\<lambda>x25519Pub. getSharedSecret C (toMontgomerySecret C privKey) x25519Pub)"

text \<open>
  Documented behaviour of the package: public keys have 32 bytes, and for keys made by the
  package both sides of an exchange get the same secret of 32 bytes.
\<close>

definition curve_ok :: "curve25519 \<Rightarrow> bool" where
  "curve_ok C \<longleftrightarrow> (\<forall>k. length (getPublicKey C k) = 32) \<and>
     (\<forall>a b. \<exists>s. length s = 32 \<and> x25519Ecdh C a (getPublicKey C b) = Inr s \<and> x25519Ecdh C b (getPublicKey C a) = Inr s)"

section \<open>Amounts and note data\<close>

text \<open>
  The loop \<open>out[i] = a[i] ^ b[i]\<close> for \<open>n\<close> indices. Reading beyond an array gives
  \<open>undefined\<close>, which \<open>^\<close> takes as zero.
\<close>

definition byte_at :: "bytes \<Rightarrow> nat \<Rightarrow> byte" where
  "byte_at bs i = (if i < length bs then bs ! i else 0)"

definition xor_loop :: "nat \<Rightarrow> bytes \<Rightarrow> bytes \<Rightarrow> bytes" where
  "xor_loop n a b = map (\<lambda>i. byte_at a i XOR byte_at b i) [0..<n]"

definition deriveAmountKey :: "sha \<Rightarrow> bytes \<Rightarrow> bytes" where
  "deriveAmountKey H sharedSecret = js_slice (H sharedSecret) 0 8"

definition encryptAmountEd25519 :: "sha \<Rightarrow> int \<Rightarrow> bytes \<Rightarrow> bytes" where
  "encryptAmountEd25519 H amount sharedSecret =
     (let key = deriveAmountKey H sharedSecret;
          amountBytes = snd (store_le 8 0 amount (replicate 8 0))
      in xor_loop 8 amountBytes key)"

definition decryptAmountEd25519 :: "sha \<Rightarrow> bytes \<Rightarrow> bytes \<Rightarrow> int" where
  "decryptAmountEd25519 H encryptedAmount sharedSecret =
     (let key = deriveAmountKey H sharedSecret;
          decrypted = xor_loop 8 encryptedAmount key
      in shift_in (rev decrypted))"

definition deriveNoteDataKeystream :: "sha \<Rightarrow> bytes \<Rightarrow> bytes result" where
  "deriveNoteDataKeystream H sharedSecret =
     (let n = length sharedSecret in
      js_bind (js_set (replicate (n + 1) 0) sharedSecret 0) (\<lambda>b0. let buf0 = js_put b0 n 0x00 in
      js_bind (js_set (replicate (n + 1) 0) sharedSecret 0) (\<lambda>b1. let buf1 = js_put b1 n 0x01 in
      let key0 = H buf0; key1 = H buf1 in
      js_bind (js_set (replicate 40 0) key0 0) (\<lambda>k.
      js_set k (js_slice key1 0 8) 32))))"

definition encryptNoteData :: "sha \<Rightarrow> int \<Rightarrow> int \<Rightarrow> bytes \<Rightarrow> bytes result" where
  "encryptNoteData H tokenId amount sharedSecret =
     js_bind (deriveNoteDataKeystream H sharedSecret) (\<lambda>keystream.
       let p1 = snd (store_be 32 tokenId (replicate 40 0));
           plaintext = snd (store_le 8 32 amount p1)
       in Inr (xor_loop 40 plaintext keystream))"

definition decryptNoteData :: "sha \<Rightarrow> bytes \<Rightarrow> bytes \<Rightarrow> (int \<times> int) result" where
  "decryptNoteData H encryptedData sharedSecret =
     (if length encryptedData < 40 then Inl (Error ''Expected 40-byte encrypted note data'')
      else js_bind (deriveNoteDataKeystream H sharedSecret) (\<lambda>keystream.
        let plaintext = xor_loop 40 encryptedData keystream;
            tokenId = shift_in (js_slice plaintext 0 32);
            amount = shift_in (rev (js_slice plaintext 32 40))
        in Inr (tokenId, amount)))"

section \<open>Facts\<close>

lemma length_xor_loop [simp]: "length (xor_loop n a b) = n"
  by (simp add: xor_loop_def)

lemma xor_loop_twice: "length a = n \<Longrightarrow> xor_loop n (xor_loop n a k) k = a"
  by (rule nth_equalityI) (simp_all add: xor_loop_def byte_at_def [of a] byte_at_def [of "map f xs" for f xs] xor.assoc)

lemma length_encryptAmount [simp]: "length (encryptAmountEd25519 H amount s) = 8"
  by (simp add: encryptAmountEd25519_def Let_def)

lemma decrypt_encrypt_amount:
  "decryptAmountEd25519 H (encryptAmountEd25519 H amount s) s = amount mod 256 ^ 8"
proof -
  have "snd (store_le 8 0 amount (replicate 8 0)) = le_bytes 8 amount" by (simp add: store_le_eq)
  then show ?thesis
    by (simp only: encryptAmountEd25519_def decryptAmountEd25519_def Let_def xor_loop_twice length_le_bytes
        shift_in_rev le_val_le_bytes)
qed

lemma keystream_ok:
  assumes "sha_ok H"
  shows "deriveNoteDataKeystream H s = Inr (H (s @ [0]) @ take 8 (H (s @ [1])))"
proof -
  have "drop (length s) (replicate (length s + 1) (0::byte)) = [0]" by (subst drop_replicate) simp
  then have b: "js_set (replicate (length s + 1) 0) s 0 = Inr (s @ [0])" by (simp add: js_set_def)
  have p: "js_put (s @ [0]) (length s) v = s @ [word_of_int v]" for v by (simp add: js_put_def)
  have l: "length (H x) = 32" for x using assms by (simp add: sha_ok_def)
  show ?thesis unfolding deriveNoteDataKeystream_def Let_def b js_bind_simps p
    by (simp add: js_set_def js_slice_def l)
qed

lemma encryptNoteData_ok:
  assumes "sha_ok H"
  shows "\<exists>ct. encryptNoteData H tokenId amount s = Inr ct \<and> length ct = 40 \<and>
    decryptNoteData H (ct @ rest) s = Inr (tokenId mod 256 ^ 32, amount mod 256 ^ 8)"
proof -
  let ?ks = "H (s @ [0]) @ take 8 (H (s @ [1]))" and ?pt = "be_bytes 32 tokenId @ le_bytes 8 amount"
  let ?ct = "xor_loop 40 ?pt ?ks"
  have p: "snd (store_le 8 32 amount (snd (store_be 32 tokenId (replicate 40 0)))) = ?pt"
    by (simp add: store_be_eq store_le_eq)
  then have e: "encryptNoteData H tokenId amount s = Inr ?ct"
    unfolding encryptNoteData_def keystream_ok [OF assms] js_bind_simps Let_def by simp
  have "xor_loop 40 (?ct @ rest) ?ks = xor_loop 40 ?ct ?ks"
    by (simp add: xor_loop_def byte_at_def nth_append)
  then have d: "xor_loop 40 (?ct @ rest) ?ks = ?pt" by (simp add: xor_loop_twice)
  have "decryptNoteData H (?ct @ rest) s = Inr (shift_in (js_slice ?pt 0 32), shift_in (rev (js_slice ?pt 32 40)))"
    unfolding decryptNoteData_def keystream_ok [OF assms] js_bind_simps Let_def d by simp
  moreover have "shift_in (js_slice ?pt 0 32) = tokenId mod 256 ^ 32"
    by (simp add: js_slice_def shift_in_be_val be_val_be_bytes)
  moreover have "shift_in (rev (js_slice ?pt 32 40)) = amount mod 256 ^ 8"
    by (simp add: js_slice_def shift_in_rev le_val_le_bytes)
  ultimately have "decryptNoteData H (?ct @ rest) s = Inr (tokenId mod 256 ^ 32, amount mod 256 ^ 8)" by (simp only:)
  with e length_xor_loop [of 40 ?pt ?ks] show ?thesis by blast
qed

lemma decryptNoteData_short:
  "length ct < 40 \<Longrightarrow> decryptNoteData H ct s = Inl (Error ''Expected 40-byte encrypted note data'')"
  by (simp add: decryptNoteData_def)

end
