(* ===== verification/Samples.thy ===== *)
theory Samples
  imports Merkle_Spec Onchain_Field Ed25519
begin

text \<open>
  Concrete functions in place of the external hashes. They satisfy what the code relies on of
  the packages (the table of empty subtrees, the width of a digest), so the theorems that name
  these facts as hypotheses can be applied to them.
\<close>

fun next_zero :: "int list \<Rightarrow> int \<Rightarrow> int" where
  "next_zero (x # y # zs) a = (if a = x then y else next_zero (y # zs) a)"
| "next_zero _ a = 5"

definition sample_poseidon :: poseidon where
  "sample_poseidon n xs =
     (case xs of
        [a, b] \<Rightarrow> if a = b then next_zero ZERO_HASHES a else 3 * a + 5 * b + 1
      | _ \<Rightarrow> 7 + sum_list xs) mod BN254_SCALAR_FIELD"

definition sample_hashv :: syscall where
  "sample_hashv xs = Some (be_bytes 32 (sample_poseidon (length xs) (map be_val xs)))"

definition sample_sha :: sha where
  "sample_sha bs = take 32 (bs @ replicate 32 0)"

lemma next_zero_nth:
  "distinct zs \<Longrightarrow> Suc l < length zs \<Longrightarrow> next_zero zs (zs ! l) = zs ! Suc l"
proof (induction zs arbitrary: l rule: induct_list012)
  case (3 x y zs)
  show ?case
  proof (cases l)
    case (Suc n)
    with 3 have "(y # zs) ! n \<in> set (y # zs)" by (intro nth_mem) simp
    with 3 Suc show ?thesis by auto
  qed simp
qed simp_all

lemma zero_hashes_field: "\<forall>v \<in> set ZERO_HASHES. v mod BN254_SCALAR_FIELD = v"
  by (simp add: ZERO_HASHES_def BN254_SCALAR_FIELD_def)

lemma sample_zero_ok: "zero_ok sample_poseidon"
proof -
  have "distinct ZERO_HASHES" by (simp add: ZERO_HASHES_def)
  then show ?thesis
    using zero_hashes_field by (simp add: zero_ok_def sample_poseidon_def next_zero_nth)
qed

lemma sample_syscall_ok: "syscall_ok sample_poseidon sample_hashv"
  using scalar_field_pos(1) by (simp add: syscall_ok_def sample_hashv_def sample_poseidon_def in_field_def)

lemma sample_sha_ok: "sha_ok sample_sha"
  by (auto simp: sha_ok_def sample_sha_def)

text \<open>A symmetric exchange in place of X25519.\<close>

definition sample_curve :: curve25519 where
  "sample_curve =
     \<lparr> getPublicKey = \<lambda>k. take 32 (k @ replicate 32 0), toMontgomery = Inr, toMontgomerySecret = id,
       getSharedSecret = \<lambda>a b. Inr (xor_loop 32 a b) \<rparr>"

lemma sample_curve_ok: "curve_ok sample_curve"
proof -
  have "byte_at (take 32 (b @ replicate 32 0)) i = byte_at b i" if "i < 32" for b i
    using that by (auto simp: byte_at_def nth_append)
  then have "xor_loop 32 a (take 32 (b @ replicate 32 0)) = xor_loop 32 b (take 32 (a @ replicate 32 0))" for a b
    by (auto simp: xor_loop_def xor.commute)
  moreover have "length (take 32 (k @ replicate 32 0)) = 32" for k :: bytes by auto
  ultimately show ?thesis by (simp add: curve_ok_def sample_curve_def x25519Ecdh_def)
qed

end
