(* ===== verification/Tree_Properties.thy ===== *)
theory Tree_Properties
  imports Onchain_Tree Samples
begin

text \<open>
  The properties of the commitment tree: the roots and proofs of the SDK's index, its
  agreement with the on-chain account, and the functions that fill an index. Each property
  with hypotheses is followed by its application to a concrete tree.
\<close>

lemma insert_pairs_error: "js_fold (insert_pair P) es t = Inl e \<Longrightarrow> e = Error ''Tree is full''"
  by (induction es arbitrary: t)
     (auto simp: js_bind_Inl_iff insert_pair_def addCommitment_def Let_def split: if_splits prod.splits)

text \<open>
  (C9) Inserting at most 65536 commitments into a new index succeeds, keeps the invariant of
  the index, holds the commitments in order, and its root is the root of the complete tree of
  depth 16 over them, padded with zero leaves.
\<close>

theorem addCommitment_root:
  assumes "zero_ok P" "length es \<le> 65536"
  shows "\<exists>t. js_fold (insert_pair P) es new_CommitmentTreeIndex = Inr t \<and> tree_inv P t \<and>
           ct_leaves t = map fst es \<and> getRoot t = merkle_root P (map fst es)"
  using sdk.build_root [of P es] assms by simp

theorem addCommitment_root_witness:
  "\<exists>t. js_fold (insert_pair sample_poseidon) [(11, 5), (12, 6), (13, 7)] new_CommitmentTreeIndex = Inr t \<and>
     tree_inv sample_poseidon t \<and> ct_leaves t = [11, 12, 13] \<and> getRoot t = merkle_root sample_poseidon [11, 12, 13]"
  using addCommitment_root [OF sample_zero_ok, of "[(11, 5), (12, 6), (13, 7)]"] by simp

text \<open>
  (C33) The index refuses exactly the insertions beyond its capacity: a sequence of insertions
  into a new index throws \<open>Tree is full\<close> when, and only when, it has more than 65536 elements.
\<close>

theorem addCommitment_capacity:
  assumes "zero_ok P"
  shows "js_fold (insert_pair P) es new_CommitmentTreeIndex = Inl (Error ''Tree is full'') \<longleftrightarrow> 65536 < length es"
proof
  assume "65536 < length es"
  then obtain e where "js_fold (insert_pair P) es new_CommitmentTreeIndex = Inl e"
    using sdk.build_overflow [of P es] assms by auto
  then show "js_fold (insert_pair P) es new_CommitmentTreeIndex = Inl (Error ''Tree is full'')"
    using insert_pairs_error by blast
next
  assume "js_fold (insert_pair P) es new_CommitmentTreeIndex = Inl (Error ''Tree is full'')"
  then show "65536 < length es" using sdk.build_root [of P es] assms by force
qed

theorem addCommitment_capacity_witness:
  "js_fold (insert_pair sample_poseidon) (replicate 65537 (1, 1)) new_CommitmentTreeIndex = Inl (Error ''Tree is full'')"
  using addCommitment_capacity [OF sample_zero_ok, of "replicate 65537 (1, 1)"] by simp

lemma built_inv:
  assumes "zero_ok P" "js_fold (insert_pair P) es new_CommitmentTreeIndex = Inr t"
  shows "tree_inv P t" "ct_leaves t = map fst es" "getRoot t = merkle_root P (map fst es)"
proof -
  have "length es \<le> 65536"
  proof (rule ccontr)
    assume "\<not> length es \<le> 65536"
    then show False using sdk.build_overflow [of P es] assms by simp
  qed
  with sdk.build_root [of P es] assms
  show "tree_inv P t" "ct_leaves t = map fst es" "getRoot t = merkle_root P (map fst es)" by auto
qed

lemma proof_exists:
  assumes "tree_inv P t" "c \<in> set (ct_leaves t)"
  shows "getMerkleProof P t c \<noteq> None"
proof -
  from assms(2) obtain i where "i < length (ct_leaves t)" "ct_leaves t ! i = c" by (auto simp: in_set_conv_nth)
  with assms(1) have "map_of (ct_commitments t) (hexKey c) \<noteq> None" unfolding tree_inv_def map_ok_def by blast
  then show ?thesis by (auto simp: getMerkleProof_def Let_def)
qed

lemma proof_sound:
  assumes "zero_ok P" "tree_inv P t" "\<forall>x \<in> set (ct_leaves t). 0 \<le> x" "0 \<le> c" "getMerkleProof P t c = Some pr"
  shows "c \<in> set (ct_leaves t)" "ct_leaves t ! nat (tp_leafIndex pr) = c" "tp_root pr = getRoot t"
    "length (tp_siblings pr) = 16" "MerkleProofVerifier P c (tp_siblings pr) (tp_indices pr) = Some (getRoot t)"
proof -
  from assms(2,5) obtain i where i: "i < length (ct_leaves t)" "hexKey (ct_leaves t ! i) = hexKey c"
    "tp_leafIndex pr = int i" "tp_siblings pr = fst (computeMerkleProof P t i)"
    "tp_indices pr = snd (computeMerkleProof P t i)" "tp_root pr = merkle_root P (ct_leaves t)"
    by (rule getMerkleProof_cases)
  have c: "ct_leaves t ! i = c" using i(1,2) assms(3,4) hexKey_inject by (metis nth_mem)
  have "i < 65536" using i(1) assms(2) by (simp add: tree_inv_def)
  from proof_verifies [OF assms(1) this, of t] i c
  show "MerkleProofVerifier P c (tp_siblings pr) (tp_indices pr) = Some (getRoot t)"
    using assms(2) by (simp add: getRoot_def tree_inv_def)
  show "c \<in> set (ct_leaves t)" using i(1) c by auto
  show "ct_leaves t ! nat (tp_leafIndex pr) = c" "tp_root pr = getRoot t" "length (tp_siblings pr) = 16"
    using i c assms(2) by (simp_all add: getRoot_def tree_inv_def computeMerkleProof_nodes [OF assms(1)])
qed

text \<open>
  (C10) An index filled by insertions has a proof for exactly the commitments inserted. The
  proof names a position that holds the commitment, carries the index's root, has sixteen
  siblings, and the circuit's path check leads from the commitment to that root.
\<close>

theorem getMerkleProof_correct:
  assumes "zero_ok P" "\<forall>e \<in> set es. 0 \<le> fst e" "0 \<le> c"
    and built: "js_fold (insert_pair P) es new_CommitmentTreeIndex = Inr t"
  shows "if c \<in> fst ` set es
    then \<exists>pr. getMerkleProof P t c = Some pr \<and> map fst es ! nat (tp_leafIndex pr) = c \<and> tp_root pr = getRoot t \<and>
      length (tp_siblings pr) = 16 \<and> MerkleProofVerifier P c (tp_siblings pr) (tp_indices pr) = Some (getRoot t)
    else getMerkleProof P t c = None"
proof -
  note inv = built_inv [OF assms(1) built]
  have nonneg: "\<forall>x \<in> set (ct_leaves t). 0 \<le> x" using assms(2) by (simp add: inv(2))
  show ?thesis
  proof (cases "getMerkleProof P t c")
    case None
    then have "c \<notin> set (ct_leaves t)" using proof_exists [OF inv(1)] by blast
    with None show ?thesis by (simp add: inv(2))
  next
    case (Some pr)
    from proof_sound [OF assms(1) inv(1) nonneg assms(3) Some] Some show ?thesis by (simp add: inv(2))
  qed
qed

theorem getMerkleProof_correct_witness:
  "\<exists>t pr. js_fold (insert_pair sample_poseidon) [(11, 5), (12, 6), (13, 7)] new_CommitmentTreeIndex = Inr t \<and>
     getMerkleProof sample_poseidon t 12 = Some pr \<and>
     MerkleProofVerifier sample_poseidon 12 (tp_siblings pr) (tp_indices pr) = Some (getRoot t)"
proof -
  obtain t where "js_fold (insert_pair sample_poseidon) [(11, 5), (12, 6), (13, 7)] new_CommitmentTreeIndex = Inr t"
    using sdk.build_root [of sample_poseidon "[(11, 5), (12, 6), (13, 7)]"] sample_zero_ok by auto
  with getMerkleProof_correct [OF sample_zero_ok _ _ this, of 12] show ?thesis by auto
qed

text \<open>
  (C11) The SDK and the on-chain program agree: after the same commitments (field elements as
  32 big-endian bytes) the program's account holds the root of the SDK's index, and the SDK
  reads back from the account's bytes that root, the number of leaves and the frontier.
\<close>

theorem sdk_matches_chain:
  assumes "zero_ok P" "syscall_ok P hashv" "\<forall>c \<in> set cs. length c = 32 \<and> in_field (be_val c)" "length cs \<le> 65536"
  shows "\<exists>t ls rt st. js_fold (insert_pair P) (map (\<lambda>c. (be_val c, 0)) cs) new_CommitmentTreeIndex = Inr t \<and>
    js_fold (insert_traced hashv) cs ([], tree_init) = Inr (ls, rt) \<and>
    parseCommitmentTreeData (tree_bytes rt) = Inr st \<and> cts_currentRoot st = rt_current_root rt \<and>
    rt_current_root rt = getRootBytes t \<and> cts_nextIndex st = getNextIndex t"
proof -
  let ?es = "map (\<lambda>c. (be_val c, 0::int)) cs"
  obtain t where t: "js_fold (insert_pair P) ?es new_CommitmentTreeIndex = Inr t" "tree_inv P t"
    "ct_leaves t = map be_val cs" "getRoot t = merkle_root P (map be_val cs)"
    using sdk.build_root [of P ?es] assms by (auto simp: comp_def)
  obtain ls rt where c: "js_fold (insert_traced hashv) cs ([], tree_init) = Inr (ls, rt)" "chain_inv P ls rt"
    "ls = map be_val cs"
    using chain.build_root [of P hashv cs] assms by auto
  have r: "field_bytes (rt_current_root rt)" "be_val (rt_current_root rt) = getRoot t"
    using c t(4) unfolding chain_inv_def by auto
  then have "getRootBytes t = rt_current_root rt"
    using in_field_fits [of "getRoot t"] be_bytes_be_val [of "rt_current_root rt" 32]
    by (simp add: getRootBytes_def getRoot_def bigintToBytes32_eq bigintToBytes_eq)
  moreover have "getNextIndex t = int (length ls)" using t(2,3) c(3) by (simp add: getNextIndex_def tree_inv_def)
  ultimately show ?thesis using t(1) c(1) parse_tree_bytes [OF c(2)] by simp
qed

definition sample_leaves :: "bytes list" where
  "sample_leaves = map (be_bytes 32) [11, 12, 13]"

lemma sample_leaves_ok:
  "\<forall>c \<in> set sample_leaves. length c = 32 \<and> in_field (be_val c)" "map be_val sample_leaves = [11, 12, 13]"
  by (simp_all add: sample_leaves_def in_field_def BN254_SCALAR_FIELD_def)

theorem sdk_matches_chain_witness:
  "\<exists>t ls rt st. js_fold (insert_pair sample_poseidon) (map (\<lambda>c. (be_val c, 0)) sample_leaves) new_CommitmentTreeIndex = Inr t \<and>
    js_fold (insert_traced sample_hashv) sample_leaves ([], tree_init) = Inr (ls, rt) \<and>
    parseCommitmentTreeData (tree_bytes rt) = Inr st \<and> cts_currentRoot st = rt_current_root rt \<and>
    rt_current_root rt = getRootBytes t \<and> cts_nextIndex st = getNextIndex t"
  using sdk_matches_chain [OF sample_zero_ok sample_syscall_ok sample_leaves_ok(1)] by (simp add: sample_leaves_def)

text \<open>
  (C12) Front-running protection: after the program has inserted \<open>cs\<close>, the root after each of
  the last hundred insertions is still accepted, and the SDK's check on the parsed account
  gives the same answer as the program's for every root.
\<close>

theorem recent_roots_valid:
  assumes "zero_ok P" "syscall_ok P hashv" "\<forall>c \<in> set cs. length c = 32 \<and> in_field (be_val c)" "length cs \<le> 65536"
    "k \<le> length cs" "length cs \<le> k + 100"
  shows "\<exists>ls rt st. js_fold (insert_traced hashv) cs ([], tree_init) = Inr (ls, rt) \<and>
    parseCommitmentTreeData (tree_bytes rt) = Inr st \<and>
    is_valid_root rt (be_bytes 32 (merkle_root P (map be_val (take k cs)))) \<and>
    (\<forall>r. isValidRoot st r = is_valid_root rt r)"
proof -
  obtain ls rt where c: "js_fold (insert_traced hashv) cs ([], tree_init) = Inr (ls, rt)" "chain_inv P ls rt"
    "ls = map be_val cs"
    using chain.build_root [of P hashv cs] assms by auto
  let ?r = "be_bytes 32 (merkle_root P (take k ls))"
  have "is_valid_root rt ?r"
  proof (cases "k = length ls")
    case True
    moreover have "rt_current_root rt = be_bytes 32 (merkle_root P ls)"
      using c(2) unfolding chain_inv_def by (metis be_bytes_be_val)
    ultimately show ?thesis by (simp add: is_valid_root_def)
  next
    case False
    then have "rt_root_history rt ! (k mod 100) = ?r" "length (rt_root_history rt) = 100"
      using c assms(5,6) by (simp_all add: chain_inv_def history_ok_def)
    then have "?r \<in> set (rt_root_history rt)" by (metis mod_less_divisor nth_mem zero_less_numeral)
    then show ?thesis by (simp add: is_valid_root_def)
  qed
  moreover have "isValidRoot st r = is_valid_root rt r"
    if "parseCommitmentTreeData (tree_bytes rt) = Inr st" for st r
    using that parse_tree_bytes [OF c(2)] by (auto simp: isValidRoot_def is_valid_root_def arraysEqual_iff)
  ultimately show ?thesis using c parse_tree_bytes [OF c(2)] by (auto simp: take_map)
qed

theorem recent_roots_valid_witness:
  "\<exists>ls rt st. js_fold (insert_traced sample_hashv) sample_leaves ([], tree_init) = Inr (ls, rt) \<and>
    parseCommitmentTreeData (tree_bytes rt) = Inr st \<and>
    is_valid_root rt (be_bytes 32 (merkle_root sample_poseidon [11, 12])) \<and>
    (\<forall>r. isValidRoot st r = is_valid_root rt r)"
proof -
  have "take 2 [11, 12, 13::int] = [11, 12]" by simp
  then have "map be_val (take 2 sample_leaves) = [11, 12]" by (metis sample_leaves_ok(2) take_map)
  with recent_roots_valid [OF sample_zero_ok sample_syscall_ok sample_leaves_ok(1), of 2] show ?thesis
    by (simp add: sample_leaves_def)
qed

text \<open>
  (C34) A client that imports the account and then adds the commitments that follow computes
  the root the program computes: importing the bytes of the account after \<open>cs\<close> and adding
  \<open>ds\<close> gives the root of the tree over \<open>cs\<close> followed by \<open>ds\<close>, and the next index.
\<close>

theorem import_follows_chain:
  assumes "zero_ok P" "syscall_ok P hashv" "\<forall>c \<in> set cs. length c = 32 \<and> in_field (be_val c)"
    "length cs + length ds \<le> 65536"
  shows "\<exists>ls rt st t t'. js_fold (insert_traced hashv) cs ([], tree_init) = Inr (ls, rt) \<and>
    parseCommitmentTreeData (tree_bytes rt) = Inr st \<and> importFromOnChainState st t0 = Inr t \<and>
    js_fold (insert_pair P) ds t = Inr t' \<and> getRoot t' = merkle_root P (map be_val cs @ map fst ds) \<and>
    getNextIndex t' = int (length cs + length ds)"
proof -
  obtain ls rt where c: "js_fold (insert_traced hashv) cs ([], tree_init) = Inr (ls, rt)" "chain_inv P ls rt"
    "ls = map be_val cs"
    using chain.build_root [of P hashv cs] assms by auto
  note inv = c(2) [unfolded chain_inv_def]
  obtain st where st: "parseCommitmentTreeData (tree_bytes rt) = Inr st" "cts_frontier st = rt_frontier rt"
    "cts_currentRoot st = rt_current_root rt" "cts_nextIndex st = int (length ls)"
    using parse_tree_bytes [OF c(2)] by simp
  obtain t where t: "importFromOnChainState st t0 = Inr t" "follows P ls t"
    using import_on_chain [of "rt_current_root rt" "rt_frontier rt" st t0] st inv by (auto simp: follows_def)
  then obtain t' where "js_fold (insert_pair P) ds t = Inr t'" "follows P (ls @ map fst ds) t'"
    using follows_add_all [OF assms(1), of ls t ds] assms(4) c(3) by auto
  with c st(1) t(1) show ?thesis by (auto simp: follows_def getRoot_def getNextIndex_def)
qed

theorem import_follows_chain_witness:
  "\<exists>ls rt st t t'. js_fold (insert_traced sample_hashv) sample_leaves ([], tree_init) = Inr (ls, rt) \<and>
    parseCommitmentTreeData (tree_bytes rt) = Inr st \<and> importFromOnChainState st new_CommitmentTreeIndex = Inr t \<and>
    js_fold (insert_pair sample_poseidon) [(14, 1)] t = Inr t' \<and> getRoot t' = merkle_root sample_poseidon [11, 12, 13, 14]"
  using import_follows_chain [OF sample_zero_ok sample_syscall_ok sample_leaves_ok(1), of "[(14, 1)]" new_CommitmentTreeIndex]
  by (fastforce simp: sample_leaves_ok(2) sample_leaves_def [THEN arg_cong [where f = length]])

text \<open>
  Saving and loading: exporting an index of pairwise different commitments and importing
  the export, over whatever index is there, gives the same index back: leaves, frontier, root
  and map.
\<close>

theorem export_import_roundtrip:
  assumes "js_fold (insert_pair P) es new_CommitmentTreeIndex = Inr t" "distinct (map fst es)" "\<forall>e \<in> set es. 0 \<le> fst e"
  shows "import_index P (export_index t) t0 = (t, None)"
  using assms by (rule import_export_distinct)

theorem export_import_roundtrip_witness:
  "\<exists>t. js_fold (insert_pair sample_poseidon) [(11, 5), (12, 6)] new_CommitmentTreeIndex = Inr t \<and>
     import_index sample_poseidon (export_index t) new_CommitmentTreeIndex = (t, None)"
proof -
  obtain t where "js_fold (insert_pair sample_poseidon) [(11, 5), (12, 6)] new_CommitmentTreeIndex = Inr t"
    using sdk.build_root [of sample_poseidon "[(11, 5), (12, 6)]"] sample_zero_ok by auto
  with export_import_roundtrip [OF this] show ?thesis by auto
qed

text \<open>
  The map of an index keeps one entry per commitment, so the export of a tree with repeated
  leaves is lossy: importing it gives a tree with one leaf per different commitment.
\<close>

theorem export_import_loses_duplicates:
  assumes "zero_ok P" "js_fold (insert_pair P) es new_CommitmentTreeIndex = Inr t" "\<forall>e \<in> set es. 0 \<le> fst e"
  shows "tree_size t = length es \<and> snd (import_index P (export_index t) t0) = None \<and>
    tree_size (fst (import_index P (export_index t) t0)) = card (fst ` set es)"
proof -
  note inv = built_inv [OF assms(1,2)]
  have "\<forall>c \<in> set (ct_leaves t). 0 \<le> c" using assms(3) by (simp add: inv(2))
  from import_export_size [OF inv(1) this, of t0] show ?thesis by (simp add: tree_size_def inv(2))
qed

theorem export_import_loses_duplicates_witness:
  "\<exists>t. js_fold (insert_pair sample_poseidon) [(0, 0), (0, 0), (12, 6)] new_CommitmentTreeIndex = Inr t \<and>
     tree_size t = 3 \<and> tree_size (fst (import_index sample_poseidon (export_index t) new_CommitmentTreeIndex)) = 2"
proof -
  obtain t where "js_fold (insert_pair sample_poseidon) [(0, 0), (0, 0), (12, 6)] new_CommitmentTreeIndex = Inr t"
    using sdk.build_root [of sample_poseidon "[(0, 0), (0, 0), (12, 6)]"] sample_zero_ok by auto
  with export_import_loses_duplicates [OF sample_zero_ok this, of new_CommitmentTreeIndex] show ?thesis by auto
qed

text \<open>
  Building from the indexer's map of leaf indices: for indices below the capacity the build
  succeeds, every commitment is at its index, every index with no commitment holds zero, and
  the root is the root over these leaves.
\<close>

theorem buildCommitmentTreeFromChain_correct:
  assumes "zero_ok P" "distinct (map fst m)" "\<forall>e \<in> set m. 0 \<le> fst e \<and> fst e < 65536"
  shows "\<exists>t. buildCommitmentTreeFromChain P (Some \<lparr> bo_maxLeafIndex = None, bo_commitments = Some m \<rparr>) = Inr t \<and>
    (\<forall>(k, c) \<in> set m. nat k < tree_size t \<and> ct_leaves t ! nat k = c) \<and>
    (\<forall>i < tree_size t. int i \<notin> fst ` set m \<longrightarrow> ct_leaves t ! i = 0) \<and>
    getRoot t = merkle_root P (ct_leaves t)"
proof -
  obtain t where t: "buildCommitmentTreeFromChain P (Some \<lparr> bo_maxLeafIndex = None, bo_commitments = Some m \<rparr>) = Inr t"
    "tree_inv P t" "ct_leaves t = dense 0 (sort_key fst m)"
    using build_from_map [OF assms] by blast
  moreover have "getRoot t = merkle_root P (ct_leaves t)" using t(2) by (simp add: getRoot_def tree_inv_def)
  ultimately show ?thesis
    using dense_sorted_spec [OF assms(2)] assms(3) by (simp add: tree_size_def)
qed

theorem buildCommitmentTreeFromChain_correct_witness:
  "\<exists>t. buildCommitmentTreeFromChain sample_poseidon (Some \<lparr> bo_maxLeafIndex = None, bo_commitments = Some [(3, 44), (1, 22)] \<rparr>) = Inr t \<and>
    ct_leaves t ! 3 = 44 \<and> ct_leaves t ! 1 = 22 \<and> getRoot t = merkle_root sample_poseidon (ct_leaves t)"
  using buildCommitmentTreeFromChain_correct [OF sample_zero_ok, of "[(3, 44), (1, 22)]"] by auto

text \<open>
  The two lookups that fetch a proof by commitment build their tree without any
  commitments, so they find nothing, whatever the chain holds.
\<close>

theorem chain_lookups_find_nothing:
  "getLeafIndexForCommitment P c = - 1 \<and> fetchMerkleProofForCommitment P c = Inr None"
  by (simp add: getLeafIndexForCommitment_def fetchMerkleProofForCommitment_def build_no_options
      getMerkleProof_def new_CommitmentTreeIndex_def)

end
