(* ===== verification/Bound_Params.thy ===== *)
theory Bound_Params
  imports Onchain_Field Samples
begin

text \<open>
  The bound parameters of a JoinSplit transaction, \<open>src/sdk/src/bound-params.ts\<close>, and the hashes
  the program recomputes from the instruction, \<open>contracts/programs/utxopia/src/utils/crypto.rs\<close>.
  The proof commits to the hash, so a transaction is accepted only when both sides serialise
  the same 77 bytes.
\<close>

section \<open>The SDK\<close>

datatype BoundParamsMode = Transfer | Unshield | Redeem

record BoundParams =
  bp_treeNumber :: int
  bp_unshieldAddress :: "bytes option"
  bp_chainId :: int
  bp_mode :: "BoundParamsMode option"
  bp_stealthDataHash :: bytes

definition computeStealthDataHash :: "sha \<Rightarrow> bytes list \<Rightarrow> bytes result" where
  "computeStealthDataHash H stealthData = js_bind (concat_loop stealthData) (\<lambda>c. Inr (H c))"

definition bound_flag :: "BoundParams \<Rightarrow> int" where
  "bound_flag params =
     (if bp_mode params = Some Redeem then 2
      else if bp_mode params = Some Unshield \<or> bp_unshieldAddress params \<noteq> None then 1 else 0)"

text \<open>The 77-byte buffer that is hashed.\<close>

definition bound_params_buffer :: "BoundParams \<Rightarrow> bytes result" where
  "bound_params_buffer params =
     js_bind (view_set_le 4 (replicate 77 0) 0 (bp_treeNumber params)) (\<lambda>b1.
     let b2 = js_put b1 4 (bound_flag params) in
     js_bind (case bp_unshieldAddress params of
                None \<Rightarrow> Inr b2
              | Some addr \<Rightarrow> js_set b2 (js_slice addr 0 32) 5) (\<lambda>b3.
     let chainIdBuf = snd (store_le 8 0 (bp_chainId params) (replicate 8 0)) in
     js_bind (js_set b3 chainIdBuf 37) (\<lambda>b4.
     js_set b4 (js_slice (bp_stealthDataHash params) 0 32) 45)))"

definition computeBoundParamsHash :: "sha \<Rightarrow> BoundParams \<Rightarrow> int result" where
  "computeBoundParamsHash H params =
     js_bind (bound_params_buffer params) (\<lambda>buf. Inr (bigint_rem (bytesToBigint (H buf)) BN254_FIELD_PRIME))"

definition createTransferBoundParams :: "bytes \<Rightarrow> int \<Rightarrow> int \<Rightarrow> BoundParams" where
  "createTransferBoundParams stealthDataHash chainId treeNumber =
     \<lparr> bp_treeNumber = treeNumber, bp_unshieldAddress = None, bp_chainId = chainId, bp_mode = None,
       bp_stealthDataHash = stealthDataHash \<rparr>"

definition DEFAULT_BOUND_PARAMS :: BoundParams where
  "DEFAULT_BOUND_PARAMS =
     \<lparr> bp_treeNumber = 0, bp_unshieldAddress = None, bp_chainId = 103, bp_mode = None,
       bp_stealthDataHash = replicate 32 0 \<rparr>"

definition createRedeemBoundParams :: "sha \<Rightarrow> bytes list \<Rightarrow> bytes \<Rightarrow> int \<Rightarrow> int \<Rightarrow> BoundParams result" where
  "createRedeemBoundParams H scripts stealthDataHash chainId treeNumber =
     js_bind (concat_loop scripts) (\<lambda>c.
       Inr \<lparr> bp_treeNumber = treeNumber, bp_unshieldAddress = Some (H c), bp_chainId = chainId,
             bp_mode = Some Redeem, bp_stealthDataHash = stealthDataHash \<rparr>)"

definition createUnshieldBoundParams :: "sha \<Rightarrow> bytes list \<Rightarrow> bytes \<Rightarrow> int \<Rightarrow> int \<Rightarrow> BoundParams result" where
  "createUnshieldBoundParams H addrs stealthDataHash chainId treeNumber =
     js_bind (concat_loop addrs) (\<lambda>c.
       Inr \<lparr> bp_treeNumber = treeNumber, bp_unshieldAddress = Some (H c), bp_chainId = chainId,
             bp_mode = None, bp_stealthDataHash = stealthDataHash \<rparr>)"

section \<open>The program\<close>

definition compute_bound_params_hash_private_transfer :: "sha \<Rightarrow> int \<Rightarrow> bytes \<Rightarrow> bytes pres" where
  "compute_bound_params_hash_private_transfer H chain_id stealth_data_hash =
     (let buf = replicate 77 0 in
      js_bind (copy_from_slice buf 37 45 (le_bytes 8 chain_id)) (\<lambda>b1.
      js_bind (copy_from_slice b1 45 77 stealth_data_hash) (\<lambda>b2.
      Inr (reduce_to_field_exact (H b2)))))"

definition compute_bound_params_hash_unshield :: "sha \<Rightarrow> int \<Rightarrow> bytes \<Rightarrow> bytes \<Rightarrow> bytes pres" where
  "compute_bound_params_hash_unshield H chain_id owners_concat stealth_data_hash =
     (let buf = (replicate 77 0)[4 := 1] in
      js_bind (copy_from_slice buf 5 37 (H owners_concat)) (\<lambda>b0.
      js_bind (copy_from_slice b0 37 45 (le_bytes 8 chain_id)) (\<lambda>b1.
      js_bind (copy_from_slice b1 45 77 stealth_data_hash) (\<lambda>b2.
      Inr (reduce_to_field_exact (H b2))))))"

definition compute_bound_params_hash_redeem :: "sha \<Rightarrow> int \<Rightarrow> bytes \<Rightarrow> bytes \<Rightarrow> bytes pres" where
  "compute_bound_params_hash_redeem H chain_id btc_script stealth_data_hash =
     (let buf = (replicate 77 0)[4 := 2] in
      js_bind (copy_from_slice buf 5 37 (H btc_script)) (\<lambda>b0.
      js_bind (copy_from_slice b0 37 45 (le_bytes 8 chain_id)) (\<lambda>b1.
      js_bind (copy_from_slice b1 45 77 stealth_data_hash) (\<lambda>b2.
      Inr (reduce_to_field_exact (H b2))))))"

section \<open>The buffer\<close>

definition address_field :: "BoundParams \<Rightarrow> bytes" where
  "address_field params =
     (case bp_unshieldAddress params of None \<Rightarrow> replicate 32 0 | Some addr \<Rightarrow> addr)"

definition params_ok :: "BoundParams \<Rightarrow> bool" where
  "params_ok params \<longleftrightarrow> length (address_field params) = 32 \<and> length (bp_stealthDataHash params) = 32"

lemma buffer_fields:
  assumes "params_ok params"
  shows "bound_params_buffer params = Inr (le_bytes 4 (bp_treeNumber params) @ [word_of_int (bound_flag params)]
    @ address_field params @ le_bytes 8 (bp_chainId params) @ bp_stealthDataHash params)"
proof -
  let ?t = "le_bytes 4 (bp_treeNumber params)" and ?f = "word_of_int (bound_flag params) :: byte"
  have c: "snd (store_le 8 0 (bp_chainId params) (replicate 8 0)) = le_bytes 8 (bp_chainId params)"
    by (simp add: store_le_eq)
  have b1: "view_set_le 4 (replicate 77 0) 0 (bp_treeNumber params) = Inr (?t @ replicate 73 0)"
    by (simp add: view_set_le_def js_set_def)
  have b2: "js_put (?t @ replicate 73 0) 4 (bound_flag params) = (?t @ [?f]) @ replicate 72 0"
    using Cons_replicate_eq [of 0 "replicate 72 0" 73 0] by (simp add: js_put_def list_update_append numeral_eq_Suc)
  have b3: "(case bp_unshieldAddress params of None \<Rightarrow> Inr ((?t @ [?f]) @ replicate 72 0)
      | Some addr \<Rightarrow> js_set ((?t @ [?f]) @ replicate 72 0) (js_slice addr 0 32) 5) =
      Inr ((?t @ [?f] @ address_field params) @ replicate 40 0)"
    using assms by (auto simp: params_ok_def address_field_def js_set_def js_slice_all replicate_add [symmetric] split: option.splits)
  have b4: "js_set ((?t @ [?f] @ address_field params) @ replicate 40 0) (le_bytes 8 (bp_chainId params)) 37 =
      Inr ((?t @ [?f] @ address_field params @ le_bytes 8 (bp_chainId params)) @ replicate 32 0)"
    using assms by (simp add: js_set_def params_ok_def)
  have b5: "js_set ((?t @ [?f] @ address_field params @ le_bytes 8 (bp_chainId params)) @ replicate 32 0)
      (js_slice (bp_stealthDataHash params) 0 32) 45 =
      Inr (?t @ [?f] @ address_field params @ le_bytes 8 (bp_chainId params) @ bp_stealthDataHash params)"
    using assms by (simp add: js_set_def params_ok_def js_slice_all)
  show ?thesis unfolding bound_params_buffer_def c b1 Let_def js_bind_simps b2 b3 b4 b5 by (rule refl)
qed

lemma hash_agrees:
  assumes "sha_ok H" "params_ok params" "bound_params_buffer params = Inr buf"
  shows "\<exists>h. computeBoundParamsHash H params = Inr h \<and> reduce_to_field_exact (H buf) = bigintToBytes h"
proof -
  have "BN254_FIELD_PRIME = BN254_SCALAR_FIELD" by (simp add: BN254_FIELD_PRIME_def BN254_SCALAR_FIELD_def)
  moreover have "bigint_rem (bytesToBigint (H buf)) BN254_FIELD_PRIME = be_val (H buf) mod BN254_FIELD_PRIME"
    using field_prime_pos by (simp add: bytesToBigint_eq bigint_rem_nonneg)
  ultimately show ?thesis
    using assms by (simp add: computeBoundParamsHash_def reduce_to_field_exact_eq sha_ok_def bigintToBytes_eq)
qed

lemma le_bytes_0: "le_bytes n 0 = replicate n 0"
  by (induction n) simp_all

lemma flag_put: "(replicate 77 0)[4 := f] = replicate 4 0 @ [f] @ replicate 72 (0::byte)"
  by (simp add: numeral_eq_Suc)

lemma program_buffer:
  assumes "length addr = 32" "length sdh = 32"
  shows "js_bind (copy_from_slice ((replicate 77 0)[4 := f]) 5 37 addr) (\<lambda>b0.
      js_bind (copy_from_slice b0 37 45 (le_bytes 8 chain)) (\<lambda>b1.
      js_bind (copy_from_slice b1 45 77 sdh) (\<lambda>b2. Inr (reduce_to_field_exact (H b2))))) =
    Inr (reduce_to_field_exact (H (replicate 4 0 @ [f] @ addr @ le_bytes 8 chain @ sdh)))"
  using assms unfolding flag_put by (simp add: copy_from_slice_def)

lemma transfer_hash_matches:
  assumes "sha_ok H" "length sdh = 32"
  shows "\<exists>h. computeBoundParamsHash H (createTransferBoundParams sdh chain 0) = Inr h \<and>
      compute_bound_params_hash_private_transfer H chain sdh = Inr (bigintToBytes h)"
proof -
  let ?t = "createTransferBoundParams sdh chain 0"
  have ok: "params_ok ?t" using assms(2) by (simp add: params_ok_def createTransferBoundParams_def address_field_def)
  moreover have "bound_params_buffer ?t = Inr (replicate 37 0 @ le_bytes 8 chain @ sdh)"
    unfolding buffer_fields [OF ok]
    by (simp add: createTransferBoundParams_def address_field_def bound_flag_def le_bytes_0 numeral_eq_Suc)
  moreover have "compute_bound_params_hash_private_transfer H chain sdh =
      Inr (reduce_to_field_exact (H (replicate 37 0 @ le_bytes 8 chain @ sdh)))"
    using assms(2) by (simp add: compute_bound_params_hash_private_transfer_def copy_from_slice_def)
  ultimately show ?thesis using hash_agrees [OF assms(1), of ?t] by auto
qed

section \<open>Properties\<close>

text \<open>
  (C15) SDK and program agree on the bound parameters: for transfers, for unshields to any list
  of owners and for redeems to any list of scripts, the hash the program recomputes is the 32
  big-endian bytes of the hash the SDK puts into the proof.
\<close>

theorem bound_params_match_program:
  assumes "sha_ok H" "length sdh = 32"
  shows "(\<exists>h. computeBoundParamsHash H (createTransferBoundParams sdh chain 0) = Inr h \<and>
      compute_bound_params_hash_private_transfer H chain sdh = Inr (bigintToBytes h)) \<and>
    (\<exists>bp h. createUnshieldBoundParams H addrs sdh chain 0 = Inr bp \<and> computeBoundParamsHash H bp = Inr h \<and>
      compute_bound_params_hash_unshield H chain (concat addrs) sdh = Inr (bigintToBytes h)) \<and>
    (\<exists>bp h. createRedeemBoundParams H scripts sdh chain 0 = Inr bp \<and> computeBoundParamsHash H bp = Inr h \<and>
      compute_bound_params_hash_redeem H chain (concat scripts) sdh = Inr (bigintToBytes h))"
proof (intro conjI)
  have H: "length (H bs) = 32" for bs using assms(1) by (simp add: sha_ok_def)
  show "\<exists>h. computeBoundParamsHash H (createTransferBoundParams sdh chain 0) = Inr h \<and>
      compute_bound_params_hash_private_transfer H chain sdh = Inr (bigintToBytes h)"
    using assms by (rule transfer_hash_matches)
  let ?u = "\<lparr> bp_treeNumber = 0, bp_unshieldAddress = Some (H (concat addrs)), bp_chainId = chain, bp_mode = None,
      bp_stealthDataHash = sdh \<rparr>"
  have ok: "params_ok ?u" using assms(2) H by (simp add: params_ok_def address_field_def)
  moreover have "bound_params_buffer ?u = Inr (replicate 4 0 @ [1] @ H (concat addrs) @ le_bytes 8 chain @ sdh)"
    unfolding buffer_fields [OF ok] by (simp add: address_field_def bound_flag_def le_bytes_0)
  ultimately show "\<exists>bp h. createUnshieldBoundParams H addrs sdh chain 0 = Inr bp \<and> computeBoundParamsHash H bp = Inr h \<and>
      compute_bound_params_hash_unshield H chain (concat addrs) sdh = Inr (bigintToBytes h)"
    using hash_agrees [OF assms(1), of ?u] program_buffer [of "H (concat addrs)" sdh 1 chain H] assms(2) H
    by (auto simp: createUnshieldBoundParams_def concat_loop_eq compute_bound_params_hash_unshield_def)
  let ?r = "\<lparr> bp_treeNumber = 0, bp_unshieldAddress = Some (H (concat scripts)), bp_chainId = chain,
      bp_mode = Some Redeem, bp_stealthDataHash = sdh \<rparr>"
  have ok: "params_ok ?r" using assms(2) H by (simp add: params_ok_def address_field_def)
  moreover have "bound_params_buffer ?r = Inr (replicate 4 0 @ [2] @ H (concat scripts) @ le_bytes 8 chain @ sdh)"
    unfolding buffer_fields [OF ok] by (simp add: address_field_def bound_flag_def le_bytes_0)
  ultimately show "\<exists>bp h. createRedeemBoundParams H scripts sdh chain 0 = Inr bp \<and> computeBoundParamsHash H bp = Inr h \<and>
      compute_bound_params_hash_redeem H chain (concat scripts) sdh = Inr (bigintToBytes h)"
    using hash_agrees [OF assms(1), of ?r] program_buffer [of "H (concat scripts)" sdh 2 chain H] assms(2) H
    by (auto simp: createRedeemBoundParams_def concat_loop_eq compute_bound_params_hash_redeem_def)
qed

theorem bound_params_match_program_witness:
  "\<exists>bp h. createRedeemBoundParams sample_sha [[1, 2], [3]] (replicate 32 7) 103 0 = Inr bp \<and>
     computeBoundParamsHash sample_sha bp = Inr h \<and>
     compute_bound_params_hash_redeem sample_sha 103 [1, 2, 3] (replicate 32 7) = Inr (bigintToBytes h)"
  using bound_params_match_program [OF sample_sha_ok, of "replicate 32 7" 103 "[]" "[[1, 2], [3]]"] by simp



end
