(* ===== verification/Merkle_Proof.thy ===== *)
theory Merkle_Proof
  imports Tree_Properties
begin

text \<open>
  The proof structures of \<open>src/sdk/src/merkle.ts\<close>: creation with its checks, the formats of the
  circuit and of the program, the conversion between a leaf index and its path, the response of
  the proof API, and the structural validation.
\<close>

definition ROOT_HISTORY_SIZE_merkle :: nat where
  "ROOT_HISTORY_SIZE_merkle = 30"

definition MAX_LEAVES_merkle :: int where
  "MAX_LEAVES_merkle = js_shl32 1 TREE_DEPTH"

definition ZERO_VALUE :: bytes where
  "ZERO_VALUE = bigintToBytes 0x2fe54c60d3ada40e0000000000000000000000000000000000000000"

record MerkleProof =
  mp_pathElements :: "bytes list"
  mp_pathIndices :: "int list"
  mp_leafIndex :: int
  mp_root :: bytes

definition createMerkleProof :: "bytes list \<Rightarrow> int list \<Rightarrow> int \<Rightarrow> bytes \<Rightarrow> MerkleProof result" where
  "createMerkleProof pathElements pathIndices leafIndex root =
     (if length pathElements \<noteq> TREE_DEPTH then Inl (Error ''Expected 16 path elements'')
      else if length pathIndices \<noteq> TREE_DEPTH then Inl (Error ''Expected 16 path indices'')
      else Inr \<lparr> mp_pathElements = pathElements, mp_pathIndices = pathIndices, mp_leafIndex = leafIndex, mp_root = root \<rparr>)"

definition createMerkleProofFromBigints :: "int list \<Rightarrow> int list \<Rightarrow> int \<Rightarrow> int \<Rightarrow> MerkleProof result" where
  "createMerkleProofFromBigints pathElements pathIndices leafIndex root =
     createMerkleProof (map bigintToBytes pathElements) pathIndices leafIndex (bigintToBytes root)"

definition proofToCircomFormat :: "MerkleProof \<Rightarrow> string list \<times> string list \<times> string" where
  "proofToCircomFormat pr =
     (map (\<lambda>el. ''0x'' @ bytesToHex el) (mp_pathElements pr), map (js_toString 10) (mp_pathIndices pr),
      ''0x'' @ bytesToHex (mp_root pr))"

definition proofToOnChainFormat :: "MerkleProof \<Rightarrow> int list list \<times> bool list" where
  "proofToOnChainFormat pr = (map (map uint) (mp_pathElements pr), map (\<lambda>i. i = 1) (mp_pathIndices pr))"

text \<open>The loop over the positions, with \<open>|\<close> and \<open><<\<close> on 32-bit integers.\<close>

fun path_index_loop :: "nat \<Rightarrow> int list \<Rightarrow> int \<Rightarrow> int" where
  "path_index_loop i [] index = index"
| "path_index_loop i (b # bs) index =
     path_index_loop (Suc i) bs (if b = 1 then index OR js_shl32 1 i else index)"

definition pathIndicesToLeafIndex :: "int list \<Rightarrow> int" where
  "pathIndicesToLeafIndex pathIndices = path_index_loop 0 pathIndices 0"

fun leafIndexToPathIndices :: "int \<Rightarrow> nat \<Rightarrow> int list" where
  "leafIndexToPathIndices idx 0 = []"
| "leafIndexToPathIndices idx (Suc depth) = (idx AND 1) # leafIndexToPathIndices (drop_bit 1 idx) depth"

definition createEmptyMerkleProof :: MerkleProof where
  "createEmptyMerkleProof =
     \<lparr> mp_pathElements = replicate TREE_DEPTH ZERO_VALUE, mp_pathIndices = replicate TREE_DEPTH 0,
       mp_leafIndex = 0, mp_root = ZERO_VALUE \<rparr>"

record parsed_proof =
  pp_root :: int
  pp_pathElements :: "int list"
  pp_pathIndices :: "int list"

definition parseMerkleProofResponse :: "string \<Rightarrow> string list \<Rightarrow> int list \<Rightarrow> parsed_proof result" where
  "parseMerkleProofResponse root siblings indices =
     js_bind (js_BigInt (''0x'' @ root)) (\<lambda>r.
     js_bind (js_mapM (\<lambda>s. js_BigInt (''0x'' @ s)) siblings) (\<lambda>ss.
       Inr \<lparr> pp_root = r, pp_pathElements = ss, pp_pathIndices = indices \<rparr>))"

definition validateMerkleProofStructure :: "MerkleProof \<Rightarrow> bool" where
  "validateMerkleProofStructure pr =
     (if length (mp_pathElements pr) \<noteq> TREE_DEPTH then False
      else if length (mp_pathIndices pr) \<noteq> TREE_DEPTH then False
      else if mp_leafIndex pr < 0 \<or> mp_leafIndex pr \<ge> MAX_LEAVES_merkle then False
      else if length (mp_root pr) \<noteq> 32 then False
      else if \<exists>el \<in> set (mp_pathElements pr). length el \<noteq> 32 then False
      else if \<exists>idx \<in> set (mp_pathIndices pr). idx \<noteq> 0 \<and> idx \<noteq> 1 then False
      else True)"

section \<open>Paths and indices\<close>

fun bits_val :: "int list \<Rightarrow> int" where
  "bits_val [] = 0"
| "bits_val (b # bs) = b + 2 * bits_val bs"

lemma shl32_one: "i < 31 \<Longrightarrow> js_shl32 1 i = 2 ^ i"
  using shl32_small [of 1 i] power_strict_increasing [of i 31 "2::int"] by simp

lemma or_disjoint_bit: "0 \<le> v \<Longrightarrow> v < 2 ^ i \<Longrightarrow> v OR 2 ^ i = v + (2 ^ i :: int)"
proof -
  assume v: "0 \<le> v" "v < 2 ^ i"
  then have "take_bit i v = v" by (simp add: take_bit_int_eq_self)
  then have "\<not> bit v j" if "i \<le> j" for j using that by (metis bit_take_bit_iff not_le)
  then have "v AND 2 ^ i = 0" by (simp add: and_exp_eq_0_iff_not_bit)
  then show ?thesis by (simp add: disjunctive_add_eq_or)
qed

lemma path_index_loop_eq:
  "\<forall>b \<in> set bs. b = 0 \<or> b = 1 \<Longrightarrow> i + length bs \<le> 31 \<Longrightarrow> 0 \<le> v \<Longrightarrow> v < 2 ^ i \<Longrightarrow>
   path_index_loop i bs v = v + 2 ^ i * bits_val bs"
proof (induction bs arbitrary: i v)
  case (Cons b bs)
  let ?w = "if b = 1 then v OR js_shl32 1 i else v"
  have w: "?w = v + 2 ^ i * b" using Cons.prems by (auto simp: shl32_one or_disjoint_bit)
  have "0 \<le> ?w" "?w < 2 ^ Suc i" unfolding w using Cons.prems by auto
  then have "path_index_loop (Suc i) bs ?w = ?w + 2 ^ Suc i * bits_val bs"
    using Cons.prems by (intro Cons.IH) auto
  then show ?case unfolding path_index_loop.simps w by (simp add: algebra_simps)
qed simp

lemma leaf_bits: "leafIndexToPathIndices v n = map (\<lambda>j. v div 2 ^ j mod 2) [0..<n]"
proof (induction n arbitrary: v)
  case (Suc n)
  have u: "[0..<Suc n] = 0 # map Suc [0..<n]" by (simp add: upt_conv_Cons map_Suc_upt del: upt_Suc)
  show ?case unfolding u by (simp add: Suc and_one_eq drop_bit_eq_div zdiv_zmult2_eq)
qed simp

lemma horner_bits: "bits_val (leafIndexToPathIndices v n) = v mod 2 ^ n"
proof (induction n arbitrary: v)
  case (Suc n)
  have "v mod 2 + 2 * (v div 2 mod 2 ^ n) = v mod (2 * 2 ^ n)" by (simp add: zmod_zmult2_eq)
  then show ?case by (simp add: Suc and_one_eq drop_bit_eq_div)
qed simp

lemma path_roundtrip: "n \<le> 31 \<Longrightarrow> pathIndicesToLeafIndex (leafIndexToPathIndices v n) = v mod 2 ^ n"
proof -
  assume n: "n \<le> 31"
  have "\<forall>b \<in> set (leafIndexToPathIndices v n). b = 0 \<or> b = 1" by (auto simp: leaf_bits)
  moreover have "length (leafIndexToPathIndices v n) = n" by (simp add: leaf_bits)
  ultimately show ?thesis
    using n path_index_loop_eq [of "leafIndexToPathIndices v n" 0 0] by (simp add: pathIndicesToLeafIndex_def horner_bits)
qed

section \<open>Proofs of the index\<close>

lemma node_nonneg: "\<forall>x \<in> set ls. 0 \<le> x \<Longrightarrow> \<forall>n xs. 0 \<le> P n xs \<Longrightarrow> 0 \<le> node P ls l i"
  by (cases l) simp_all

lemma parse_hexKeys:
  "\<forall>s \<in> set ss. 0 \<le> s \<Longrightarrow> js_mapM (\<lambda>s. js_BigInt (''0x'' @ s)) (map hexKey ss) = Inr ss"
  by (induction ss) (simp_all add: BigInt_hexKey [simplified])

text \<open>
  The proof API is lossless: the response \<open>getPath\<close> gives for the hexadecimal commitment,
  parsed by \<open>parseMerkleProofResponse\<close>, is the proof of \<open>getMerkleProof\<close>: same root, same
  siblings, same path, and the path is the one of the leaf index.
\<close>

theorem proof_api_roundtrip:
  assumes "zero_ok P" "\<forall>n xs. 0 \<le> P n xs" "\<forall>e \<in> set es. 0 \<le> fst e" "c \<in> fst ` set es"
    "js_fold (insert_pair P) es new_CommitmentTreeIndex = Inr t"
  shows "\<exists>r pr. getPath P t (hexKey c) = Inr (Some r) \<and> getMerkleProof P t c = Some pr \<and>
    parseMerkleProofResponse (pr_root r) (pr_siblings r) (pr_indices r) =
      Inr \<lparr> pp_root = getRoot t, pp_pathElements = tp_siblings pr, pp_pathIndices = tp_indices pr \<rparr> \<and>
    tp_indices pr = leafIndexToPathIndices (tp_leafIndex pr) TREE_DEPTH \<and>
    pathIndicesToLeafIndex (tp_indices pr) = tp_leafIndex pr"
proof -
  note inv = built_inv [OF assms(1,5)]
  have nn: "\<forall>x \<in> set (ct_leaves t). 0 \<le> x" "0 \<le> c" using assms(3,4) by (auto simp: inv(2))
  obtain pr where pr: "getMerkleProof P t c = Some pr"
    using proof_exists [OF inv(1), of c] assms(4) by (auto simp: inv(2))
  obtain i where i: "i < length (ct_leaves t)" "tp_leafIndex pr = int i" "tp_siblings pr = fst (computeMerkleProof P t i)"
    "tp_indices pr = snd (computeMerkleProof P t i)" "tp_root pr = merkle_root P (ct_leaves t)"
    using getMerkleProof_cases [OF inv(1) pr] by metis
  have "i < 65536" using i(1) inv(1) by (simp add: tree_inv_def)
  have "\<forall>s \<in> set (tp_siblings pr). 0 \<le> s"
    using node_nonneg [OF nn(1) assms(2)] by (auto simp: i(3) computeMerkleProof_nodes [OF assms(1)])
  then have ss: "js_mapM (\<lambda>s. js_BigInt (''0x'' @ s)) (map hexKey (tp_siblings pr)) = Inr (tp_siblings pr)"
    by (rule parse_hexKeys)
  have root: "js_BigInt (''0x'' @ hexKey (tp_root pr)) = Inr (getRoot t)"
    using node_nonneg [OF nn(1) assms(2)] by (simp only: i(5) merkle_root_def BigInt_hexKey) (simp add: inv(2,3) merkle_root_def)
  have "take 2 (hexKey c) = ''0x'' \<Longrightarrow> False" using hexKey_no_0x [OF nn(2)] by blast
  then have "getPath P t (hexKey c) = Inr (Some \<lparr> pr_siblings = map hexKey (tp_siblings pr), pr_indices = tp_indices pr,
      pr_leafIndex = js_toString 10 (tp_leafIndex pr), pr_root = hexKey (tp_root pr) \<rparr>)"
    using pr by (auto simp: getPath_def Let_def BigInt_hexKey [OF nn(2), simplified])
  moreover have ix: "tp_indices pr = leafIndexToPathIndices (int i) 16"
    by (simp add: i(4) computeMerkleProof_nodes [OF assms(1)] leaf_bits zdiv_int zmod_int del: upt_Suc)
  moreover have "pathIndicesToLeafIndex (tp_indices pr) = int i"
    using path_roundtrip [of 16 "int i"] \<open>i < 65536\<close> by (simp add: ix)
  ultimately show ?thesis
    using pr ss root i(2) by (simp add: parseMerkleProofResponse_def)
qed

theorem proof_api_roundtrip_witness:
  "\<exists>t r pr. js_fold (insert_pair sample_poseidon) [(11, 5), (12, 6), (13, 7)] new_CommitmentTreeIndex = Inr t \<and>
     getPath sample_poseidon t (hexKey 12) = Inr (Some r) \<and> getMerkleProof sample_poseidon t 12 = Some pr \<and>
     pathIndicesToLeafIndex (tp_indices pr) = tp_leafIndex pr"
proof -
  obtain t where t: "js_fold (insert_pair sample_poseidon) [(11, 5), (12, 6), (13, 7)] new_CommitmentTreeIndex = Inr t"
    using sdk.build_root [of sample_poseidon "[(11, 5), (12, 6), (13, 7)]"] sample_zero_ok by auto
  have "\<forall>n xs. 0 \<le> sample_poseidon n xs" using sample_syscall_ok by (simp add: syscall_ok_def in_field_def)
  from proof_api_roundtrip [OF sample_zero_ok this _ _ t, of 12] t show ?thesis by auto
qed

end
