(* ===== verification/BabyJub.thy ===== *)
theory BabyJub
  imports Crypto
begin

text \<open>
  The Baby Jubjub curve of \<open>src/sdk/src/crypto-babyjub.ts\<close>: modular arithmetic, the twisted
  Edwards addition law, the scalar multiplication ladder, point compression and the key
  functions. Loops whose end depends on number theory (the Tonelli-Shanks square root) are
  partial functions, for which \<open>None\<close> means that the loop does not end.
\<close>

section \<open>Constants\<close>

definition BABYJUB_FIELD_PRIME :: int where
  "BABYJUB_FIELD_PRIME =
     21888242871839275222246405745257275088548364400416034343698204186575808495617"

definition BABYJUB_A :: int where
  "BABYJUB_A = 168700"

definition BABYJUB_D :: int where
  "BABYJUB_D = 168696"

definition BABYJUB_COFACTOR :: int where
  "BABYJUB_COFACTOR = 8"

record BabyJubPoint =
  px :: int
  py :: int

definition BABYJUB_BASE8 :: BabyJubPoint where
  "BABYJUB_BASE8 =
     \<lparr> px = 5299619240641551281634865583518297030282874472190772894086521144482721001553,
       py = 16950150798460657717958625567821834550301663161624707787222815936182638968203 \<rparr>"

definition BABYJUB_IDENTITY :: BabyJubPoint where
  "BABYJUB_IDENTITY = \<lparr> px = 0, py = 1 \<rparr>"

abbreviation bjj_mod :: "int \<Rightarrow> int" where
  "bjj_mod n \<equiv> bigint_mod n BABYJUB_FIELD_PRIME"

section \<open>Modular arithmetic\<close>

text \<open>Division of \<open>bigint\<close>s truncates toward zero.\<close>

definition bigint_div :: "int \<Rightarrow> int \<Rightarrow> int" where
  "bigint_div n d = sgn n * sgn d * (\<bar>n\<bar> div \<bar>d\<bar>)"

lemma bigint_div_rest: "n - bigint_div n d * d = sgn n * (\<bar>n\<bar> mod \<bar>d\<bar>)"
proof -
  have "bigint_div n d * d = sgn n * (\<bar>d\<bar> * (\<bar>n\<bar> div \<bar>d\<bar>))"
    by (simp add: bigint_div_def abs_sgn algebra_simps)
  moreover have "n = sgn n * \<bar>n\<bar>" by (simp add: abs_sgn mult.commute)
  moreover have "\<bar>n\<bar> - \<bar>d\<bar> * (\<bar>n\<bar> div \<bar>d\<bar>) = \<bar>n\<bar> mod \<bar>d\<bar>" by (simp add: minus_mult_div_eq_mod)
  ultimately show ?thesis by (metis right_diff_distrib')
qed

text \<open>The loop of the extended Euclidean algorithm.\<close>

function egcd :: "int \<Rightarrow> int \<Rightarrow> int \<Rightarrow> int \<Rightarrow> int" where
  "egcd old_r r old_s s =
     (if r \<noteq> 0
      then let q = bigint_div old_r r in egcd r (old_r - q * r) s (old_s - q * s)
      else old_s)"
  by pat_completeness auto
termination
proof (relation "measure (\<lambda>(old_r, r, old_s, s). nat \<bar>r\<bar>)")
  fix old_r r old_s s q :: int
  assume r: "r \<noteq> 0" and q: "q = bigint_div old_r r"
  have "\<bar>old_r - q * r\<bar> = \<bar>sgn old_r\<bar> * (\<bar>old_r\<bar> mod \<bar>r\<bar>)"
    unfolding q bigint_div_rest using r by (simp add: abs_mult)
  also have "\<dots> < \<bar>r\<bar>" using r by (simp add: abs_sgn_eq)
  finally show "((r, old_r - q * r, s, old_s - q * s), old_r, r, old_s, s) \<in> measure (\<lambda>(old_r, r, old_s, s). nat \<bar>r\<bar>)"
    using r by simp
qed simp

declare egcd.simps [simp del]

definition modInverse :: "int \<Rightarrow> int \<Rightarrow> int" where
  "modInverse a p = bigint_mod (egcd a p 1 0) p"

function modPow_loop :: "int \<Rightarrow> int \<Rightarrow> int \<Rightarrow> int" where
  "modPow_loop result base exp =
     (if exp > 0
      then modPow_loop (if exp AND 1 \<noteq> 0 then bjj_mod (result * base) else result)
             (bjj_mod (base * base)) (drop_bit 1 exp)
      else result)"
  by pat_completeness auto
termination
  by (relation "measure (\<lambda>(result, base, exp). nat exp)") (auto simp: drop_bit_eq_div)

declare modPow_loop.simps [simp del]

definition modPow :: "int \<Rightarrow> int \<Rightarrow> int" where
  "modPow base exp = modPow_loop 1 (bjj_mod base) exp"

section \<open>Curve operations\<close>

definition isIdentity :: "BabyJubPoint \<Rightarrow> bool" where
  "isIdentity point \<longleftrightarrow> px point = 0 \<and> py point = 1"

definition isOnBabyJubCurve :: "BabyJubPoint \<Rightarrow> bool" where
  "isOnBabyJubCurve point =
     (if isIdentity point then True
      else
        (let x2 = bjj_mod (px point * px point);
             y2 = bjj_mod (py point * py point);
             lhs = bjj_mod (BABYJUB_A * x2 + y2);
             rhs = bjj_mod (1 + BABYJUB_D * x2 * y2)
         in lhs = rhs))"

definition babyJubAdd :: "BabyJubPoint \<Rightarrow> BabyJubPoint \<Rightarrow> BabyJubPoint" where
  "babyJubAdd p1 p2 =
     (let x1 = px p1; y1 = py p1; x2 = px p2; y2 = py p2;
          x1x2 = bjj_mod (x1 * x2);
          y1y2 = bjj_mod (y1 * y2);
          dx1x2y1y2 = bjj_mod (BABYJUB_D * x1x2 * y1y2);
          x3Num = bjj_mod (x1 * y2 + y1 * x2);
          x3Den = bjj_mod (1 + dx1x2y1y2);
          y3Num = bjj_mod (y1y2 - BABYJUB_A * x1x2);
          y3Den = bjj_mod (1 - dx1x2y1y2);
          x3 = bjj_mod (x3Num * modInverse x3Den BABYJUB_FIELD_PRIME);
          y3 = bjj_mod (y3Num * modInverse y3Den BABYJUB_FIELD_PRIME)
      in \<lparr> px = x3, py = y3 \<rparr>)"

definition babyJubDouble :: "BabyJubPoint \<Rightarrow> BabyJubPoint" where
  "babyJubDouble point = babyJubAdd point point"

text \<open>The loop of the Montgomery ladder; the counter of the model is \<open>i + 1\<close>.\<close>

fun ladder :: "nat \<Rightarrow> int \<Rightarrow> BabyJubPoint \<Rightarrow> BabyJubPoint \<Rightarrow> BabyJubPoint" where
  "ladder 0 scalar r0 r1 = r0"
| "ladder (Suc i) scalar r0 r1 =
     (let bit = drop_bit i scalar AND 1 in
      if bit = 1 then ladder i scalar (babyJubAdd r0 r1) (babyJubDouble r1)
      else ladder i scalar (babyJubDouble r0) (babyJubAdd r0 r1))"

definition babyJubMul :: "int \<Rightarrow> BabyJubPoint \<Rightarrow> BabyJubPoint" where
  "babyJubMul scalar0 point =
     (let scalar = bigint_mod scalar0 BABYJUB_ORDER in
      if scalar = 0 then BABYJUB_IDENTITY
      else if isIdentity point then BABYJUB_IDENTITY
      else
        (let bits = length (js_toString 2 scalar) in
         ladder bits scalar BABYJUB_IDENTITY point))"

definition babyJubNegate :: "BabyJubPoint \<Rightarrow> BabyJubPoint" where
  "babyJubNegate point =
     (if isIdentity point then point else \<lparr> px = bjj_mod (- px point), py = py point \<rparr>)"

section \<open>Square roots\<close>

text \<open>
  The loop that factors the powers of two out of \<open>p - 1\<close>. It is only entered with that positive
  number; the guard \<open>Q > 0\<close> makes the function total.
\<close>

function factor_twos :: "int \<Rightarrow> int \<Rightarrow> int \<times> int" where
  "factor_twos Q S = (if Q > 0 \<and> Q AND 1 = 0 then factor_twos (drop_bit 1 Q) (S + 1) else (Q, S))"
  by pat_completeness auto
termination
  by (relation "measure (\<lambda>(Q, S). nat Q)") (auto simp: drop_bit_eq_div)

declare factor_twos.simps [simp del]

partial_function (option) find_nonresidue :: "int \<Rightarrow> int option" where
  "find_nonresidue z =
     (if modPow z ((BABYJUB_FIELD_PRIME - 1) div 2) \<noteq> BABYJUB_FIELD_PRIME - 1
      then find_nonresidue (z + 1) else Some z)"

partial_function (option) find_order :: "int \<Rightarrow> int \<Rightarrow> int option" where
  "find_order temp i = (if temp \<noteq> 1 then find_order (bjj_mod (temp * temp)) (i + 1) else Some i)"

text \<open>A negative shift amount of \<open>1n << k\<close> shifts to the right.\<close>

definition bigint_shl :: "int \<Rightarrow> int \<Rightarrow> int" where
  "bigint_shl x k = (if 0 \<le> k then push_bit (nat k) x else drop_bit (nat (- k)) x)"

partial_function (option) sqrt_loop :: "int \<Rightarrow> int \<Rightarrow> int \<Rightarrow> int \<Rightarrow> int option" where
  "sqrt_loop M c t R =
     (if t = 1 then Some R
      else Option.bind (find_order (bjj_mod (t * t)) 1) (\<lambda>i.
        let b = modPow c (bigint_shl 1 (M - i - 1)); c' = bjj_mod (b * b)
        in sqrt_loop i c' (bjj_mod (t * c')) (bjj_mod (R * b))))"

definition modSqrt :: "int \<Rightarrow> int result option" where
  "modSqrt n =
     (if n = 0 then Some (Inr 0)
      else
        (let p = BABYJUB_FIELD_PRIME; euler = modPow n ((p - 1) div 2) in
         if euler \<noteq> 1 then Some (Inl (Error ''No square root exists (not a quadratic residue)''))
         else
           (let (Q, S) = factor_twos (p - 1) 0 in
            Option.bind (find_nonresidue 2) (\<lambda>z.
            Option.bind (sqrt_loop S (modPow z Q) (modPow n Q) (modPow n ((Q + 1) div 2))) (\<lambda>R.
            Some (Inr R))))))"

section \<open>Compression\<close>

definition babyJubCompress :: "BabyJubPoint \<Rightarrow> bytes" where
  "babyJubCompress point =
     (let bs = snd (store_le 32 0 (py point) (replicate 32 0)) in
      if px point AND 1 = 1 then bs[31 := bs ! 31 OR 0x80] else bs)"

definition babyJubDecompress :: "bytes \<Rightarrow> BabyJubPoint result option" where
  "babyJubDecompress bs =
     (if length bs \<noteq> 32 then Some (Inl (Error ''Expected 32 bytes for compressed Baby Jubjub point''))
      else
        (let xSign = (bs ! 31 AND 0x80 \<noteq> 0);
             cleanBytes = bs[31 := bs ! 31 AND 0x7f];
             y = shift_in (rev cleanBytes);
             y2 = bjj_mod (y * y);
             num = bjj_mod (1 - y2);
             den = bjj_mod (BABYJUB_A - BABYJUB_D * y2);
             x2 = bjj_mod (num * modInverse den BABYJUB_FIELD_PRIME)
         in map_option (\<lambda>root. js_bind root (\<lambda>x0.
              let xIsOdd = (x0 AND 1 = 1);
                  x = (if xIsOdd \<noteq> xSign then bjj_mod (- x0) else x0);
                  point = \<lparr> px = x, py = y \<rparr>
              in if \<not> isOnBabyJubCurve point
                 then Inl (Error ''Decompressed point is not on the Baby Jubjub curve'')
                 else Inr point)) (modSqrt x2)))"

section \<open>Keys\<close>

definition babyJubScalarFromBytes :: "bytes \<Rightarrow> int" where
  "babyJubScalarFromBytes bs = bigint_mod (shift_in bs) BABYJUB_ORDER"

definition babyJubScalarToBytes :: "int \<Rightarrow> bytes" where
  "babyJubScalarToBytes scalar = snd (store_be 32 (bigint_mod scalar BABYJUB_ORDER) (replicate 32 0))"

record bjj_keypair =
  bk_privKey :: int
  bk_pubKey :: BabyJubPoint

text \<open>The random bytes are an argument.\<close>

definition generateBabyJubKeyPair :: "bytes \<Rightarrow> bjj_keypair" where
  "generateBabyJubKeyPair rnd =
     (let privKey = babyJubScalarFromBytes rnd in
      \<lparr> bk_privKey = privKey, bk_pubKey = babyJubMul privKey BABYJUB_BASE8 \<rparr>)"

definition deriveBabyJubKeyFromSeed :: "sha \<Rightarrow> bytes \<Rightarrow> bjj_keypair" where
  "deriveBabyJubKeyFromSeed H seed =
     (let privKey = babyJubScalarFromBytes (H seed) in
      \<lparr> bk_privKey = privKey, bk_pubKey = babyJubMul privKey BABYJUB_BASE8 \<rparr>)"

section \<open>Inverses and powers\<close>

lemma bjj_prime_pos: "0 < BABYJUB_FIELD_PRIME"
  by (simp add: BABYJUB_FIELD_PRIME_def)

lemma bjj_mod_eq: "bjj_mod n = n mod BABYJUB_FIELD_PRIME"
  by (rule bigint_mod_eq [OF bjj_prime_pos])

lemma egcd_bezout:
  "0 \<le> old_r \<Longrightarrow> 0 \<le> r \<Longrightarrow> p dvd old_s * a - old_r \<Longrightarrow> p dvd s * a - r \<Longrightarrow>
   p dvd egcd old_r r old_s s * a - gcd old_r r"
proof (induction old_r r old_s s rule: egcd.induct)
  case (1 old_r r old_s s)
  show ?case
  proof (cases "r = 0")
    case True
    with 1 show ?thesis by (simp add: egcd.simps [of old_r 0])
  next
    case False
    let ?q = "bigint_div old_r r"
    have q: "old_r - ?q * r = old_r mod r"
      using bigint_div_rest [of old_r r] "1.prems"(1,2) by (cases "old_r = 0") (simp_all add: sgn_if)
    have "(old_s - ?q * s) * a - (old_r - ?q * r) = (old_s * a - old_r) - ?q * (s * a - r)"
      by (simp add: algebra_simps)
    then have "p dvd (old_s - ?q * s) * a - (old_r - ?q * r)" using "1.prems"(3,4) by (simp only: dvd_diff dvd_mult)
    moreover have "0 \<le> old_r - ?q * r" using "1.prems"(2) False by (simp add: q)
    ultimately have "p dvd egcd r (old_r - ?q * r) s (old_s - ?q * s) * a - gcd r (old_r - ?q * r)"
      using "1.IH" [OF False refl] "1.prems"(2,4) by blast
    moreover have "gcd r (old_r - ?q * r) = gcd old_r r" by (simp add: q gcd_red_int [of old_r r])
    ultimately show ?thesis using False by (simp add: egcd.simps [of old_r r] Let_def)
  qed
qed

lemma modInverse_correct:
  assumes "p > 1" "0 \<le> a" "coprime a p"
  shows "(a * modInverse a p) mod p = 1"
proof -
  have "p dvd egcd a p 1 0 * a - gcd a p" using assms by (intro egcd_bezout) simp_all
  with assms have "(egcd a p 1 0 * a) mod p = 1" by (simp add: mod_eq_dvd_iff [symmetric] coprime_iff_gcd_eq_1)
  then show ?thesis using assms(1) by (simp add: modInverse_def bigint_mod_eq mod_mult_right_eq mult.commute)
qed

lemma modPow_loop_eq:
  "(result * base ^ nat exp) mod BABYJUB_FIELD_PRIME = modPow_loop result base exp mod BABYJUB_FIELD_PRIME"
proof (induction result base exp rule: modPow_loop.induct)
  case (1 result base exp)
  let ?p = BABYJUB_FIELD_PRIME
  show ?case
  proof (cases "exp > 0")
    case True
    let ?res = "if exp AND 1 \<noteq> 0 then bjj_mod (result * base) else result" and ?n = "nat (exp div 2)"
    have "nat exp = 2 * ?n + (if odd exp then 1 else 0)" using True by (auto simp: nat_eq_iff)
    then have "result * base ^ nat exp = (if odd exp then result * base else result) * (base * base) ^ ?n"
      by (simp add: power_add power_mult power2_eq_square mult_ac)
    also have "\<dots> mod ?p = (?res * bjj_mod (base * base) ^ ?n) mod ?p"
      by (auto simp: bjj_mod_eq and_one_eq odd_iff_mod_2_eq_one mod_simps power_mod
          intro: mod_mult_cong [OF _ refl] mod_mult_cong)
    finally show ?thesis
      using "1.IH" [OF True] True by (simp add: modPow_loop.simps [of result base exp] drop_bit_eq_div)
  qed (simp add: modPow_loop.simps [of result base exp])
qed

lemma modPow_eq: "modPow b e mod BABYJUB_FIELD_PRIME = b ^ nat e mod BABYJUB_FIELD_PRIME"
  using modPow_loop_eq [of 1 "bjj_mod b" e] by (simp add: modPow_def bjj_mod_eq power_mod)

section \<open>The curve equation\<close>

definition curve_poly :: "int \<Rightarrow> int \<Rightarrow> int" where
  "curve_poly x y = BABYJUB_A * x\<^sup>2 + y\<^sup>2 - 1 - BABYJUB_D * x\<^sup>2 * y\<^sup>2"

lemma on_curve_iff: "isOnBabyJubCurve pt \<longleftrightarrow> BABYJUB_FIELD_PRIME dvd curve_poly (px pt) (py pt)"
proof -
  let ?p = BABYJUB_FIELD_PRIME and ?x = "px pt" and ?y = "py pt"
  have l: "(BABYJUB_A * (?x * ?x mod ?p) + ?y * ?y mod ?p) mod ?p = (BABYJUB_A * ?x\<^sup>2 + ?y\<^sup>2) mod ?p"
    unfolding power2_eq_square by (intro mod_add_cong mod_mult_cong mod_mod_trivial refl)
  have r: "(1 + BABYJUB_D * (?x * ?x mod ?p) * (?y * ?y mod ?p)) mod ?p = (1 + BABYJUB_D * ?x\<^sup>2 * ?y\<^sup>2) mod ?p"
    unfolding power2_eq_square by (intro mod_add_cong mod_mult_cong mod_mod_trivial refl)
  have "isOnBabyJubCurve pt \<longleftrightarrow> isIdentity pt \<or> (BABYJUB_A * ?x\<^sup>2 + ?y\<^sup>2) mod ?p = (1 + BABYJUB_D * ?x\<^sup>2 * ?y\<^sup>2) mod ?p"
    unfolding isOnBabyJubCurve_def Let_def bjj_mod_eq l r by simp
  also have "\<dots> \<longleftrightarrow> isIdentity pt \<or> ?p dvd curve_poly ?x ?y"
    by (simp add: mod_eq_dvd_iff curve_poly_def algebra_simps)
  also have "\<dots> \<longleftrightarrow> ?p dvd curve_poly ?x ?y" by (auto simp: isIdentity_def curve_poly_def)
  finally show ?thesis .
qed

lemma base8_on_curve: "isOnBabyJubCurve BABYJUB_BASE8"
proof -
  have "curve_poly (px BABYJUB_BASE8) (py BABYJUB_BASE8) = BABYJUB_FIELD_PRIME *
    (- 62191403086110220425523875739154366399104739493086176760411877391021728267665268977561486253991563349659052214975873450642363203618916667247718507418654906232627965121794341471165202544569711297598876439959086001470022024015404635204)"
    by (simp add: curve_poly_def BABYJUB_BASE8_def BABYJUB_FIELD_PRIME_def BABYJUB_A_def BABYJUB_D_def)
  then show ?thesis by (simp add: on_curve_iff)
qed

text \<open>The polynomial identity behind the closure of the addition law.\<close>

lemma edwards_identity:
  fixes a d x1 y1 x2 y2 :: int
  defines "k \<equiv> d * x1 * x2 * y1 * y2" and "X \<equiv> x1 * y2 + y1 * x2" and "Y \<equiv> y1 * y2 - a * x1 * x2"
  shows "\<exists>c1 c2. a * X\<^sup>2 * (1 - k)\<^sup>2 + Y\<^sup>2 * (1 + k)\<^sup>2 - (1 + k)\<^sup>2 * (1 - k)\<^sup>2 - d * X\<^sup>2 * Y\<^sup>2 =
    c1 * (a * x1\<^sup>2 + y1\<^sup>2 - 1 - d * x1\<^sup>2 * y1\<^sup>2) + c2 * (a * x2\<^sup>2 + y2\<^sup>2 - 1 - d * x2\<^sup>2 * y2\<^sup>2)"
  unfolding k_def X_def Y_def by algebra

lemma edwards_quotient:
  fixes a d x3 y3 X Y k :: int
  shows "\<exists>c1 c2. ((1 + k) * (1 - k))\<^sup>2 * (a * x3\<^sup>2 + y3\<^sup>2 - 1 - d * x3\<^sup>2 * y3\<^sup>2) =
    (a * X\<^sup>2 * (1 - k)\<^sup>2 + Y\<^sup>2 * (1 + k)\<^sup>2 - (1 + k)\<^sup>2 * (1 - k)\<^sup>2 - d * X\<^sup>2 * Y\<^sup>2)
    + c1 * ((1 + k) * x3 - X) + c2 * ((1 - k) * y3 - Y)"
  by (intro exI [of _ "((1 + k) * x3 + X) * (a * (1 - k)\<^sup>2 - d * ((1 - k) * y3)\<^sup>2)"]
      exI [of _ "((1 - k) * y3 + Y) * ((1 + k)\<^sup>2 - d * X\<^sup>2)"]) algebra

definition add_k :: "BabyJubPoint \<Rightarrow> BabyJubPoint \<Rightarrow> int" where
  "add_k p1 p2 = BABYJUB_D * px p1 * px p2 * py p1 * py p2"

lemma quotient_dvd:
  assumes "p > 1" "coprime D p"
  shows "p dvd D * ((N mod p * modInverse (D mod p) p) mod p) - N"
proof -
  have "coprime (D mod p) p" using assms by (simp add: coprime_iff_gcd_eq_1 gcd.commute flip: gcd_red_int)
  then have i: "(D mod p * modInverse (D mod p) p) mod p = 1" using assms(1) by (intro modInverse_correct) simp_all
  have "(D * ((N mod p * modInverse (D mod p) p) mod p)) mod p = (D mod p * (N * modInverse (D mod p) p)) mod p"
    by (intro mod_mult_cong) (simp_all add: mod_simps)
  also have "\<dots> = ((D mod p * modInverse (D mod p) p) * N) mod p" by (simp only: mult_ac)
  also have "\<dots> = (((D mod p * modInverse (D mod p) p) mod p) * N) mod p" by (rule mod_mult_left_eq [symmetric])
  also have "\<dots> = N mod p" by (simp add: i)
  finally show ?thesis by (simp add: mod_eq_dvd_iff)
qed

lemma add_quotients:
  assumes "coprime (1 + add_k p1 p2) BABYJUB_FIELD_PRIME" "coprime (1 - add_k p1 p2) BABYJUB_FIELD_PRIME"
  shows "BABYJUB_FIELD_PRIME dvd (1 + add_k p1 p2) * px (babyJubAdd p1 p2) - (px p1 * py p2 + py p1 * px p2)"
    "BABYJUB_FIELD_PRIME dvd (1 - add_k p1 p2) * py (babyJubAdd p1 p2) - (py p1 * py p2 - BABYJUB_A * px p1 * px p2)"
proof -
  let ?p = BABYJUB_FIELD_PRIME
  have p: "?p > 1" by (simp add: BABYJUB_FIELD_PRIME_def)
  have k: "BABYJUB_D * (px p1 * px p2 mod ?p) * (py p1 * py p2 mod ?p) mod ?p = add_k p1 p2 mod ?p"
    unfolding add_k_def by (metis (no_types, opaque_lifting) mod_mult_cong mod_mult_right_eq mod_mod_trivial mult.assoc)
  have y: "(py p1 * py p2 mod ?p - BABYJUB_A * (px p1 * px p2 mod ?p)) mod ?p =
      (py p1 * py p2 - BABYJUB_A * px p1 * px p2) mod ?p"
    unfolding mult.assoc by (intro mod_diff_cong mod_mult_cong mod_mod_trivial refl)
  have "px (babyJubAdd p1 p2) = ((px p1 * py p2 + py p1 * px p2) mod ?p * modInverse ((1 + add_k p1 p2) mod ?p) ?p) mod ?p"
    "py (babyJubAdd p1 p2) = ((py p1 * py p2 - BABYJUB_A * px p1 * px p2) mod ?p * modInverse ((1 - add_k p1 p2) mod ?p) ?p) mod ?p"
    unfolding babyJubAdd_def Let_def bjj_mod_eq k y by (simp_all add: mod_simps)
  then show "?p dvd (1 + add_k p1 p2) * px (babyJubAdd p1 p2) - (px p1 * py p2 + py p1 * px p2)"
    "?p dvd (1 - add_k p1 p2) * py (babyJubAdd p1 p2) - (py p1 * py p2 - BABYJUB_A * px p1 * px p2)"
    using quotient_dvd [OF p assms(1)] quotient_dvd [OF p assms(2)] by metis+
qed

lemma add_on_curve:
  assumes "isOnBabyJubCurve p1" "isOnBabyJubCurve p2"
    "coprime (1 + add_k p1 p2) BABYJUB_FIELD_PRIME" "coprime (1 - add_k p1 p2) BABYJUB_FIELD_PRIME"
  shows "isOnBabyJubCurve (babyJubAdd p1 p2)"
proof -
  let ?p = BABYJUB_FIELD_PRIME and ?k = "add_k p1 p2" and ?a = BABYJUB_A and ?d = BABYJUB_D
  let ?X = "px p1 * py p2 + py p1 * px p2" and ?Y = "py p1 * py p2 - ?a * px p1 * px p2"
  let ?E = "?a * ?X\<^sup>2 * (1 - ?k)\<^sup>2 + ?Y\<^sup>2 * (1 + ?k)\<^sup>2 - (1 + ?k)\<^sup>2 * (1 - ?k)\<^sup>2 - ?d * ?X\<^sup>2 * ?Y\<^sup>2"
  let ?x = "px (babyJubAdd p1 p2)" and ?y = "py (babyJubAdd p1 p2)"
  have "?p dvd curve_poly (px p1) (py p1)" "?p dvd curve_poly (px p2) (py p2)" using assms by (simp_all add: on_curve_iff)
  then have E: "?p dvd ?E"
    using edwards_identity [of ?a "px p1" "py p2" "py p1" "px p2" ?d]
    unfolding add_k_def curve_poly_def by (elim exE) (simp only: dvd_add dvd_mult)
  obtain c1 c2 where "((1 + ?k) * (1 - ?k))\<^sup>2 * curve_poly ?x ?y = ?E + c1 * ((1 + ?k) * ?x - ?X) + c2 * ((1 - ?k) * ?y - ?Y)"
    using edwards_quotient [of ?k ?a ?x ?y ?d ?X ?Y] unfolding curve_poly_def by blast
  then have "?p dvd ((1 + ?k) * (1 - ?k))\<^sup>2 * curve_poly ?x ?y"
    using E add_quotients [OF assms(3,4)] by (simp only: dvd_add dvd_mult)
  moreover have "coprime (((1 + ?k) * (1 - ?k))\<^sup>2) ?p" using assms(3,4) by simp
  ultimately show ?thesis by (simp add: on_curve_iff coprime_dvd_mult_right_iff coprime_commute)
qed

section \<open>The ladder\<close>

text \<open>Repeated addition, the reference for the scalar multiplication.\<close>

primrec nmul :: "nat \<Rightarrow> BabyJubPoint \<Rightarrow> BabyJubPoint" where
  "nmul 0 pt = BABYJUB_IDENTITY"
| "nmul (Suc n) pt = babyJubAdd (nmul n pt) pt"

text \<open>The group law on the multiples of a point.\<close>

definition power_assoc :: "BabyJubPoint \<Rightarrow> bool" where
  "power_assoc pt \<longleftrightarrow> nmul 1 pt = pt \<and> (\<forall>m n. babyJubAdd (nmul m pt) (nmul n pt) = nmul (m + n) pt)"

lemma ladder_correct:
  assumes "power_assoc pt" "0 \<le> scalar"
  shows "m = nat (scalar div 2 ^ i) \<Longrightarrow> ladder i scalar (nmul m pt) (nmul (m + 1) pt) = nmul (nat scalar) pt"
proof (induction i arbitrary: m)
  case (Suc i)
  let ?b = "scalar div 2 ^ i mod 2"
  have bit: "drop_bit i scalar AND 1 = ?b" by (simp add: drop_bit_eq_div and_one_eq)
  have m: "int m = scalar div 2 ^ i div 2"
    using Suc.prems assms(2) by (simp add: pos_imp_zdiv_nonneg_iff zdiv_zmult2_eq power_Suc2 del: power_Suc)
  have next_m: "nat (scalar div 2 ^ i) = 2 * m + nat ?b"
  proof -
    have "0 \<le> scalar div 2 ^ i" using assms(2) by (simp add: pos_imp_zdiv_nonneg_iff)
    then show ?thesis using m mult_div_mod_eq [of 2 "scalar div 2 ^ i"] by (simp add: nat_eq_iff)
  qed
  have add: "babyJubAdd (nmul x pt) (nmul y pt) = nmul (x + y) pt" for x y
    using assms(1) by (simp add: power_assoc_def)
  show ?case
  proof (cases "?b = 1")
    case True
    then have "2 * m + 1 = nat (scalar div 2 ^ i)" using next_m by simp
    from Suc.IH [OF this] True show ?thesis
      by (simp add: bit Let_def add babyJubDouble_def mult_2 del: nmul.simps)
  next
    case False
    then have "?b = 0" by (metis mod_2_eq_odd of_bool_def)
    with next_m have "2 * m = nat (scalar div 2 ^ i)" by simp
    from Suc.IH [OF this] False show ?thesis
      by (simp add: bit Let_def add babyJubDouble_def mult_2 del: nmul.simps)
  qed
qed simp

lemma radix2_length: "n < 2 ^ length (radix_str 2 n)"
proof (induction n rule: less_induct)
  case (less n)
  show ?case
  proof (cases "n < 2")
    case True
    have "1 \<le> length (radix_str 2 n)" by (simp add: Suc_le_eq)
    then have "(2::nat) ^ 1 \<le> 2 ^ length (radix_str 2 n)" by (rule power_increasing) simp
    with True show ?thesis by simp
  next
    case False
    then have "n div 2 < 2 ^ length (radix_str 2 (n div 2))" by (intro less) simp
    then have "n < 2 * 2 ^ length (radix_str 2 (n div 2))" by simp
    with False show ?thesis by (simp add: radix_str.simps [of 2 n])
  qed
qed

lemma nmul_identity: "isIdentity pt \<Longrightarrow> power_assoc pt \<Longrightarrow> nmul n pt = BABYJUB_IDENTITY"
proof (induction n)
  case (Suc n)
  have pt: "pt = BABYJUB_IDENTITY" using Suc.prems(1) by (simp add: isIdentity_def BABYJUB_IDENTITY_def)
  have "nmul 1 pt = pt" using Suc.prems(2) by (simp add: power_assoc_def)
  with Suc pt show ?case by simp
qed simp

lemma babyJubMul_eq:
  assumes "power_assoc pt"
  shows "babyJubMul scalar pt = nmul (nat (scalar mod BABYJUB_ORDER)) pt"
proof -
  let ?s = "scalar mod BABYJUB_ORDER"
  have s: "0 \<le> ?s" using order_pos(1) by simp
  have "nat ?s < 2 ^ length (radix_str 2 (nat ?s))" by (rule radix2_length)
  then have "?s < 2 ^ length (js_toString 2 ?s)"
    using s by (simp add: js_toString_def nat_less_iff)
  then have z: "0 = nat (?s div 2 ^ length (js_toString 2 ?s))" using s by simp
  have "nmul 1 pt = pt" using assms by (simp add: power_assoc_def)
  with ladder_correct [OF assms s z] show ?thesis
    using nmul_identity [OF _ assms] by (simp add: babyJubMul_def bigint_mod_eq [OF order_pos(1)] Let_def)
qed

section \<open>Compression\<close>

lemma modPow_range: "0 \<le> modPow b e" "modPow b e < BABYJUB_FIELD_PRIME"
proof -
  have "0 \<le> r \<and> r < BABYJUB_FIELD_PRIME \<Longrightarrow> 0 \<le> modPow_loop r b e \<and> modPow_loop r b e < BABYJUB_FIELD_PRIME" for r b e
  proof (induction r b e rule: modPow_loop.induct)
    case (1 r b e)
    then show ?case using bjj_prime_pos by (simp add: modPow_loop.simps [of r b e] bjj_mod_eq)
  qed
  moreover have "1 < BABYJUB_FIELD_PRIME" by (simp add: BABYJUB_FIELD_PRIME_def)
  ultimately show "0 \<le> modPow b e" "modPow b e < BABYJUB_FIELD_PRIME" by (simp_all add: modPow_def)
qed

lemma sqrt_loop_range:
  "sqrt_loop M c t R = Some x \<Longrightarrow> 0 \<le> R \<and> R < BABYJUB_FIELD_PRIME \<longrightarrow> 0 \<le> x \<and> x < BABYJUB_FIELD_PRIME"
proof (rule sqrt_loop.raw_induct [of "\<lambda>M c t R x. 0 \<le> R \<and> R < BABYJUB_FIELD_PRIME \<longrightarrow> 0 \<le> x \<and> x < BABYJUB_FIELD_PRIME"])
  fix rec M c t R x
  assume IH: "\<And>M c t R x. rec M c t R = Some x \<Longrightarrow> 0 \<le> R \<and> R < BABYJUB_FIELD_PRIME \<longrightarrow> 0 \<le> x \<and> x < BABYJUB_FIELD_PRIME"
    and step: "(if t = 1 then Some R
      else Option.bind (find_order (bjj_mod (t * t)) 1) (\<lambda>i.
        let b = modPow c (bigint_shl 1 (M - i - 1)); c' = bjj_mod (b * b)
        in rec i c' (bjj_mod (t * c')) (bjj_mod (R * b)))) = Some x"
  show "0 \<le> R \<and> R < BABYJUB_FIELD_PRIME \<longrightarrow> 0 \<le> x \<and> x < BABYJUB_FIELD_PRIME"
  proof (cases "t = 1")
    case False
    with step obtain M' c' t' b where "rec M' c' t' (bjj_mod (R * b)) = Some x"
      by (auto simp: Let_def bind_eq_Some_conv)
    from IH [OF this] show ?thesis using bjj_prime_pos by (simp add: bjj_mod_eq)
  qed (use step in simp)
qed simp

lemma modSqrt_range: "modSqrt n = Some (Inr x) \<Longrightarrow> 0 \<le> x \<and> x < BABYJUB_FIELD_PRIME"
  using bjj_prime_pos sqrt_loop_range modPow_range
  by (fastforce simp: modSqrt_def Let_def bind_eq_Some_conv split: if_splits prod.splits)

lemma sign_bit_split:
  fixes w :: byte
  shows "(if w AND 0x80 \<noteq> 0 then (w AND 0x7f) OR 0x80 else w AND 0x7f) = w"
proof -
  have e: "(0x80 :: byte) = 2 ^ 7" by simp
  have "w AND 0x80 = (if bit w 7 then 0x80 else 0)"
    unfolding e by (rule bit_word_eqI) (auto simp only: bit_and_iff bit_exp_iff if_True if_False bit_0_eq bot_apply bot_bool_def split: if_splits)
  moreover have "w = (w AND 0x7f) OR (w AND 0x80)"
  proof -
    have "(0x7f OR 0x80 :: byte) = - 1" by (rule word_uint_eqI) (simp add: unsigned_minus_1_eq_mask mask_eq_exp_minus_1)
    then show ?thesis unfolding bit.conj_disj_distrib [symmetric] by (simp only: bit.conj_one_right)
  qed
  ultimately show ?thesis by (cases "bit w 7") auto
qed

lemma compress_bytes:
  "babyJubCompress pt = (let bs = le_bytes 32 (py pt) in if odd (px pt) then bs[31 := bs ! 31 OR 0x80] else bs)"
  by (simp add: babyJubCompress_def store_le_eq and_one_eq odd_iff_mod_2_eq_one Let_def)

lemma neg_parity:
  assumes "0 < x" "x < BABYJUB_FIELD_PRIME"
  shows "odd (bjj_mod (- x)) \<longleftrightarrow> even x" "bjj_mod (- x) = BABYJUB_FIELD_PRIME - x"
proof -
  have p: "bjj_mod (- x) = BABYJUB_FIELD_PRIME - x"
    using assms by (simp add: bjj_mod_eq zmod_zminus1_eq_if)
  moreover have "odd BABYJUB_FIELD_PRIME" by (simp add: BABYJUB_FIELD_PRIME_def)
  ultimately show "odd (bjj_mod (- x)) \<longleftrightarrow> even x" by simp
  show "bjj_mod (- x) = BABYJUB_FIELD_PRIME - x" by (rule p)
qed

text \<open>What a successful decompression returns.\<close>

lemma decompress_cases:
  assumes "babyJubDecompress bs = Some (Inr pt)"
  shows "length bs = 32" "isOnBabyJubCurve pt" "py pt = le_val (bs[31 := bs ! 31 AND 0x7f])"
    "0 \<le> px pt" "px pt < BABYJUB_FIELD_PRIME" "px pt \<noteq> 0 \<Longrightarrow> odd (px pt) \<longleftrightarrow> bs ! 31 AND 0x80 \<noteq> 0"
proof -
  let ?sign = "bs ! 31 AND 0x80 \<noteq> 0" and ?y = "le_val (bs[31 := bs ! 31 AND 0x7f])"
  show len: "length bs = 32" using assms by (auto simp: babyJubDecompress_def split: if_splits)
  let ?pt = "\<lambda>x0. \<lparr> px = (if (x0 AND 1 = 1) \<noteq> ?sign then bjj_mod (- x0) else x0), py = ?y \<rparr>"
  obtain n where "babyJubDecompress bs = map_option (\<lambda>root. js_bind root (\<lambda>x0.
      if \<not> isOnBabyJubCurve (?pt x0) then Inl (Error ''Decompressed point is not on the Baby Jubjub curve'')
      else Inr (?pt x0))) (modSqrt n)"
    using len unfolding babyJubDecompress_def Let_def shift_in_rev by auto
  with assms obtain x0 where x0: "modSqrt n = Some (Inr x0)" and pt: "pt = ?pt x0" and on: "isOnBabyJubCurve pt"
    by (auto simp: js_bind_Inr_iff simp del: BabyJubPoint.simps split: if_split_asm)
  show "isOnBabyJubCurve pt" by (rule on)
  show "py pt = ?y" by (simp add: pt)
  have r: "0 \<le> x0" "x0 < BABYJUB_FIELD_PRIME" using modSqrt_range [OF x0] by auto
  then show "0 \<le> px pt" "px pt < BABYJUB_FIELD_PRIME" using bjj_prime_pos by (auto simp: pt bjj_mod_eq)
  have odd: "(x0 AND 1 = 1) \<longleftrightarrow> odd x0" by (simp add: and_one_eq odd_iff_mod_2_eq_one)
  show "px pt \<noteq> 0 \<Longrightarrow> odd (px pt) \<longleftrightarrow> ?sign"
  proof (cases "x0 = 0")
    case True
    then have "px pt = 0" by (simp add: pt bjj_mod_eq)
    then show "px pt \<noteq> 0 \<Longrightarrow> ?thesis" by simp
  next
    case False
    with r neg_parity [of x0] show ?thesis by (auto simp: pt odd)
  qed
qed

lemma compress_decompress:
  assumes "babyJubDecompress bs = Some (Inr pt)" "px pt \<noteq> 0"
  shows "babyJubCompress pt = bs"
proof -
  note d = decompress_cases [OF assms(1)]
  let ?c = "bs[31 := bs ! 31 AND 0x7f]"
  have "le_bytes 32 (py pt) = ?c" using d(1) by (simp add: d(3) le_bytes_le_val)
  then have "babyJubCompress pt = (if odd (px pt) then ?c[31 := ?c ! 31 OR 0x80] else ?c)"
    by (simp add: compress_bytes Let_def)
  also have "\<dots> = bs[31 := (if bs ! 31 AND 0x80 \<noteq> 0 then (bs ! 31 AND 0x7f) OR 0x80 else bs ! 31 AND 0x7f)]"
    using d(1) d(6) [OF assms(2)] by simp
  finally show ?thesis by (simp only: sign_bit_split list_update_id)
qed

lemma sign_bit_small: "0 \<le> k \<Longrightarrow> k < 128 \<Longrightarrow> (word_of_int k :: byte) AND 0x80 = 0"
proof -
  assume "0 \<le> k" "k < 128"
  then have "k div 2 ^ 7 = 0" by (intro div_pos_pos_trivial) simp_all
  then have "\<not> bit k 7" by (simp add: bit_iff_odd)
  then have "\<not> bit (word_of_int k :: byte) 7" by (simp add: bit_word_of_int_iff)
  then show ?thesis using and_exp_eq_0_iff_not_bit [of "word_of_int k :: byte" 7] by simp
qed

text \<open>The sign and the number can be read back from the bytes.\<close>

lemma compress_decode:
  assumes "0 \<le> py pt" "py pt < 2 ^ 255"
  shows "odd (px pt) \<longleftrightarrow> babyJubCompress pt ! 31 AND 0x80 \<noteq> 0"
    "py pt = le_val ((babyJubCompress pt)[31 := babyJubCompress pt ! 31 AND 0x7f])"
proof -
  let ?bs = "le_bytes 32 (py pt)" and ?k = "py pt div 256 ^ 31"
  have w: "?bs ! 31 = word_of_int ?k" by (simp add: le_bytes_nth)
  have "0 \<le> ?k" "?k < 128" using assms by (simp_all add: pos_imp_zdiv_nonneg_iff zdiv_mono2 div_less_iff_less_mult)
  then have s: "?bs ! 31 AND 0x80 = 0" unfolding w by (rule sign_bit_small)
  then have c: "?bs ! 31 AND 0x7f = ?bs ! 31" using sign_bit_split [of "?bs ! 31"] by simp
  have v: "le_val ?bs = py pt" using assms by (simp add: le_val_le_bytes)
  have o1: "(?bs ! 31 OR 0x80) AND 0x80 \<noteq> 0" by (simp add: bit.conj_disj_distrib2)
  have o2: "(?bs ! 31 OR 0x80) AND 0x7f = ?bs ! 31" by (simp add: bit.conj_disj_distrib2 c)
  show "odd (px pt) \<longleftrightarrow> babyJubCompress pt ! 31 AND 0x80 \<noteq> 0" using s o1 by (simp add: compress_bytes Let_def)
  show "py pt = le_val ((babyJubCompress pt)[31 := babyJubCompress pt ! 31 AND 0x7f])"
    using o2 c v by (simp add: compress_bytes Let_def list_update_id)
qed

text \<open>When \<open>y\<^sup>2\<close> is one the equation gives \<open>x = 0\<close>, whatever the sign bit says.\<close>

lemma decompress_unit:
  assumes "length bs = 32" "(le_val (bs[31 := bs ! 31 AND 0x7f]))\<^sup>2 mod BABYJUB_FIELD_PRIME = 1"
  shows "babyJubDecompress bs = Some (Inr \<lparr> px = 0, py = le_val (bs[31 := bs ! 31 AND 0x7f]) \<rparr>)"
proof -
  let ?y = "le_val (bs[31 := bs ! 31 AND 0x7f])"
  have y2: "bjj_mod (?y * ?y) = 1" using assms(2) by (simp add: bjj_mod_eq power2_eq_square)
  have z: "bjj_mod 0 = 0" "bjj_mod (- 0) = 0" by (simp_all add: bjj_mod_eq)
  have "isOnBabyJubCurve \<lparr> px = 0, py = ?y \<rparr>"
    using y2 z by (simp add: isOnBabyJubCurve_def Let_def)
  moreover have "modSqrt 0 = Some (Inr 0)" by (simp add: modSqrt_def)
  ultimately show ?thesis
    using assms(1) y2 z unfolding babyJubDecompress_def Let_def shift_in_rev by (simp add: if_cancel)
qed

section \<open>Scalars\<close>

lemma scalar_bytes_roundtrip: "babyJubScalarFromBytes (babyJubScalarToBytes s) = s mod BABYJUB_ORDER"
proof -
  have "s mod BABYJUB_ORDER mod 256 ^ 32 = s mod BABYJUB_ORDER"
    by (rule mod_pos_pos_trivial) (use order_pos pos_mod_bound [of BABYJUB_ORDER s] in \<open>auto simp del: pos_mod_bound\<close>)
  then show ?thesis
    using order_pos(1)
    by (simp only: babyJubScalarFromBytes_def babyJubScalarToBytes_def bigint_mod_eq store_be_eq length_replicate
        order_refl snd_conv drop_replicate diff_self_eq_0 replicate_0 append_Nil2 shift_in_be_val be_val_be_bytes mod_mod_trivial)
qed

section \<open>Properties\<close>

text \<open>
  (C37) The modular inverse: for a number coprime to the modulus the extended Euclidean loop ends
  and returns the inverse, reduced.
\<close>

theorem modInverse_inverse:
  assumes "p > 1" "0 \<le> a" "coprime a p"
  shows "(a * modInverse a p) mod p = 1 \<and> 0 \<le> modInverse a p \<and> modInverse a p < p"
  using modInverse_correct [OF assms] assms(1) by (simp add: modInverse_def bigint_mod_eq)

theorem modInverse_inverse_witness: "(12345 * modInverse 12345 BABYJUB_FIELD_PRIME) mod BABYJUB_FIELD_PRIME = 1"
proof -
  have "coprime 12345 BABYJUB_FIELD_PRIME" unfolding coprime_iff_gcd_eq_1 by code_simp
  with modInverse_inverse [of BABYJUB_FIELD_PRIME 12345] show ?thesis by (simp add: BABYJUB_FIELD_PRIME_def)
qed

text \<open>
  (C38) The addition law is closed: the sum of two points of the curve is a point of the curve,
  whenever the two denominators of the law are invertible.
\<close>

theorem babyJubAdd_closed:
  assumes "isOnBabyJubCurve p1" "isOnBabyJubCurve p2"
    "coprime (1 + BABYJUB_D * px p1 * px p2 * py p1 * py p2) BABYJUB_FIELD_PRIME"
    "coprime (1 - BABYJUB_D * px p1 * px p2 * py p1 * py p2) BABYJUB_FIELD_PRIME"
  shows "isOnBabyJubCurve (babyJubAdd p1 p2)"
  using assms by (intro add_on_curve) (simp_all add: add_k_def)

theorem babyJubAdd_closed_witness:
  "isOnBabyJubCurve (babyJubAdd BABYJUB_BASE8 \<lparr> px = 0, py = BABYJUB_FIELD_PRIME - 1 \<rparr>)"
proof (rule babyJubAdd_closed)
  show "isOnBabyJubCurve BABYJUB_BASE8" by (rule base8_on_curve)
  have "curve_poly 0 (BABYJUB_FIELD_PRIME - 1) = BABYJUB_FIELD_PRIME * (BABYJUB_FIELD_PRIME - 2)"
    by (simp add: curve_poly_def power2_eq_square algebra_simps)
  then show "isOnBabyJubCurve \<lparr> px = 0, py = BABYJUB_FIELD_PRIME - 1 \<rparr>" by (simp add: on_curve_iff)
qed simp_all


text \<open>The point of order two, for which the group law can be computed.\<close>

definition point2 :: BabyJubPoint where
  "point2 = \<lparr> px = 0, py = BABYJUB_FIELD_PRIME - 1 \<rparr>"

lemma point2_adds:
  "babyJubAdd BABYJUB_IDENTITY point2 = point2" "babyJubAdd point2 point2 = BABYJUB_IDENTITY"
  "babyJubAdd BABYJUB_IDENTITY BABYJUB_IDENTITY = BABYJUB_IDENTITY" "babyJubAdd point2 BABYJUB_IDENTITY = point2"
  by code_simp+

lemma nmul_point2: "nmul n point2 = (if even n then BABYJUB_IDENTITY else point2)"
  by (induction n) (auto simp: point2_adds)


text \<open>
  Compression keeps the \<open>y\<close> coordinate and the parity of \<open>x\<close>, and nothing else: two points
  whose \<open>y\<close> fits 255 bits have the same 32 bytes exactly when both agree.
\<close>

theorem babyJubCompress_injective:
  assumes "0 \<le> py p" "py p < 2 ^ 255" "0 \<le> py q" "py q < 2 ^ 255"
  shows "babyJubCompress p = babyJubCompress q \<longleftrightarrow> py p = py q \<and> odd (px p) = odd (px q)"
proof
  assume "babyJubCompress p = babyJubCompress q"
  then show "py p = py q \<and> odd (px p) = odd (px q)"
    using compress_decode [OF assms(1,2)] compress_decode [OF assms(3,4)] by metis
qed (simp add: compress_bytes)

theorem babyJubCompress_injective_witness: "babyJubCompress BABYJUB_IDENTITY \<noteq> babyJubCompress \<lparr> px = 3, py = 1 \<rparr>"
  using babyJubCompress_injective [of BABYJUB_IDENTITY "\<lparr> px = 3, py = 1 \<rparr>"] by (simp add: BABYJUB_IDENTITY_def)

text \<open>
  Decompression does not insist on the canonical encoding: the identity is also decoded from
  bytes with the sign bit set, and bytes of a \<open>y\<close> above the field prime are accepted and returned
  unreduced.
\<close>

theorem babyJubDecompress_noncanonical:
  "babyJubDecompress (le_bytes 32 1) = Some (Inr BABYJUB_IDENTITY) \<and>
   babyJubDecompress ((le_bytes 32 1)[31 := 0x80]) = Some (Inr BABYJUB_IDENTITY) \<and>
   babyJubDecompress (le_bytes 32 (BABYJUB_FIELD_PRIME + 1)) = Some (Inr \<lparr> px = 0, py = BABYJUB_FIELD_PRIME + 1 \<rparr>)"
proof (intro conjI)
  have b: "length (le_bytes 32 1) = 32" "(le_bytes 32 1) ! 31 = 0" by (simp_all add: le_bytes_nth)
  show "babyJubDecompress (le_bytes 32 1) = Some (Inr BABYJUB_IDENTITY)"
    using decompress_unit [of "le_bytes 32 1"] b
    by (simp add: le_val_le_bytes BABYJUB_FIELD_PRIME_def BABYJUB_IDENTITY_def list_update_id [of "le_bytes 32 1" 31, unfolded b(2)])
  show "babyJubDecompress ((le_bytes 32 1)[31 := 0x80]) = Some (Inr BABYJUB_IDENTITY)"
    using decompress_unit [of "(le_bytes 32 1)[31 := 0x80]"] b
    by (simp add: le_val_le_bytes BABYJUB_FIELD_PRIME_def BABYJUB_IDENTITY_def list_update_id [of "le_bytes 32 1" 31, unfolded b(2)])
  have c: "(le_bytes 32 (BABYJUB_FIELD_PRIME + 1)) ! 31 AND 0x7f = (le_bytes 32 (BABYJUB_FIELD_PRIME + 1)) ! 31"
    by (simp add: le_bytes_nth BABYJUB_FIELD_PRIME_def)
  show "babyJubDecompress (le_bytes 32 (BABYJUB_FIELD_PRIME + 1)) = Some (Inr \<lparr> px = 0, py = BABYJUB_FIELD_PRIME + 1 \<rparr>)"
    using decompress_unit [of "le_bytes 32 (BABYJUB_FIELD_PRIME + 1)"]
    by (simp only: c list_update_id le_val_le_bytes length_le_bytes) (simp add: BABYJUB_FIELD_PRIME_def)
qed

end
