(* ===== verification/Note.thy ===== *)
theory Note
  imports BabyJub Samples
begin

text \<open>
  Notes of \<open>src/sdk/src/note.ts\<close>: creation, serialisation, the commitment and nullifier of a note,
  deterministic derivation from a seed, withdrawal, stealth notes and JoinSplit notes. Random
  field elements are arguments. The text helpers that go through floating point
  (\<open>formatBtc\<close>, \<open>parseBtc\<close>, \<open>estimateSeedStrength\<close>) are not modelled.
\<close>

section \<open>Notes\<close>

record Note =
  n_amount :: int
  n_nullifier :: int
  n_secret :: int
  n_note :: int
  n_commitment :: int
  n_nullifierHash :: int
  n_nullifierBytes :: bytes
  n_secretBytes :: bytes
  n_commitmentBytes :: bytes
  n_nullifierHashBytes :: bytes

record SerializedNote =
  sn_amount :: string
  sn_nullifier :: string
  sn_secret :: string
  sn_commitment :: "string option"
  sn_nullifierHash :: "string option"

definition createNoteFromSecrets :: "int \<Rightarrow> int \<Rightarrow> int \<Rightarrow> int option \<Rightarrow> int option \<Rightarrow> Note" where
  "createNoteFromSecrets nullifier secret amountSats commitment nullifierHash =
     (let comm = case_option 0 id commitment;
          nullHash = case_option 0 id nullifierHash;
          noteHash = 0
      in \<lparr> n_amount = amountSats, n_nullifier = nullifier, n_secret = secret, n_note = noteHash,
           n_commitment = comm, n_nullifierHash = nullHash,
           n_nullifierBytes = bigintToBytes nullifier, n_secretBytes = bigintToBytes secret,
           n_commitmentBytes = bigintToBytes comm, n_nullifierHashBytes = bigintToBytes nullHash \<rparr>)"

definition generateNote :: "bytes \<Rightarrow> bytes \<Rightarrow> int \<Rightarrow> Note" where
  "generateNote rnd1 rnd2 amountSats =
     createNoteFromSecrets (randomFieldElement rnd1) (randomFieldElement rnd2) amountSats None None"

definition updateNoteWithHashes :: "Note \<Rightarrow> int \<Rightarrow> int \<Rightarrow> Note" where
  "updateNoteWithHashes note commitment nullifierHash =
     note\<lparr> n_commitment := commitment, n_nullifierHash := nullifierHash,
           n_commitmentBytes := bigintToBytes commitment, n_nullifierHashBytes := bigintToBytes nullifierHash \<rparr>"

definition serializeNote :: "Note \<Rightarrow> SerializedNote" where
  "serializeNote note =
     \<lparr> sn_amount = js_toString 10 (n_amount note), sn_nullifier = js_toString 10 (n_nullifier note),
       sn_secret = js_toString 10 (n_secret note),
       sn_commitment = (if n_commitment note \<noteq> 0 then Some (js_toString 10 (n_commitment note)) else None),
       sn_nullifierHash = (if n_nullifierHash note \<noteq> 0 then Some (js_toString 10 (n_nullifierHash note)) else None) \<rparr>"

text \<open>\<open>s ? BigInt(s) : undefined\<close>: an absent or empty string gives \<open>undefined\<close>.\<close>

definition opt_BigInt :: "string option \<Rightarrow> int option result" where
  "opt_BigInt s =
     (case s of None \<Rightarrow> Inr None
      | Some str \<Rightarrow> if str = [] then Inr None else js_bind (js_BigInt str) (\<lambda>v. Inr (Some v)))"

definition deserializeNote :: "SerializedNote \<Rightarrow> Note result" where
  "deserializeNote d =
     js_bind (js_BigInt (sn_amount d)) (\<lambda>amount.
     js_bind (js_BigInt (sn_nullifier d)) (\<lambda>nullifier.
     js_bind (js_BigInt (sn_secret d)) (\<lambda>secret.
     js_bind (opt_BigInt (sn_commitment d)) (\<lambda>commitment.
     js_bind (opt_BigInt (sn_nullifierHash d)) (\<lambda>nullifierHash.
       Inr (createNoteFromSecrets nullifier secret amount commitment nullifierHash))))))"

definition noteHasComputedHashes :: "Note \<Rightarrow> bool" where
  "noteHasComputedHashes note \<longleftrightarrow> n_commitment note \<noteq> 0 \<and> n_nullifierHash note \<noteq> 0"

definition getNotePublicKeyX :: "Note \<Rightarrow> int" where
  "getNotePublicKeyX note = px (babyJubMul (n_nullifier note) BABYJUB_BASE8)"

definition computeNoteCommitment :: "poseidon \<Rightarrow> Note \<Rightarrow> Note" where
  "computeNoteCommitment P note =
     (let pubKeyX = getNotePublicKeyX note;
          commitment = computeUnifiedCommitmentSync P pubKeyX (n_amount note);
          commitmentBytes = bigintToBytes commitment
      in note\<lparr> n_commitment := commitment, n_commitmentBytes := commitmentBytes \<rparr>)"

definition computeNoteNullifier :: "poseidon \<Rightarrow> Note \<Rightarrow> int \<Rightarrow> int \<times> int \<times> bytes" where
  "computeNoteNullifier P note leafIndex =
     (let nullifier = computeNullifierSync P (n_nullifier note) leafIndex;
          nullifierHash = hashNullifierSync P nullifier
      in (nullifier, nullifierHash, bigintToBytes nullifierHash))"

section \<open>Derivation\<close>

definition deriveMasterKey :: "sha \<Rightarrow> string \<Rightarrow> bytes" where
  "deriveMasterKey H seed = sha256Hash H (text_encode seed)"

text \<open>The 37 bytes that are hashed: master key, index and domain.\<close>

definition derive_input :: "bytes \<Rightarrow> int \<Rightarrow> int \<Rightarrow> bytes result" where
  "derive_input master index domain =
     js_bind (js_set (replicate 37 0) master 0) (\<lambda>i1.
     js_bind (view_set_le 4 i1 32 index) (\<lambda>i2.
       Inr (js_put i2 36 domain)))"

definition deriveFromMaster :: "sha \<Rightarrow> bytes \<Rightarrow> int \<Rightarrow> int \<Rightarrow> int result" where
  "deriveFromMaster H master index domain =
     js_bind (derive_input master index domain) (\<lambda>input.
       Inr (bigint_rem (bytesToBigint (sha256Hash H input)) BN254_FIELD_PRIME))"

definition deriveNoteFromMaster :: "sha \<Rightarrow> bytes \<Rightarrow> int \<Rightarrow> int \<Rightarrow> Note result" where
  "deriveNoteFromMaster H master index amountSats =
     js_bind (deriveFromMaster H master index 0) (\<lambda>nullifier.
     js_bind (deriveFromMaster H master index 1) (\<lambda>secret.
       Inr (createNoteFromSecrets nullifier secret amountSats None None)))"

definition deriveNote :: "sha \<Rightarrow> string \<Rightarrow> int \<Rightarrow> int \<Rightarrow> Note result" where
  "deriveNote H seed index amountSats =
     (let master = deriveMasterKey H seed in
      js_bind (deriveFromMaster H master index 0) (\<lambda>nullifier.
      js_bind (deriveFromMaster H master index 1) (\<lambda>secret.
        Inr (createNoteFromSecrets nullifier secret amountSats None None))))"

definition deriveNotes :: "sha \<Rightarrow> string \<Rightarrow> int list \<Rightarrow> int \<Rightarrow> Note list result" where
  "deriveNotes H seed amounts startIndex =
     (let master = deriveMasterKey H seed in
      js_mapM (\<lambda>(i, amount). deriveNoteFromMaster H master (startIndex + int i) amount) (enumerate 0 amounts))"

section \<open>Withdrawal\<close>

record NoteData =
  nd_nullifier :: int
  nd_secret :: int
  nd_amount :: int

definition createNote :: "bytes \<Rightarrow> bytes \<Rightarrow> int \<Rightarrow> NoteData" where
  "createNote rnd1 rnd2 amount =
     (let note = generateNote rnd1 rnd2 amount in
      \<lparr> nd_nullifier = n_nullifier note, nd_secret = n_secret note, nd_amount = n_amount note \<rparr>)"

definition prepareWithdrawal :: "bytes \<Rightarrow> bytes \<Rightarrow> NoteData \<Rightarrow> int \<Rightarrow> (NoteData \<times> int) result" where
  "prepareWithdrawal rnd1 rnd2 inputNote withdrawAmount =
     (if withdrawAmount \<le> 0 then Inl (Error ''Withdraw amount must be positive'')
      else if withdrawAmount > nd_amount inputNote then Inl (Error ''Withdraw amount exceeds note balance'')
      else
        (let changeAmount = nd_amount inputNote - withdrawAmount in
         Inr (createNote rnd1 rnd2 changeAmount, changeAmount)))"

section \<open>Stealth notes\<close>

record StealthNote =
  st_amount :: int
  st_random :: int
  st_ephemeralSpendPubX :: int
  st_ephemeralSpendPubY :: int
  st_leafIndex :: int
  st_notePubKey :: int
  st_commitment :: int
  st_randomBytes :: bytes
  st_commitmentBytes :: bytes

record SerializedStealthNote =
  ss_amount :: string
  ss_random :: string
  ss_ephemeralSpendPubX :: string
  ss_ephemeralSpendPubY :: string
  ss_leafIndex :: int
  ss_notePubKey :: "string option"
  ss_commitment :: "string option"

definition createStealthNote :: "int \<Rightarrow> int \<Rightarrow> int \<times> int \<Rightarrow> int \<Rightarrow> StealthNote" where
  "createStealthNote amount random ephemeralSpendPub leafIndex =
     \<lparr> st_amount = amount, st_random = random, st_ephemeralSpendPubX = fst ephemeralSpendPub,
       st_ephemeralSpendPubY = snd ephemeralSpendPub, st_leafIndex = leafIndex, st_notePubKey = 0,
       st_commitment = 0, st_randomBytes = bigintToBytes random, st_commitmentBytes = replicate 32 0 \<rparr>"

definition updateStealthNoteWithHashes :: "StealthNote \<Rightarrow> int \<Rightarrow> int \<Rightarrow> StealthNote" where
  "updateStealthNoteWithHashes note notePubKey commitment =
     note\<lparr> st_notePubKey := notePubKey, st_commitment := commitment, st_commitmentBytes := bigintToBytes commitment \<rparr>"

definition serializeStealthNote :: "StealthNote \<Rightarrow> SerializedStealthNote" where
  "serializeStealthNote note =
     \<lparr> ss_amount = js_toString 10 (st_amount note), ss_random = js_toString 10 (st_random note),
       ss_ephemeralSpendPubX = js_toString 10 (st_ephemeralSpendPubX note),
       ss_ephemeralSpendPubY = js_toString 10 (st_ephemeralSpendPubY note), ss_leafIndex = st_leafIndex note,
       ss_notePubKey = (if st_notePubKey note \<noteq> 0 then Some (js_toString 10 (st_notePubKey note)) else None),
       ss_commitment = (if st_commitment note \<noteq> 0 then Some (js_toString 10 (st_commitment note)) else None) \<rparr>"

definition truthy :: "string option \<Rightarrow> bool" where
  "truthy s \<longleftrightarrow> (case s of None \<Rightarrow> False | Some str \<Rightarrow> str \<noteq> [])"

definition deserializeStealthNote :: "SerializedStealthNote \<Rightarrow> StealthNote result" where
  "deserializeStealthNote d =
     js_bind (js_BigInt (ss_amount d)) (\<lambda>amount.
     js_bind (js_BigInt (ss_random d)) (\<lambda>random.
     js_bind (js_BigInt (ss_ephemeralSpendPubX d)) (\<lambda>x.
     js_bind (js_BigInt (ss_ephemeralSpendPubY d)) (\<lambda>y.
       let note = createStealthNote amount random (x, y) (ss_leafIndex d) in
       if truthy (ss_notePubKey d) \<and> truthy (ss_commitment d)
       then js_bind (js_BigInt (the (ss_notePubKey d))) (\<lambda>k.
            js_bind (js_BigInt (the (ss_commitment d))) (\<lambda>c.
              Inr (updateStealthNoteWithHashes note k c)))
       else Inr note))))"

definition stealthNoteHasComputedHashes :: "StealthNote \<Rightarrow> bool" where
  "stealthNoteHasComputedHashes note \<longleftrightarrow> st_notePubKey note \<noteq> 0 \<and> st_commitment note \<noteq> 0"

section \<open>JoinSplit notes\<close>

record JoinSplitNote =
  js_npk :: int
  js_token :: int
  js_amount :: int
  js_random :: int
  js_leafIndex :: int
  js_commitment :: int

definition createJoinSplitNote :: "poseidon \<Rightarrow> int \<Rightarrow> int \<Rightarrow> int \<Rightarrow> int \<Rightarrow> int \<Rightarrow> JoinSplitNote" where
  "createJoinSplitNote P mpk random amount tokenId leafIndex =
     (let npk = computeNPKSync P mpk random;
          commitment = computeJoinSplitCommitmentSync P npk tokenId amount
      in \<lparr> js_npk = npk, js_token = tokenId, js_amount = amount, js_random = random, js_leafIndex = leafIndex,
           js_commitment = commitment \<rparr>)"

definition computeJoinSplitNoteNullifier :: "poseidon \<Rightarrow> int \<Rightarrow> int \<Rightarrow> int" where
  "computeJoinSplitNoteNullifier P nullifyingKey leafIndex = computeJoinSplitNullifierSync P nullifyingKey leafIndex"

record SerializedJoinSplitNote =
  sj_npk :: string
  sj_token :: string
  sj_amount :: string
  sj_random :: string
  sj_leafIndex :: int
  sj_commitment :: string

definition serializeJoinSplitNote :: "JoinSplitNote \<Rightarrow> SerializedJoinSplitNote" where
  "serializeJoinSplitNote note =
     \<lparr> sj_npk = js_toString 10 (js_npk note), sj_token = js_toString 10 (js_token note),
       sj_amount = js_toString 10 (js_amount note), sj_random = js_toString 10 (js_random note),
       sj_leafIndex = js_leafIndex note, sj_commitment = js_toString 10 (js_commitment note) \<rparr>"

definition deserializeJoinSplitNote :: "SerializedJoinSplitNote \<Rightarrow> JoinSplitNote result" where
  "deserializeJoinSplitNote d =
     js_bind (js_BigInt (sj_npk d)) (\<lambda>npk.
     js_bind (js_BigInt (sj_token d)) (\<lambda>token.
     js_bind (js_BigInt (sj_amount d)) (\<lambda>amount.
     js_bind (js_BigInt (sj_random d)) (\<lambda>random.
     js_bind (js_BigInt (sj_commitment d)) (\<lambda>commitment.
       Inr \<lparr> js_npk = npk, js_token = token, js_amount = amount, js_random = random,
             js_leafIndex = sj_leafIndex d, js_commitment = commitment \<rparr>)))))"

section \<open>Facts\<close>

text \<open>The invariant of a note: the byte fields are those of the numbers.\<close>

definition note_ok :: "Note \<Rightarrow> bool" where
  "note_ok note \<longleftrightarrow> n_note note = 0 \<and> n_nullifierBytes note = bigintToBytes (n_nullifier note) \<and>
     n_secretBytes note = bigintToBytes (n_secret note) \<and> n_commitmentBytes note = bigintToBytes (n_commitment note) \<and>
     n_nullifierHashBytes note = bigintToBytes (n_nullifierHash note)"

lemma note_ok_intros [intro]:
  "note_ok (createNoteFromSecrets n s a c h)"
  "note_ok note \<Longrightarrow> note_ok (updateNoteWithHashes note c' h')"
  "note_ok note \<Longrightarrow> note_ok (computeNoteCommitment P note)"
  by (simp_all add: note_ok_def createNoteFromSecrets_def updateNoteWithHashes_def computeNoteCommitment_def Let_def)

lemma js_toString_nonempty [simp]: "js_toString 10 v \<noteq> []"
  by (simp add: js_toString_def)

lemma deserialize_serialize: "note_ok note \<Longrightarrow> deserializeNote (serializeNote note) = Inr note"
  unfolding deserializeNote_def serializeNote_def
  by (cases "note") (simp add: BigInt_toString10 opt_BigInt_def createNoteFromSecrets_def note_ok_def Let_def)

lemma derive_input_eq:
  assumes "length master = 32"
  shows "derive_input master index domain = Inr (master @ le_bytes 4 index @ [word_of_int domain])"
proof -
  have a: "js_set (replicate 37 0) master 0 = Inr (master @ replicate 5 0)" using assms by (simp add: js_set_def)
  have b: "view_set_le 4 (master @ replicate 5 0) 32 index = Inr ((master @ le_bytes 4 index) @ [0])"
    using assms by (simp add: view_set_le_def js_set_def numeral_eq_Suc)
  have c: "js_put ((master @ le_bytes 4 index) @ [0]) 36 domain = master @ le_bytes 4 index @ [word_of_int domain]"
    using assms by (simp add: js_put_def list_update_append del: le_bytes.simps)
  show ?thesis unfolding derive_input_def a js_bind_simps b c by (rule refl)
qed

lemma deriveFromMaster_eq:
  assumes "sha_ok H" "length master = 32"
  shows "deriveFromMaster H master index domain =
    Inr (be_val (H (master @ le_bytes 4 index @ [word_of_int domain])) mod BN254_FIELD_PRIME)"
  using field_prime_pos(1)
  by (simp add: deriveFromMaster_def derive_input_eq [OF assms(2)] sha256Hash_def bytesToBigint_eq bigint_rem_nonneg del: le_bytes.simps)

lemma js_mapM_nth:
  "js_mapM f xs = Inr ys \<Longrightarrow> length ys = length xs \<and> (\<forall>i < length xs. f (xs ! i) = Inr (ys ! i))"
proof (induction xs arbitrary: ys)
  case (Cons x xs)
  then obtain y zs where "f x = Inr y" "js_mapM f xs = Inr zs" "ys = y # zs" by (auto simp: js_bind_Inr_iff)
  with Cons.IH [of zs] show ?case by (auto simp: nth_Cons split: nat.splits)
qed simp

section \<open>Properties\<close>

text \<open>
  Serialising a note and reading it back restores it: for every note the SDK creates from
  secrets, after its hashes are set or its commitment is computed, and for every JoinSplit note.
\<close>

theorem note_serialization_roundtrip:
  "deserializeNote (serializeNote (createNoteFromSecrets n s a c h)) = Inr (createNoteFromSecrets n s a c h) \<and>
   deserializeNote (serializeNote (computeNoteCommitment P (createNoteFromSecrets n s a c h))) =
     Inr (computeNoteCommitment P (createNoteFromSecrets n s a c h)) \<and>
   deserializeNote (serializeNote (updateNoteWithHashes (createNoteFromSecrets n s a c h) c' h')) =
     Inr (updateNoteWithHashes (createNoteFromSecrets n s a c h) c' h') \<and>
   deserializeJoinSplitNote (serializeJoinSplitNote jn) = Inr jn"
proof (intro conjI deserialize_serialize note_ok_intros)
  show "deserializeJoinSplitNote (serializeJoinSplitNote jn) = Inr jn"
    by (simp add: deserializeJoinSplitNote_def serializeJoinSplitNote_def BigInt_toString10)
qed

text \<open>
  A stealth note survives storage exactly when both of its hashes are set or neither is: a
  note with only one of them comes back without it.
\<close>

theorem stealth_note_storage:
  "deserializeStealthNote (serializeStealthNote (updateStealthNoteWithHashes (createStealthNote a r e i) k c)) =
     Inr (if k \<noteq> 0 \<and> c \<noteq> 0 then updateStealthNoteWithHashes (createStealthNote a r e i) k c
          else createStealthNote a r e i)"
  by (cases e)
     (simp add: deserializeStealthNote_def serializeStealthNote_def createStealthNote_def
      updateStealthNoteWithHashes_def BigInt_toString10 truthy_def Let_def)

text \<open>
  A withdrawal conserves value: amounts that are not positive or exceed the note are refused
  with the error of the code, and otherwise the change note holds the difference.
\<close>

theorem prepareWithdrawal_conserves:
  "prepareWithdrawal rnd1 rnd2 inp w =
     (if w \<le> 0 then Inl (Error ''Withdraw amount must be positive'')
      else if nd_amount inp < w then Inl (Error ''Withdraw amount exceeds note balance'')
      else Inr (createNote rnd1 rnd2 (nd_amount inp - w), nd_amount inp - w)) \<and>
   (\<forall>change amt. prepareWithdrawal rnd1 rnd2 inp w = Inr (change, amt) \<longrightarrow>
      nd_amount change = amt \<and> amt + w = nd_amount inp \<and> 0 \<le> amt \<and> amt < nd_amount inp \<and>
      0 \<le> nd_nullifier change \<and> nd_nullifier change < BN254_FIELD_PRIME)"
  using field_prime_pos(1)
  by (auto simp: prepareWithdrawal_def createNote_def generateNote_def createNoteFromSecrets_def Let_def
      randomFieldElement_def bytesToBigint_eq bigint_rem_nonneg split: if_splits)

theorem prepareWithdrawal_conserves_witness:
  "prepareWithdrawal [1] [2] \<lparr> nd_nullifier = 5, nd_secret = 6, nd_amount = 100 \<rparr> 30 =
     Inr (createNote [1] [2] 70, 70) \<and> nd_amount (createNote [1] [2] 70) = 70"
proof -
  let ?inp = "\<lparr> nd_nullifier = 5, nd_secret = 6, nd_amount = 100 \<rparr>"
  have r: "prepareWithdrawal [1] [2] ?inp 30 = Inr (createNote [1] [2] 70, 70)" by (simp add: prepareWithdrawal_def)
  from prepareWithdrawal_conserves [THEN conjunct2, THEN spec, THEN spec, THEN mp, OF r] r show ?thesis by blast
qed

text \<open>
  Deriving many notes at once gives the notes of one-by-one derivation: the \<open>i\<close>-th note of
  \<open>deriveNotes\<close> is \<open>deriveNote\<close> at the \<open>i\<close>-th index, and its secrets are field elements.
\<close>

theorem deriveNotes_pointwise:
  assumes "sha_ok H"
  shows "\<exists>notes. deriveNotes H seed amounts start = Inr notes \<and> length notes = length amounts \<and>
    (\<forall>i < length amounts. deriveNote H seed (start + int i) (amounts ! i) = Inr (notes ! i) \<and>
       0 \<le> n_nullifier (notes ! i) \<and> n_nullifier (notes ! i) < BN254_FIELD_PRIME \<and>
       0 \<le> n_secret (notes ! i) \<and> n_secret (notes ! i) < BN254_FIELD_PRIME)"
proof -
  let ?m = "deriveMasterKey H seed"
  let ?f = "\<lambda>i d. be_val (H (?m @ le_bytes 4 i @ [word_of_int d])) mod BN254_FIELD_PRIME"
  let ?g = "\<lambda>(i, a). createNoteFromSecrets (?f (start + int i) 0) (?f (start + int i) 1) a None None"
  have m: "length ?m = 32" using assms by (simp add: deriveMasterKey_def sha256Hash_def sha_ok_def)
  have n: "deriveNoteFromMaster H ?m i a = Inr (createNoteFromSecrets (?f i 0) (?f i 1) a None None)" for i a
    by (simp add: deriveNoteFromMaster_def deriveFromMaster_eq [OF assms m] del: le_bytes.simps)
  have s: "deriveNote H seed i a = deriveNoteFromMaster H ?m i a" for i a
    by (simp add: deriveNote_def deriveNoteFromMaster_def Let_def)
  have "deriveNotes H seed amounts start = Inr (map ?g (enumerate 0 amounts))"
    unfolding deriveNotes_def Let_def by (intro js_mapM_Inr) (auto simp: n simp del: le_bytes.simps)
  then show ?thesis
    using field_prime_pos(1)
    by (auto simp: nth_enumerate_eq s n createNoteFromSecrets_def Let_def simp del: le_bytes.simps)
qed

theorem deriveNotes_pointwise_witness:
  "\<exists>notes. deriveNotes sample_sha ''seed'' [10, 20] 3 = Inr notes \<and> length notes = 2 \<and>
     deriveNote sample_sha ''seed'' 4 20 = Inr (notes ! 1)"
proof -
  obtain ns where n: "deriveNotes sample_sha ''seed'' [10, 20] 3 = Inr ns" "length ns = length [10, 20::int]"
    "\<forall>i < length [10, 20::int]. deriveNote sample_sha ''seed'' (3 + int i) ([10, 20] ! i) = Inr (ns ! i)"
    using deriveNotes_pointwise [OF sample_sha_ok, of "''seed''" "[10, 20]" 3] by blast
  from n(3) [rule_format, of 1] n(1,2) show ?thesis by simp
qed

end
