(* ===== verification/Keys.thy ===== *)
theory Keys
  imports BabyJub Ed25519 Samples
begin

text \<open>
  Keys and stealth meta-addresses of \<open>src/sdk/src/keys.ts\<close>: derivation of the key hierarchy from a
  signature or a seed, the meta-address with its text form, key storage, and the checks on
  delegated viewing keys (their creation and export is in \<open>Delegation\<close>). Not modelled: the functions that
  call \<open>circomlibjs\<close> (EdDSA over Baby Jubjub with BLAKE-512) and the wallet prompt.
\<close>

section \<open>Types\<close>

record UTXOpiaKeys =
  k_solanaPublicKey :: bytes
  k_spendingPrivKey :: int
  k_spendingPubKey :: BabyJubPoint
  k_nullifyingKey :: int
  k_viewingPrivKey :: bytes
  k_viewingPubKey :: bytes
  k_eddsaSeed :: bytes

record StealthMetaAddress =
  m_spendingPubKey :: bytes
  m_viewingPubKey :: bytes
  m_mpk :: bytes

record SerializedStealthMetaAddress =
  sm_spendingPubKey :: string
  sm_viewingPubKey :: string
  sm_mpk :: string

record DelegatedViewKey =
  dk_viewingPrivKey :: bytes
  dk_permissions :: int
  dk_fromSlot :: "int option"
  dk_toSlot :: "int option"
  dk_expiresAt :: "int option"
  dk_spendingPubKeyCompressed :: "bytes option"
  dk_nullifyingKey :: "int option"
  dk_label :: "string option"
  dk_issuedAt :: "int option"
  dk_delegationId :: "string option"

section \<open>Derivation\<close>

definition concatBytes :: "bytes list \<Rightarrow> bytes result" where
  "concatBytes arrays = concat_loop arrays"

definition SPENDING_KEY_DOMAIN :: string where
  "SPENDING_KEY_DOMAIN = ''spend''"

definition VIEWING_KEY_DOMAIN :: string where
  "VIEWING_KEY_DOMAIN = ''view''"

definition NULLIFYING_KEY_DOMAIN :: string where
  "NULLIFYING_KEY_DOMAIN = ''nullify''"

text \<open>
  \<open>clearKey\<close> overwrites the temporary seeds after their last use; the values returned do not
  alias them, so the calls have no effect on the result.
\<close>

definition deriveKeysFromSignature :: "curve25519 \<Rightarrow> sha \<Rightarrow> bytes \<Rightarrow> bytes \<Rightarrow> UTXOpiaKeys result" where
  "deriveKeysFromSignature C H signature solanaPublicKey =
     (if length signature \<noteq> 64 then Inl (Error ''Signature must be 64 bytes'')
      else if length solanaPublicKey \<noteq> 32 then Inl (Error ''Solana public key must be 32 bytes'')
      else
        js_bind (concatBytes [signature, text_encode SPENDING_KEY_DOMAIN]) (\<lambda>c1.
        let spendingSeed = H c1;
            eddsaSeed = spendingSeed;
            spendingPrivKey = scalarFromBytes spendingSeed;
            spendingPubKey = babyJubMul spendingPrivKey BABYJUB_BASE8 in
        js_bind (concatBytes [signature, text_encode NULLIFYING_KEY_DOMAIN]) (\<lambda>c2.
        let nullifyingKey = scalarFromBytes (H c2) in
        js_bind (concatBytes [signature, text_encode VIEWING_KEY_DOMAIN]) (\<lambda>c3.
        let viewingPrivKey = H c3;
            viewingPubKey = ed25519GetPublicKey C viewingPrivKey in
        Inr \<lparr> k_solanaPublicKey = solanaPublicKey, k_spendingPrivKey = spendingPrivKey,
              k_spendingPubKey = spendingPubKey, k_nullifyingKey = nullifyingKey,
              k_viewingPrivKey = viewingPrivKey, k_viewingPubKey = viewingPubKey, k_eddsaSeed = eddsaSeed \<rparr>))))"

definition deriveKeysFromSeed :: "curve25519 \<Rightarrow> sha \<Rightarrow> bytes \<Rightarrow> UTXOpiaKeys result" where
  "deriveKeysFromSeed C H seed =
     (let fakeSig = replicate 64 0; hash1 = H seed in
      js_bind (concatBytes [seed, [1]]) (\<lambda>c.
      let hash2 = H c in
      js_bind (js_set fakeSig hash1 0) (\<lambda>f1.
      js_bind (js_set f1 hash2 32) (\<lambda>f2.
        deriveKeysFromSignature C H f2 (replicate 32 0)))))"

section \<open>Stealth meta-address\<close>

definition createStealthMetaAddress :: "poseidon \<Rightarrow> UTXOpiaKeys \<Rightarrow> StealthMetaAddress" where
  "createStealthMetaAddress P keys =
     (let mpk = computeMPKSync P (px (k_spendingPubKey keys)) (py (k_spendingPubKey keys)) (k_nullifyingKey keys) in
      \<lparr> m_spendingPubKey = babyJubCompress (k_spendingPubKey keys),
        m_viewingPubKey = k_viewingPubKey keys,
        m_mpk = bigintToBytes mpk \<rparr>)"

definition serializeStealthMetaAddress :: "StealthMetaAddress \<Rightarrow> SerializedStealthMetaAddress" where
  "serializeStealthMetaAddress meta =
     \<lparr> sm_spendingPubKey = bytesToHex (m_spendingPubKey meta), sm_viewingPubKey = bytesToHex (m_viewingPubKey meta),
       sm_mpk = bytesToHex (m_mpk meta) \<rparr>"

definition deserializeStealthMetaAddress :: "SerializedStealthMetaAddress \<Rightarrow> StealthMetaAddress" where
  "deserializeStealthMetaAddress s =
     \<lparr> m_spendingPubKey = hexToBytes (sm_spendingPubKey s), m_viewingPubKey = hexToBytes (sm_viewingPubKey s),
       m_mpk = hexToBytes (sm_mpk s) \<rparr>"

definition parseStealthMetaAddress :: "StealthMetaAddress \<Rightarrow> (BabyJubPoint \<times> bytes) result option" where
  "parseStealthMetaAddress meta =
     map_option (\<lambda>r. js_bind r (\<lambda>pt. Inr (pt, m_viewingPubKey meta))) (babyJubDecompress (m_spendingPubKey meta))"

definition encodeStealthMetaAddress :: "StealthMetaAddress \<Rightarrow> string result" where
  "encodeStealthMetaAddress meta =
     js_bind (concatBytes [m_spendingPubKey meta, m_viewingPubKey meta, m_mpk meta]) (\<lambda>combined.
       Inr (''utxo:'' @ bytesToHex combined))"

definition decodeStealthMetaAddress :: "string \<Rightarrow> StealthMetaAddress result" where
  "decodeStealthMetaAddress encoded =
     (let hex = (if take 5 encoded = ''utxo:'' then drop 5 encoded else encoded);
          bs = hexToBytes hex
      in if length bs \<noteq> 96 then Inl (Error ''Invalid stealth meta-address length (expected 96 bytes)'')
         else Inr \<lparr> m_spendingPubKey = js_slice bs 0 32, m_viewingPubKey = js_slice bs 32 64, m_mpk = js_slice bs 64 96 \<rparr>)"

definition recreateStealthAddress :: "poseidon \<Rightarrow> UTXOpiaKeys \<Rightarrow> (StealthMetaAddress \<times> string) result" where
  "recreateStealthAddress P keys =
     (let stealthAddress = createStealthMetaAddress P keys in
      js_bind (encodeStealthMetaAddress stealthAddress) (\<lambda>enc. Inr (stealthAddress, enc)))"

section \<open>Delegated viewing keys\<close>

definition isSlotInDelegatedRange :: "DelegatedViewKey \<Rightarrow> int option \<Rightarrow> bool" where
  "isSlotInDelegatedRange key slot =
     (case slot of
        None \<Rightarrow> dk_fromSlot key = None \<and> dk_toSlot key = None
      | Some s \<Rightarrow>
          if (case dk_fromSlot key of None \<Rightarrow> False | Some f \<Rightarrow> s < f) then False
          else if (case dk_toSlot key of None \<Rightarrow> False | Some t \<Rightarrow> s > t) then False
          else True)"

text \<open>A zero expiry is falsy, like an absent one.\<close>

definition isDelegatedKeyValid :: "int \<Rightarrow> DelegatedViewKey \<Rightarrow> bool" where
  "isDelegatedKeyValid now key =
     (case dk_expiresAt key of None \<Rightarrow> True | Some e \<Rightarrow> if e = 0 then True else now < e)"

definition hasPermission :: "DelegatedViewKey \<Rightarrow> int \<Rightarrow> bool" where
  "hasPermission key permission \<longleftrightarrow> (dk_permissions key AND permission) = permission"

definition constantTimeCompare :: "bytes \<Rightarrow> bytes \<Rightarrow> bool" where
  "constantTimeCompare a b =
     (if length a \<noteq> length b then False
      else foldl (\<lambda>result i. result OR (a ! i XOR b ! i)) 0 [0..<length a] = 0)"

definition clearUTXOpiaKeys :: "UTXOpiaKeys \<Rightarrow> UTXOpiaKeys" where
  "clearUTXOpiaKeys keys =
     keys\<lparr> k_spendingPrivKey := 0, k_nullifyingKey := 0,
           k_viewingPrivKey := replicate (length (k_viewingPrivKey keys)) 0,
           k_eddsaSeed := replicate (length (k_eddsaSeed keys)) 0 \<rparr>"

section \<open>Storage\<close>

record SerializedKeysForStorage =
  sk_eddsaSeedHex :: string
  sk_spendingPrivKeyHex :: string
  sk_spendingPubKey_x :: string
  sk_spendingPubKey_y :: string
  sk_nullifyingKey :: string
  sk_viewingPrivKeyHex :: string
  sk_viewingPubKeyHex :: string

definition serializeKeysForStorage :: "UTXOpiaKeys \<Rightarrow> SerializedKeysForStorage" where
  "serializeKeysForStorage keys =
     \<lparr> sk_eddsaSeedHex = bytesToHex (k_eddsaSeed keys),
       sk_spendingPrivKeyHex = js_toString 16 (k_spendingPrivKey keys),
       sk_spendingPubKey_x = js_toString 10 (px (k_spendingPubKey keys)),
       sk_spendingPubKey_y = js_toString 10 (py (k_spendingPubKey keys)),
       sk_nullifyingKey = js_toString 16 (k_nullifyingKey keys),
       sk_viewingPrivKeyHex = bytesToHex (k_viewingPrivKey keys),
       sk_viewingPubKeyHex = bytesToHex (k_viewingPubKey keys) \<rparr>"

definition deserializeKeysFromStorage :: "SerializedKeysForStorage \<Rightarrow> bytes \<Rightarrow> UTXOpiaKeys result" where
  "deserializeKeysFromStorage d solanaPublicKey =
     js_bind (js_BigInt (''0x'' @ sk_spendingPrivKeyHex d)) (\<lambda>spendingPrivKey.
     js_bind (js_BigInt (sk_spendingPubKey_x d)) (\<lambda>x.
     js_bind (js_BigInt (sk_spendingPubKey_y d)) (\<lambda>y.
     js_bind (js_BigInt (''0x'' @ sk_nullifyingKey d)) (\<lambda>nullifyingKey.
       Inr \<lparr> k_solanaPublicKey = solanaPublicKey, k_spendingPrivKey = spendingPrivKey,
             k_spendingPubKey = \<lparr> px = x, py = y \<rparr>, k_nullifyingKey = nullifyingKey,
             k_viewingPrivKey = hexToBytes (sk_viewingPrivKeyHex d),
             k_viewingPubKey = hexToBytes (sk_viewingPubKeyHex d),
             k_eddsaSeed = hexToBytes (sk_eddsaSeedHex d) \<rparr>))))"

section \<open>Facts\<close>

lemma length_babyJubCompress [simp]: "length (babyJubCompress pt) = 32"
  by (simp add: compress_bytes Let_def)

lemma digit_char_u: "d < 16 \<Longrightarrow> digit_char d \<noteq> CHR ''u''"
  by (auto dest!: arg_cong [where f = "of_char :: char \<Rightarrow> nat"] simp: of_char_digit split: if_splits)

lemma hex_no_prefix: "take 5 (bytesToHex bs) \<noteq> ''utxo:''"
proof (cases bs)
  case (Cons b bs')
  have "unat b div 16 < 16" using unat_byte [of b] by (simp add: less_mult_imp_div_less)
  then show ?thesis using Cons by (auto dest: digit_char_u)
qed simp

lemma BigInt_hex: "0 \<le> v \<Longrightarrow> js_BigInt (''0x'' @ js_toString 16 v) = Inr v"
proof -
  assume v: "0 \<le> v"
  have "\<forall>c \<in> set (''0x'' @ js_toString 16 v). \<not> is_ws c"
    using radix_no_ws [of 16 _ "nat v"] v by (auto simp: js_toString_def)
  then have "trim (''0x'' @ js_toString 16 v) = ''0x'' @ js_toString 16 v" by (rule trim_id)
  with v show ?thesis by (simp add: js_BigInt_def Let_def js_toString_def parse_unsigned_radix)
qed

definition meta_ok :: "StealthMetaAddress \<Rightarrow> bool" where
  "meta_ok meta \<longleftrightarrow> length (m_spendingPubKey meta) = 32 \<and> length (m_viewingPubKey meta) = 32 \<and> length (m_mpk meta) = 32"

lemma decode_combined:
  assumes "meta_ok meta" "hex = bytesToHex (m_spendingPubKey meta @ m_viewingPubKey meta @ m_mpk meta)"
  shows "decodeStealthMetaAddress hex = Inr meta" "decodeStealthMetaAddress (''utxo:'' @ hex) = Inr meta"
  using assms hex_no_prefix [of "m_spendingPubKey meta @ m_viewingPubKey meta @ m_mpk meta"]
  by (simp_all add: decodeStealthMetaAddress_def hexToBytes_bytesToHex meta_ok_def js_slice_def Let_def)

section \<open>Properties\<close>

text \<open>
  A meta-address survives its text form: encoding succeeds, decoding gives it back, with and
  without the prefix, and so does the serialised object; a text of any other length is refused.
\<close>

theorem meta_address_roundtrip:
  assumes "length (m_spendingPubKey meta) = 32" "length (m_viewingPubKey meta) = 32" "length (m_mpk meta) = 32"
  shows "\<exists>hex. encodeStealthMetaAddress meta = Inr (''utxo:'' @ hex) \<and>
      decodeStealthMetaAddress (''utxo:'' @ hex) = Inr meta \<and> decodeStealthMetaAddress hex = Inr meta \<and>
      deserializeStealthMetaAddress (serializeStealthMetaAddress meta) = meta"
proof -
  have "meta_ok meta" using assms by (simp add: meta_ok_def)
  from decode_combined [OF this refl] show ?thesis
    by (simp add: encodeStealthMetaAddress_def concatBytes_def concat_loop_eq hexToBytes_bytesToHex
        deserializeStealthMetaAddress_def serializeStealthMetaAddress_def)
qed

theorem meta_address_roundtrip_witness:
  "\<exists>hex. encodeStealthMetaAddress \<lparr> m_spendingPubKey = replicate 32 1, m_viewingPubKey = replicate 32 2, m_mpk = replicate 32 3 \<rparr> =
     Inr (''utxo:'' @ hex) \<and> decodeStealthMetaAddress hex =
     Inr \<lparr> m_spendingPubKey = replicate 32 1, m_viewingPubKey = replicate 32 2, m_mpk = replicate 32 3 \<rparr>"
  using meta_address_roundtrip [of "\<lparr> m_spendingPubKey = replicate 32 1, m_viewingPubKey = replicate 32 2, m_mpk = replicate 32 3 \<rparr>"]
  by auto

text \<open>
  Keys derived from a signature survive storage: derivation succeeds for a 64-byte
  signature and a 32-byte public key, and the stored object, read back with the same public key,
  is the key hierarchy again.
\<close>

theorem derived_keys_storage:
  assumes "length signature = 64" "length pk = 32"
  shows "\<exists>keys. deriveKeysFromSignature C H signature pk = Inr keys \<and>
    k_spendingPubKey keys = babyJubMul (k_spendingPrivKey keys) BABYJUB_BASE8 \<and>
    k_viewingPubKey keys = getPublicKey C (k_viewingPrivKey keys) \<and>
    deserializeKeysFromStorage (serializeKeysForStorage keys) pk = Inr keys"
proof -
  have n: "0 \<le> scalarFromBytes bs" for bs
    using order_pos(1) by (simp add: scalarFromBytes_def bigint_mod_eq)
  show ?thesis
    using assms
    by (simp add: deriveKeysFromSignature_def concatBytes_def concat_loop_eq Let_def ed25519GetPublicKey_def
        deserializeKeysFromStorage_def serializeKeysForStorage_def BigInt_hex [simplified] n BigInt_toString10 hexToBytes_bytesToHex)
qed

theorem derived_keys_storage_witness:
  "\<exists>keys. deriveKeysFromSignature sample_curve sample_sha (replicate 64 9) (replicate 32 4) = Inr keys \<and>
     deserializeKeysFromStorage (serializeKeysForStorage keys) (replicate 32 4) = Inr keys"
  using derived_keys_storage [of "replicate 64 9" "replicate 32 4" sample_curve sample_sha] by auto

end
