(* ===== verification/Stealth.thy ===== *)
theory Stealth
  imports Keys
begin

text \<open>
  Stealth payments of \<open>src/sdk/src/stealth.ts\<close>: the derivation of one-time keys, the outputs a
  sender creates, the three scanners of a recipient, view-only keys, claim inputs and the
  packing of encrypted amounts. The ephemeral secret key is an argument of the functions that
  draw one. A \<open>source\<close> that is a wallet is first turned into keys by \<open>keys.ts\<close>; the functions
  here take the keys. The preparation of Bitcoin deposits is in
  \<open>Btc_Deposit\<close>.
\<close>

definition ANNOUNCEMENT_TYPE_DEPOSIT :: int where
  "ANNOUNCEMENT_TYPE_DEPOSIT = 0"

definition ANNOUNCEMENT_TYPE_TRANSFER :: int where
  "ANNOUNCEMENT_TYPE_TRANSFER = 1"

definition MAX_SATS :: int where
  "MAX_SATS = 21000000 * 100000000"

definition encryptAmount :: "sha \<Rightarrow> int \<Rightarrow> bytes \<Rightarrow> bytes" where
  "encryptAmount H amount sharedSecret = encryptAmountEd25519 H amount sharedSecret"

definition decryptAmount :: "sha \<Rightarrow> bytes \<Rightarrow> bytes \<Rightarrow> int" where
  "decryptAmount H encryptedAmount sharedSecret = decryptAmountEd25519 H encryptedAmount sharedSecret"

section \<open>Types\<close>

record StealthDeposit =
  sd_ephemeralPub :: bytes
  sd_encryptedAmount :: bytes
  sd_commitment :: bytes
  sd_createdAt :: int

record StealthOutputData =
  so_ephemeralPub :: bytes
  so_encryptedAmount :: bytes
  so_commitment :: bytes

record StealthOutputWithKeys = StealthOutputData +
  so_stealthPubKeyX :: int
  so_npkBytes :: bytes

record ScannedNote =
  sn_amount :: int
  sn_ephemeralPub :: bytes
  sn_stealthPub :: BabyJubPoint
  sn_leafIndex :: int
  sn_commitment :: bytes
  sn_blockTime :: "int option"

record ClaimInputs =
  ci_stealthPrivKey :: int
  ci_nullifyingKey :: int
  ci_amount :: int
  ci_leafIndex :: int
  ci_merklePath :: "int list"
  ci_merkleIndices :: "int list"
  ci_merkleRoot :: int
  ci_nullifier :: int
  ci_npk :: int
  ci_random :: int

text \<open>An announcement; a caller of the older interface leaves the type out.\<close>

record OnChainStealthAnnouncement =
  an_announcementType :: "int option"
  an_ephemeralPub :: bytes
  an_encryptedAmount :: bytes
  an_commitment :: bytes
  an_leafIndex :: int
  an_blockTime :: "int option"

record ViewOnlyKeys =
  vk_viewingPrivKey :: bytes
  vk_spendingPubKey :: BabyJubPoint
  vk_nullifyingKey :: int

record ViewOnlyScannedNote =
  vn_amount :: int
  vn_leafIndex :: int
  vn_commitment :: bytes
  vn_ephemeralPub :: bytes
  vn_blockTime :: int

section \<open>One-time keys\<close>

definition STEALTH_KEY_DOMAIN :: bytes where
  "STEALTH_KEY_DOMAIN = text_encode ''Aegis-stealth-v1''"

definition deriveStealthScalar :: "sha \<Rightarrow> bytes \<Rightarrow> int result" where
  "deriveStealthScalar H sharedSecret =
     js_bind (js_set (replicate (length sharedSecret + length STEALTH_KEY_DOMAIN) 0) sharedSecret 0) (\<lambda>h1.
     js_bind (js_set h1 STEALTH_KEY_DOMAIN (length sharedSecret)) (\<lambda>h2.
       Inr (scalarFromBytes (H h2))))"

definition deriveStealthPubKey :: "sha \<Rightarrow> BabyJubPoint \<Rightarrow> bytes \<Rightarrow> BabyJubPoint result" where
  "deriveStealthPubKey H spendingPub sharedSecret =
     js_bind (deriveStealthScalar H sharedSecret) (\<lambda>scalar.
       Inr (babyJubAdd spendingPub (babyJubMul scalar BABYJUB_BASE8)))"

definition deriveStealthPrivKey :: "sha \<Rightarrow> int \<Rightarrow> bytes \<Rightarrow> int result" where
  "deriveStealthPrivKey H spendingPriv sharedSecret =
     js_bind (deriveStealthScalar H sharedSecret) (\<lambda>scalar.
       Inr (bigint_rem (spendingPriv + scalar) BABYJUB_ORDER))"

section \<open>Outputs of a sender\<close>

definition createStealthDeposit ::
  "curve25519 \<Rightarrow> sha \<Rightarrow> poseidon \<Rightarrow> bytes \<Rightarrow> int \<Rightarrow> StealthMetaAddress \<Rightarrow> int \<Rightarrow> int \<Rightarrow> StealthDeposit result" where
  "createStealthDeposit C H P rnd now recipientMeta amountSats tokenId =
     (let ephemeral = ed25519GenerateKeyPair C rnd in
      js_bind (x25519Ecdh C (ed_privKey ephemeral) (m_viewingPubKey recipientMeta)) (\<lambda>sharedSecret.
      js_bind (deriveStealthScalar H sharedSecret) (\<lambda>stealthScalar.
      let recipientMPK = bytesToBigint (m_mpk recipientMeta);
          npk = computeNPKSync P recipientMPK stealthScalar;
          commitmentBigint = computeJoinSplitCommitmentSync P npk tokenId amountSats;
          encryptedAmount = encryptAmount H amountSats sharedSecret
      in Inr \<lparr> sd_ephemeralPub = ed_pubKey ephemeral, sd_encryptedAmount = encryptedAmount,
               sd_commitment = bigintToBytes commitmentBigint, sd_createdAt = now \<rparr>)))"

definition createStealthDepositWithKeys ::
  "curve25519 \<Rightarrow> sha \<Rightarrow> poseidon \<Rightarrow> bytes \<Rightarrow> StealthMetaAddress \<Rightarrow> int \<Rightarrow> int \<Rightarrow> StealthOutputWithKeys result" where
  "createStealthDepositWithKeys C H P rnd recipientMeta amountSats tokenId =
     (let ephemeral = ed25519GenerateKeyPair C rnd in
      js_bind (x25519Ecdh C (ed_privKey ephemeral) (m_viewingPubKey recipientMeta)) (\<lambda>sharedSecret.
      js_bind (deriveStealthScalar H sharedSecret) (\<lambda>stealthScalar.
      let recipientMPK = bytesToBigint (m_mpk recipientMeta);
          npk = computeNPKSync P recipientMPK stealthScalar;
          commitmentBigint = computeJoinSplitCommitmentSync P npk tokenId amountSats;
          encryptedAmount = encryptAmount H amountSats sharedSecret
      in Inr \<lparr> so_ephemeralPub = ed_pubKey ephemeral, so_encryptedAmount = encryptedAmount,
               so_commitment = bigintToBytes commitmentBigint, so_stealthPubKeyX = npk,
               so_npkBytes = bigintToBytes npk \<rparr>)))"

definition keys_mpk :: "poseidon \<Rightarrow> BabyJubPoint \<Rightarrow> int \<Rightarrow> int" where
  "keys_mpk P pub nullifyingKey = computeMPKSync P (px pub) (py pub) nullifyingKey"

definition createStealthOutput ::
  "curve25519 \<Rightarrow> sha \<Rightarrow> poseidon \<Rightarrow> bytes \<Rightarrow> UTXOpiaKeys \<Rightarrow> int \<Rightarrow> int \<Rightarrow> StealthOutputData result" where
  "createStealthOutput C H P rnd keys amountSats tokenId =
     (let ephemeral = ed25519GenerateKeyPair C rnd in
      js_bind (x25519Ecdh C (ed_privKey ephemeral) (k_viewingPubKey keys)) (\<lambda>sharedSecret.
      js_bind (deriveStealthScalar H sharedSecret) (\<lambda>stealthScalar.
      let mpk = keys_mpk P (k_spendingPubKey keys) (k_nullifyingKey keys);
          npk = computeNPKSync P mpk stealthScalar;
          commitmentBigint = computeJoinSplitCommitmentSync P npk tokenId amountSats;
          encryptedAmount = encryptAmount H amountSats sharedSecret
      in Inr \<lparr> so_ephemeralPub = ed_pubKey ephemeral, so_encryptedAmount = encryptedAmount,
               so_commitment = bigintToBytes commitmentBigint \<rparr>)))"

definition createStealthOutputWithKeys ::
  "curve25519 \<Rightarrow> sha \<Rightarrow> poseidon \<Rightarrow> bytes \<Rightarrow> UTXOpiaKeys \<Rightarrow> int \<Rightarrow> int \<Rightarrow> StealthOutputWithKeys result" where
  "createStealthOutputWithKeys C H P rnd keys amountSats tokenId =
     (let ephemeral = ed25519GenerateKeyPair C rnd in
      js_bind (x25519Ecdh C (ed_privKey ephemeral) (k_viewingPubKey keys)) (\<lambda>sharedSecret.
      js_bind (deriveStealthScalar H sharedSecret) (\<lambda>stealthScalar.
      let mpk = keys_mpk P (k_spendingPubKey keys) (k_nullifyingKey keys);
          npk = computeNPKSync P mpk stealthScalar;
          commitmentBigint = computeJoinSplitCommitmentSync P npk tokenId amountSats;
          encryptedAmount = encryptAmount H amountSats sharedSecret
      in Inr \<lparr> so_ephemeralPub = ed_pubKey ephemeral, so_encryptedAmount = encryptedAmount,
               so_commitment = bigintToBytes commitmentBigint, so_stealthPubKeyX = npk,
               so_npkBytes = bigintToBytes npk \<rparr>)))"

definition createStealthOutputForCommitment ::
  "curve25519 \<Rightarrow> sha \<Rightarrow> bytes \<Rightarrow> UTXOpiaKeys \<Rightarrow> int \<Rightarrow> bytes \<Rightarrow> StealthOutputData result" where
  "createStealthOutputForCommitment C H rnd keys amountSats existingCommitment =
     (let ephemeral = ed25519GenerateKeyPair C rnd in
      js_bind (x25519Ecdh C (ed_privKey ephemeral) (k_viewingPubKey keys)) (\<lambda>sharedSecret.
        Inr \<lparr> so_ephemeralPub = ed_pubKey ephemeral, so_encryptedAmount = encryptAmount H amountSats sharedSecret,
              so_commitment = existingCommitment \<rparr>))"

section \<open>Scanning\<close>

text \<open>
  The \<open>try\<close> of a scanner: type and range errors are thrown again, every other error skips the
  announcement. The body gives \<open>None\<close> where the source has \<open>continue\<close>.
\<close>

definition try_scan :: "'a option result \<Rightarrow> 'a option result" where
  "try_scan body =
     (case body of
        Inl e \<Rightarrow> if e = TypeError \<or> e = RangeError then Inl e else Inr None
      | Inr r \<Rightarrow> Inr r)"

definition scan_loop :: "('x \<Rightarrow> 'a option result) \<Rightarrow> 'x list \<Rightarrow> 'a list result" where
  "scan_loop body announcements =
     js_fold (\<lambda>ann found. js_bind (try_scan (body ann)) (\<lambda>r.
       Inr (case r of None \<Rightarrow> found | Some n \<Rightarrow> found @ [n]))) announcements []"

definition scan_announcement ::
  "curve25519 \<Rightarrow> sha \<Rightarrow> poseidon \<Rightarrow> UTXOpiaKeys \<Rightarrow> int \<Rightarrow> OnChainStealthAnnouncement \<Rightarrow> ScannedNote option result" where
  "scan_announcement C H P keys tokenId ann =
     (let mpk = keys_mpk P (k_spendingPubKey keys) (k_nullifyingKey keys) in
      js_bind (x25519Ecdh C (k_viewingPrivKey keys) (an_ephemeralPub ann)) (\<lambda>sharedSecret.
      let amount = decryptAmount H (an_encryptedAmount ann) sharedSecret in
      if amount \<le> 0 \<or> amount > MAX_SATS then Inr None
      else
        js_bind (deriveStealthPubKey H (k_spendingPubKey keys) sharedSecret) (\<lambda>stealthPub.
        js_bind (deriveStealthScalar H sharedSecret) (\<lambda>stealthScalar.
        let npk = computeNPKSync P mpk stealthScalar;
            expectedCommitment = computeJoinSplitCommitmentSync P npk tokenId amount;
            actualCommitment = bytesToBigint (an_commitment ann)
        in if expectedCommitment \<noteq> actualCommitment then Inr None
           else Inr (Some \<lparr> sn_amount = amount, sn_ephemeralPub = an_ephemeralPub ann, sn_stealthPub = stealthPub,
                            sn_leafIndex = an_leafIndex ann, sn_commitment = an_commitment ann, sn_blockTime = None \<rparr>)))))"

definition scanAnnouncements ::
  "curve25519 \<Rightarrow> sha \<Rightarrow> poseidon \<Rightarrow> UTXOpiaKeys \<Rightarrow> OnChainStealthAnnouncement list \<Rightarrow> int \<Rightarrow> ScannedNote list result" where
  "scanAnnouncements C H P keys announcements tokenId = scan_loop (scan_announcement C H P keys tokenId) announcements"

text \<open>The amount of a unified announcement: eight plain bytes in a deposit, encrypted otherwise.\<close>

definition announced_amount :: "sha \<Rightarrow> OnChainStealthAnnouncement \<Rightarrow> bytes \<Rightarrow> int result" where
  "announced_amount H ann sharedSecret =
     (if an_announcementType ann = Some ANNOUNCEMENT_TYPE_DEPOSIT then view_get_le 8 (an_encryptedAmount ann) 0
      else Inr (decryptAmount H (an_encryptedAmount ann) sharedSecret))"

definition scan_view_only ::
  "curve25519 \<Rightarrow> sha \<Rightarrow> poseidon \<Rightarrow> ViewOnlyKeys \<Rightarrow> int \<Rightarrow> OnChainStealthAnnouncement \<Rightarrow> ViewOnlyScannedNote option result" where
  "scan_view_only C H P keys tokenId ann =
     (let mpk = keys_mpk P (vk_spendingPubKey keys) (vk_nullifyingKey keys) in
      js_bind (x25519Ecdh C (vk_viewingPrivKey keys) (an_ephemeralPub ann)) (\<lambda>sharedSecret.
      js_bind (announced_amount H ann sharedSecret) (\<lambda>amount.
      if amount \<le> 0 \<or> amount > MAX_SATS then Inr None
      else
        js_bind (deriveStealthScalar H sharedSecret) (\<lambda>stealthScalar.
        let npk = computeNPKSync P mpk stealthScalar;
            expectedCommitment = computeJoinSplitCommitmentSync P npk tokenId amount;
            actualCommitment = bytesToBigint (an_commitment ann);
            deposit = (an_announcementType ann = Some ANNOUNCEMENT_TYPE_DEPOSIT)
        in if deposit \<and> expectedCommitment \<noteq> actualCommitment then Inr None
           else Inr (Some \<lparr> vn_amount = amount, vn_leafIndex = an_leafIndex ann,
                            vn_commitment = (if deposit then bigintToBytes expectedCommitment else an_commitment ann),
                            vn_ephemeralPub = an_ephemeralPub ann,
                            vn_blockTime = case_option 0 id (an_blockTime ann) \<rparr>)))))"

definition scanAnnouncementsViewOnly ::
  "curve25519 \<Rightarrow> sha \<Rightarrow> poseidon \<Rightarrow> ViewOnlyKeys \<Rightarrow> OnChainStealthAnnouncement list \<Rightarrow> int \<Rightarrow> ViewOnlyScannedNote list result" where
  "scanAnnouncementsViewOnly C H P keys announcements tokenId = scan_loop (scan_view_only C H P keys tokenId) announcements"

definition scan_unified ::
  "curve25519 \<Rightarrow> sha \<Rightarrow> poseidon \<Rightarrow> UTXOpiaKeys \<Rightarrow> int \<Rightarrow> OnChainStealthAnnouncement \<Rightarrow> ScannedNote option result" where
  "scan_unified C H P keys tokenId ann =
     (let mpk = keys_mpk P (k_spendingPubKey keys) (k_nullifyingKey keys) in
      js_bind (x25519Ecdh C (k_viewingPrivKey keys) (an_ephemeralPub ann)) (\<lambda>sharedSecret.
      js_bind (announced_amount H ann sharedSecret) (\<lambda>amount.
      if amount \<le> 0 \<or> amount > MAX_SATS then Inr None
      else
        js_bind (deriveStealthScalar H sharedSecret) (\<lambda>stealthScalar.
        let npk = computeNPKSync P mpk stealthScalar;
            commitmentBigint = computeJoinSplitCommitmentSync P npk tokenId amount;
            deposit = (an_announcementType ann = Some ANNOUNCEMENT_TYPE_DEPOSIT)
        in if deposit \<and> commitmentBigint \<noteq> bytesToBigint (an_commitment ann) then Inr None
           else
             (let commitmentBytes = (if deposit then bigintToBytes commitmentBigint else an_commitment ann) in
              js_bind (deriveStealthPubKey H (k_spendingPubKey keys) sharedSecret) (\<lambda>stealthPub.
                Inr (Some \<lparr> sn_amount = amount, sn_ephemeralPub = an_ephemeralPub ann, sn_stealthPub = stealthPub,
                            sn_leafIndex = an_leafIndex ann, sn_commitment = commitmentBytes,
                            sn_blockTime = Some (case_option 0 id (an_blockTime ann)) \<rparr>)))))))"

definition scanUnifiedNotes ::
  "curve25519 \<Rightarrow> sha \<Rightarrow> poseidon \<Rightarrow> UTXOpiaKeys \<Rightarrow> OnChainStealthAnnouncement list \<Rightarrow> int \<Rightarrow> ScannedNote list result" where
  "scanUnifiedNotes C H P keys announcements tokenId = scan_loop (scan_unified C H P keys tokenId) announcements"

section \<open>View-only keys\<close>

definition exportViewOnlyKeys :: "UTXOpiaKeys \<Rightarrow> ViewOnlyKeys" where
  "exportViewOnlyKeys keys =
     \<lparr> vk_viewingPrivKey = k_viewingPrivKey keys, vk_spendingPubKey = k_spendingPubKey keys,
       vk_nullifyingKey = k_nullifyingKey keys \<rparr>"

definition encodeViewOnlyKeys :: "ViewOnlyKeys \<Rightarrow> string result" where
  "encodeViewOnlyKeys keys =
     (let compressed = babyJubCompress (vk_spendingPubKey keys);
          nullBytes = bigintToBytes (vk_nullifyingKey keys)
      in js_bind (js_set (replicate 96 0) (vk_viewingPrivKey keys) 0) (\<lambda>c1.
         js_bind (js_set c1 compressed 32) (\<lambda>c2.
         js_bind (js_set c2 nullBytes 64) (\<lambda>c3.
           Inr (bytesToHex c3)))))"

definition decodeViewOnlyKeys :: "string \<Rightarrow> ViewOnlyKeys result option" where
  "decodeViewOnlyKeys encoded =
     (let bs = hexToBytes encoded in
      if length bs \<noteq> 96 then Some (Inl (Error ''Invalid view-only key length (expected 96 bytes)''))
      else
        map_option (\<lambda>r. js_bind r (\<lambda>spendingPubKey.
          Inr \<lparr> vk_viewingPrivKey = js_slice bs 0 32, vk_spendingPubKey = spendingPubKey,
                vk_nullifyingKey = bytesToBigint (js_slice bs 64 96) \<rparr>))
          (babyJubDecompress (js_slice bs 32 64)))"

section \<open>Claims and nullifiers\<close>

record merkle_input =
  mi_root :: int
  mi_pathElements :: "int list"
  mi_pathIndices :: "int list"

definition prepareClaimInputs ::
  "curve25519 \<Rightarrow> sha \<Rightarrow> poseidon \<Rightarrow> UTXOpiaKeys \<Rightarrow> ScannedNote \<Rightarrow> merkle_input \<Rightarrow> ClaimInputs result" where
  "prepareClaimInputs C H P keys n merkleProof =
     js_bind (x25519Ecdh C (k_viewingPrivKey keys) (sn_ephemeralPub n)) (\<lambda>sharedSecret.
     js_bind (deriveStealthPrivKey H (k_spendingPrivKey keys) sharedSecret) (\<lambda>stealthPrivKey.
     let expectedStealthPub = babyJubMul stealthPrivKey BABYJUB_BASE8 in
     if px expectedStealthPub \<noteq> px (sn_stealthPub n) \<or> py expectedStealthPub \<noteq> py (sn_stealthPub n)
     then Inl (Error ''Stealth key mismatch - this note may not belong to you or the announcement is invalid'')
     else
       js_bind (deriveStealthScalar H sharedSecret) (\<lambda>stealthScalar.
       let mpk = keys_mpk P (k_spendingPubKey keys) (k_nullifyingKey keys);
           npk = computeNPKSync P mpk stealthScalar;
           nullifier = computeJoinSplitNullifierSync P (k_nullifyingKey keys) (sn_leafIndex n)
       in Inr \<lparr> ci_stealthPrivKey = stealthPrivKey, ci_nullifyingKey = k_nullifyingKey keys, ci_amount = sn_amount n,
                ci_leafIndex = sn_leafIndex n, ci_merklePath = mi_pathElements merkleProof,
                ci_merkleIndices = mi_pathIndices merkleProof, ci_merkleRoot = mi_root merkleProof,
                ci_nullifier = nullifier, ci_npk = npk, ci_random = stealthScalar \<rparr>)))"

definition computeNullifierHashForNote :: "poseidon \<Rightarrow> UTXOpiaKeys \<Rightarrow> ScannedNote \<Rightarrow> bytes" where
  "computeNullifierHashForNote P keys n =
     bigintToBytes (computeJoinSplitNullifierSync P (k_nullifyingKey keys) (sn_leafIndex n))"

definition computeNullifierBytes :: "poseidon \<Rightarrow> int \<Rightarrow> int \<Rightarrow> bytes" where
  "computeNullifierBytes P nullifyingKey leafIndex = bigintToBytes (computeJoinSplitNullifierSync P nullifyingKey leafIndex)"

section \<open>Packing\<close>

definition packEncryptedAmountWithSign :: "bytes \<Rightarrow> bool \<Rightarrow> int result" where
  "packEncryptedAmountWithSign encryptedAmount ySign =
     (if length encryptedAmount \<noteq> 8 then Inl (Error ''Encrypted amount must be 8 bytes'')
      else
        (let amount = shift_in (rev encryptedAmount) in
         Inr (if ySign then amount OR push_bit 64 1 else amount)))"

record CircuitStealthOutput =
  co_ephemeralPubX :: int
  co_encryptedAmountWithSign :: int

definition packStealthOutputForCircuit :: "StealthOutputData \<Rightarrow> CircuitStealthOutput result" where
  "packStealthOutputForCircuit output =
     js_bind (packEncryptedAmountWithSign (so_encryptedAmount output) False) (\<lambda>packed.
       Inr \<lparr> co_ephemeralPubX = bytesToBigint (so_ephemeralPub output), co_encryptedAmountWithSign = packed \<rparr>)"

definition unpackEncryptedAmountWithSign :: "int \<Rightarrow> bytes \<times> bool" where
  "unpackEncryptedAmountWithSign packed =
     (let ySign = (packed AND push_bit 64 1 \<noteq> 0);
          amount = packed AND (push_bit 64 1 - 1)
      in (snd (store_le 8 0 amount (replicate 8 0)), ySign))"

section \<open>Announcements and deposits\<close>

record announcement_row =
  ar_announcement_type :: int
  ar_ephemeral_pub :: string
  ar_encrypted_amount :: string
  ar_commitment :: string
  ar_leaf_index :: int

definition parseAnnouncementsFromHex :: "announcement_row list \<Rightarrow> OnChainStealthAnnouncement list" where
  "parseAnnouncementsFromHex rows =
     map (\<lambda>r. \<lparr> an_announcementType = Some (ar_announcement_type r), an_ephemeralPub = hexToBytes (ar_ephemeral_pub r),
                an_encryptedAmount = hexToBytes (ar_encrypted_amount r), an_commitment = hexToBytes (ar_commitment r),
                an_leafIndex = ar_leaf_index r, an_blockTime = None \<rparr>) rows"

definition isDepositForViewer ::
  "curve25519 \<Rightarrow> sha \<Rightarrow> poseidon \<Rightarrow> bytes \<Rightarrow> BabyJubPoint \<Rightarrow> int \<Rightarrow> bytes \<Rightarrow> int \<Rightarrow> bool" where
  "isDepositForViewer C H P viewingPrivKey spendingPubKey nullifyingKey ephemeralPub depositNpk =
     (case js_bind (x25519Ecdh C viewingPrivKey ephemeralPub) (\<lambda>sharedSecret.
           let mpk = keys_mpk P spendingPubKey nullifyingKey in
           js_bind (deriveStealthScalar H sharedSecret) (\<lambda>stealthScalar.
             Inr (computeNPKSync P mpk stealthScalar = depositNpk))) of
        Inl e \<Rightarrow> False
      | Inr b \<Rightarrow> b)"

definition isDepositForViewerHex ::
  "curve25519 \<Rightarrow> sha \<Rightarrow> poseidon \<Rightarrow> ViewOnlyKeys \<Rightarrow> string \<Rightarrow> string \<Rightarrow> bool" where
  "isDepositForViewerHex C H P keys ephemeralPubHex npkHex =
     isDepositForViewer C H P (vk_viewingPrivKey keys) (vk_spendingPubKey keys) (vk_nullifyingKey keys)
       (hexToBytes ephemeralPubHex) (bytesToBigint (hexToBytes npkHex))"

end
