(* ===== verification/Stealth_Properties.thy ===== *)
theory Stealth_Properties
  imports Stealth
begin

text \<open>
  The properties of stealth payments: what a sender creates, the recipient finds; what a scanner
  reports, the spender can open; and the encodings of view-only keys and amounts.
\<close>

section \<open>Shared facts\<close>

definition stealth_scalar :: "sha \<Rightarrow> bytes \<Rightarrow> int" where
  "stealth_scalar H s = be_val (H (s @ STEALTH_KEY_DOMAIN)) mod BABYJUB_ORDER"

lemma deriveStealthScalar_eq [simp]: "deriveStealthScalar H s = Inr (stealth_scalar H s)"
proof -
  let ?D = STEALTH_KEY_DOMAIN
  have a: "js_set (replicate (length s + length ?D) 0) s 0 = Inr (s @ replicate (length ?D) 0)"
    by (simp add: js_set_def)
  have b: "js_set (s @ replicate (length ?D) 0) ?D (length s) = Inr (s @ ?D)"
    by (simp add: js_set_def)
  show ?thesis unfolding deriveStealthScalar_def a js_bind_simps b
    using order_pos(1) by (simp add: stealth_scalar_def scalarFromBytes_def bigint_mod_eq shift_in_be_val)
qed

lemma deriveStealthPubKey_eq [simp]:
  "deriveStealthPubKey H pub s = Inr (babyJubAdd pub (babyJubMul (stealth_scalar H s) BABYJUB_BASE8))"
  by (simp add: deriveStealthPubKey_def)

lemma deriveStealthPrivKey_eq [simp]:
  "deriveStealthPrivKey H priv s = Inr (bigint_rem (priv + stealth_scalar H s) BABYJUB_ORDER)"
  by (simp add: deriveStealthPrivKey_def)

lemma scan_loop_snoc:
  "scan_loop f (anns @ [ann]) = js_bind (scan_loop f anns) (\<lambda>found. js_bind (try_scan (f ann)) (\<lambda>r.
     Inr (case r of None \<Rightarrow> found | Some n \<Rightarrow> found @ [n])))"
  by (cases "scan_loop f anns") (auto simp: scan_loop_def js_fold_append js_bind_def split: sum.splits)

lemma scan_loop_found:
  "scan_loop f anns = Inr found \<Longrightarrow> n \<in> set found \<Longrightarrow> \<exists>ann \<in> set anns. f ann = Inr (Some n)"
proof (induction anns arbitrary: found rule: rev_induct)
  case (snoc ann anns)
  then obtain found' r where "scan_loop f anns = Inr found'" "try_scan (f ann) = Inr r"
    "found = (case r of None \<Rightarrow> found' | Some n \<Rightarrow> found' @ [n])"
    by (auto simp: scan_loop_snoc js_bind_Inr_iff)
  with snoc show ?case by (auto simp: try_scan_def split: option.splits sum.splits if_splits)
qed (simp add: scan_loop_def)

text \<open>The secret both sides of a payment share, and the note public key it gives.\<close>

definition note_npk :: "sha \<Rightarrow> poseidon \<Rightarrow> BabyJubPoint \<Rightarrow> int \<Rightarrow> bytes \<Rightarrow> int" where
  "note_npk H P pub nk s = P 2 [P 3 [px pub, py pub, nk], stealth_scalar H s]"

lemma poseidon_fixed_small [simp]:
  "poseidon_fixed P [a] = P 1 [a]" "poseidon_fixed P [a, b] = P 2 [a, b]" "poseidon_fixed P [a, b, c] = P 3 [a, b, c]"
  by (simp_all add: poseidon_fixed_eq numeral_2_eq_2 numeral_3_eq_3)

lemma npk_eq [simp]: "computeNPKSync P (keys_mpk P pub nk) (stealth_scalar H s) = note_npk H P pub nk s"
  by (simp add: computeNPKSync_def keys_mpk_def computeMPKSync_def note_npk_def)

lemma commitment_eq [simp]: "computeJoinSplitCommitmentSync P npk token amount = P 3 [npk, token, amount]"
  by (simp add: computeJoinSplitCommitmentSync_def)

lemma amount_fits: "0 < a \<Longrightarrow> a \<le> MAX_SATS \<Longrightarrow> a mod 256 ^ 8 = a"
  by (simp add: MAX_SATS_def)

lemma bytes_roundtrip: "fits 32 v \<Longrightarrow> bytesToBigint (bigintToBytes v) = v"
  using fe.dec_enc by blast

lemma meta_mpk:
  "fits 32 (P 3 [px (k_spendingPubKey keys), py (k_spendingPubKey keys), k_nullifyingKey keys]) \<Longrightarrow>
   bytesToBigint (m_mpk (createStealthMetaAddress P keys)) = keys_mpk P (k_spendingPubKey keys) (k_nullifyingKey keys)"
  by (simp add: createStealthMetaAddress_def Let_def keys_mpk_def computeMPKSync_def bytes_roundtrip)

text \<open>What every function of the sender puts into an output.\<close>

lemma deposit_fields:
  assumes "curve_ok C" "\<forall>n xs. fits 32 (P n xs)" "k_viewingPubKey keys = getPublicKey C (k_viewingPrivKey keys)"
  obtains s where "x25519Ecdh C (k_viewingPrivKey keys) (getPublicKey C rnd) = Inr s"
    "createStealthDeposit C H P rnd now (createStealthMetaAddress P keys) amount token =
      Inr \<lparr> sd_ephemeralPub = getPublicKey C rnd, sd_encryptedAmount = encryptAmount H amount s,
        sd_commitment = bigintToBytes (P 3 [note_npk H P (k_spendingPubKey keys) (k_nullifyingKey keys) s, token, amount]),
        sd_createdAt = now \<rparr>"
    "createStealthDepositWithKeys C H P rnd (createStealthMetaAddress P keys) amount token =
      Inr \<lparr> so_ephemeralPub = getPublicKey C rnd, so_encryptedAmount = encryptAmount H amount s,
        so_commitment = bigintToBytes (P 3 [note_npk H P (k_spendingPubKey keys) (k_nullifyingKey keys) s, token, amount]),
        so_stealthPubKeyX = note_npk H P (k_spendingPubKey keys) (k_nullifyingKey keys) s,
        so_npkBytes = bigintToBytes (note_npk H P (k_spendingPubKey keys) (k_nullifyingKey keys) s) \<rparr>"
proof -
  obtain s where s: "x25519Ecdh C (k_viewingPrivKey keys) (getPublicKey C rnd) = Inr s"
    "x25519Ecdh C rnd (getPublicKey C (k_viewingPrivKey keys)) = Inr s"
    using assms(1) unfolding curve_ok_def by blast
  have v: "m_viewingPubKey (createStealthMetaAddress P keys) = getPublicKey C (k_viewingPrivKey keys)"
    using assms(3) by (simp add: createStealthMetaAddress_def Let_def)
  show ?thesis
    using assms(2) s v that
    by (simp add: createStealthDeposit_def createStealthDepositWithKeys_def ed25519GenerateKeyPair_def Let_def meta_mpk)
qed

definition transfer_announcement :: "StealthDeposit \<Rightarrow> int \<Rightarrow> OnChainStealthAnnouncement" where
  "transfer_announcement d leafIndex =
     \<lparr> an_announcementType = Some ANNOUNCEMENT_TYPE_TRANSFER, an_ephemeralPub = sd_ephemeralPub d,
       an_encryptedAmount = sd_encryptedAmount d, an_commitment = sd_commitment d, an_leafIndex = leafIndex,
       an_blockTime = None \<rparr>"

definition deposit_announcement :: "StealthDeposit \<Rightarrow> int \<Rightarrow> int \<Rightarrow> OnChainStealthAnnouncement" where
  "deposit_announcement d amount leafIndex =
     \<lparr> an_announcementType = Some ANNOUNCEMENT_TYPE_DEPOSIT, an_ephemeralPub = sd_ephemeralPub d,
       an_encryptedAmount = le_bytes 8 amount, an_commitment = sd_commitment d, an_leafIndex = leafIndex,
       an_blockTime = None \<rparr>"

section \<open>Properties\<close>

text \<open>
  (C13) Whoever receives a payment finds it. A stealth deposit to the meta-address of some keys,
  announced after any other announcements, is reported as the last note with its amount, leaf
  index and commitment: by the scanner of the owner, by the unified scanner (announced as a
  transfer, or as a deposit with the amount in the clear), and by the view-only scanner.
\<close>

theorem stealth_payment_found:
  assumes "curve_ok C" "\<forall>n xs. fits 32 (P n xs)" "k_viewingPubKey keys = getPublicKey C (k_viewingPrivKey keys)"
    "0 < amount" "amount \<le> MAX_SATS"
    "scanAnnouncements C H P keys anns token = Inr found" "scanUnifiedNotes C H P keys anns token = Inr found1"
    "scanAnnouncementsViewOnly C H P (exportViewOnlyKeys keys) anns token = Inr found2"
  shows "\<exists>d n n1 n2 n3. createStealthDeposit C H P rnd now (createStealthMetaAddress P keys) amount token = Inr d \<and>
    scanAnnouncements C H P keys (anns @ [transfer_announcement d i]) token = Inr (found @ [n]) \<and>
    scanUnifiedNotes C H P keys (anns @ [transfer_announcement d i]) token = Inr (found1 @ [n1]) \<and>
    scanUnifiedNotes C H P keys (anns @ [deposit_announcement d amount i]) token = Inr (found1 @ [n2]) \<and>
    scanAnnouncementsViewOnly C H P (exportViewOnlyKeys keys) (anns @ [transfer_announcement d i]) token = Inr (found2 @ [n3]) \<and>
    (\<forall>x \<in> {n, n1, n2}. sn_amount x = amount \<and> sn_leafIndex x = i \<and> sn_commitment x = sd_commitment d) \<and>
    vn_amount n3 = amount \<and> vn_leafIndex n3 = i \<and> vn_commitment n3 = sd_commitment d"
proof -
  obtain s where s: "x25519Ecdh C (k_viewingPrivKey keys) (getPublicKey C rnd) = Inr s"
    "createStealthDeposit C H P rnd now (createStealthMetaAddress P keys) amount token =
      Inr \<lparr> sd_ephemeralPub = getPublicKey C rnd, sd_encryptedAmount = encryptAmount H amount s,
        sd_commitment = bigintToBytes (P 3 [note_npk H P (k_spendingPubKey keys) (k_nullifyingKey keys) s, token, amount]),
        sd_createdAt = now \<rparr>"
    using deposit_fields [OF assms(1-3)] by metis
  have a: "decryptAmount H (encryptAmount H amount s) s = amount"
    unfolding decryptAmount_def encryptAmount_def decrypt_encrypt_amount by (rule amount_fits [OF assms(4,5)])
  have v: "view_get_le 8 (le_bytes 8 amount) 0 = Inr amount"
    using amount_fits [OF assms(4,5)] by (simp add: view_get_le_def js_slice_all le_val_le_bytes del: le_bytes.simps)
  have c: "bytesToBigint (bigintToBytes (P n xs)) = P n xs" for n xs using assms(2) bytes_roundtrip by blast
  have lim: "\<not> (amount \<le> 0 \<or> amount > MAX_SATS)" using assms(4,5) by simp
  note defs = try_scan_def scan_loop_snoc transfer_announcement_def deposit_announcement_def announced_amount_def
    ANNOUNCEMENT_TYPE_TRANSFER_def ANNOUNCEMENT_TYPE_DEPOSIT_def Let_def
  show ?thesis
    using assms(6-8) s a v c lim
    by (simp add: scanAnnouncements_def scanUnifiedNotes_def scanAnnouncementsViewOnly_def scan_announcement_def
        scan_unified_def scan_view_only_def exportViewOnlyKeys_def defs del: le_bytes.simps)
qed

definition sample_keys :: UTXOpiaKeys where
  "sample_keys =
     \<lparr> k_solanaPublicKey = replicate 32 0, k_spendingPrivKey = 0, k_spendingPubKey = BABYJUB_IDENTITY, k_nullifyingKey = 5,
       k_viewingPrivKey = replicate 32 6, k_viewingPubKey = getPublicKey sample_curve (replicate 32 6),
       k_eddsaSeed = replicate 32 0 \<rparr>"

lemma sample_fits: "\<forall>n xs. fits 32 (sample_poseidon n xs)"
  using sample_syscall_ok by (simp add: syscall_ok_def in_field_fits)

lemma sample_keys_ok: "k_viewingPubKey sample_keys = getPublicKey sample_curve (k_viewingPrivKey sample_keys)"
  by (simp add: sample_keys_def)

lemma sample_spending_key: "babyJubDecompress (babyJubCompress (k_spendingPubKey sample_keys)) = Some (Inr (k_spendingPubKey sample_keys))"
proof -
  have c: "babyJubCompress BABYJUB_IDENTITY = le_bytes 32 1" by (simp add: compress_bytes BABYJUB_IDENTITY_def del: le_bytes.simps)
  have b: "(le_bytes 32 1) ! 31 AND 0x7f = (le_bytes 32 1) ! 31" by (simp add: le_bytes_nth)
  have "babyJubDecompress (le_bytes 32 1) = Some (Inr \<lparr> px = 0, py = le_val (le_bytes 32 1) \<rparr>)"
    using decompress_unit [of "le_bytes 32 1"] unfolding b list_update_id
    by (simp add: le_val_le_bytes BABYJUB_FIELD_PRIME_def del: le_bytes.simps)
  then show ?thesis
    by (simp add: sample_keys_def c le_val_le_bytes del: le_bytes.simps) (simp add: BABYJUB_IDENTITY_def)
qed

theorem stealth_payment_found_witness:
  "\<exists>d n. createStealthDeposit sample_curve sample_sha sample_poseidon [7] 0 (createStealthMetaAddress sample_poseidon sample_keys) 1000 9 = Inr d \<and>
    scanAnnouncements sample_curve sample_sha sample_poseidon sample_keys [transfer_announcement d 3] 9 = Inr [n] \<and> sn_amount n = 1000"
proof -
  have e: "scanAnnouncements sample_curve sample_sha sample_poseidon sample_keys [] 9 = Inr []"
    "scanUnifiedNotes sample_curve sample_sha sample_poseidon sample_keys [] 9 = Inr []"
    "scanAnnouncementsViewOnly sample_curve sample_sha sample_poseidon (exportViewOnlyKeys sample_keys) [] 9 = Inr []"
    by (simp_all add: scanAnnouncements_def scanUnifiedNotes_def scanAnnouncementsViewOnly_def scan_loop_def)
  show ?thesis
    using stealth_payment_found [OF sample_curve_ok sample_fits sample_keys_ok _ _ e, of 1000 "[7]" 0 3]
    by (auto simp: MAX_SATS_def)
qed


text \<open>A hash for which the one-time scalar is zero, so that the keys of the sample can be computed.\<close>

definition zero_sha :: sha where
  "zero_sha bs = replicate 32 0"

lemma zero_scalar: "stealth_scalar zero_sha s = 0"
  by (simp add: stealth_scalar_def zero_sha_def)

lemma mul_zero: "babyJubMul 0 BABYJUB_BASE8 = BABYJUB_IDENTITY"
  by (simp add: babyJubMul_def bigint_mod_eq [OF order_pos(1)])

lemma identity_sum: "babyJubAdd BABYJUB_IDENTITY BABYJUB_IDENTITY = BABYJUB_IDENTITY"
  by (rule point2_adds(3))


text \<open>
  For transfers the unified scanner checks nothing but the range of the decrypted amount: an
  announcement of type transfer whose amount decrypts into the range is reported with whatever
  commitment it carries and for whatever token is scanned.
\<close>

theorem transfer_commitment_unchecked:
  assumes "x25519Ecdh C (k_viewingPrivKey keys) eph = Inr s"
    "0 < decryptAmount H enc s" "decryptAmount H enc s \<le> MAX_SATS"
  shows "\<exists>n. scanUnifiedNotes C H P keys
      [\<lparr> an_announcementType = Some ANNOUNCEMENT_TYPE_TRANSFER, an_ephemeralPub = eph, an_encryptedAmount = enc,
         an_commitment = anything, an_leafIndex = i, an_blockTime = None \<rparr>] token = Inr [n] \<and>
    sn_commitment n = anything \<and> sn_amount n = decryptAmount H enc s"
  using assms
  by (simp add: scanUnifiedNotes_def scan_loop_def try_scan_def scan_unified_def announced_amount_def Let_def
      ANNOUNCEMENT_TYPE_TRANSFER_def ANNOUNCEMENT_TYPE_DEPOSIT_def)

theorem transfer_commitment_unchecked_witness:
  "\<exists>s n. scanUnifiedNotes sample_curve sample_sha sample_poseidon sample_keys
      [\<lparr> an_announcementType = Some ANNOUNCEMENT_TYPE_TRANSFER, an_ephemeralPub = getPublicKey sample_curve [7],
         an_encryptedAmount = encryptAmount sample_sha 1000 s, an_commitment = [], an_leafIndex = 0, an_blockTime = None \<rparr>] 9 = Inr [n] \<and>
    sn_amount n = 1000"
proof -
  obtain s where s: "x25519Ecdh sample_curve (k_viewingPrivKey sample_keys) (getPublicKey sample_curve [7]) = Inr s"
    using sample_curve_ok unfolding curve_ok_def by blast
  have a: "decryptAmount sample_sha (encryptAmount sample_sha 1000 s) s = 1000"
    unfolding decryptAmount_def encryptAmount_def decrypt_encrypt_amount by simp
  from transfer_commitment_unchecked [OF s, of sample_sha "encryptAmount sample_sha 1000 s" sample_poseidon "[]" 0 9]
  show ?thesis unfolding a by (auto simp: MAX_SATS_def)
qed

text \<open>
  View-only keys survive their text form: whenever the compressed spending key decompresses to
  itself, decoding the encoded keys gives them back; and a text that is not 96 bytes is refused.
\<close>

theorem view_only_keys_roundtrip:
  assumes "length (vk_viewingPrivKey keys) = 32" "fits 32 (vk_nullifyingKey keys)"
    "babyJubDecompress (babyJubCompress (vk_spendingPubKey keys)) = Some (Inr (vk_spendingPubKey keys))"
  shows "\<exists>hex. encodeViewOnlyKeys keys = Inr hex \<and> decodeViewOnlyKeys hex = Some (Inr keys)"
proof -
  let ?b = "vk_viewingPrivKey keys @ babyJubCompress (vk_spendingPubKey keys) @ bigintToBytes (vk_nullifyingKey keys)"
  have "encodeViewOnlyKeys keys = Inr (bytesToHex ?b)"
    using assms(1) by (simp add: encodeViewOnlyKeys_def js_set_def)
  moreover have "decodeViewOnlyKeys (bytesToHex ?b) = Some (Inr keys)"
    using assms by (simp add: decodeViewOnlyKeys_def hexToBytes_bytesToHex js_slice_def bytes_roundtrip)
  ultimately show ?thesis by blast
qed

theorem view_only_keys_roundtrip_witness:
  "\<exists>hex. encodeViewOnlyKeys (exportViewOnlyKeys sample_keys) = Inr hex \<and>
     decodeViewOnlyKeys hex = Some (Inr (exportViewOnlyKeys sample_keys))"
proof (rule view_only_keys_roundtrip)
  show "length (vk_viewingPrivKey (exportViewOnlyKeys sample_keys)) = 32" "fits 32 (vk_nullifyingKey (exportViewOnlyKeys sample_keys))"
    by (simp_all add: exportViewOnlyKeys_def sample_keys_def fits_def)
  show "babyJubDecompress (babyJubCompress (vk_spendingPubKey (exportViewOnlyKeys sample_keys))) =
      Some (Inr (vk_spendingPubKey (exportViewOnlyKeys sample_keys)))"
    using sample_spending_key by (simp add: exportViewOnlyKeys_def)
qed

text \<open>
  Packing an encrypted amount for the circuit is lossless: eight bytes and the sign come back
  from the packed number, which fits 65 bits; any other length is refused.
\<close>

theorem packed_amount_roundtrip:
  "if length enc = 8
   then \<exists>v. packEncryptedAmountWithSign enc sign = Inr v \<and> 0 \<le> v \<and> v < 2 ^ 65 \<and> unpackEncryptedAmountWithSign v = (enc, sign)
   else packEncryptedAmountWithSign enc sign = Inl (Error ''Encrypted amount must be 8 bytes'')"
proof (cases "length enc = 8")
  case True
  let ?a = "le_val enc" and ?v = "le_val enc + (if sign then 2 ^ 64 else 0)"
  have r: "0 \<le> ?a" "?a < 2 ^ 64" using le_val_bound [of enc] True by simp_all
  have "?a OR 2 ^ 64 = ?a + 2 ^ 64"
  proof -
    have "\<not> bit ?a 64" using r by (simp add: bit_iff_odd)
    then have "?a AND 2 ^ 64 = 0" by (rule and_exp_eq_0_iff_not_bit [THEN iffD2])
    then show ?thesis by (rule disjunctive_add_eq_or [symmetric])
  qed
  then have p: "packEncryptedAmountWithSign enc sign = Inr ?v"
    using True by (simp add: packEncryptedAmountWithSign_def shift_in_rev push_bit_eq_mult Let_def)
  have m: "?v AND (push_bit 64 1 - 1) = ?a"
  proof -
    have "push_bit 64 1 - 1 = (mask 64 :: int)" by (simp add: mask_eq_exp_minus_1 push_bit_eq_mult)
    then have "?v AND (push_bit 64 1 - 1) = ?v mod 2 ^ 64" by (simp only: take_bit_eq_mask [symmetric] take_bit_eq_mod)
    also have "\<dots> = ?a" using r by simp
    finally show ?thesis .
  qed
  have "(?v AND push_bit 64 1 \<noteq> 0) \<longleftrightarrow> bit ?v 64" by (rule bit_iff_and_push_bit_not_eq_0 [symmetric])
  also have "\<dots> \<longleftrightarrow> sign"
  proof -
    have "?a div 2 ^ 64 = 0" using r by (rule div_pos_pos_trivial)
    moreover from this have "(?a + 2 ^ 64) div 2 ^ 64 = 1" by (subst div_add_self2) simp_all
    ultimately show ?thesis unfolding bit_iff_odd by (cases sign) simp_all
  qed
  finally have "unpackEncryptedAmountWithSign ?v = (enc, sign)"
    unfolding unpackEncryptedAmountWithSign_def Let_def m using True by (simp add: store_le_eq le_bytes_le_val del: le_bytes.simps)
  then show ?thesis using True p r by auto
qed (simp add: packEncryptedAmountWithSign_def)

text \<open>
  A viewer recognises exactly the deposits made to its meta-address: the ownership check holds
  for the ephemeral key and note public key of a deposit to the keys, in bytes and in hexadecimal,
  and fails for every other note public key.
\<close>

theorem deposit_recognised:
  assumes "curve_ok C" "\<forall>n xs. fits 32 (P n xs)" "k_viewingPubKey keys = getPublicKey C (k_viewingPrivKey keys)"
  shows "\<exists>d. createStealthDepositWithKeys C H P rnd (createStealthMetaAddress P keys) amount token = Inr d \<and>
    (\<forall>npk. isDepositForViewer C H P (k_viewingPrivKey keys) (k_spendingPubKey keys) (k_nullifyingKey keys)
       (so_ephemeralPub d) npk \<longleftrightarrow> npk = so_stealthPubKeyX d) \<and>
    isDepositForViewerHex C H P (exportViewOnlyKeys keys) (bytesToHex (so_ephemeralPub d)) (bytesToHex (so_npkBytes d))"
proof -
  obtain s where s: "x25519Ecdh C (k_viewingPrivKey keys) (getPublicKey C rnd) = Inr s"
    "createStealthDepositWithKeys C H P rnd (createStealthMetaAddress P keys) amount token =
      Inr \<lparr> so_ephemeralPub = getPublicKey C rnd, so_encryptedAmount = encryptAmount H amount s,
        so_commitment = bigintToBytes (P 3 [note_npk H P (k_spendingPubKey keys) (k_nullifyingKey keys) s, token, amount]),
        so_stealthPubKeyX = note_npk H P (k_spendingPubKey keys) (k_nullifyingKey keys) s,
        so_npkBytes = bigintToBytes (note_npk H P (k_spendingPubKey keys) (k_nullifyingKey keys) s) \<rparr>"
    using deposit_fields [OF assms] by metis
  have "fits 32 (note_npk H P (k_spendingPubKey keys) (k_nullifyingKey keys) s)" using assms(2) by (simp add: note_npk_def)
  with s show ?thesis
    by (auto simp: isDepositForViewer_def isDepositForViewerHex_def exportViewOnlyKeys_def hexToBytes_bytesToHex
        bytes_roundtrip Let_def)
qed

theorem deposit_recognised_witness:
  "\<exists>d. createStealthDepositWithKeys sample_curve sample_sha sample_poseidon [7] (createStealthMetaAddress sample_poseidon sample_keys) 1000 9 = Inr d \<and>
    isDepositForViewer sample_curve sample_sha sample_poseidon (k_viewingPrivKey sample_keys) (k_spendingPubKey sample_keys)
      (k_nullifyingKey sample_keys) (so_ephemeralPub d) (so_stealthPubKeyX d)"
  using deposit_recognised [OF sample_curve_ok sample_fits sample_keys_ok] by blast

end
