(* ===== verification/Sender_Memo.thy ===== *)
theory Sender_Memo
  imports Crypto Samples
begin

text \<open>
  The sender memo channel of \<open>src/sdk/src/sender-memo.ts\<close>: the outgoing viewing key, the plaintext
  and associated data of a memo, encryption and decryption, and the packed forms. The cipher
  XChaCha20-Poly1305 is the package \<open>@noble/ciphers\<close>; its two operations are a parameter. A fresh
  nonce is an argument.
\<close>

record aead =
  ae_encrypt :: "bytes \<Rightarrow> bytes \<Rightarrow> bytes \<Rightarrow> bytes \<Rightarrow> bytes"
  ae_decrypt :: "bytes \<Rightarrow> bytes \<Rightarrow> bytes \<Rightarrow> bytes \<Rightarrow> bytes result"

text \<open>Documented behaviour of the cipher: 16 bytes are added, and decryption inverts encryption.\<close>

definition aead_ok :: "aead \<Rightarrow> bool" where
  "aead_ok A \<longleftrightarrow> (\<forall>k n a p. length (ae_encrypt A k n a p) = length p + 16 \<and>
     ae_decrypt A k n a (ae_encrypt A k n a p) = Inr p)"

definition SENDER_MEMO_NONCE_BYTES :: nat where
  "SENDER_MEMO_NONCE_BYTES = 24"

definition SENDER_MEMO_CIPHERTEXT_BYTES :: nat where
  "SENDER_MEMO_CIPHERTEXT_BYTES = 56"

definition SENDER_MEMO_TOKEN_BYTES :: nat where
  "SENDER_MEMO_TOKEN_BYTES = 32"

definition SENDER_MEMO_AMOUNT_BYTES :: nat where
  "SENDER_MEMO_AMOUNT_BYTES = 8"

definition SENDER_MEMO_COMMITMENT_BYTES :: nat where
  "SENDER_MEMO_COMMITMENT_BYTES = 32"

definition SENDER_MEMO_LEAF_INDEX_BYTES :: nat where
  "SENDER_MEMO_LEAF_INDEX_BYTES = 4"

definition SENDER_MEMO_PACKED_BYTES :: nat where
  "SENDER_MEMO_PACKED_BYTES = SENDER_MEMO_NONCE_BYTES + SENDER_MEMO_CIPHERTEXT_BYTES
     + SENDER_MEMO_COMMITMENT_BYTES + SENDER_MEMO_LEAF_INDEX_BYTES"

lemmas memo_sizes = SENDER_MEMO_NONCE_BYTES_def SENDER_MEMO_CIPHERTEXT_BYTES_def SENDER_MEMO_TOKEN_BYTES_def
  SENDER_MEMO_AMOUNT_BYTES_def SENDER_MEMO_COMMITMENT_BYTES_def SENDER_MEMO_LEAF_INDEX_BYTES_def SENDER_MEMO_PACKED_BYTES_def

definition OVK_DOMAIN :: bytes where
  "OVK_DOMAIN = text_encode ''utxopia.ovk.v1''"

record SenderMemoPlain =
  mp_tokenId :: int
  mp_amount :: int

record SenderMemoCiphertext =
  mc_nonce :: bytes
  mc_ciphertextWithTag :: bytes
  mc_commitment :: bytes
  mc_leafIndex :: int

definition deriveOutgoingViewingKey :: "sha \<Rightarrow> bytes \<Rightarrow> bytes result" where
  "deriveOutgoingViewingKey H viewingPrivKey =
     (if length viewingPrivKey \<noteq> 32 then Inl (Error ''viewingPrivKey must be 32 bytes'')
      else
        js_bind (js_set (replicate (length viewingPrivKey + length OVK_DOMAIN) 0) viewingPrivKey 0) (\<lambda>b1.
        js_bind (js_set b1 OVK_DOMAIN (length viewingPrivKey)) (\<lambda>b2. Inr (H b2))))"

definition buildAAD :: "bytes \<Rightarrow> int \<Rightarrow> bytes result" where
  "buildAAD commitment leafIndex =
     js_bind (js_set (replicate (SENDER_MEMO_COMMITMENT_BYTES + SENDER_MEMO_LEAF_INDEX_BYTES) 0) commitment 0) (\<lambda>aad.
       view_set_le 4 aad SENDER_MEMO_COMMITMENT_BYTES leafIndex)"

definition packPlaintext :: "SenderMemoPlain \<Rightarrow> bytes result" where
  "packPlaintext plain =
     (let (t, out1) = store_be SENDER_MEMO_TOKEN_BYTES (mp_tokenId plain)
            (replicate (SENDER_MEMO_TOKEN_BYTES + SENDER_MEMO_AMOUNT_BYTES) 0) in
      if t \<noteq> 0 then Inl RangeError
      else
        (let (a, out2) = store_le SENDER_MEMO_AMOUNT_BYTES SENDER_MEMO_TOKEN_BYTES (mp_amount plain) out1 in
         if a \<noteq> 0 then Inl RangeError else Inr out2))"

definition unpackPlaintext :: "bytes \<Rightarrow> SenderMemoPlain" where
  "unpackPlaintext bs =
     \<lparr> mp_tokenId = shift_in (js_slice bs 0 SENDER_MEMO_TOKEN_BYTES),
       mp_amount = shift_in (rev (js_slice bs SENDER_MEMO_TOKEN_BYTES (SENDER_MEMO_TOKEN_BYTES + SENDER_MEMO_AMOUNT_BYTES))) \<rparr>"

definition encryptSenderMemo ::
  "aead \<Rightarrow> sha \<Rightarrow> bytes \<Rightarrow> SenderMemoPlain \<Rightarrow> bytes \<Rightarrow> int \<Rightarrow> bytes \<Rightarrow> SenderMemoCiphertext result" where
  "encryptSenderMemo A H viewingPrivKey plain commitment leafIndex nonce =
     (if length nonce \<noteq> SENDER_MEMO_NONCE_BYTES then Inl (Error ''nonce must be 24 bytes'')
      else if length commitment \<noteq> SENDER_MEMO_COMMITMENT_BYTES then Inl (Error ''commitment must be 32 bytes'')
      else
        js_bind (deriveOutgoingViewingKey H viewingPrivKey) (\<lambda>ovk.
        js_bind (buildAAD commitment leafIndex) (\<lambda>aad.
        js_bind (packPlaintext plain) (\<lambda>plaintext.
        let ciphertextWithTag = ae_encrypt A ovk nonce aad plaintext in
        if length ciphertextWithTag \<noteq> SENDER_MEMO_CIPHERTEXT_BYTES then Inl (Error ''internal error: AEAD produced'')
        else Inr \<lparr> mc_nonce = nonce, mc_ciphertextWithTag = ciphertextWithTag, mc_commitment = commitment,
                   mc_leafIndex = leafIndex \<rparr>))))"

definition decryptSenderMemo :: "aead \<Rightarrow> sha \<Rightarrow> bytes \<Rightarrow> SenderMemoCiphertext \<Rightarrow> SenderMemoPlain option result" where
  "decryptSenderMemo A H viewingPrivKey memo =
     (if length (mc_nonce memo) \<noteq> SENDER_MEMO_NONCE_BYTES \<or>
         length (mc_ciphertextWithTag memo) \<noteq> SENDER_MEMO_CIPHERTEXT_BYTES \<or>
         length (mc_commitment memo) \<noteq> SENDER_MEMO_COMMITMENT_BYTES
      then Inr None
      else
        js_bind (deriveOutgoingViewingKey H viewingPrivKey) (\<lambda>ovk.
        js_bind (buildAAD (mc_commitment memo) (mc_leafIndex memo)) (\<lambda>aad.
          case ae_decrypt A ovk (mc_nonce memo) aad (mc_ciphertextWithTag memo) of
            Inl e \<Rightarrow> Inr None
          | Inr plaintext \<Rightarrow> Inr (Some (unpackPlaintext plaintext)))))"

definition packSenderMemo :: "SenderMemoCiphertext \<Rightarrow> bytes result" where
  "packSenderMemo memo =
     build SENDER_MEMO_PACKED_BYTES
       [PutBytes (mc_nonce memo) SENDER_MEMO_NONCE_BYTES, PutBytes (mc_ciphertextWithTag memo) SENDER_MEMO_CIPHERTEXT_BYTES,
        PutBytes (mc_commitment memo) SENDER_MEMO_COMMITMENT_BYTES, PutLE 4 (mc_leafIndex memo)]"

definition packSenderMemoForInstruction :: "SenderMemoCiphertext \<Rightarrow> bytes result" where
  "packSenderMemoForInstruction memo =
     js_bind (js_set (replicate (SENDER_MEMO_NONCE_BYTES + SENDER_MEMO_CIPHERTEXT_BYTES) 0) (mc_nonce memo) 0) (\<lambda>o1.
       js_set o1 (mc_ciphertextWithTag memo) SENDER_MEMO_NONCE_BYTES)"

definition unpackSenderMemo :: "bytes \<Rightarrow> SenderMemoCiphertext result" where
  "unpackSenderMemo bs =
     (if length bs \<noteq> SENDER_MEMO_PACKED_BYTES then Inl (Error ''packed sender memo must be 116 bytes'')
      else
        js_bind (view_get_le 4 bs (SENDER_MEMO_NONCE_BYTES + SENDER_MEMO_CIPHERTEXT_BYTES + SENDER_MEMO_COMMITMENT_BYTES)) (\<lambda>leafIndex.
          Inr \<lparr> mc_nonce = js_slice bs 0 SENDER_MEMO_NONCE_BYTES,
                mc_ciphertextWithTag = js_slice bs SENDER_MEMO_NONCE_BYTES (SENDER_MEMO_NONCE_BYTES + SENDER_MEMO_CIPHERTEXT_BYTES),
                mc_commitment = js_slice bs (SENDER_MEMO_NONCE_BYTES + SENDER_MEMO_CIPHERTEXT_BYTES)
                  (SENDER_MEMO_NONCE_BYTES + SENDER_MEMO_CIPHERTEXT_BYTES + SENDER_MEMO_COMMITMENT_BYTES),
                mc_leafIndex = leafIndex \<rparr>))"

record SenderMemoOutput =
  mo_tokenId :: int
  mo_amount :: int
  mo_commitment :: bytes
  mo_leafIndex :: int

text \<open>One turn of the loop over the outputs; the fresh nonce of the turn is an argument.\<close>

definition memo_slice :: "aead \<Rightarrow> sha \<Rightarrow> bytes \<Rightarrow> bytes \<times> SenderMemoOutput \<Rightarrow> bytes result" where
  "memo_slice A H viewingPrivKey no =
     (let nonce = fst no; out = snd no in
      if length (mo_commitment out) \<noteq> SENDER_MEMO_COMMITMENT_BYTES then Inl (Error ''output commitment must be 32 bytes'')
      else if mo_leafIndex out < 0 \<or> mo_leafIndex out > 0xffffffff then Inl RangeError
      else
        js_bind (encryptSenderMemo A H viewingPrivKey \<lparr> mp_tokenId = mo_tokenId out, mp_amount = mo_amount out \<rparr>
                   (mo_commitment out) (mo_leafIndex out) nonce)
          packSenderMemoForInstruction)"

definition buildSenderMemosForTransact ::
  "aead \<Rightarrow> sha \<Rightarrow> bytes \<Rightarrow> (bytes \<times> SenderMemoOutput) list \<Rightarrow> bytes list result" where
  "buildSenderMemosForTransact A H viewingPrivKey outputs = js_mapM (memo_slice A H viewingPrivKey) outputs"

section \<open>Facts\<close>

lemma ovk_eq: "length vk = 32 \<Longrightarrow> deriveOutgoingViewingKey H vk = Inr (H (vk @ OVK_DOMAIN))"
  by (simp add: deriveOutgoingViewingKey_def js_set_def)

lemma buildAAD_eq: "length c = 32 \<Longrightarrow> buildAAD c i = Inr (c @ le_bytes 4 i)"
  by (simp add: buildAAD_def memo_sizes js_set_def view_set_le_def del: le_bytes.simps)

lemma packPlaintext_eq:
  "packPlaintext plain =
     (if fits 32 (mp_tokenId plain) \<and> fits 8 (mp_amount plain)
      then Inr (be_bytes 32 (mp_tokenId plain) @ le_bytes 8 (mp_amount plain)) else Inl RangeError)"
proof -
  have z: "v div 256 ^ n = 0 \<longleftrightarrow> fits n v" for v :: int and n
  proof
    assume "v div 256 ^ n = 0"
    then have "v = v mod 256 ^ n" using div_mult_mod_eq [of v "256 ^ n"] by simp
    then show "fits n v" unfolding fits_def by (metis pos_mod_bound pos_mod_sign zero_less_numeral zero_less_power)
  qed (simp add: fits_def)
  show ?thesis
    by (simp add: packPlaintext_def memo_sizes store_be_eq store_le_eq z [of _ 32, simplified] z [of _ 8, simplified]
        del: le_bytes.simps)
qed

lemma unpack_pack_plaintext:
  "fits 32 t \<Longrightarrow> fits 8 a \<Longrightarrow> unpackPlaintext (be_bytes 32 t @ le_bytes 8 a) = \<lparr> mp_tokenId = t, mp_amount = a \<rparr>"
  by (simp only: unpackPlaintext_def memo_sizes js_slice_def shift_in_rev)
     (simp add: shift_in_be_val be_val_be_bytes le_val_le_bytes fits_def del: le_bytes.simps)

text \<open>A sealed memo is accepted at any leaf with the same associated data.\<close>

lemma encrypt_eq:
  assumes "aead_ok A" "length vk = 32" "length nonce = 24" "length c = 32"
  shows "encryptSenderMemo A H vk plain c i nonce =
    (if fits 32 (mp_tokenId plain) \<and> fits 8 (mp_amount plain)
     then Inr \<lparr> mc_nonce = nonce,
                mc_ciphertextWithTag = ae_encrypt A (H (vk @ OVK_DOMAIN)) nonce (c @ le_bytes 4 i)
                  (be_bytes 32 (mp_tokenId plain) @ le_bytes 8 (mp_amount plain)),
                mc_commitment = c, mc_leafIndex = i \<rparr>
     else Inl RangeError)"
  using assms
  by (simp add: encryptSenderMemo_def memo_sizes ovk_eq buildAAD_eq packPlaintext_eq aead_ok_def del: le_bytes.simps)

lemma decrypt_sealed:
  assumes "aead_ok A" "length vk = 32" "length nonce = 24" "length c = 32"
    and "fits 32 (mp_tokenId plain)" "fits 8 (mp_amount plain)" "i mod 256 ^ 4 = j mod 256 ^ 4"
  shows "decryptSenderMemo A H vk
    \<lparr> mc_nonce = nonce,
      mc_ciphertextWithTag = ae_encrypt A (H (vk @ OVK_DOMAIN)) nonce (c @ le_bytes 4 i)
        (be_bytes 32 (mp_tokenId plain) @ le_bytes 8 (mp_amount plain)),
      mc_commitment = c, mc_leafIndex = j \<rparr> = Inr (Some plain)"
proof -
  have "le_bytes 4 i = le_bytes 4 j" using assms(7) by (simp only: le_bytes_inject)
  then show ?thesis
    using assms unpack_pack_plaintext [OF assms(5,6)]
    by (simp add: decryptSenderMemo_def memo_sizes ovk_eq buildAAD_eq aead_ok_def del: le_bytes.simps)
qed

lemma packSenderMemo_eq:
  assumes "length (mc_nonce m) = 24" "length (mc_ciphertextWithTag m) = 56" "length (mc_commitment m) = 32"
  shows "packSenderMemo m =
    Inr (mc_nonce m @ mc_ciphertextWithTag m @ mc_commitment m @ le_bytes 4 (mc_leafIndex m))"
  unfolding packSenderMemo_def using assms by (subst build_layout) (simp_all add: memo_sizes del: le_bytes.simps)

lemma unpackSenderMemo_eq:
  assumes "length n = 24" "length t = 56" "length c = 32"
  shows "unpackSenderMemo (n @ t @ c @ le_bytes 4 i) =
    Inr \<lparr> mc_nonce = n, mc_ciphertextWithTag = t, mc_commitment = c, mc_leafIndex = i mod 256 ^ 4 \<rparr>"
  using assms by (simp add: unpackSenderMemo_def memo_sizes view_get_le_def js_slice_def le_val_le_bytes del: le_bytes.simps)

lemma packForInstruction_eq:
  "length (mc_nonce m) = 24 \<Longrightarrow> length (mc_ciphertextWithTag m) = 56 \<Longrightarrow>
   packSenderMemoForInstruction m = Inr (mc_nonce m @ mc_ciphertextWithTag m)"
  by (simp add: packSenderMemoForInstruction_def memo_sizes js_set_def)

text \<open>What the loop asks of an output, and the slice it makes of one.\<close>

definition memo_output_ok :: "bytes \<times> SenderMemoOutput \<Rightarrow> bool" where
  "memo_output_ok no \<longleftrightarrow> length (fst no) = 24 \<and> length (mo_commitment (snd no)) = 32 \<and>
     fits 4 (mo_leafIndex (snd no)) \<and> fits 32 (mo_tokenId (snd no)) \<and> fits 8 (mo_amount (snd no))"

definition opens_to :: "aead \<Rightarrow> sha \<Rightarrow> bytes \<Rightarrow> SenderMemoOutput \<Rightarrow> bytes \<Rightarrow> bool" where
  "opens_to A H vk out part \<longleftrightarrow> length part = 80 \<and>
     decryptSenderMemo A H vk \<lparr> mc_nonce = take 24 part, mc_ciphertextWithTag = drop 24 part,
       mc_commitment = mo_commitment out, mc_leafIndex = mo_leafIndex out \<rparr> =
     Inr (Some \<lparr> mp_tokenId = mo_tokenId out, mp_amount = mo_amount out \<rparr>)"

lemma memo_slice_opens:
  assumes "aead_ok A" "length vk = 32" "memo_output_ok no"
  shows "\<exists>part. memo_slice A H vk no = Inr part \<and> opens_to A H vk (snd no) part"
proof -
  obtain nonce out where p: "no = (nonce, out)" by (cases no)
  with assms(3) have w: "length nonce = 24" "length (mo_commitment out) = 32" "fits 4 (mo_leafIndex out)"
    "fits 32 (mo_tokenId out)" "fits 8 (mo_amount out)" by (auto simp: memo_output_ok_def)
  let ?plain = "\<lparr> mp_tokenId = mo_tokenId out, mp_amount = mo_amount out \<rparr>"
  let ?t = "ae_encrypt A (H (vk @ OVK_DOMAIN)) nonce (mo_commitment out @ le_bytes 4 (mo_leafIndex out))
              (be_bytes 32 (mo_tokenId out) @ le_bytes 8 (mo_amount out))"
  have t: "length ?t = 56" using assms(1) by (simp add: aead_ok_def del: le_bytes.simps)
  have "\<not> (mo_leafIndex out < 0 \<or> mo_leafIndex out > 0xffffffff)" using w(3) by (simp add: fits_def)
  then have "memo_slice A H vk no = Inr (nonce @ ?t)"
    using w t encrypt_eq [OF assms(1,2) w(1,2), of H ?plain "mo_leafIndex out"]
    by (simp add: memo_slice_def p SENDER_MEMO_COMMITMENT_BYTES_def packForInstruction_eq del: le_bytes.simps)
  moreover have "opens_to A H vk out (nonce @ ?t)"
    using decrypt_sealed [OF assms(1,2) w(1,2), of ?plain "mo_leafIndex out" "mo_leafIndex out" H] w t
    by (simp add: opens_to_def del: le_bytes.simps)
  ultimately show ?thesis by (auto simp: p)
qed

lemma buildAAD_inject:
  "length c = 32 \<Longrightarrow> length c' = 32 \<Longrightarrow> fits 4 i \<Longrightarrow> fits 4 i' \<Longrightarrow>
   buildAAD c i = buildAAD c' i' \<longleftrightarrow> c = c' \<and> i = i'"
  by (auto simp: buildAAD_eq le_bytes_inject fits_def simp del: le_bytes.simps)

definition sample_aead :: aead where
  "sample_aead = \<lparr> ae_encrypt = \<lambda>k n a p. p @ replicate 16 0, ae_decrypt = \<lambda>k n a c. Inr (take (length c - 16) c) \<rparr>"

lemma sample_aead_ok: "aead_ok sample_aead"
  by (simp add: aead_ok_def sample_aead_def)

section \<open>Properties\<close>

text \<open>
  (C36) A memo survives its whole way: sealed, packed into its 116-byte event form, unpacked and
  opened with the sender's viewing key, it gives back the token and the amount. Values outside the
  256-bit and 64-bit fields are refused when sealing instead of being cut off.
\<close>

theorem sender_memo_roundtrip:
  assumes "aead_ok A" "length vk = 32" "length nonce = 24" "length c = 32"
  shows "js_bind (encryptSenderMemo A H vk plain c i nonce) (\<lambda>memo.
           js_bind (packSenderMemo memo) (\<lambda>packed.
           js_bind (unpackSenderMemo packed) (decryptSenderMemo A H vk))) =
         (if fits 32 (mp_tokenId plain) \<and> fits 8 (mp_amount plain) then Inr (Some plain) else Inl RangeError)"
proof (cases "fits 32 (mp_tokenId plain) \<and> fits 8 (mp_amount plain)")
  case True
  let ?t = "ae_encrypt A (H (vk @ OVK_DOMAIN)) nonce (c @ le_bytes 4 i)
              (be_bytes 32 (mp_tokenId plain) @ le_bytes 8 (mp_amount plain))"
  have "length ?t = 56" using assms(1) by (simp add: aead_ok_def del: le_bytes.simps)
  with assms True show ?thesis
    by (simp add: encrypt_eq packSenderMemo_eq unpackSenderMemo_eq del: le_bytes.simps)
       (intro decrypt_sealed; simp)
qed (use assms in \<open>auto simp: encrypt_eq\<close>)

theorem sender_memo_roundtrip_witness:
  "js_bind (encryptSenderMemo sample_aead sample_sha (replicate 32 1) \<lparr> mp_tokenId = 7, mp_amount = 1000 \<rparr> (replicate 32 2) 5 (replicate 24 3))
     (\<lambda>memo. js_bind (packSenderMemo memo) (\<lambda>packed.
        js_bind (unpackSenderMemo packed) (decryptSenderMemo sample_aead sample_sha (replicate 32 1)))) =
   Inr (Some \<lparr> mp_tokenId = 7, mp_amount = 1000 \<rparr>)"
  by (subst sender_memo_roundtrip) (simp_all add: sample_aead_ok fits_def)

text \<open>
  \<open>buildSenderMemosForTransact\<close> gives one 80-byte slice per output, and each slice, put
  together with the commitment and the leaf index the program emits beside it, opens to that
  output's token and amount. The seal covers the leaf: the associated data of a memo placed at
  another commitment or another 32-bit leaf index is a different byte string.
\<close>

theorem transact_memos_open:
  assumes "aead_ok A" "length vk = 32" "\<forall>no \<in> set outputs. memo_output_ok no"
  shows "\<exists>slices. buildSenderMemosForTransact A H vk outputs = Inr slices \<and>
    list_all2 (\<lambda>no part. opens_to A H vk (snd no) part \<and>
      (\<forall>c i. length c = 32 \<and> fits 4 i \<and> buildAAD c i = buildAAD (mo_commitment (snd no)) (mo_leafIndex (snd no)) \<longrightarrow>
        c = mo_commitment (snd no) \<and> i = mo_leafIndex (snd no)))
      outputs slices"
  using assms(3)
proof (induction outputs)
  case Nil
  show ?case by (simp add: buildSenderMemosForTransact_def)
next
  case (Cons no outputs)
  then have ok: "memo_output_ok no" by simp
  obtain part where "memo_slice A H vk no = Inr part" "opens_to A H vk (snd no) part"
    using memo_slice_opens [OF assms(1,2) ok] by blast
  moreover have "c = mo_commitment (snd no) \<and> i = mo_leafIndex (snd no)"
    if "length c = 32" "fits 4 i" "buildAAD c i = buildAAD (mo_commitment (snd no)) (mo_leafIndex (snd no))" for c i
    using buildAAD_inject that ok by (simp add: memo_output_ok_def)
  moreover obtain slices where "js_mapM (memo_slice A H vk) outputs = Inr slices"
    and "list_all2 (\<lambda>no part. opens_to A H vk (snd no) part \<and>
      (\<forall>c i. length c = 32 \<and> fits 4 i \<and> buildAAD c i = buildAAD (mo_commitment (snd no)) (mo_leafIndex (snd no)) \<longrightarrow>
        c = mo_commitment (snd no) \<and> i = mo_leafIndex (snd no))) outputs slices"
    using Cons by (auto simp: buildSenderMemosForTransact_def)
  ultimately show ?case
    by (intro exI [of _ "part # slices"]) (simp add: buildSenderMemosForTransact_def, blast)
qed

theorem transact_memos_open_witness:
  "\<exists>slices. buildSenderMemosForTransact sample_aead sample_sha (replicate 32 1)
      [(replicate 24 3, \<lparr> mo_tokenId = 7, mo_amount = 1000, mo_commitment = replicate 32 2, mo_leafIndex = 5 \<rparr>)] = Inr slices \<and>
    length slices = 1"
proof -
  define outs where "outs = [(replicate 24 3 :: bytes, \<lparr> mo_tokenId = 7, mo_amount = 1000, mo_commitment = replicate 32 2, mo_leafIndex = 5 \<rparr>)]"
  have "\<forall>no \<in> set outs. memo_output_ok no" by (simp add: outs_def memo_output_ok_def fits_def)
  then show ?thesis
    using transact_memos_open [OF sample_aead_ok, of "replicate 32 1" outs sample_sha]
    by (auto simp: outs_def dest!: list_all2_lengthD)
qed

end
