(* ===== verification/Events.thy ===== *)
theory Events
  imports JsBuffer Samples
begin

text \<open>
  The program's event log: the emitters of \<open>src/contracts/programs/utxopia/src/utils/events.rs\<close>,
  which hand slices to \<open>sol_log_data\<close>, and the parser of \<open>src/sdk/src/events.ts\<close>, which reads the
  log lines back. The Solana runtime prints the slices of one call as a line of base64 segments;
  it is a parameter, with that format as its documented behaviour.
\<close>

section \<open>Base64\<close>

definition b64_char :: "nat \<Rightarrow> char" where
  "b64_char v =
     (if v < 26 then char_of (65 + v) else if v < 52 then char_of (71 + v) else if v < 62 then char_of (v - 4)
      else if v = 62 then CHR ''+'' else CHR ''/'')"

definition b64_val :: "char \<Rightarrow> nat option" where
  "b64_val c =
     (let k = (of_char c :: nat) in
      if 65 \<le> k \<and> k \<le> 90 then Some (k - 65) else if 97 \<le> k \<and> k \<le> 122 then Some (k - 71)
      else if 48 \<le> k \<and> k \<le> 57 then Some (k + 4) else if k = 43 then Some 62 else if k = 47 then Some 63 else None)"

text \<open>Reference encoder (RFC 4648, with padding).\<close>

fun base64_encode :: "bytes \<Rightarrow> string" where
  "base64_encode [] = []"
| "base64_encode [a] = [b64_char (unat a div 4), b64_char (unat a mod 4 * 16), CHR ''='', CHR ''='']"
| "base64_encode [a, b] =
     [b64_char (unat a div 4), b64_char (unat a mod 4 * 16 + unat b div 16), b64_char (unat b mod 16 * 4), CHR ''='']"
| "base64_encode (a # b # c # r) =
     [b64_char (unat a div 4), b64_char (unat a mod 4 * 16 + unat b div 16),
      b64_char (unat b mod 16 * 4 + unat c div 64), b64_char (unat c mod 64)] @ base64_encode r"

text \<open>
  \<open>atob\<close>: white space is dropped, padding is removed from a length that is a multiple of four,
  and what is left must be characters of the alphabet, not one more than a multiple of four.
\<close>

fun sextets_to_bytes :: "nat list \<Rightarrow> bytes" where
  "sextets_to_bytes (p # q # r # s # vs) =
     [of_nat (p * 4 + q div 16), of_nat (q mod 16 * 16 + r div 4), of_nat (r mod 4 * 64 + s)] @ sextets_to_bytes vs"
| "sextets_to_bytes [p, q, r] = [of_nat (p * 4 + q div 16), of_nat (q mod 16 * 16 + r div 4)]"
| "sextets_to_bytes [p, q] = [of_nat (p * 4 + q div 16)]"
| "sextets_to_bytes _ = []"

definition strip_padding :: "string \<Rightarrow> string" where
  "strip_padding s =
     (if length s mod 4 = 0 then
        (if s \<noteq> [] \<and> last s = CHR ''='' then
           (if butlast s \<noteq> [] \<and> last (butlast s) = CHR ''='' then butlast (butlast s) else butlast s)
         else s)
      else s)"

definition atob_ws :: "char \<Rightarrow> bool" where
  "atob_ws c \<longleftrightarrow> (of_char c :: nat) \<in> {9, 10, 12, 13, 32}"

definition decodeBase64 :: "string \<Rightarrow> bytes result" where
  "decodeBase64 b64 =
     (let s = strip_padding (filter (\<lambda>c. \<not> atob_ws c) b64) in
      if length s mod 4 = 1 then Inl InvalidCharacterError
      else case those (map b64_val s) of None \<Rightarrow> Inl InvalidCharacterError | Some vs \<Rightarrow> Inr (sextets_to_bytes vs))"

text \<open>\<open>s.split(" ")\<close>.\<close>

fun split_space :: "string \<Rightarrow> string list" where
  "split_space [] = [[]]"
| "split_space (c # cs) =
     (if c = CHR '' '' then [] # split_space cs
      else case split_space cs of w # ws \<Rightarrow> (c # w) # ws | [] \<Rightarrow> [[c]])"

fun join_space :: "string list \<Rightarrow> string" where
  "join_space [] = []"
| "join_space [w] = w"
| "join_space (w # v # ws) = w @ CHR '' '' # join_space (v # ws)"

section \<open>Parser\<close>

definition EVENT_NULLIFIER_SPENT :: byte where "EVENT_NULLIFIER_SPENT = 0x02"
definition EVENT_STEALTH_ANNOUNCEMENT :: byte where "EVENT_STEALTH_ANNOUNCEMENT = 0x03"
definition EVENT_NULLIFIERS_BATCH :: byte where "EVENT_NULLIFIERS_BATCH = 0x0b"
definition EVENT_ANNOUNCEMENTS_BATCH :: byte where "EVENT_ANNOUNCEMENTS_BATCH = 0x0c"
definition EVENT_SENDER_MEMO :: byte where "EVENT_SENDER_MEMO = 0x12"
definition EVENT_BTC_ORIGIN_ATTESTATION :: byte where "EVENT_BTC_ORIGIN_ATTESTATION = 0x15"

lemmas event_discs = EVENT_NULLIFIER_SPENT_def EVENT_STEALTH_ANNOUNCEMENT_def EVENT_NULLIFIERS_BATCH_def
  EVENT_ANNOUNCEMENTS_BATCH_def EVENT_SENDER_MEMO_def EVENT_BTC_ORIGIN_ATTESTATION_def

datatype ProgramEvent =
    NullifierSpentEvent (nullifierHash: bytes) (operationType: int)
  | StealthAnnouncementEvent (announcementType: int) (ephemeralPub: bytes) (encryptedAmount: bytes)
      (an_commitment: bytes) (leafIndex: int) (tokenId: "bytes option")
  | SenderMemoEvent (memoNonce: bytes) (ciphertextWithTag: bytes) (memo_commitment: bytes) (memo_leafIndex: int)
  | BtcOriginAttestationEvent (blockHeight: int) (depositTxid: bytes) (sweepVout: int)
      (origin_commitment: bytes) (amountSats: int)

definition is_disc :: "byte \<Rightarrow> bytes list \<Rightarrow> bool" where
  "is_disc d segments \<longleftrightarrow> length (segments ! 0) = 1 \<and> segments ! 0 ! 0 = d"

definition parseNullifierSpentEvent :: "bytes list \<Rightarrow> ProgramEvent option" where
  "parseNullifierSpentEvent segments =
     (if length segments < 3 then None
      else if \<not> is_disc EVENT_NULLIFIER_SPENT segments then None
      else if length (segments ! 1) \<noteq> 32 then None
      else if length (segments ! 2) \<noteq> 1 then None
      else Some (NullifierSpentEvent (segments ! 1) (uint (segments ! 2 ! 0))))"

definition parseStealthAnnouncementEvent :: "bytes list \<Rightarrow> ProgramEvent option" where
  "parseStealthAnnouncementEvent segments =
     (if length segments < 6 then None
      else if \<not> is_disc EVENT_STEALTH_ANNOUNCEMENT segments then None
      else if length (segments ! 1) \<noteq> 1 then None
      else if length (segments ! 2) \<noteq> 32 then None
      else if length (segments ! 3) \<noteq> 8 then None
      else if length (segments ! 4) \<noteq> 32 then None
      else if length (segments ! 5) \<noteq> 4 then None
      else Some (StealthAnnouncementEvent (uint (segments ! 1 ! 0)) (segments ! 2) (segments ! 3) (segments ! 4)
             (le_val (segments ! 5))
             (if length segments \<ge> 7 \<and> length (segments ! 6) = 32 then Some (segments ! 6) else None)))"

definition parseBtcOriginAttestationEvent :: "bytes list \<Rightarrow> ProgramEvent option" where
  "parseBtcOriginAttestationEvent segments =
     (if length segments < 6 then None
      else if \<not> is_disc EVENT_BTC_ORIGIN_ATTESTATION segments then None
      else if length (segments ! 1) \<noteq> 8 then None
      else if length (segments ! 2) \<noteq> 32 then None
      else if length (segments ! 3) \<noteq> 4 then None
      else if length (segments ! 4) \<noteq> 32 then None
      else if length (segments ! 5) \<noteq> 8 then None
      else Some (BtcOriginAttestationEvent (shift_in (rev (segments ! 1))) (segments ! 2) (le_val (segments ! 3))
             (segments ! 4) (shift_in (rev (segments ! 5)))))"

definition parseSenderMemoEvent :: "bytes list \<Rightarrow> ProgramEvent option" where
  "parseSenderMemoEvent segments =
     (if length segments < 5 then None
      else if \<not> is_disc EVENT_SENDER_MEMO segments then None
      else if length (segments ! 1) \<noteq> 24 then None
      else if length (segments ! 2) \<noteq> 56 then None
      else if length (segments ! 3) \<noteq> 32 then None
      else if length (segments ! 4) \<noteq> 4 then None
      else Some (SenderMemoEvent (segments ! 1) (segments ! 2) (segments ! 3) (le_val (segments ! 4))))"

definition parseNullifiersBatch :: "bytes \<Rightarrow> ProgramEvent list" where
  "parseNullifiersBatch data =
     (if length data < 3 then []
      else
        (let count = unat (data ! 1); opType = uint (data ! 2) in
         if length data < 3 + count * 32 then []
         else map (\<lambda>i. let offset = 3 + i * 32 in NullifierSpentEvent (js_slice data offset (offset + 32)) opType) [0..<count]))"

definition parse_announcement_at :: "bytes \<Rightarrow> bool \<Rightarrow> nat \<Rightarrow> ProgramEvent result" where
  "parse_announcement_at data isV2 offset =
     js_bind (view_get_le 4 data (offset + 73)) (\<lambda>li.
       Inr (StealthAnnouncementEvent (uint (data ! offset)) (js_slice data (offset + 1) (offset + 33))
         (js_slice data (offset + 33) (offset + 41)) (js_slice data (offset + 41) (offset + 73)) li
         (if isV2 then Some (js_slice data (offset + 77) (offset + 109)) else None)))"

definition parseAnnouncementsBatch :: "bytes \<Rightarrow> ProgramEvent list result" where
  "parseAnnouncementsBatch data =
     (if length data < 2 then Inr []
      else
        (let count = unat (data ! 1) in
         if count = 0 then Inr []
         else
           (let remainingBytes = length data - 2;
                isV2 = (remainingBytes \<ge> count * 109);
                itemSize = (if isV2 then 109 else 77) in
            if length data < 2 + count * itemSize then Inr []
            else js_mapM (\<lambda>i. parse_announcement_at data isV2 (2 + i * itemSize)) [0..<count])))"

definition DATA_PREFIX :: string where
  "DATA_PREFIX = ''Program data: ''"

definition opt_list :: "'a option \<Rightarrow> 'a list" where
  "opt_list x = (case x of None \<Rightarrow> [] | Some y \<Rightarrow> [y])"

text \<open>What one decoded line adds to the events, and the loop over the log.\<close>

definition parse_segments :: "bytes list \<Rightarrow> ProgramEvent list result" where
  "parse_segments segments =
     (if length segments = 0 then Inr []
      else if length segments = 1 \<and> length (segments ! 0) > 1 \<and> segments ! 0 ! 0 = EVENT_NULLIFIERS_BATCH
        then Inr (parseNullifiersBatch (segments ! 0))
      else if length segments = 1 \<and> length (segments ! 0) > 1 \<and> segments ! 0 ! 0 = EVENT_ANNOUNCEMENTS_BATCH
        then parseAnnouncementsBatch (segments ! 0)
      else if length (segments ! 0) \<noteq> 1 then Inr []
      else
        (let disc = segments ! 0 ! 0 in
         if disc = EVENT_NULLIFIER_SPENT then Inr (opt_list (parseNullifierSpentEvent segments))
         else if disc = EVENT_STEALTH_ANNOUNCEMENT then Inr (opt_list (parseStealthAnnouncementEvent segments))
         else if disc = EVENT_SENDER_MEMO then Inr (opt_list (parseSenderMemoEvent segments))
         else if disc = EVENT_BTC_ORIGIN_ATTESTATION then Inr (opt_list (parseBtcOriginAttestationEvent segments))
         else Inr []))"

definition parse_line :: "string \<Rightarrow> ProgramEvent list \<Rightarrow> ProgramEvent list result" where
  "parse_line line events =
     (if take (length DATA_PREFIX) line \<noteq> DATA_PREFIX then Inr events
      else
        js_bind (js_mapM decodeBase64 (split_space (drop (length DATA_PREFIX) line))) (\<lambda>segments.
        js_bind (parse_segments segments) (\<lambda>new. Inr (events @ new))))"

definition parseProgramEvents :: "string list \<Rightarrow> ProgramEvent list result" where
  "parseProgramEvents logs = js_fold parse_line logs []"

section \<open>Emitters of the program\<close>

text \<open>
  Each returns the slices it hands to \<open>sol_log_data\<close>. Arrays of the source have a fixed width in
  their type; here it is a condition of the theorems. A \<open>u8\<close>, \<open>u16\<close>, \<open>u32\<close> or \<open>u64\<close> argument is an integer
  of which \<open>to_le_bytes\<close> takes the low bytes.
\<close>

definition MAX_BATCH :: nat where
  "MAX_BATCH = 14"

definition emit_nullifier_spent :: "bytes \<Rightarrow> byte \<Rightarrow> byte \<Rightarrow> bytes list" where
  "emit_nullifier_spent nullifier_hash operation_type instruction_disc =
     [[EVENT_NULLIFIER_SPENT], nullifier_hash, [operation_type], [instruction_disc]]"

record AnnouncementItem =
  announcement_type :: byte
  ephemeral_pub :: bytes
  encrypted_amount :: bytes
  item_commitment :: bytes
  leaf_index :: int
  token_id :: bytes

definition emit_stealth_announcement :: "byte \<Rightarrow> bytes \<Rightarrow> bytes \<Rightarrow> bytes \<Rightarrow> int \<Rightarrow> bytes \<Rightarrow> bytes list" where
  "emit_stealth_announcement atype ephemeral amount commitment li token =
     [[EVENT_STEALTH_ANNOUNCEMENT], [atype], ephemeral, amount, commitment, le_bytes 4 li, token]"

definition emit_redemption_completed ::
  "bytes \<Rightarrow> int \<Rightarrow> int \<Rightarrow> int \<Rightarrow> int \<Rightarrow> bytes \<Rightarrow> int \<Rightarrow> int \<Rightarrow> bytes \<Rightarrow> bytes list" where
  "emit_redemption_completed requester amount_sats actual_received service_fee request_id btc_txid burn_amount
       protocol_revenue btc_script =
     [[0x07], requester, le_bytes 8 amount_sats, le_bytes 8 actual_received, le_bytes 8 service_fee,
      le_bytes 8 request_id, btc_txid, le_bytes 8 burn_amount, le_bytes 8 protocol_revenue,
      [of_nat (length btc_script)], btc_script]"

definition emit_redemption_requested :: "bytes \<Rightarrow> int \<Rightarrow> int \<Rightarrow> int \<Rightarrow> int \<Rightarrow> bytes \<Rightarrow> bytes list" where
  "emit_redemption_requested requester amount_sats request_id service_fee_base service_fee_bps btc_script =
     [[0x08], requester, le_bytes 8 amount_sats, le_bytes 8 request_id, le_bytes 8 service_fee_base,
      le_bytes 2 service_fee_bps, [of_nat (length btc_script)], btc_script]"

definition emit_redemption_processing :: "bytes \<Rightarrow> int \<Rightarrow> int \<Rightarrow> int \<Rightarrow> bytes list" where
  "emit_redemption_processing requester amount_sats request_id processing_slot =
     [[0x0A], requester, le_bytes 8 amount_sats, le_bytes 8 request_id, le_bytes 4 processing_slot]"

definition emit_nullifiers_batch :: "bytes list \<Rightarrow> byte \<Rightarrow> byte \<Rightarrow> bytes list" where
  "emit_nullifiers_batch nullifiers operation_type instruction_disc =
     (if length nullifiers = 1 then emit_nullifier_spent (nullifiers ! 0) operation_type instruction_disc
      else
        (let n = min (length nullifiers) MAX_BATCH in
         [[EVENT_NULLIFIERS_BATCH], [of_nat (length nullifiers)], [operation_type], [instruction_disc]]
           @ take n nullifiers))"

definition emit_deposit_verified :: "bytes \<Rightarrow> bytes \<Rightarrow> int \<Rightarrow> int \<Rightarrow> int \<Rightarrow> bytes list" where
  "emit_deposit_verified sweep_txid deposit_txid amount_sats li original_amount =
     [[0x0D], sweep_txid, deposit_txid, le_bytes 8 amount_sats, le_bytes 4 li, le_bytes 8 original_amount]"

definition emit_btc_origin_attestation :: "int \<Rightarrow> bytes \<Rightarrow> int \<Rightarrow> bytes \<Rightarrow> int \<Rightarrow> bytes list" where
  "emit_btc_origin_attestation block_height deposit_txid sweep_vout commitment amount_sats =
     [[EVENT_BTC_ORIGIN_ATTESTATION], le_bytes 8 block_height, deposit_txid, le_bytes 4 sweep_vout, commitment,
      le_bytes 8 amount_sats]"

definition emit_unshield_meta :: "int \<Rightarrow> int \<Rightarrow> int \<Rightarrow> bytes \<Rightarrow> bytes \<Rightarrow> bytes list" where
  "emit_unshield_meta gross_amount fee payout recipient token =
     [[0x0E], le_bytes 8 gross_amount, le_bytes 8 fee, le_bytes 8 payout, recipient, token]"

definition emit_utxo_created :: "bytes \<Rightarrow> int \<Rightarrow> int \<Rightarrow> bytes list" where
  "emit_utxo_created txid vout amount_sats = [[0x0F], txid, le_bytes 4 vout, le_bytes 8 amount_sats]"

definition emit_utxo_consumed :: "bytes \<Rightarrow> int \<Rightarrow> int \<Rightarrow> bytes list" where
  "emit_utxo_consumed txid vout amount_sats = [[0x10], txid, le_bytes 4 vout, le_bytes 8 amount_sats]"

definition emit_shield_meta :: "int \<Rightarrow> int \<Rightarrow> bytes \<Rightarrow> bytes list" where
  "emit_shield_meta gross_amount fee token = [[0x11], le_bytes 8 gross_amount, le_bytes 8 fee, token]"

definition emit_sender_memo :: "bytes \<Rightarrow> bytes \<Rightarrow> bytes \<Rightarrow> int \<Rightarrow> bytes list" where
  "emit_sender_memo nonce ciphertext_and_tag commitment li =
     [[EVENT_SENDER_MEMO], nonce, ciphertext_and_tag, commitment, le_bytes 4 li]"

definition item_ops :: "AnnouncementItem \<Rightarrow> wop list" where
  "item_ops it =
     [PutByte (uint (announcement_type it)), PutBytes (ephemeral_pub it) 32, PutBytes (encrypted_amount it) 8,
      PutBytes (item_commitment it) 32, PutLE 4 (leaf_index it), PutBytes (token_id it) 32]"

definition emit_announcements_batch :: "AnnouncementItem list \<Rightarrow> bytes list result" where
  "emit_announcements_batch items =
     (if length items = 1 then
        (let it = items ! 0 in
         Inr (emit_stealth_announcement (announcement_type it) (ephemeral_pub it) (encrypted_amount it)
                (item_commitment it) (leaf_index it) (token_id it)))
      else
        (let n = min (length items) MAX_BATCH in
         js_bind (exec (PutByte (uint EVENT_ANNOUNCEMENTS_BATCH) # PutByte (int n) # concat (map item_ops (take n items)))
                    (0, replicate (2 + MAX_BATCH * 109) 0)) (\<lambda>(offset, buf). Inr [take offset buf])))"

section \<open>Base64 round trip\<close>

fun sextets :: "bytes \<Rightarrow> nat list" where
  "sextets [] = []"
| "sextets [a] = [unat a div 4, unat a mod 4 * 16]"
| "sextets [a, b] = [unat a div 4, unat a mod 4 * 16 + unat b div 16, unat b mod 16 * 4]"
| "sextets (a # b # c # r) =
     [unat a div 4, unat a mod 4 * 16 + unat b div 16, unat b mod 16 * 4 + unat c div 64, unat c mod 64] @ sextets r"

definition padding :: "bytes \<Rightarrow> string" where
  "padding bs = (if length bs mod 3 = 1 then ''=='' else if length bs mod 3 = 2 then ''='' else [])"

lemma encode_sextets: "base64_encode bs = map b64_char (sextets bs) @ padding bs"
  by (induction bs rule: base64_encode.induct) (simp_all add: padding_def)

lemma sextets_bounded: "\<forall>v \<in> set (sextets bs). v < 64"
proof (induction bs rule: sextets.induct)
  case (2 a)
  then show ?case using unat_byte [of a] by auto
next
  case (3 a b)
  then show ?case using unat_byte [of a] unat_byte [of b] by auto
next
  case (4 a b c r)
  then show ?case using unat_byte [of a] unat_byte [of b] unat_byte [of c] by auto
qed simp

lemma length_sextets: "length (sextets bs) mod 4 = (if length bs mod 3 = 0 then 0 else length bs mod 3 + 1)"
proof (induction bs rule: sextets.induct)
  case (4 a b c r)
  then show ?case using mod_less_divisor [of 3 "length r"] by (auto simp: mod_Suc)
qed (simp_all add: mod_Suc)

lemma pack_sextets: "sextets_to_bytes (sextets bs) = bs"
proof (induction bs rule: sextets.induct)
  case (4 a b c r)
  have "n div 4 * 4 + (n mod 4 * 16 + m div 16) div 16 = n" if "m < 256" for n m :: nat
    using that by (simp add: div_mult_mod_eq less_mult_imp_div_less)
  moreover have "(n mod 4 * 16 + m div 16) mod 16 * 16 + (m mod 16 * 4 + k div 64) div 4 = m" if "m < 256" "k < 256" for n m k :: nat
  proof -
    have "m div 16 < 16" "k div 64 < 4" using that by simp_all
    then show ?thesis by (simp add: div_mult_mod_eq)
  qed
  moreover have "(m mod 16 * 4 + k div 64) mod 4 * 64 + k mod 64 = k" if "k < 256" for m k :: nat
  proof -
    have "k div 64 < 4" using that by simp
    then show ?thesis by (simp add: div_mult_mod_eq)
  qed
  ultimately show ?case using 4 unat_byte [of a] unat_byte [of b] unat_byte [of c] by simp
next
  case (3 a b)
  have "unat a div 4 * 4 + (unat a mod 4 * 16 + unat b div 16) div 16 = unat a"
    using unat_byte [of b] by (simp add: div_mult_mod_eq less_mult_imp_div_less)
  moreover have "(unat a mod 4 * 16 + unat b div 16) mod 16 * 16 + unat b mod 16 * 4 div 4 = unat b"
    using unat_byte [of b] by (simp add: div_mult_mod_eq less_mult_imp_div_less)
  ultimately show ?case by (simp only: sextets.simps sextets_to_bytes.simps) simp
next
  case (2 a)
  have "unat a div 4 * 4 + unat a mod 4 * 16 div 16 = unat a" by (simp add: div_mult_mod_eq)
  then show ?case by (simp only: sextets.simps sextets_to_bytes.simps) simp
qed simp

lemma b64_val_char: "v < 64 \<Longrightarrow> b64_val (b64_char v) = Some v"
proof -
  assume "v < 64"
  then consider "v < 26" | "26 \<le> v" "v < 52" | "52 \<le> v" "v < 62" | "v = 62" | "v = 63" by linarith
  then show ?thesis by cases (auto simp: b64_val_def b64_char_def Let_def)
qed

lemma b64_val_special: "b64_val (CHR ''='') = None" "b64_val (CHR '' '') = None" "atob_ws c \<Longrightarrow> b64_val c = None"
  by (auto simp: b64_val_def atob_ws_def Let_def)

lemma those_map_Some: "(\<And>x. x \<in> set xs \<Longrightarrow> f x = Some (g x)) \<Longrightarrow> those (map f xs) = Some (map g xs)"
  by (induction xs) simp_all

lemma strip_padding_encode: "strip_padding (base64_encode bs) = map b64_char (sextets bs)"
proof -
  let ?s = "map b64_char (sextets bs)"
  have alpha: "c \<noteq> CHR ''=''" if "c \<in> set ?s" for c
    using that sextets_bounded b64_val_char b64_val_special(1) by fastforce
  have "length (base64_encode bs) mod 4 = 0"
  proof -
    have "length bs mod 3 < 3" by simp
    then consider "length bs mod 3 = 0" | "length bs mod 3 = 1" | "length bs mod 3 = 2" by linarith
    then show ?thesis
      using length_sextets [of bs] by cases (simp_all add: encode_sextets padding_def mod_Suc)
  qed
  moreover have "?s \<noteq> [] \<Longrightarrow> last ?s \<noteq> CHR ''=''" using alpha last_in_set by blast
  ultimately show ?thesis
    unfolding encode_sextets by (auto simp: strip_padding_def padding_def butlast_append)
qed

lemma encode_alphabet:
  assumes "c \<in> set (base64_encode bs)"
  shows "\<not> atob_ws c" "c \<noteq> CHR '' ''"
proof -
  have "c = CHR ''='' \<or> b64_val c \<noteq> None"
    using assms sextets_bounded [of bs] b64_val_char
    by (auto simp: encode_sextets padding_def split: if_splits)
  moreover have "\<not> atob_ws (CHR ''='')" by (simp add: atob_ws_def)
  ultimately show "\<not> atob_ws c" "c \<noteq> CHR '' ''" using b64_val_special by auto
qed

lemma decode_encode: "decodeBase64 (base64_encode bs) = Inr bs"
proof -
  have "filter (\<lambda>c. \<not> atob_ws c) (base64_encode bs) = base64_encode bs"
    by (simp add: filter_id_conv encode_alphabet)
  moreover have "those (map b64_val (map b64_char (sextets bs))) = Some (sextets bs)"
    using those_map_Some [of "sextets bs" "b64_val \<circ> b64_char" id] sextets_bounded b64_val_char by simp
  moreover have "length (sextets bs) mod 4 \<noteq> 1"
    by (simp add: length_sextets)
  ultimately show ?thesis
    by (simp add: decodeBase64_def strip_padding_encode pack_sextets Let_def)
qed

lemma encode_no_space: "CHR '' '' \<notin> set (base64_encode bs)"
  using encode_alphabet(2) by blast

lemma split_space_word: "CHR '' '' \<notin> set w \<Longrightarrow> split_space w = [w]"
  by (induction w) auto

lemma split_space_append: "CHR '' '' \<notin> set w \<Longrightarrow> split_space (w @ CHR '' '' # s) = w # split_space s"
  by (induction w) auto

lemma split_join: "ws \<noteq> [] \<Longrightarrow> \<forall>w \<in> set ws. CHR '' '' \<notin> set w \<Longrightarrow> split_space (join_space ws) = ws"
  by (induction ws rule: join_space.induct) (simp_all add: split_space_word split_space_append)

section \<open>From the program to the parser\<close>

text \<open>
  The runtime's log, as documented: the slices of one \<open>sol_log_data\<close> call in base64, separated by
  spaces, behind the words \<open>Program data:\<close>.
\<close>

definition log_ok :: "(bytes list \<Rightarrow> string) \<Rightarrow> bool" where
  "log_ok log \<longleftrightarrow> (\<forall>slices. slices \<noteq> [] \<longrightarrow> log slices = ''Program data: '' @ join_space (map base64_encode slices))"

definition sample_log :: "bytes list \<Rightarrow> string" where
  "sample_log slices = ''Program data: '' @ join_space (map base64_encode slices)"

lemma sample_log_ok: "log_ok sample_log"
  by (simp add: log_ok_def sample_log_def)

lemma parse_line_log:
  assumes "log_ok log" "slices \<noteq> []"
  shows "parse_line (log slices) events = js_bind (parse_segments slices) (\<lambda>new. Inr (events @ new))"
proof -
  have "split_space (join_space (map base64_encode slices)) = map base64_encode slices"
    using assms(2) by (intro split_join) (auto simp: encode_no_space)
  moreover have "js_mapM decodeBase64 (map base64_encode slices) = Inr slices"
    by (induction slices) (simp_all add: decode_encode)
  ultimately show ?thesis using assms by (simp add: log_ok_def parse_line_def DATA_PREFIX_def)
qed

text \<open>Everything the program writes to its log, and any other line of a transaction log.\<close>

datatype emission =
    OtherLine string
  | EmitNullifierSpent bytes byte byte
  | EmitAnnouncements "AnnouncementItem list"
  | EmitSenderMemo bytes bytes bytes int
  | EmitBtcOrigin int bytes int bytes int
  | EmitRedemptionCompleted bytes int int int int bytes int int bytes
  | EmitRedemptionRequested bytes int int int int bytes
  | EmitRedemptionProcessing bytes int int int
  | EmitDepositVerified bytes bytes int int int
  | EmitUnshieldMeta int int int bytes bytes
  | EmitUtxoCreated bytes int int
  | EmitUtxoConsumed bytes int int
  | EmitShieldMeta int int bytes

fun log_lines :: "(bytes list \<Rightarrow> string) \<Rightarrow> emission \<Rightarrow> string result" where
  "log_lines log (OtherLine l) = Inr l"
| "log_lines log (EmitNullifierSpent h p ix) = Inr (log (emit_nullifier_spent h p ix))"
| "log_lines log (EmitAnnouncements items) = js_bind (emit_announcements_batch items) (\<lambda>slices. Inr (log slices))"
| "log_lines log (EmitSenderMemo n t c li) = Inr (log (emit_sender_memo n t c li))"
| "log_lines log (EmitBtcOrigin h d v c a) = Inr (log (emit_btc_origin_attestation h d v c a))"
| "log_lines log (EmitRedemptionCompleted r a rc f q t b p sc) = Inr (log (emit_redemption_completed r a rc f q t b p sc))"
| "log_lines log (EmitRedemptionRequested r a q f b sc) = Inr (log (emit_redemption_requested r a q f b sc))"
| "log_lines log (EmitRedemptionProcessing r a q sl) = Inr (log (emit_redemption_processing r a q sl))"
| "log_lines log (EmitDepositVerified sw d a li oa) = Inr (log (emit_deposit_verified sw d a li oa))"
| "log_lines log (EmitUnshieldMeta g f p r t) = Inr (log (emit_unshield_meta g f p r t))"
| "log_lines log (EmitUtxoCreated t v a) = Inr (log (emit_utxo_created t v a))"
| "log_lines log (EmitUtxoConsumed t v a) = Inr (log (emit_utxo_consumed t v a))"
| "log_lines log (EmitShieldMeta g f t) = Inr (log (emit_shield_meta g f t))"

text \<open>The event a reader should see of an announcement, and of each emission.\<close>

definition announced :: "AnnouncementItem \<Rightarrow> ProgramEvent" where
  "announced it = StealthAnnouncementEvent (uint (announcement_type it)) (ephemeral_pub it) (encrypted_amount it)
     (item_commitment it) (leaf_index it) (Some (token_id it))"

fun observed :: "emission \<Rightarrow> ProgramEvent list" where
  "observed (EmitNullifierSpent h p ix) = [NullifierSpentEvent h (uint p)]"
| "observed (EmitAnnouncements items) = map announced (take MAX_BATCH items)"
| "observed (EmitSenderMemo n t c li) = [SenderMemoEvent n t c li]"
| "observed (EmitBtcOrigin h d v c a) = [BtcOriginAttestationEvent h d v c a]"
| "observed _ = []"

definition item_ok :: "AnnouncementItem \<Rightarrow> bool" where
  "item_ok it \<longleftrightarrow> length (ephemeral_pub it) = 32 \<and> length (encrypted_amount it) = 8 \<and>
     length (item_commitment it) = 32 \<and> fits 4 (leaf_index it) \<and> length (token_id it) = 32"

text \<open>The widths that the types of the program give its arguments.\<close>

fun emission_ok :: "emission \<Rightarrow> bool" where
  "emission_ok (OtherLine l) \<longleftrightarrow> take (length DATA_PREFIX) l \<noteq> DATA_PREFIX"
| "emission_ok (EmitNullifierSpent h p ix) \<longleftrightarrow> length h = 32"
| "emission_ok (EmitAnnouncements items) \<longleftrightarrow> (\<forall>it \<in> set items. item_ok it)"
| "emission_ok (EmitSenderMemo n t c li) \<longleftrightarrow> length n = 24 \<and> length t = 56 \<and> length c = 32 \<and> fits 4 li"
| "emission_ok (EmitBtcOrigin h d v c a) \<longleftrightarrow> fits 8 h \<and> length d = 32 \<and> fits 4 v \<and> length c = 32 \<and> fits 8 a"
| "emission_ok _ \<longleftrightarrow> True"

definition item_bytes :: "AnnouncementItem \<Rightarrow> bytes" where
  "item_bytes it = announcement_type it # ephemeral_pub it @ encrypted_amount it @ item_commitment it
     @ le_bytes 4 (leaf_index it) @ token_id it"

lemma item_layout:
  assumes "item_ok it"
  shows "wop_layout (item_ops it) = item_bytes it" "length (item_bytes it) = 109"
    "\<forall>op \<in> set (item_ops it). wop_fits op" "wop_total (item_ops it) = 109"
  using assms by (simp_all add: item_ok_def item_ops_def item_bytes_def del: le_bytes.simps)

lemma items_layout:
  assumes "\<forall>it \<in> set items. item_ok it"
  shows "wop_layout (concat (map item_ops items)) = concat (map item_bytes items)"
    "wop_total (concat (map item_ops items)) = length items * 109"
    "\<forall>op \<in> set (concat (map item_ops items)). wop_fits op"
    "length (concat (map item_bytes items)) = length items * 109"
  using assms by (induction items) (auto simp: item_layout)

lemma batch_payload:
  assumes "\<forall>it \<in> set items. item_ok it" "length items \<noteq> 1"
  shows "emit_announcements_batch items =
    Inr [EVENT_ANNOUNCEMENTS_BATCH # of_nat (min (length items) 14) # concat (map item_bytes (take 14 items))]"
proof -
  let ?its = "take 14 items"
  let ?n = "min (length items) 14"
  let ?ops = "PutByte (uint EVENT_ANNOUNCEMENTS_BATCH) # PutByte (int ?n) # concat (map item_ops ?its)"
  have ok: "\<forall>it \<in> set ?its. item_ok it" using assms(1) by (meson in_set_takeD)
  have "exec ?ops (length ([] :: bytes), [] @ replicate (2 + 14 * 109) 0) =
      Inr (length ([] :: bytes) + wop_total ?ops, [] @ wop_layout ?ops @ replicate (2 + 14 * 109 - wop_total ?ops) 0)"
    using items_layout [OF ok] by (intro exec_layout) auto
  moreover have "take ?n items = ?its" by (simp add: min_def)
  ultimately show ?thesis
    using assms(2) items_layout [OF ok] by (simp add: emit_announcements_batch_def MAX_BATCH_def Let_def)
qed

lemma parse_item:
  assumes "item_ok it"
  shows "parse_announcement_at (pre @ item_bytes it @ post) True (length pre) = Inr (announced it)"
  using assms
  by (simp add: item_ok_def parse_announcement_at_def item_bytes_def announced_def view_get_le_def js_slice_def
      nth_append le_val_le_bytes fits_def del: le_bytes.simps)

lemma parse_items:
  assumes "\<forall>it \<in> set items. item_ok it" "length pre = 2" "i < length items"
  shows "parse_announcement_at (pre @ concat (map item_bytes items)) True (2 + i * 109) = Inr (announced (items ! i))"
proof -
  let ?before = "pre @ concat (map item_bytes (take i items))"
  have "\<forall>it \<in> set (take i items). item_ok it" using assms(1) by (meson in_set_takeD)
  from items_layout(4) [OF this] have "length ?before = 2 + i * 109" using assms by simp
  moreover have "pre @ concat (map item_bytes items) =
      ?before @ item_bytes (items ! i) @ concat (map item_bytes (drop (Suc i) items))"
    using assms(3) by (subst id_take_nth_drop [OF assms(3)]) simp
  moreover have "item_ok (items ! i)" using assms by simp
  ultimately show ?thesis using parse_item by metis
qed

lemma parse_batch:
  assumes "\<forall>it \<in> set items. item_ok it" "length items \<le> 14"
  shows "parseAnnouncementsBatch (EVENT_ANNOUNCEMENTS_BATCH # of_nat (length items) # concat (map item_bytes items)) =
    Inr (map announced items)"
proof (cases "items = []")
  case False
  let ?data = "EVENT_ANNOUNCEMENTS_BATCH # of_nat (length items) # concat (map item_bytes items)"
  have n: "unat (of_nat (length items) :: byte) = length items"
    using assms(2) by (simp add: unat_of_nat)
  have "js_mapM (\<lambda>i. parse_announcement_at ?data True (2 + i * 109)) [0..<length items] =
      Inr (map (\<lambda>i. announced (items ! i)) [0..<length items])"
    using parse_items [OF assms(1), of "[EVENT_ANNOUNCEMENTS_BATCH, of_nat (length items)]"]
    by (intro js_mapM_Inr) simp
  moreover have "map (\<lambda>i. announced (items ! i)) [0..<length items] = map announced items"
    by (rule nth_equalityI) simp_all
  ultimately show ?thesis
    using False n items_layout(4) [OF assms(1)] by (simp add: parseAnnouncementsBatch_def Let_def)
qed (simp add: parseAnnouncementsBatch_def)

text \<open>The parser on the slices of one emission.\<close>

lemma parse_nullifier_spent:
  "length h = 32 \<Longrightarrow> parse_segments (emit_nullifier_spent h p ix) = Inr [NullifierSpentEvent h (uint p)]"
  by (simp add: parse_segments_def emit_nullifier_spent_def event_discs opt_list_def parseNullifierSpentEvent_def is_disc_def)

lemma parse_stealth_announcement:
  "item_ok it \<Longrightarrow>
   parse_segments (emit_stealth_announcement (announcement_type it) (ephemeral_pub it) (encrypted_amount it)
     (item_commitment it) (leaf_index it) (token_id it)) = Inr [announced it]"
  by (simp add: parse_segments_def emit_stealth_announcement_def event_discs opt_list_def item_ok_def announced_def
      parseStealthAnnouncementEvent_def is_disc_def le_val_le_bytes fits_def del: le_bytes.simps)

lemma parse_sender_memo:
  "length n = 24 \<Longrightarrow> length t = 56 \<Longrightarrow> length c = 32 \<Longrightarrow> fits 4 li \<Longrightarrow>
   parse_segments (emit_sender_memo n t c li) = Inr [SenderMemoEvent n t c li]"
  by (simp add: parse_segments_def emit_sender_memo_def event_discs opt_list_def
      parseSenderMemoEvent_def is_disc_def le_val_le_bytes fits_def del: le_bytes.simps)

lemma parse_btc_origin:
  "fits 8 h \<Longrightarrow> length d = 32 \<Longrightarrow> fits 4 v \<Longrightarrow> length c = 32 \<Longrightarrow> fits 8 a \<Longrightarrow>
   parse_segments (emit_btc_origin_attestation h d v c a) = Inr [BtcOriginAttestationEvent h d v c a]"
  by (simp add: parse_segments_def emit_btc_origin_attestation_def event_discs opt_list_def shift_in_rev
      parseBtcOriginAttestationEvent_def is_disc_def le_val_le_bytes fits_def del: le_bytes.simps)

lemma parse_announcements:
  assumes "\<forall>it \<in> set items. item_ok it"
  shows "\<exists>slices. emit_announcements_batch items = Inr slices \<and> slices \<noteq> [] \<and>
    parse_segments slices = Inr (map announced (take 14 items))"
proof (cases "length items = 1")
  case True
  then obtain it where "items = [it]" by (cases items) auto
  with assms show ?thesis
    using parse_stealth_announcement [of it] by (simp add: emit_announcements_batch_def emit_stealth_announcement_def)
next
  case False
  have ok: "\<forall>it \<in> set (take 14 items). item_ok it" using assms by (meson in_set_takeD)
  have "length (take 14 items) \<le> 14" by simp
  from parse_batch [OF ok this] have
    "parse_segments [EVENT_ANNOUNCEMENTS_BATCH # of_nat (min (length items) 14) # concat (map item_bytes (take 14 items))] =
      Inr (map announced (take 14 items))"
    by (simp add: parse_segments_def event_discs)
  then show ?thesis using batch_payload [OF assms False] by simp
qed

lemmas emitters_ignored = emit_redemption_completed_def emit_redemption_requested_def emit_redemption_processing_def
  emit_deposit_verified_def emit_unshield_meta_def emit_utxo_created_def emit_utxo_consumed_def emit_shield_meta_def

lemma parse_emission:
  assumes "log_ok log" "emission_ok e"
  shows "\<exists>line. log_lines log e = Inr line \<and> (\<forall>events. parse_line line events = Inr (events @ observed e))"
proof (cases e)
  case (OtherLine l)
  with assms show ?thesis by (simp add: parse_line_def)
next
  case (EmitAnnouncements items)
  with assms obtain slices where "emit_announcements_batch items = Inr slices" "slices \<noteq> []"
    "parse_segments slices = Inr (map announced (take 14 items))"
    using parse_announcements [of items] by auto
  with EmitAnnouncements assms(1) show ?thesis by (simp add: parse_line_log MAX_BATCH_def)
next
  case (EmitNullifierSpent h p ix)
  have "emit_nullifier_spent h p ix \<noteq> []" by (simp add: emit_nullifier_spent_def)
  with EmitNullifierSpent assms show ?thesis by (simp add: parse_line_log parse_nullifier_spent)
next
  case (EmitSenderMemo n t c li)
  have "emit_sender_memo n t c li \<noteq> []" by (simp add: emit_sender_memo_def)
  with EmitSenderMemo assms show ?thesis by (simp add: parse_line_log parse_sender_memo)
next
  case (EmitBtcOrigin h d v c a)
  have "emit_btc_origin_attestation h d v c a \<noteq> []" by (simp add: emit_btc_origin_attestation_def)
  with EmitBtcOrigin assms show ?thesis by (simp add: parse_line_log parse_btc_origin)
qed (use assms in \<open>simp_all add: parse_line_log emitters_ignored parse_segments_def event_discs del: le_bytes.simps\<close>)

text \<open>Whatever the log holds, an event that is returned has fields of the right widths.\<close>

fun event_ok :: "ProgramEvent \<Rightarrow> bool" where
  "event_ok (NullifierSpentEvent h p) \<longleftrightarrow> length h = 32 \<and> fits 1 p"
| "event_ok (StealthAnnouncementEvent ty e a c li t) \<longleftrightarrow>
     fits 1 ty \<and> length e = 32 \<and> length a = 8 \<and> length c = 32 \<and> fits 4 li \<and> (case t of None \<Rightarrow> True | Some b \<Rightarrow> length b = 32)"
| "event_ok (SenderMemoEvent n t c li) \<longleftrightarrow> length n = 24 \<and> length t = 56 \<and> length c = 32 \<and> fits 4 li"
| "event_ok (BtcOriginAttestationEvent h d v c a) \<longleftrightarrow> fits 8 h \<and> length d = 32 \<and> fits 4 v \<and> length c = 32 \<and> fits 8 a"

lemma fits_byte: "fits 1 (uint (b :: byte))" "fits (Suc 0) (uint b)"
  using byte_range [of b] by (simp_all add: fits_def)

lemma nullifiers_batch_ok: "list_all event_ok (parseNullifiersBatch data)"
proof -
  have "3 + i * 32 + 32 \<le> length data" if "i < unat (data ! 1)" "\<not> length data < 3 + unat (data ! 1) * 32" for i
    using that by linarith
  then show ?thesis by (auto simp: parseNullifiersBatch_def Let_def list_all_iff fits_byte)
qed

lemma js_mapM_list_all:
  "(\<And>x. x \<in> set xs \<Longrightarrow> \<exists>y. f x = Inr y \<and> Q y) \<Longrightarrow> \<exists>ys. js_mapM f xs = Inr ys \<and> list_all Q ys"
proof (induction xs)
  case (Cons x xs)
  then obtain y ys where "f x = Inr y" "Q y" "js_mapM f xs = Inr ys" "list_all Q ys" by force
  then show ?case by simp
qed simp

lemma announcement_at_ok:
  assumes "offset + (if v2 then 109 else 77) \<le> length data"
  shows "\<exists>e. parse_announcement_at data v2 offset = Inr e \<and> event_ok e"
proof -
  have "fits 4 (le_val (js_slice data (offset + 73) (offset + 77)))"
    using assms by (intro fits_le_val) (auto split: if_splits)
  with assms show ?thesis
    by (auto simp: parse_announcement_at_def view_get_le_def fits_byte add.commute split: if_splits)
qed

lemma announcements_batch_ok: "\<exists>es. parseAnnouncementsBatch data = Inr es \<and> list_all event_ok es"
proof -
  define v2 where "v2 = (length data - 2 \<ge> unat (data ! 1) * 109)"
  define sz :: nat where "sz = (if v2 then 109 else 77)"
  have "\<exists>es. js_mapM (\<lambda>i. parse_announcement_at data v2 (2 + i * sz)) [0..<unat (data ! 1)] = Inr es \<and> list_all event_ok es"
    if len: "2 + unat (data ! 1) * sz \<le> length data"
  proof (rule js_mapM_list_all)
    fix i assume "i \<in> set [0..<unat (data ! 1)]"
    then have "Suc i * sz \<le> unat (data ! 1) * sz" by (intro mult_right_mono) auto
    with len have "2 + i * sz + (if v2 then 109 else 77) \<le> length data" by (simp add: sz_def)
    then show "\<exists>e. parse_announcement_at data v2 (2 + i * sz) = Inr e \<and> event_ok e" by (rule announcement_at_ok)
  qed
  then show ?thesis
    by (cases v2) (auto simp: parseAnnouncementsBatch_def Let_def v2_def sz_def not_less)
qed

lemma single_events_ok:
  "list_all event_ok (opt_list (parseNullifierSpentEvent segments))"
  "list_all event_ok (opt_list (parseStealthAnnouncementEvent segments))"
  "list_all event_ok (opt_list (parseSenderMemoEvent segments))"
  "list_all event_ok (opt_list (parseBtcOriginAttestationEvent segments))"
  by (simp_all add: opt_list_def parseNullifierSpentEvent_def parseStealthAnnouncementEvent_def parseSenderMemoEvent_def
      parseBtcOriginAttestationEvent_def fits_byte fits_le_val shift_in_rev)

lemma parse_segments_ok: "\<exists>es. parse_segments segments = Inr es \<and> list_all event_ok es"
  using announcements_batch_ok by (simp add: parse_segments_def Let_def nullifiers_batch_ok single_events_ok)

lemma decode_error: "decodeBase64 s = Inl e \<Longrightarrow> e = InvalidCharacterError"
  by (auto simp: decodeBase64_def Let_def split: if_splits option.splits)

lemma js_mapM_error: "js_mapM f xs = Inl e \<Longrightarrow> \<exists>x \<in> set xs. f x = Inl e"
  by (induction xs) (auto simp: js_bind_Inl_iff)

section \<open>Properties\<close>



text \<open>
  A batch of nullifiers reaches the parser only when it holds a single one, which the
  program emits as a plain event. The program writes every other batch as separate slices, the
  parser expects one flat slice, and so none of its nullifiers is reported.
\<close>

theorem nullifier_batches_lost:
  assumes "log_ok log" "\<forall>n \<in> set nullifiers. length n = 32"
  shows "parseProgramEvents [log (emit_nullifiers_batch nullifiers op_type ix_disc)] =
    Inr (if length nullifiers = 1 then [NullifierSpentEvent (nullifiers ! 0) (uint op_type)] else [])"
proof (cases "length nullifiers = 1")
  case True
  then have "length (nullifiers ! 0) = 32" using assms(2) by simp
  moreover have "emit_nullifier_spent (nullifiers ! 0) op_type ix_disc \<noteq> []" by (simp add: emit_nullifier_spent_def)
  ultimately show ?thesis
    using True assms(1) by (simp add: parseProgramEvents_def emit_nullifiers_batch_def parse_line_log parse_nullifier_spent)
next
  case False
  let ?slices = "emit_nullifiers_batch nullifiers op_type ix_disc"
  have "?slices \<noteq> []" "parse_segments ?slices = Inr []"
    using False by (simp_all add: emit_nullifiers_batch_def parse_segments_def event_discs Let_def)
  with False assms(1) show ?thesis by (simp add: parseProgramEvents_def parse_line_log)
qed

theorem nullifier_batches_lost_witness:
  "parseProgramEvents [sample_log (emit_nullifiers_batch [replicate 32 1, replicate 32 2] 1 13)] = Inr []"
  using nullifier_batches_lost [OF sample_log_ok, of "[replicate 32 1, replicate 32 2]" 1 13] by simp

text \<open>
  (C35) On an arbitrary log the parser never reads past a segment: the only exception it throws is
  that of \<open>atob\<close> on text that is not base64, and every event it returns has 32-byte hashes and
  keys, an 8-byte amount, a 24-byte nonce with a 56-byte ciphertext, and integers of their width.
\<close>

theorem parsed_events_well_formed:
  "case parseProgramEvents logs of Inl e \<Rightarrow> e = InvalidCharacterError | Inr events \<Rightarrow> list_all event_ok events"
proof -
  have step: "case parse_line line events of Inl e \<Rightarrow> e = InvalidCharacterError | Inr es \<Rightarrow> list_all event_ok es"
    if "list_all event_ok events" for line events
  proof (cases "js_mapM decodeBase64 (split_space (drop (length DATA_PREFIX) line))")
    case (Inl e)
    then show ?thesis using that js_mapM_error decode_error by (fastforce simp: parse_line_def)
  next
    case (Inr segments)
    then show ?thesis using that parse_segments_ok [of segments] by (auto simp: parse_line_def)
  qed
  have "case js_fold parse_line logs events of Inl e \<Rightarrow> e = InvalidCharacterError | Inr es \<Rightarrow> list_all event_ok es"
    if "list_all event_ok events" for events
    using that
  proof (induction logs arbitrary: events)
    case (Cons line logs)
    then show ?case using step [of events line] by (cases "parse_line line events") simp_all
  qed simp
  then show ?thesis by (simp add: parseProgramEvents_def)
qed

end
