(* ===== verification/Instructions.thy ===== *)
theory Instructions
  imports JsBuffer JsString
begin

text \<open>
  The instruction builders of \<open>src/sdk/src/instructions.ts\<close>: the data of every instruction as a
  cursor program over a zeroed array, and the list of accounts with their roles. The program id of
  the configuration is an argument. Addresses are base58 strings.
\<close>

section \<open>Types and constants\<close>

datatype AccountRole = READONLY | WRITABLE | READONLY_SIGNER | WRITABLE_SIGNER

record Instruction =
  ix_programAddress :: string
  ix_accounts :: "(string \<times> AccountRole) list"
  ix_data :: bytes

definition SYSTEM_PROGRAM_ADDRESS :: string where
  "SYSTEM_PROGRAM_ADDRESS = ''11111111111111111111111111111111''"

definition TOKEN_2022_PROGRAM_ID :: string where
  "TOKEN_2022_PROGRAM_ID = ''TokenzQdBNbLqP5VEhdkAS6EPFLC1PHnBqCXEpPxuEb''"

datatype INSTRUCTION =
    INITIALIZE | SET_PAUSED | SET_POOL_CONFIG | PROPOSE_POOL_UPDATE | EXECUTE_POOL_UPDATE | CANCEL_POOL_UPDATE
  | INIT_VK_REGISTRY | UPDATE_VK_REGISTRY | REGISTER_TOKEN | UPDATE_TOKEN_CONFIG | CLAIM_FEES
  | COMPLETE_DEPOSIT | SHIELD | TRANSACT | UNSHIELD | REDEEM | REQUEST_REDEMPTION | COMPLETE_REDEMPTION
  | MARK_PROCESSING | CANCEL_REDEMPTION | ROTATE_TREE | UPDATE_ASSOCIATION_ROOT | ATTEST_POI
  | APPROVE_REDEMPTION_SIGNING

fun disc :: "INSTRUCTION \<Rightarrow> int" where
  "disc INITIALIZE = 0" | "disc SET_PAUSED = 1" | "disc SET_POOL_CONFIG = 2"
| "disc PROPOSE_POOL_UPDATE = 3" | "disc EXECUTE_POOL_UPDATE = 4" | "disc CANCEL_POOL_UPDATE = 5"
| "disc INIT_VK_REGISTRY = 6" | "disc UPDATE_VK_REGISTRY = 7"
| "disc REGISTER_TOKEN = 8" | "disc UPDATE_TOKEN_CONFIG = 9" | "disc CLAIM_FEES = 10"
| "disc COMPLETE_DEPOSIT = 11" | "disc SHIELD = 12" | "disc TRANSACT = 13" | "disc UNSHIELD = 14" | "disc REDEEM = 15"
| "disc REQUEST_REDEMPTION = 16" | "disc COMPLETE_REDEMPTION = 17" | "disc MARK_PROCESSING = 18" | "disc CANCEL_REDEMPTION = 19"
| "disc ROTATE_TREE = 20" | "disc UPDATE_ASSOCIATION_ROOT = 21" | "disc ATTEST_POI = 22" | "disc APPROVE_REDEMPTION_SIGNING = 27"

section \<open>Addresses\<close>

definition ALPHABET :: string where
  "ALPHABET = ''123456789ABCDEFGHJKLMNPQRSTUVWXYZabcdefghijkmnopqrstuvwxyz''"

text \<open>\<open>ALPHABET_MAP.get(char)\<close>; the characters of the alphabet are distinct.\<close>

definition alphabet_index :: "char \<Rightarrow> nat option" where
  "alphabet_index c = map_of (zip ALPHABET [0..<58]) c"

fun base58_num :: "string \<Rightarrow> nat \<Rightarrow> nat result" where
  "base58_num [] num = Inr num"
| "base58_num (c # cs) num =
     (case alphabet_index c of None \<Rightarrow> Inl (Error ''Invalid base58 character'') | Some val \<Rightarrow> base58_num cs (num * 58 + val))"

text \<open>The loop \<open>while (num > 0) { bytes.unshift(num % 256); num = num / 256; }\<close>.\<close>

function unshift_bytes :: "nat \<Rightarrow> bytes \<Rightarrow> bytes" where
  "unshift_bytes num bs = (if num > 0 then unshift_bytes (num div 256) (of_nat (num mod 256) # bs) else bs)"
  by pat_completeness auto
termination by (relation "measure fst") auto

declare unshift_bytes.simps [simp del]

definition bs58Decode :: "string \<Rightarrow> bytes result" where
  "bs58Decode str =
     js_bind (base58_num str 0) (\<lambda>num.
       let leadingZeros = length (takeWhile (\<lambda>c. c = CHR ''1'') str);
           bytes0 = replicate leadingZeros 0 @ unshift_bytes num []
       in Inr (replicate (32 - length bytes0) 0 @ bytes0))"

definition addressToBytes :: "string \<Rightarrow> bytes result" where
  "addressToBytes addr = bs58Decode addr"

section \<open>Shield\<close>

definition buildShieldInstructionData :: "int \<Rightarrow> bytes \<Rightarrow> bytes \<Rightarrow> bytes result" where
  "buildShieldInstructionData amount npk ephemeralPub =
     build 73 [PutByte (disc SHIELD), PutLE 8 amount, PutBytes (js_slice npk 0 32) 32, PutBytes (js_slice ephemeralPub 0 32) 32]"

record ShieldInstructionOptions =
  sh_amount :: int
  sh_npk :: bytes
  sh_ephemeralPub :: bytes
  sh_user :: string
  sh_userTokenAccount :: string
  sh_poolState :: string
  sh_tokenConfig :: string
  sh_vault :: string
  sh_commitmentTree :: string
  sh_tokenProgram :: string

definition buildShieldInstruction :: "string \<Rightarrow> ShieldInstructionOptions \<Rightarrow> Instruction result" where
  "buildShieldInstruction programId opt =
     js_bind (buildShieldInstructionData (sh_amount opt) (sh_npk opt) (sh_ephemeralPub opt)) (\<lambda>d.
       Inr \<lparr> ix_programAddress = programId,
             ix_accounts =
               [(sh_user opt, WRITABLE_SIGNER), (sh_userTokenAccount opt, WRITABLE), (sh_poolState opt, READONLY),
                (sh_tokenConfig opt, WRITABLE), (sh_vault opt, WRITABLE), (sh_commitmentTree opt, WRITABLE),
                (sh_tokenProgram opt, READONLY)],
             ix_data = d \<rparr>)"

section \<open>Redemption\<close>

definition buildRedemptionRequestInstructionData ::
  "bytes \<Rightarrow> bytes \<Rightarrow> bytes \<Rightarrow> int \<Rightarrow> bytes \<Rightarrow> bytes \<Rightarrow> int \<Rightarrow> bytes result" where
  "buildRedemptionRequestInstructionData proofHash merkleRoot nullifierHash amountSats vkHash btcScript requestNonce =
     (if length btcScript > 34 then Inl (Error ''BTC scriptPubKey too long (max 34 bytes)'')
      else
        build (1 + 32 + 32 + 32 + 8 + 32 + 1 + length btcScript + 8)
          [PutByte (disc REQUEST_REDEMPTION), PutBytes proofHash 32, PutBytes merkleRoot 32, PutBytes nullifierHash 32,
           PutLE 8 amountSats, PutBytes vkHash 32, PutByte (int (length btcScript)),
           PutBytes btcScript (length btcScript), PutLE 8 requestNonce])"

record RedemptionRequestInstructionOptions =
  rr_proofHash :: bytes
  rr_merkleRoot :: bytes
  rr_nullifierHash :: bytes
  rr_amountSats :: int
  rr_vkHash :: bytes
  rr_btcScript :: bytes
  rr_requestNonce :: int
  rr_poolState :: string
  rr_commitmentTree :: string
  rr_nullifierRecord :: string
  rr_redemptionRequest :: string
  rr_user :: string
  rr_tokenConfig :: string

definition buildRedemptionRequestInstruction :: "string \<Rightarrow> RedemptionRequestInstructionOptions \<Rightarrow> Instruction result" where
  "buildRedemptionRequestInstruction programId opt =
     js_bind (buildRedemptionRequestInstructionData (rr_proofHash opt) (rr_merkleRoot opt) (rr_nullifierHash opt)
                (rr_amountSats opt) (rr_vkHash opt) (rr_btcScript opt) (rr_requestNonce opt)) (\<lambda>d.
       Inr \<lparr> ix_programAddress = programId,
             ix_accounts =
               [(rr_poolState opt, WRITABLE), (rr_commitmentTree opt, READONLY), (rr_nullifierRecord opt, WRITABLE),
                (rr_redemptionRequest opt, WRITABLE), (rr_user opt, WRITABLE_SIGNER), (SYSTEM_PROGRAM_ADDRESS, READONLY),
                (rr_tokenConfig opt, WRITABLE)],
             ix_data = d \<rparr>)"

definition buildApproveRedemptionSigningInstructionData :: "bytes \<Rightarrow> bytes option \<Rightarrow> int \<Rightarrow> bytes result" where
  "buildApproveRedemptionSigningInstructionData btcSighash ikaMessageDigest minerFeeSats =
     (if length btcSighash \<noteq> 32 then Inl (Error ''btcSighash must be exactly 32 bytes'')
      else case ikaMessageDigest of
        None \<Rightarrow> build (1 + 32 + 0 + 8) [PutByte (disc APPROVE_REDEMPTION_SIGNING), PutBytes btcSighash 32, PutLE 8 minerFeeSats]
      | Some digest \<Rightarrow>
          if length digest \<noteq> 32 then Inl (Error ''ikaMessageDigest must be exactly 32 bytes'')
          else build (1 + 32 + 32 + 8)
                 [PutByte (disc APPROVE_REDEMPTION_SIGNING), PutBytes btcSighash 32, PutBytes digest 32, PutLE 8 minerFeeSats])"

record ApproveRedemptionSigningInstructionOptions =
  ap_btcSighash :: bytes
  ap_ikaMessageDigest :: "bytes option"
  ap_minerFeeSats :: int
  ap_poolState :: string
  ap_redemptionRequest :: string
  ap_authority :: string
  ap_poolConfig :: string
  ap_ikaProgram :: string
  ap_ikaCoordinator :: string
  ap_ikaMessageApproval :: string
  ap_ikaDwallet :: string
  ap_callerProgram :: string
  ap_cpiAuthority :: string
  ap_ikaPayer :: string

definition buildApproveRedemptionSigningInstruction ::
  "string \<Rightarrow> ApproveRedemptionSigningInstructionOptions \<Rightarrow> Instruction result" where
  "buildApproveRedemptionSigningInstruction programId opt =
     js_bind (buildApproveRedemptionSigningInstructionData (ap_btcSighash opt) (ap_ikaMessageDigest opt) (ap_minerFeeSats opt)) (\<lambda>d.
       Inr \<lparr> ix_programAddress = programId,
             ix_accounts =
               [(ap_poolState opt, READONLY), (ap_redemptionRequest opt, READONLY), (ap_authority opt, READONLY_SIGNER),
                (ap_poolConfig opt, READONLY), (ap_ikaProgram opt, READONLY), (ap_ikaCoordinator opt, READONLY),
                (ap_ikaMessageApproval opt, WRITABLE), (ap_ikaDwallet opt, READONLY), (ap_callerProgram opt, READONLY),
                (ap_cpiAuthority opt, READONLY), (ap_ikaPayer opt, WRITABLE_SIGNER), (SYSTEM_PROGRAM_ADDRESS, READONLY)],
             ix_data = d \<rparr>)"

definition buildCompleteRedemptionInstructionData :: "bytes \<Rightarrow> int \<Rightarrow> bytes \<Rightarrow> int \<Rightarrow> bytes result" where
  "buildCompleteRedemptionInstructionData btcTxid txSize poolScript consumedUtxoCount =
     build (1 + 32 + 4 + 1 + length poolScript + 1)
       ([PutByte (disc COMPLETE_REDEMPTION), PutBytes btcTxid 32, PutLE 4 txSize, PutByte (int (length poolScript))]
        @ (if length poolScript > 0 then [PutBytes poolScript (length poolScript)] else [])
        @ [PutByte consumedUtxoCount])"

record CompleteRedemptionInstructionOptions =
  cr_btcTxid :: bytes
  cr_txSize :: int
  cr_poolScript :: bytes
  cr_consumedUtxoCount :: int
  cr_poolState :: string
  cr_redemptionRequest :: string
  cr_authority :: string
  cr_rentRecipient :: string
  cr_verifiedTransaction :: string
  cr_lightClient :: string
  cr_txBuffer :: string
  cr_zkbtcMint :: string
  cr_poolVault :: string
  cr_completionReceipt :: string
  cr_poolConfig :: string
  cr_changeUtxo :: string
  cr_tokenProgram :: "string option"
  cr_consumedUtxos :: "string list option"

definition buildCompleteRedemptionInstruction :: "string \<Rightarrow> CompleteRedemptionInstructionOptions \<Rightarrow> Instruction result" where
  "buildCompleteRedemptionInstruction programId opt =
     js_bind (buildCompleteRedemptionInstructionData (cr_btcTxid opt) (cr_txSize opt) (cr_poolScript opt) (cr_consumedUtxoCount opt)) (\<lambda>d.
       Inr \<lparr> ix_programAddress = programId,
             ix_accounts =
               [(cr_poolState opt, WRITABLE), (cr_redemptionRequest opt, WRITABLE), (cr_authority opt, WRITABLE_SIGNER),
                (cr_rentRecipient opt, READONLY), (cr_verifiedTransaction opt, READONLY), (cr_lightClient opt, READONLY),
                (cr_txBuffer opt, READONLY), (cr_zkbtcMint opt, WRITABLE), (cr_poolVault opt, WRITABLE),
                (case cr_tokenProgram opt of None \<Rightarrow> TOKEN_2022_PROGRAM_ID | Some t \<Rightarrow> t, READONLY),
                (cr_completionReceipt opt, WRITABLE), (SYSTEM_PROGRAM_ADDRESS, READONLY), (cr_poolConfig opt, READONLY),
                (cr_changeUtxo opt, WRITABLE)]
               @ (case cr_consumedUtxos opt of None \<Rightarrow> [] | Some utxos \<Rightarrow> map (\<lambda>utxo. (utxo, WRITABLE)) utxos),
             ix_data = d \<rparr>)"

section \<open>JoinSplit instructions\<close>

text \<open>
  The part that the three JoinSplit builders share: discriminator, four header bytes, the proof in
  inline mode, root, bound parameter hash, nullifiers, commitments and the stealth data cut to the
  width of the instruction.
\<close>

definition joinsplit_ops ::
  "int \<Rightarrow> nat \<Rightarrow> nat \<Rightarrow> nat \<Rightarrow> nat \<Rightarrow> bytes option \<Rightarrow> bytes \<Rightarrow> bytes \<Rightarrow> bytes list \<Rightarrow> bytes list \<Rightarrow> nat \<Rightarrow> bytes list \<Rightarrow> wop list" where
  "joinsplit_ops d nInputs nOutputs nPublic proofSource proofBytes merkleRoot boundParamsHash nullifiers commitmentsOut width stealthData =
     [PutByte d, PutByte (int nInputs), PutByte (int nOutputs), PutByte (int nPublic), PutByte (int proofSource)]
     @ (case proofBytes of Some proof \<Rightarrow> if proofSource = 0 then [PutBytes proof 256] else [] | None \<Rightarrow> [])
     @ [PutBytes merkleRoot 32, PutBytes boundParamsHash 32]
     @ map (\<lambda>nullifier. PutBytes nullifier 32) nullifiers
     @ map (\<lambda>commitment. PutBytes commitment 32) commitmentsOut
     @ map (\<lambda>sd. PutBytes (js_slice sd 0 width) width) stealthData"

definition proof_missing :: "nat \<Rightarrow> bytes option \<Rightarrow> bool" where
  "proof_missing proofSource proofBytes \<longleftrightarrow>
     proofSource = 0 \<and> (case proofBytes of None \<Rightarrow> True | Some proof \<Rightarrow> length proof \<noteq> 256)"

record TransactData =
  ta_nInputs :: nat
  ta_nOutputs :: nat
  ta_proofBytes :: "bytes option"
  ta_merkleRoot :: bytes
  ta_boundParamsHash :: bytes
  ta_nullifiers :: "bytes list"
  ta_commitmentsOut :: "bytes list"
  ta_stealthData :: "bytes list"
  ta_proofSource :: "nat option"
  ta_senderMemos :: "bytes list option"

definition buildTransactInstructionData :: "TransactData \<Rightarrow> bytes result" where
  "buildTransactInstructionData opt =
     (let nInputs = ta_nInputs opt; nOutputs = ta_nOutputs opt;
          proofSource = (case ta_proofSource opt of None \<Rightarrow> 0 | Some p \<Rightarrow> p) in
      if proof_missing proofSource (ta_proofBytes opt) then Inl (Error ''Inline mode requires 256-byte proof'')
      else if length (ta_nullifiers opt) \<noteq> nInputs then Inl (Error ''Expected nullifiers'')
      else if length (ta_commitmentsOut opt) \<noteq> nOutputs then Inl (Error ''Expected commitments'')
      else if length (ta_stealthData opt) \<noteq> nOutputs then Inl (Error ''Expected stealth data entries'')
      else if (case ta_senderMemos opt of None \<Rightarrow> False | Some memos \<Rightarrow> length memos \<noteq> nOutputs)
        then Inl (Error ''Expected sender memo entries'')
      else if (case ta_senderMemos opt of None \<Rightarrow> False | Some memos \<Rightarrow> \<exists>memo \<in> set memos. length memo \<noteq> 80)
        then Inl (Error ''Sender memo must be 80 bytes'')
      else
        (let proofSize = (if proofSource = 0 then 256 else 0);
             senderMemosSize = (case ta_senderMemos opt of None \<Rightarrow> 0 | Some memos \<Rightarrow> nOutputs * 80);
             totalSize = 1 + 4 + proofSize + 32 + 32 + nInputs * 32 + nOutputs * 32 + nOutputs * 72 + senderMemosSize in
         build totalSize
           (joinsplit_ops (disc TRANSACT) nInputs nOutputs 0 proofSource (ta_proofBytes opt) (ta_merkleRoot opt)
              (ta_boundParamsHash opt) (ta_nullifiers opt) (ta_commitmentsOut opt) 72 (ta_stealthData opt)
            @ (case ta_senderMemos opt of None \<Rightarrow> [] | Some memos \<Rightarrow> map (\<lambda>memo. PutBytes memo 80) memos))))"

record TransactAccounts =
  tx_poolState :: string
  tx_commitmentTree :: string
  tx_vkRegistry :: string
  tx_user :: string
  tx_nullifierRecords :: "string list"

text \<open>The complete instruction passes no proof source, so its proof is inline.\<close>

definition buildTransactInstruction :: "string \<Rightarrow> TransactData \<Rightarrow> TransactAccounts \<Rightarrow> Instruction result" where
  "buildTransactInstruction programId opt accs =
     js_bind (buildTransactInstructionData (opt\<lparr> ta_proofSource := None \<rparr>)) (\<lambda>d.
       Inr \<lparr> ix_programAddress = programId,
             ix_accounts =
               [(tx_poolState accs, WRITABLE), (tx_commitmentTree accs, WRITABLE), (tx_vkRegistry accs, READONLY),
                (tx_user accs, WRITABLE_SIGNER), (SYSTEM_PROGRAM_ADDRESS, READONLY)]
               @ map (\<lambda>nr. (nr, WRITABLE)) (tx_nullifierRecords accs),
             ix_data = d \<rparr>)"

record RedeemData =
  re_nInputs :: nat
  re_nOutputs :: nat
  re_nPublicOutputs :: "nat option"
  re_proofBytes :: "bytes option"
  re_merkleRoot :: bytes
  re_boundParamsHash :: bytes
  re_nullifiers :: "bytes list"
  re_commitmentsOut :: "bytes list"
  re_stealthData :: "bytes list"
  re_redeemAmounts :: "int list"
  re_btcScripts :: "bytes list"
  re_requestNonces :: "int list"
  re_proofSource :: "nat option"

definition redeem_output_ops :: "int \<Rightarrow> bytes \<Rightarrow> int \<Rightarrow> wop list" where
  "redeem_output_ops amount script nonce =
     [PutLE 8 amount, PutByte (int (length script)), PutBytes script (length script), PutLE 8 nonce]"

definition buildRedeemInstructionData :: "RedeemData \<Rightarrow> bytes result" where
  "buildRedeemInstructionData opt =
     (let nInputs = re_nInputs opt; nOutputs = re_nOutputs opt;
          nPublicOutputs = (case re_nPublicOutputs opt of None \<Rightarrow> length (re_redeemAmounts opt) | Some n \<Rightarrow> n);
          proofSource = (case re_proofSource opt of None \<Rightarrow> 0 | Some p \<Rightarrow> p) in
      if proof_missing proofSource (re_proofBytes opt) then Inl (Error ''Inline mode requires 256-byte proof'')
      else if nPublicOutputs < 1 \<or> nPublicOutputs > 3 then Inl (Error ''nPublicOutputs must be 1-3'')
      else if nOutputs < nPublicOutputs then Inl (Error ''nOutputs must be >= nPublicOutputs'')
      else if length (re_nullifiers opt) \<noteq> nInputs then Inl (Error ''Expected nullifiers'')
      else if length (re_commitmentsOut opt) \<noteq> nOutputs then Inl (Error ''Expected commitments'')
      else if length (re_stealthData opt) \<noteq> nOutputs - nPublicOutputs then Inl (Error ''Expected stealth data entries'')
      else if length (re_redeemAmounts opt) \<noteq> nPublicOutputs then Inl (Error ''Expected redeem amounts'')
      else if length (re_btcScripts opt) \<noteq> nPublicOutputs then Inl (Error ''Expected BTC scripts'')
      else if length (re_requestNonces opt) \<noteq> nPublicOutputs then Inl (Error ''Expected request nonces'')
      else if (\<exists>script \<in> set (re_btcScripts opt). length script = 0 \<or> length script > 62)
        then Inl (Error ''BTC script must be 1-62 bytes'')
      else
        (let proofSize = (if proofSource = 0 then 256 else 0);
             totalScriptLen = foldl (\<lambda>t s. t + length s) 0 (re_btcScripts opt);
             totalSize = 1 + 4 + proofSize + 32 + 32 + nInputs * 32 + nOutputs * 32 + (nOutputs - nPublicOutputs) * 40
               + nPublicOutputs * (8 + 1 + 8) + totalScriptLen in
         build totalSize
           (joinsplit_ops (disc REDEEM) nInputs nOutputs nPublicOutputs proofSource (re_proofBytes opt) (re_merkleRoot opt)
              (re_boundParamsHash opt) (re_nullifiers opt) (re_commitmentsOut opt) 40 (re_stealthData opt)
            @ concat (map (\<lambda>k. redeem_output_ops (re_redeemAmounts opt ! k) (re_btcScripts opt ! k) (re_requestNonces opt ! k))
                [0..<nPublicOutputs]))))"

record UnshieldData =
  un_nInputs :: nat
  un_nOutputs :: nat
  un_nPublicOutputs :: "nat option"
  un_proofBytes :: "bytes option"
  un_merkleRoot :: bytes
  un_boundParamsHash :: bytes
  un_nullifiers :: "bytes list"
  un_commitmentsOut :: "bytes list"
  un_stealthData :: "bytes list"
  un_unshieldAmounts :: "int list"
  un_proofSource :: "nat option"

definition buildUnshieldInstructionData :: "UnshieldData \<Rightarrow> bytes result" where
  "buildUnshieldInstructionData opt =
     (let nInputs = un_nInputs opt; nOutputs = un_nOutputs opt;
          nPublicOutputs = (case un_nPublicOutputs opt of None \<Rightarrow> length (un_unshieldAmounts opt) | Some n \<Rightarrow> n);
          proofSource = (case un_proofSource opt of None \<Rightarrow> 0 | Some p \<Rightarrow> p) in
      if proof_missing proofSource (un_proofBytes opt) then Inl (Error ''Inline mode requires 256-byte proof'')
      else if nPublicOutputs < 1 \<or> nPublicOutputs > 3 then Inl (Error ''nPublicOutputs must be 1-3'')
      else if length (un_nullifiers opt) \<noteq> nInputs then Inl (Error ''Expected nullifiers'')
      else if length (un_commitmentsOut opt) \<noteq> nOutputs then Inl (Error ''Expected commitments'')
      else if nOutputs < nPublicOutputs then Inl (Error ''nOutputs must be >= nPublicOutputs'')
      else if length (un_stealthData opt) \<noteq> nOutputs - nPublicOutputs then Inl (Error ''Expected stealth data entries (tree outputs)'')
      else if length (un_unshieldAmounts opt) \<noteq> nPublicOutputs then Inl (Error ''Expected unshield amounts'')
      else
        (let proofSize = (if proofSource = 0 then 256 else 0);
             totalSize = 1 + 4 + proofSize + 32 + 32 + nInputs * 32 + nOutputs * 32 + (nOutputs - nPublicOutputs) * 72
               + nPublicOutputs * 8 in
         build totalSize
           (joinsplit_ops (disc UNSHIELD) nInputs nOutputs nPublicOutputs proofSource (un_proofBytes opt) (un_merkleRoot opt)
              (un_boundParamsHash opt) (un_nullifiers opt) (un_commitmentsOut opt) 72 (un_stealthData opt)
            @ map (\<lambda>amount. PutLE 8 amount) (un_unshieldAmounts opt))))"

record UnshieldAccounts =
  ux_poolState :: string
  ux_commitmentTree :: string
  ux_vkRegistry :: string
  ux_user :: string
  ux_tokenConfig :: string
  ux_vault :: string
  ux_tokenProgram :: "string option"
  ux_recipientTokenAccounts :: "string list"
  ux_nullifierRecords :: "string list"

definition buildUnshieldInstruction :: "string \<Rightarrow> UnshieldData \<Rightarrow> UnshieldAccounts \<Rightarrow> Instruction result" where
  "buildUnshieldInstruction programId opt accs =
     (let nPublicOutputs = (case un_nPublicOutputs opt of None \<Rightarrow> length (un_unshieldAmounts opt) | Some n \<Rightarrow> n) in
      js_bind (buildUnshieldInstructionData (opt\<lparr> un_nPublicOutputs := Some nPublicOutputs, un_proofSource := None \<rparr>)) (\<lambda>d.
        Inr \<lparr> ix_programAddress = programId,
              ix_accounts =
                [(ux_poolState accs, READONLY), (ux_commitmentTree accs, WRITABLE), (ux_vkRegistry accs, READONLY),
                 (ux_user accs, WRITABLE_SIGNER), (SYSTEM_PROGRAM_ADDRESS, READONLY), (ux_tokenConfig accs, WRITABLE),
                 (ux_vault accs, WRITABLE),
                 (case ux_tokenProgram accs of None \<Rightarrow> TOKEN_2022_PROGRAM_ID | Some t \<Rightarrow> t, READONLY)]
                @ map (\<lambda>rta. (rta, WRITABLE)) (ux_recipientTokenAccounts accs)
                @ map (\<lambda>nr. (nr, WRITABLE)) (ux_nullifierRecords accs),
              ix_data = d \<rparr>))"

section \<open>Pool updates, tree rotation\<close>

definition buildProposePoolUpdateInstructionData :: "int \<Rightarrow> int \<Rightarrow> int \<Rightarrow> int option \<Rightarrow> bytes result" where
  "buildProposePoolUpdateInstructionData minDeposit maxDeposit serviceFee serviceFeeBps =
     build (case serviceFeeBps of Some _ \<Rightarrow> 27 | None \<Rightarrow> 25)
       ([PutByte (disc PROPOSE_POOL_UPDATE), PutLE 8 minDeposit, PutLE 8 maxDeposit, PutLE 8 serviceFee]
        @ (case serviceFeeBps of Some bps \<Rightarrow> [PutLE 2 bps] | None \<Rightarrow> []))"

definition buildProposePoolUpdateInstruction ::
  "string \<Rightarrow> int \<Rightarrow> int \<Rightarrow> int \<Rightarrow> int option \<Rightarrow> string \<Rightarrow> string \<Rightarrow> Instruction result" where
  "buildProposePoolUpdateInstruction programId minDeposit maxDeposit serviceFee serviceFeeBps poolState authority =
     js_bind (buildProposePoolUpdateInstructionData minDeposit maxDeposit serviceFee serviceFeeBps) (\<lambda>d.
       Inr \<lparr> ix_programAddress = programId, ix_accounts = [(poolState, WRITABLE), (authority, WRITABLE_SIGNER)], ix_data = d \<rparr>)"

definition buildExecutePoolUpdateInstructionData :: bytes where
  "buildExecutePoolUpdateInstructionData = [word_of_int (disc EXECUTE_POOL_UPDATE)]"

definition buildExecutePoolUpdateInstruction :: "string \<Rightarrow> string \<Rightarrow> Instruction" where
  "buildExecutePoolUpdateInstruction programId poolState =
     \<lparr> ix_programAddress = programId, ix_accounts = [(poolState, WRITABLE)], ix_data = buildExecutePoolUpdateInstructionData \<rparr>"

definition buildCancelPoolUpdateInstructionData :: bytes where
  "buildCancelPoolUpdateInstructionData = [word_of_int (disc CANCEL_POOL_UPDATE)]"

definition buildCancelPoolUpdateInstruction :: "string \<Rightarrow> string \<Rightarrow> string \<Rightarrow> Instruction" where
  "buildCancelPoolUpdateInstruction programId poolState authority =
     \<lparr> ix_programAddress = programId, ix_accounts = [(poolState, WRITABLE), (authority, WRITABLE_SIGNER)],
       ix_data = buildCancelPoolUpdateInstructionData \<rparr>"

definition buildRotateTreeInstructionData :: bytes where
  "buildRotateTreeInstructionData = [word_of_int (disc ROTATE_TREE)]"

record RotateTreeOptions =
  ro_poolState :: string
  ro_currentTree :: string
  ro_newTree :: string
  ro_authority :: string
  ro_systemProgram :: string

definition buildRotateTreeInstruction :: "string \<Rightarrow> RotateTreeOptions \<Rightarrow> Instruction" where
  "buildRotateTreeInstruction programId opt =
     \<lparr> ix_programAddress = programId,
       ix_accounts = [(ro_poolState opt, WRITABLE), (ro_currentTree opt, WRITABLE), (ro_newTree opt, WRITABLE),
         (ro_authority opt, WRITABLE_SIGNER), (ro_systemProgram opt, READONLY)],
       ix_data = buildRotateTreeInstructionData \<rparr>"

section \<open>Derived addresses, deposits\<close>

text \<open>The result is the unhashed user address with the seeds; the hash is left to the caller.\<close>

definition deriveRedemptionRequestPDA :: "string \<Rightarrow> int \<Rightarrow> (bytes \<times> bytes list) result" where
  "deriveRedemptionRequestPDA userAddress nonce =
     js_bind (addressToBytes userAddress) (\<lambda>userBytes.
     js_bind (view_set_le 8 (replicate 8 0) 0 nonce) (\<lambda>nonceBytes.
       Inr (userBytes, [map (\<lambda>c. of_nat (of_char c)) ''redemption'', userBytes, nonceBytes])))"

definition buildVerifyTransactionInstructionData :: "bytes \<Rightarrow> bytes \<Rightarrow> int \<Rightarrow> int \<Rightarrow> bytes list \<Rightarrow> int \<Rightarrow> bytes result" where
  "buildVerifyTransactionInstructionData txid blockHash txSize txIndex merkleSiblings pathBits =
     (let pathLen = length merkleSiblings in
      build (1 + 32 + 32 + 4 + 32 + 4 + 1 + 4 + 32 * pathLen)
        ([PutByte 2, PutBytes txid 32, PutBytes blockHash 32, PutLE 4 txSize, PutBytes txid 32, PutLE 4 pathBits,
          PutByte (int pathLen), PutLE 4 txIndex] @ map (\<lambda>sibling. PutBytes sibling 32) merkleSiblings))"

definition buildVerifyStealthDepositInstructionData :: "bytes \<Rightarrow> int \<Rightarrow> int \<Rightarrow> int \<Rightarrow> bytes \<Rightarrow> bytes result" where
  "buildVerifyStealthDepositInstructionData sweepTxid blockHeight sweepTxSize depositTxSize depositTxid =
     build 81 [PutByte (disc COMPLETE_DEPOSIT), PutBytes sweepTxid 32, PutLE 8 blockHeight, PutLE 4 sweepTxSize,
       PutLE 4 depositTxSize, PutBytes depositTxid 32]"

section \<open>Layouts\<close>

lemma build_layoutI: "(\<And>op. op \<in> set ops \<Longrightarrow> wop_fits op) \<Longrightarrow> wop_total ops = sz \<Longrightarrow> build sz ops = Inr (wop_layout ops)"
  using build_layout by blast

lemma fields_layout:
  "\<forall>x \<in> set xs. length x = w \<Longrightarrow> wop_layout (map (\<lambda>x. PutBytes x w) xs) = concat xs"
  "\<forall>x \<in> set xs. length x = w \<Longrightarrow> wop_total (map (\<lambda>x. PutBytes x w) xs) = length xs * w"
  by (induction xs) simp_all

definition joinsplit_ok :: "nat \<Rightarrow> bytes option \<Rightarrow> bytes \<Rightarrow> bytes \<Rightarrow> bytes list \<Rightarrow> bytes list \<Rightarrow> nat \<Rightarrow> bytes list \<Rightarrow> bool" where
  "joinsplit_ok ps proof root bph nulls comms w sds \<longleftrightarrow>
     (case proof of None \<Rightarrow> ps \<noteq> 0 | Some pr \<Rightarrow> length pr = 256) \<and> length root = 32 \<and> length bph = 32 \<and>
     (\<forall>n \<in> set nulls. length n = 32) \<and> (\<forall>c \<in> set comms. length c = 32) \<and> (\<forall>sd \<in> set sds. length sd = w)"

definition proof_part :: "nat \<Rightarrow> bytes option \<Rightarrow> bytes" where
  "proof_part ps proof = (if ps = 0 then the proof else [])"

lemma joinsplit_layout:
  assumes "joinsplit_ok ps proof root bph nulls comms w sds"
  shows "wop_layout (joinsplit_ops d ni no np ps proof root bph nulls comms w sds) =
      [word_of_int d, of_nat ni, of_nat no, of_nat np, of_nat ps] @ proof_part ps proof @ root @ bph
        @ concat nulls @ concat comms @ concat sds"
    "wop_total (joinsplit_ops d ni no np ps proof root bph nulls comms w sds) =
      5 + (if ps = 0 then 256 else 0) + 64 + length nulls * 32 + length comms * 32 + length sds * w"
    "\<forall>op \<in> set (joinsplit_ops d ni no np ps proof root bph nulls comms w sds). wop_fits op"
proof -
  have sds: "map (\<lambda>sd. PutBytes (js_slice sd 0 w) w) sds = map (\<lambda>sd. PutBytes sd w) sds"
    using assms by (intro map_cong) (auto simp: joinsplit_ok_def js_slice_def)
  note ok = assms [unfolded joinsplit_ok_def]
  show "wop_layout (joinsplit_ops d ni no np ps proof root bph nulls comms w sds) =
      [word_of_int d, of_nat ni, of_nat no, of_nat np, of_nat ps] @ proof_part ps proof @ root @ bph
        @ concat nulls @ concat comms @ concat sds"
    "wop_total (joinsplit_ops d ni no np ps proof root bph nulls comms w sds) =
      5 + (if ps = 0 then 256 else 0) + 64 + length nulls * 32 + length comms * 32 + length sds * w"
    using ok by (auto simp: joinsplit_ops_def sds fields_layout proof_part_def split: option.splits)
  show "\<forall>op \<in> set (joinsplit_ops d ni no np ps proof root bph nulls comms w sds). wop_fits op"
    using ok by (auto simp: joinsplit_ops_def sds split: option.splits if_splits)
qed

end
