(* ===== verification/Onchain_Instructions.thy ===== *)
theory Onchain_Instructions
  imports Instructions Onchain_Field
begin

text \<open>
  How the program reads instruction data: the parsing halves of \<open>process_transact\<close>,
  \<open>process_unshield\<close>, \<open>process_redeem\<close>, \<open>process_shield\<close> and \<open>process_propose_pool_update\<close>, and the
  \<open>from_bytes\<close> constructors of the redemption, signing and deposit instructions (under
  \<open>src/contracts/programs/utxopia/src/instructions/\<close>). Slicing out of range panics. The main facts
  say that what the SDK builds is what the program reads.
\<close>

section \<open>Reading\<close>

definition rust_slice :: "bytes \<Rightarrow> nat \<Rightarrow> nat \<Rightarrow> bytes pres" where
  "rust_slice bs a b = (if a \<le> b \<and> b \<le> length bs then Inr (js_slice bs a b) else Inl Panic)"

fun read_arrays :: "nat \<Rightarrow> bytes \<Rightarrow> nat \<Rightarrow> (bytes list \<times> nat) pres" where
  "read_arrays 0 bs off = Inr ([], off)"
| "read_arrays (Suc n) bs off =
     js_bind (rust_slice bs off (off + 32)) (\<lambda>x.
     js_bind (read_arrays n bs (off + 32)) (\<lambda>(xs, off'). Inr (x # xs, off')))"

fun read_u64s :: "nat \<Rightarrow> bytes \<Rightarrow> nat \<Rightarrow> (int list \<times> nat) pres" where
  "read_u64s 0 bs off = Inr ([], off)"
| "read_u64s (Suc n) bs off =
     js_bind (rust_slice bs off (off + 8)) (\<lambda>x.
     js_bind (read_u64s n bs (off + 8)) (\<lambda>(xs, off'). Inr (le_val x # xs, off')))"

section \<open>JoinSplit data\<close>

definition GROTH16_PROOF_SIZE :: nat where "GROTH16_PROOF_SIZE = 256"
definition MAX_JOINSPLIT_SIZE :: nat where "MAX_JOINSPLIT_SIZE = 10"
definition MAX_PUBLIC_OUTPUTS :: nat where "MAX_PUBLIC_OUTPUTS = 3"
definition MAX_BTC_SCRIPT_LEN :: nat where "MAX_BTC_SCRIPT_LEN = 34"

lemmas ix_sizes = GROTH16_PROOF_SIZE_def MAX_JOINSPLIT_SIZE_def MAX_PUBLIC_OUTPUTS_def MAX_BTC_SCRIPT_LEN_def

record JoinSplitBody =
  jb_proof :: bytes
  jb_merkle_root :: bytes
  jb_bound_params_hash :: bytes
  jb_nullifiers :: "bytes list"
  jb_commitments_out :: "bytes list"
  jb_stealth :: bytes

text \<open>
  The part that the three handlers share, from the proof to the stealth data. In buffer mode the
  proof is what was read from the last account; the result of that read is an argument.
\<close>

definition joinsplit_body :: "bytes \<Rightarrow> bytes pres \<Rightarrow> nat \<Rightarrow> nat \<Rightarrow> nat \<Rightarrow> nat \<Rightarrow> (JoinSplitBody \<times> nat) pres" where
  "joinsplit_body bs proof_account proof_source n_inputs n_outputs stealth_len =
     js_bind (if proof_source = 0
              then js_bind (rust_slice bs 4 (4 + GROTH16_PROOF_SIZE)) (\<lambda>p. Inr (p, 4 + GROTH16_PROOF_SIZE))
              else js_bind proof_account (\<lambda>p. Inr (p, 4))) (\<lambda>(proof_bytes, off).
     js_bind (rust_slice bs off (off + 32)) (\<lambda>merkle_root.
     js_bind (rust_slice bs (off + 32) (off + 64)) (\<lambda>bound_params_hash.
     js_bind (read_arrays n_inputs bs (off + 64)) (\<lambda>(nullifiers, off1).
     js_bind (read_arrays n_outputs bs off1) (\<lambda>(commitments_out, off2).
       Inr (\<lparr> jb_proof = proof_bytes, jb_merkle_root = merkle_root, jb_bound_params_hash = bound_params_hash,
              jb_nullifiers = nullifiers, jb_commitments_out = commitments_out,
              jb_stealth = js_slice bs off2 (off2 + stealth_len) \<rparr>, off2 + stealth_len))))))"

definition joinsplit_len :: "nat \<Rightarrow> nat \<Rightarrow> nat \<Rightarrow> nat \<Rightarrow> nat" where
  "joinsplit_len proof_source n_inputs n_outputs stealth_len =
     4 + (if proof_source = 0 then GROTH16_PROOF_SIZE else 0) + 32 + 32 + n_inputs * 32 + n_outputs * 32 + stealth_len"

record TransactIx =
  tr_n_inputs :: nat
  tr_n_outputs :: nat
  tr_body :: JoinSplitBody
  tr_memos :: "bytes option"

definition parse_transact :: "bytes \<Rightarrow> bytes pres \<Rightarrow> TransactIx pres" where
  "parse_transact bs proof_account =
     (if length bs < 4 then Inl InvalidInstructionData
      else
        (let n_inputs = unat (bs ! 0); n_outputs = unat (bs ! 1); n_public_outputs = unat (bs ! 2);
             proof_source = unat (bs ! 3); stealth_len = n_outputs * 72 in
         if proof_source > 1 then Inl InvalidInstructionData
         else if n_public_outputs \<noteq> 0 then Inl InvalidInstructionData
         else if n_inputs = 0 \<or> n_outputs = 0 \<or> n_inputs + n_outputs > MAX_JOINSPLIT_SIZE then Inl InvalidInstructionData
         else if length bs < joinsplit_len proof_source n_inputs n_outputs stealth_len then Inl InvalidInstructionData
         else
           js_bind (joinsplit_body bs proof_account proof_source n_inputs n_outputs stealth_len) (\<lambda>(body, stealth_end).
             let memos_len = n_outputs * 80 in
             if length bs \<noteq> stealth_end \<and> length bs \<noteq> stealth_end + memos_len then Inl InvalidInstructionData
             else Inr \<lparr> tr_n_inputs = n_inputs, tr_n_outputs = n_outputs, tr_body = body,
                        tr_memos = (if length bs = stealth_end + memos_len then Some (js_slice bs stealth_end (length bs)) else None) \<rparr>)))"

record UnshieldIx =
  ui_n_inputs :: nat
  ui_n_outputs :: nat
  ui_n_public_outputs :: nat
  ui_body :: JoinSplitBody
  ui_amounts :: "int list"

definition parse_unshield :: "bytes \<Rightarrow> bytes pres \<Rightarrow> UnshieldIx pres" where
  "parse_unshield bs proof_account =
     (if length bs < 4 then Inl InvalidInstructionData
      else
        (let n_inputs = unat (bs ! 0); n_outputs = unat (bs ! 1); n_public_outputs = unat (bs ! 2);
             proof_source = unat (bs ! 3); stealth_len = (n_outputs - n_public_outputs) * 72 in
         if proof_source > 1 then Inl InvalidInstructionData
         else if n_inputs = 0 \<or> n_outputs = 0 \<or> n_inputs + n_outputs > MAX_JOINSPLIT_SIZE then Inl InvalidInstructionData
         else if n_public_outputs = 0 \<or> n_public_outputs > MAX_PUBLIC_OUTPUTS \<or> n_public_outputs > n_outputs then Inl InvalidInstructionData
         else if length bs < joinsplit_len proof_source n_inputs n_outputs stealth_len + n_public_outputs * 8 then Inl InvalidInstructionData
         else
           js_bind (joinsplit_body bs proof_account proof_source n_inputs n_outputs stealth_len) (\<lambda>(body, off).
           js_bind (read_u64s n_public_outputs bs off) (\<lambda>(amounts, off').
             if off' \<noteq> length bs then Inl InvalidInstructionData
             else Inr \<lparr> ui_n_inputs = n_inputs, ui_n_outputs = n_outputs, ui_n_public_outputs = n_public_outputs,
                        ui_body = body, ui_amounts = amounts \<rparr>))))"

text \<open>One public output of a redeem: amount, script length, script, nonce.\<close>

definition read_redeem_output :: "bytes \<Rightarrow> nat \<Rightarrow> ((int \<times> bytes \<times> int) \<times> nat) pres" where
  "read_redeem_output bs off =
     js_bind (rust_slice bs off (off + 8)) (\<lambda>a.
       if off + 8 \<ge> length bs then Inl Panic
       else
         (let script_len = unat (bs ! (off + 8)); off1 = off + 9 in
          if script_len = 0 \<or> script_len > MAX_BTC_SCRIPT_LEN then Inl InvalidBtcAddress
          else if length bs < off1 + script_len + 8 then Inl InvalidInstructionData
          else
            js_bind (rust_slice bs (off1 + script_len) (off1 + script_len + 8)) (\<lambda>nonce.
              Inr ((le_val a, js_slice bs off1 (off1 + script_len), le_val nonce), off1 + script_len + 8))))"

fun read_redeem_outputs :: "nat \<Rightarrow> bytes \<Rightarrow> nat \<Rightarrow> ((int \<times> bytes \<times> int) list \<times> nat) pres" where
  "read_redeem_outputs 0 bs off = Inr ([], off)"
| "read_redeem_outputs (Suc n) bs off =
     js_bind (read_redeem_output bs off) (\<lambda>(x, off1).
     js_bind (read_redeem_outputs n bs off1) (\<lambda>(xs, off2). Inr (x # xs, off2)))"

record RedeemIx =
  ri_n_inputs :: nat
  ri_n_outputs :: nat
  ri_n_public_outputs :: nat
  ri_body :: JoinSplitBody
  ri_outputs :: "(int \<times> bytes \<times> int) list"

definition parse_redeem :: "bytes \<Rightarrow> bytes pres \<Rightarrow> RedeemIx pres" where
  "parse_redeem bs proof_account =
     (if length bs < 4 then Inl InvalidInstructionData
      else
        (let n_inputs = unat (bs ! 0); n_outputs = unat (bs ! 1); n_public_outputs = unat (bs ! 2);
             proof_source = unat (bs ! 3); stealth_len = (n_outputs - n_public_outputs) * 40 in
         if proof_source > 1 then Inl InvalidInstructionData
         else if n_inputs = 0 \<or> n_outputs = 0 \<or> n_inputs + n_outputs > MAX_JOINSPLIT_SIZE then Inl InvalidInstructionData
         else if n_public_outputs = 0 \<or> n_public_outputs > MAX_PUBLIC_OUTPUTS \<or> n_public_outputs > n_outputs then Inl InvalidInstructionData
         else if length bs < joinsplit_len proof_source n_inputs n_outputs stealth_len + n_public_outputs * 17 then Inl InvalidInstructionData
         else
           js_bind (joinsplit_body bs proof_account proof_source n_inputs n_outputs stealth_len) (\<lambda>(body, off).
           js_bind (read_redeem_outputs n_public_outputs bs off) (\<lambda>(outs, off').
             if off' \<noteq> length bs then Inl InvalidInstructionData
             else Inr \<lparr> ri_n_inputs = n_inputs, ri_n_outputs = n_outputs, ri_n_public_outputs = n_public_outputs,
                        ri_body = body, ri_outputs = outs \<rparr>))))"

section \<open>Fixed layouts\<close>

definition parse_shield :: "bytes \<Rightarrow> (int \<times> bytes \<times> bytes) pres" where
  "parse_shield bs =
     (if length bs < 72 then Inl InvalidInstructionData
      else Inr (le_val (js_slice bs 0 8), js_slice bs 8 40, js_slice bs 40 72))"

record RequestRedemptionData =
  rd_proof_hash :: bytes
  rd_merkle_root :: bytes
  rd_nullifier_hash :: bytes
  rd_amount_sats :: int
  rd_vk_hash :: bytes
  rd_btc_script :: bytes
  rd_request_nonce :: int

text \<open>The script is kept as its used part; the program stores it in a zeroed 34-byte array.\<close>

definition RequestRedemptionData_from_bytes :: "bytes \<Rightarrow> RequestRedemptionData pres" where
  "RequestRedemptionData_from_bytes bs =
     (if length bs < 145 then Inl InvalidInstructionData
      else
        (let script_len = unat (bs ! 136); addr_end = 137 + script_len in
         if script_len > MAX_BTC_SCRIPT_LEN then Inl InvalidBtcAddress
         else if length bs < addr_end + 8 then Inl InvalidInstructionData
         else Inr \<lparr> rd_proof_hash = js_slice bs 0 32, rd_merkle_root = js_slice bs 32 64, rd_nullifier_hash = js_slice bs 64 96,
                    rd_amount_sats = le_val (js_slice bs 96 104), rd_vk_hash = js_slice bs 104 136,
                    rd_btc_script = js_slice bs 137 addr_end, rd_request_nonce = le_val (js_slice bs addr_end (addr_end + 8)) \<rparr>))"

record CompleteRedemptionData =
  cd_btc_txid :: bytes
  cd_tx_size :: int
  cd_pool_script :: bytes
  cd_consumed_utxo_count :: nat

definition CompleteRedemptionData_from_bytes :: "bytes \<Rightarrow> CompleteRedemptionData pres" where
  "CompleteRedemptionData_from_bytes bs =
     (if length bs < 38 then Inl InvalidInstructionData
      else
        (let script_len = unat (bs ! 36); script_end = 37 + script_len in
         if script_len > 0 \<and> (script_end > length bs \<or> script_len > 34) then Inl InvalidInstructionData
         else if script_end \<ge> length bs then Inl InvalidInstructionData
         else Inr \<lparr> cd_btc_txid = js_slice bs 0 32, cd_tx_size = le_val (js_slice bs 32 36),
                    cd_pool_script = js_slice bs 37 script_end, cd_consumed_utxo_count = unat (bs ! script_end) \<rparr>))"

text \<open>Where \<open>process_complete_redemption\<close> looks for the consumed UTXO accounts.\<close>

definition consumed_start :: "CompleteRedemptionData \<Rightarrow> nat" where
  "consumed_start d = (if length (cd_pool_script d) > 0 then 14 else 13)"

record ApproveRedemptionSigningData =
  as_btc_sighash :: bytes
  as_ika_message_digest_override :: "bytes option"
  as_signature_scheme_override :: "int option"
  as_miner_fee_sats :: int

definition ApproveRedemptionSigningData_from_bytes :: "bytes \<Rightarrow> ApproveRedemptionSigningData pres" where
  "ApproveRedemptionSigningData_from_bytes bs =
     (if length bs \<noteq> 40 \<and> length bs \<noteq> 72 \<and> length bs \<noteq> 74 then Inl InvalidInstructionData
      else
        (let (digest, scheme, off) =
           (if length bs = 72 \<or> length bs = 74
            then (if length bs = 74 then (Some (js_slice bs 32 64), Some (le_val (js_slice bs 64 66)), 66)
                  else (Some (js_slice bs 32 64), None, 64))
            else (None, None, 32)) in
         Inr \<lparr> as_btc_sighash = js_slice bs 0 32, as_ika_message_digest_override = digest,
               as_signature_scheme_override = scheme, as_miner_fee_sats = le_val (js_slice bs off (off + 8)) \<rparr>))"

record CompleteDepositData =
  dd_sweep_txid :: bytes
  dd_block_height :: int
  dd_sweep_tx_size :: int
  dd_deposit_tx_size :: int
  dd_deposit_txid :: bytes

definition CompleteDepositData_from_bytes :: "bytes \<Rightarrow> CompleteDepositData pres" where
  "CompleteDepositData_from_bytes bs =
     (if length bs < 80 then Inl InvalidInstructionData
      else Inr \<lparr> dd_sweep_txid = js_slice bs 0 32, dd_block_height = le_val (js_slice bs 32 40),
                 dd_sweep_tx_size = le_val (js_slice bs 40 44), dd_deposit_tx_size = le_val (js_slice bs 44 48),
                 dd_deposit_txid = js_slice bs 48 80 \<rparr>)"

text \<open>The parameters of a pool update with the bounds the program checks on them.\<close>

definition parse_propose :: "bytes \<Rightarrow> (int \<times> int \<times> int \<times> int) pres" where
  "parse_propose bs =
     (if length bs < 24 then Inl InvalidInstructionData
      else
        (let min_deposit = le_val (js_slice bs 0 8); max_deposit = le_val (js_slice bs 8 16);
             service_fee = le_val (js_slice bs 16 24);
             service_fee_bps = (if length bs \<ge> 26 then le_val (js_slice bs 24 26) else 0) in
         if min_deposit > max_deposit then Inl InvalidInstructionData
         else if max_deposit > 2100000000000000 then Inl InvalidInstructionData
         else if service_fee_bps \<ge> 10000 then Inl InvalidInstructionData
         else Inr (min_deposit, max_deposit, service_fee, service_fee_bps)))"

section \<open>What the SDK builds is what the program reads\<close>

lemma rust_slice_field:
  "bs = pre @ x @ post \<Longrightarrow> a = length pre \<Longrightarrow> b = length pre + length x \<Longrightarrow> rust_slice bs a b = Inr x"
  by (simp add: rust_slice_def js_slice_def)

lemma js_slice_field: "bs = pre @ x @ post \<Longrightarrow> a = length pre \<Longrightarrow> b = length pre + length x \<Longrightarrow> js_slice bs a b = x"
  by (simp add: js_slice_def)

lemma js_slice_to_end: "js_slice xs a (length xs) = drop a xs"
  by (simp add: js_slice_def)

lemma read_arrays_concat:
  "\<forall>x \<in> set xs. length x = 32 \<Longrightarrow> bs = pre @ concat xs @ post \<Longrightarrow> off = length pre \<Longrightarrow>
   read_arrays (length xs) bs off = Inr (xs, off + length xs * 32)"
proof (induction xs arbitrary: pre off)
  case (Cons x xs)
  then have "rust_slice bs off (off + 32) = Inr x"
    by (intro rust_slice_field [of _ pre x "concat xs @ post"]) simp_all
  moreover have "read_arrays (length xs) bs (off + 32) = Inr (xs, off + 32 + length xs * 32)"
    using Cons.prems by (intro Cons.IH [of "pre @ x"]) simp_all
  ultimately show ?case by simp
qed simp

lemma read_u64s_concat:
  "bs = pre @ concat (map (le_bytes 8) vs) @ post \<Longrightarrow> off = length pre \<Longrightarrow> \<forall>v \<in> set vs. fits 8 v \<Longrightarrow>
   read_u64s (length vs) bs off = Inr (vs, off + length vs * 8)"
proof (induction vs arbitrary: pre off)
  case (Cons v vs)
  then have "rust_slice bs off (off + 8) = Inr (le_bytes 8 v)"
    by (intro rust_slice_field [of _ pre _ "concat (map (le_bytes 8) vs) @ post"]) (simp_all del: le_bytes.simps)
  moreover have "read_u64s (length vs) bs (off + 8) = Inr (vs, off + 8 + length vs * 8)"
    using Cons.prems by (intro Cons.IH [of "pre @ le_bytes 8 v"]) (simp_all del: le_bytes.simps)
  ultimately show ?case using Cons.prems by (simp add: le_val_le_bytes fits_def del: le_bytes.simps)
qed simp

text \<open>The data of a JoinSplit instruction after its discriminator.\<close>

definition joinsplit_bytes :: "nat \<Rightarrow> nat \<Rightarrow> nat \<Rightarrow> nat \<Rightarrow> bytes option \<Rightarrow> bytes \<Rightarrow> bytes \<Rightarrow> bytes list \<Rightarrow> bytes list \<Rightarrow> bytes list \<Rightarrow> bytes \<Rightarrow> bytes" where
  "joinsplit_bytes ni no np ps proof root bph nulls comms sds post =
     [of_nat ni, of_nat no, of_nat np, of_nat ps] @ proof_part ps proof @ root @ bph
        @ concat nulls @ concat comms @ concat sds @ post"

lemma length_proof_part: "joinsplit_ok ps proof root bph nulls comms w sds \<Longrightarrow> length (proof_part ps proof) = (if ps = 0 then 256 else 0)"
  by (auto simp: joinsplit_ok_def proof_part_def split: option.splits)

lemma length_fields: "\<forall>x \<in> set xs. length x = w \<Longrightarrow> length (concat xs) = length xs * w"
  by (rule length_concat_width)

lemma length_joinsplit_bytes:
  assumes "joinsplit_ok ps proof root bph nulls comms w sds"
  shows "length (joinsplit_bytes ni no np ps proof root bph nulls comms sds post) =
    joinsplit_len ps (length nulls) (length comms) (length sds * w) + length post"
  using assms length_proof_part [OF assms] length_fields [of nulls 32] length_fields [of comms 32] length_fields [of sds w]
  by (simp add: joinsplit_bytes_def joinsplit_len_def joinsplit_ok_def GROTH16_PROOF_SIZE_def)

lemma joinsplit_bytes_header:
  "joinsplit_bytes ni no np ps proof root bph nulls comms sds post ! 0 = of_nat ni"
  "joinsplit_bytes ni no np ps proof root bph nulls comms sds post ! Suc 0 = of_nat no"
  "joinsplit_bytes ni no np ps proof root bph nulls comms sds post ! 2 = of_nat np"
  "joinsplit_bytes ni no np ps proof root bph nulls comms sds post ! 3 = of_nat ps"
  by (simp_all add: joinsplit_bytes_def)

lemma joinsplit_body_eq:
  assumes "joinsplit_ok ps proof root bph nulls comms w sds"
  shows "joinsplit_body (joinsplit_bytes ni no np ps proof root bph nulls comms sds post) acct ps
      (length nulls) (length comms) (length sds * w) =
    js_bind (if ps = 0 then Inr (the proof) else acct) (\<lambda>pr.
      Inr (\<lparr> jb_proof = pr, jb_merkle_root = root, jb_bound_params_hash = bph, jb_nullifiers = nulls,
             jb_commitments_out = comms, jb_stealth = concat sds \<rparr>,
           joinsplit_len ps (length nulls) (length comms) (length sds * w)))"
proof -
  let ?hdr = "[of_nat ni, of_nat no, of_nat np, of_nat ps] :: bytes"
  let ?bs = "joinsplit_bytes ni no np ps proof root bph nulls comms sds post"
  define off :: nat where "off = (if ps = 0 then 260 else 4)"
  have ok: "length root = 32" "length bph = 32" "\<forall>n \<in> set nulls. length n = 32" "\<forall>c \<in> set comms. length c = 32"
    "\<forall>sd \<in> set sds. length sd = w" using assms by (simp_all add: joinsplit_ok_def)
  note widths = length_fields [OF ok(3)] length_fields [OF ok(4)] length_fields [OF ok(5)]
  have pre: "length (?hdr @ proof_part ps proof) = off" using length_proof_part [OF assms] by (simp add: off_def)
  have bs: "?bs = (?hdr @ proof_part ps proof) @ root @ bph @ concat nulls @ concat comms @ concat sds @ post"
    by (simp add: joinsplit_bytes_def)
  have inline: "js_bind (if ps = 0 then js_bind (rust_slice ?bs 4 (4 + GROTH16_PROOF_SIZE)) (\<lambda>p. Inr (p, 4 + GROTH16_PROOF_SIZE))
      else js_bind acct (\<lambda>p. Inr (p, 4))) f = js_bind (if ps = 0 then Inr (the proof) else acct) (\<lambda>p. f (p, off))" for f :: "bytes \<times> nat \<Rightarrow> 'a pres"
  proof (cases "ps = 0")
    case True
    have "rust_slice ?bs 4 260 = Inr (proof_part ps proof)"
      using True length_proof_part [OF assms] by (intro rust_slice_field [of _ ?hdr]) (simp_all add: joinsplit_bytes_def)
    with True show ?thesis by (simp add: GROTH16_PROOF_SIZE_def off_def proof_part_def)
  qed (cases acct; simp add: off_def)
  have s1: "rust_slice ?bs off (off + 32) = Inr root"
    by (rule rust_slice_field [OF bs]) (simp_all only: pre ok)
  have s2: "rust_slice ?bs (off + 32) (off + 64) = Inr bph"
    using pre ok by (intro rust_slice_field [of _ "(?hdr @ proof_part ps proof) @ root"]) (simp_all add: bs)
  have s3: "read_arrays (length nulls) ?bs (off + 64) = Inr (nulls, off + 64 + length nulls * 32)"
    using pre ok by (intro read_arrays_concat [of _ _ "(?hdr @ proof_part ps proof) @ root @ bph"]) (simp_all add: bs)
  have s4: "read_arrays (length comms) ?bs (off + 64 + length nulls * 32) =
      Inr (comms, off + 64 + length nulls * 32 + length comms * 32)"
    using pre ok by (intro read_arrays_concat [of _ _ "(?hdr @ proof_part ps proof) @ root @ bph @ concat nulls"])
      (simp_all add: bs widths)
  have s5: "js_slice ?bs (off + 64 + length nulls * 32 + length comms * 32)
      (off + 64 + length nulls * 32 + length comms * 32 + length sds * w) = concat sds"
    using pre ok by (intro js_slice_field [of _ "(?hdr @ proof_part ps proof) @ root @ bph @ concat nulls @ concat comms"])
      (simp_all add: bs widths)
  have len: "off + 64 + length nulls * 32 + length comms * 32 + length sds * w =
      joinsplit_len ps (length nulls) (length comms) (length sds * w)"
    by (simp add: joinsplit_len_def off_def GROTH16_PROOF_SIZE_def)
  show ?thesis
    unfolding joinsplit_body_def inline using s1 s2 s3 s4 s5 len by (simp cong: js_bind_cong)
qed

lemma joinsplit_bytes_tail:
  assumes "joinsplit_ok ps proof root bph nulls comms w sds"
  shows "drop (joinsplit_len ps (length nulls) (length comms) (length sds * w))
    (joinsplit_bytes ni no np ps proof root bph nulls comms sds post) = post"
proof -
  have "joinsplit_bytes ni no np ps proof root bph nulls comms sds post =
      joinsplit_bytes ni no np ps proof root bph nulls comms sds [] @ post"
    by (simp add: joinsplit_bytes_def)
  then show ?thesis using length_joinsplit_bytes [OF assms, of ni no np "[]"] by simp
qed

end
