(* ===== verification/Instruction_Properties.thy ===== *)
theory Instruction_Properties
  imports Onchain_Instructions
begin

text \<open>
  Agreement of the instruction builders of the SDK with the instruction parsers of the program,
  for the three JoinSplit instructions and for the instructions with a fixed layout.
\<close>

section \<open>JoinSplit instructions\<close>

definition default_0 :: "nat option \<Rightarrow> nat" where
  "default_0 x = (case x of None \<Rightarrow> 0 | Some n \<Rightarrow> n)"

definition counts_ok :: "nat \<Rightarrow> nat \<Rightarrow> bool" where
  "counts_ok n_inputs n_outputs \<longleftrightarrow> 0 < n_inputs \<and> 0 < n_outputs \<and> n_inputs + n_outputs \<le> 10"

definition transact_ok :: "TransactData \<Rightarrow> bool" where
  "transact_ok opt \<longleftrightarrow>
     joinsplit_ok (default_0 (ta_proofSource opt)) (ta_proofBytes opt) (ta_merkleRoot opt) (ta_boundParamsHash opt)
       (ta_nullifiers opt) (ta_commitmentsOut opt) 72 (ta_stealthData opt) \<and>
     default_0 (ta_proofSource opt) \<le> 1 \<and> counts_ok (ta_nInputs opt) (ta_nOutputs opt) \<and>
     length (ta_nullifiers opt) = ta_nInputs opt \<and> length (ta_commitmentsOut opt) = ta_nOutputs opt \<and>
     length (ta_stealthData opt) = ta_nOutputs opt \<and>
     (case ta_senderMemos opt of None \<Rightarrow> True | Some memos \<Rightarrow> length memos = ta_nOutputs opt \<and> (\<forall>m \<in> set memos. length m = 80))"

lemma unat_small: "n < 256 \<Longrightarrow> unat (of_nat n :: byte) = n"
  by (simp add: unat_of_nat)

lemma proof_missing_ok: "joinsplit_ok ps proof root bph nulls comms w sds \<Longrightarrow> \<not> proof_missing ps proof"
  by (auto simp: joinsplit_ok_def proof_missing_def split: option.splits)

lemma joinsplit_build:
  assumes "joinsplit_ok ps proof root bph nulls comms w sds" "\<forall>op \<in> set rest. wop_fits op"
    and "sz = 1 + joinsplit_len ps (length nulls) (length comms) (length sds * w) + wop_total rest"
  shows "build sz (joinsplit_ops d ni no np ps proof root bph nulls comms w sds @ rest) =
    Inr (word_of_int d # joinsplit_bytes ni no np ps proof root bph nulls comms sds (wop_layout rest))"
proof -
  have "wop_total (joinsplit_ops d ni no np ps proof root bph nulls comms w sds @ rest) = sz"
    using joinsplit_layout(2) [OF assms(1)] assms(3) by (simp add: joinsplit_len_def GROTH16_PROOF_SIZE_def)
  then show ?thesis
    using joinsplit_layout(1,3) [OF assms(1)] assms(2)
    by (subst build_layout) (auto simp: joinsplit_bytes_def)
qed

definition transact_memos :: "TransactData \<Rightarrow> bytes list" where
  "transact_memos opt = (case ta_senderMemos opt of None \<Rightarrow> [] | Some ms \<Rightarrow> ms)"

definition transact_bytes :: "TransactData \<Rightarrow> bytes" where
  "transact_bytes opt = joinsplit_bytes (ta_nInputs opt) (ta_nOutputs opt) 0 (default_0 (ta_proofSource opt)) (ta_proofBytes opt)
     (ta_merkleRoot opt) (ta_boundParamsHash opt) (ta_nullifiers opt) (ta_commitmentsOut opt) (ta_stealthData opt)
     (concat (transact_memos opt))"

lemma transact_ok_joinsplit:
  assumes "transact_ok opt"
  shows "joinsplit_ok (default_0 (ta_proofSource opt)) (ta_proofBytes opt) (ta_merkleRoot opt) (ta_boundParamsHash opt)
       (ta_nullifiers opt) (ta_commitmentsOut opt) 72 (ta_stealthData opt)"
    "\<forall>m \<in> set (transact_memos opt). length m = 80"
    "length (transact_memos opt) = (case ta_senderMemos opt of None \<Rightarrow> 0 | Some memos \<Rightarrow> ta_nOutputs opt)"
  using assms by (auto simp: transact_ok_def transact_memos_def split: option.splits)

lemma transact_built:
  assumes "transact_ok opt"
  shows "buildTransactInstructionData opt = Inr (13 # transact_bytes opt)"
proof -
  define ps where "ps = default_0 (ta_proofSource opt)"
  let ?ni = "ta_nInputs opt" and ?no = "ta_nOutputs opt" and ?memos = "transact_memos opt"
  note ok = assms [unfolded transact_ok_def, folded ps_def]
  note js = transact_ok_joinsplit(1) [OF assms, folded ps_def] and memos = transact_ok_joinsplit(2,3) [OF assms]
  define rest where "rest = map (\<lambda>memo. PutBytes memo 80) ?memos"
  have rest: "wop_layout rest = concat ?memos" "wop_total rest = length ?memos * 80" "\<forall>op \<in> set rest. wop_fits op"
    using memos(1) by (auto simp: rest_def fields_layout)
  have "build (1 + joinsplit_len ps ?ni ?no (?no * 72) + length ?memos * 80)
      (joinsplit_ops (disc TRANSACT) ?ni ?no 0 ps (ta_proofBytes opt) (ta_merkleRoot opt) (ta_boundParamsHash opt)
        (ta_nullifiers opt) (ta_commitmentsOut opt) 72 (ta_stealthData opt) @ rest) = Inr (13 # transact_bytes opt)"
    using joinsplit_build [OF js rest(3)] rest(1,2) ok by (simp add: transact_bytes_def ps_def)
  moreover have "length ?memos * 80 = (case ta_senderMemos opt of None \<Rightarrow> 0 | Some memos \<Rightarrow> ?no * 80)"
    "rest = (case ta_senderMemos opt of None \<Rightarrow> [] | Some memos \<Rightarrow> map (\<lambda>memo. PutBytes memo 80) memos)"
    using memos(2) by (auto simp: transact_memos_def rest_def split: option.splits)
  ultimately show ?thesis
    using ok proof_missing_ok [OF js]
    by (auto simp: buildTransactInstructionData_def Let_def default_0_def [symmetric] ps_def [symmetric]
        joinsplit_len_def GROTH16_PROOF_SIZE_def algebra_simps split: option.splits)
qed

lemma transact_parsed:
  assumes "transact_ok opt"
  shows "\<exists>bs. buildTransactInstructionData opt = Inr (13 # bs) \<and>
    parse_transact bs proof_account =
      js_bind (if default_0 (ta_proofSource opt) = 0 then Inr (the (ta_proofBytes opt)) else proof_account) (\<lambda>pr.
        Inr \<lparr> tr_n_inputs = ta_nInputs opt, tr_n_outputs = ta_nOutputs opt,
              tr_body = \<lparr> jb_proof = pr, jb_merkle_root = ta_merkleRoot opt, jb_bound_params_hash = ta_boundParamsHash opt,
                jb_nullifiers = ta_nullifiers opt, jb_commitments_out = ta_commitmentsOut opt,
                jb_stealth = concat (ta_stealthData opt) \<rparr>,
              tr_memos = map_option concat (ta_senderMemos opt) \<rparr>)"
proof -
  define ps where "ps = default_0 (ta_proofSource opt)"
  let ?ni = "ta_nInputs opt" and ?no = "ta_nOutputs opt" and ?memos = "transact_memos opt"
  let ?len = "joinsplit_len ps ?ni ?no (?no * 72)"
  note ok = assms [unfolded transact_ok_def, folded ps_def]
  note js = transact_ok_joinsplit(1) [OF assms, folded ps_def] and memos = transact_ok_joinsplit(2,3) [OF assms]
  define bs where "bs = transact_bytes opt"
  note bs = bs_def [unfolded transact_bytes_def, folded ps_def]
  have len: "length bs = ?len + length ?memos * 80"
    using length_joinsplit_bytes [OF js] length_fields [OF memos(1)] ok by (simp add: bs)
  have "bs ! 0 = of_nat ?ni" "bs ! Suc 0 = of_nat ?no" "bs ! 2 = 0" "bs ! 3 = of_nat ps"
    by (simp_all add: bs joinsplit_bytes_header)
  moreover have "?ni < 256" "?no < 256" "ps < 256" using ok by (auto simp: counts_ok_def)
  moreover have "joinsplit_body bs proof_account ps ?ni ?no (?no * 72) =
      js_bind (if ps = 0 then Inr (the (ta_proofBytes opt)) else proof_account) (\<lambda>pr.
        Inr (\<lparr> jb_proof = pr, jb_merkle_root = ta_merkleRoot opt, jb_bound_params_hash = ta_boundParamsHash opt,
               jb_nullifiers = ta_nullifiers opt, jb_commitments_out = ta_commitmentsOut opt,
               jb_stealth = concat (ta_stealthData opt) \<rparr>, ?len))"
    using joinsplit_body_eq [OF js] ok by (simp add: bs)
  moreover have "js_slice bs ?len (length bs) = concat ?memos"
    using joinsplit_bytes_tail [OF js, of ?ni ?no 0 "concat ?memos"] ok by (simp add: bs js_slice_to_end)
  moreover have "map_option concat (ta_senderMemos opt) = (if length ?memos = ?no then Some (concat ?memos) else None)" "0 < ?no"
    using ok memos(2) by (auto simp: transact_memos_def counts_ok_def split: option.splits)
  moreover have "buildTransactInstructionData opt = Inr (13 # bs)" using transact_built [OF assms] by (simp add: bs_def)
  ultimately show ?thesis
    using len ok memos(2)
    by (auto simp: parse_transact_def Let_def unat_small counts_ok_def MAX_JOINSPLIT_SIZE_def joinsplit_len_def ps_def
        js_bind_assoc cong: js_bind_cong split: option.splits)
qed

text \<open>
  (C17) The program reads a \<open>transact\<close> instruction exactly as the SDK wrote it: for up to ten notes in
  all, with the proof inline or in a buffer account, with or without sender memos, the parsed
  proof, root, hash, nullifiers, commitments, stealth data and memos are those of the options.
\<close>

theorem transact_instruction_parsed:
  assumes "transact_ok opt"
  shows "\<exists>bs. buildTransactInstructionData opt = Inr (13 # bs) \<and>
    parse_transact bs proof_account =
      js_bind (if default_0 (ta_proofSource opt) = 0 then Inr (the (ta_proofBytes opt)) else proof_account) (\<lambda>pr.
        Inr \<lparr> tr_n_inputs = ta_nInputs opt, tr_n_outputs = ta_nOutputs opt,
              tr_body = \<lparr> jb_proof = pr, jb_merkle_root = ta_merkleRoot opt, jb_bound_params_hash = ta_boundParamsHash opt,
                jb_nullifiers = ta_nullifiers opt, jb_commitments_out = ta_commitmentsOut opt,
                jb_stealth = concat (ta_stealthData opt) \<rparr>,
              tr_memos = map_option concat (ta_senderMemos opt) \<rparr>)"
  using assms by (rule transact_parsed)

definition sample_transact :: TransactData where
  "sample_transact =
     \<lparr> ta_nInputs = 1, ta_nOutputs = 2, ta_proofBytes = Some (replicate 256 7), ta_merkleRoot = replicate 32 1,
       ta_boundParamsHash = replicate 32 2, ta_nullifiers = [replicate 32 3], ta_commitmentsOut = [replicate 32 4, replicate 32 5],
       ta_stealthData = [replicate 72 6, replicate 72 8], ta_proofSource = None, ta_senderMemos = Some [replicate 80 9, replicate 80 10] \<rparr>"

theorem transact_instruction_parsed_witness:
  "\<exists>bs ix. buildTransactInstructionData sample_transact = Inr (13 # bs) \<and> parse_transact bs (Inl Panic) = Inr ix \<and>
    tr_n_outputs ix = 2 \<and> tr_memos ix = Some (replicate 80 9 @ replicate 80 10)"
proof -
  have ok: "transact_ok sample_transact"
    by (simp add: transact_ok_def sample_transact_def joinsplit_ok_def counts_ok_def default_0_def)
  have f: "default_0 (ta_proofSource sample_transact) = 0" "ta_nOutputs sample_transact = 2"
    "map_option concat (ta_senderMemos sample_transact) = Some (replicate 80 9 @ replicate 80 10)"
    by (simp_all add: sample_transact_def default_0_def)
  show ?thesis using transact_instruction_parsed [OF ok, of "Inl Panic"] by (auto simp: f)
qed

definition unshield_ok :: "UnshieldData \<Rightarrow> bool" where
  "unshield_ok opt \<longleftrightarrow>
     joinsplit_ok (default_0 (un_proofSource opt)) (un_proofBytes opt) (un_merkleRoot opt) (un_boundParamsHash opt)
       (un_nullifiers opt) (un_commitmentsOut opt) 72 (un_stealthData opt) \<and>
     default_0 (un_proofSource opt) \<le> 1 \<and> counts_ok (un_nInputs opt) (un_nOutputs opt) \<and>
     length (un_nullifiers opt) = un_nInputs opt \<and> length (un_commitmentsOut opt) = un_nOutputs opt \<and>
     1 \<le> length (un_unshieldAmounts opt) \<and> length (un_unshieldAmounts opt) \<le> 3 \<and>
     length (un_unshieldAmounts opt) + length (un_stealthData opt) = un_nOutputs opt \<and>
     (un_nPublicOutputs opt = None \<or> un_nPublicOutputs opt = Some (length (un_unshieldAmounts opt))) \<and>
     (\<forall>a \<in> set (un_unshieldAmounts opt). fits 8 a)"

lemma amounts_layout:
  "wop_layout (map (PutLE 8) vs) = concat (map (le_bytes 8) vs)" "wop_total (map (PutLE 8) vs) = length vs * 8"
  "\<forall>op \<in> set (map (PutLE 8) vs). wop_fits op"
  by (induction vs) (simp_all del: le_bytes.simps)

definition unshield_bytes :: "UnshieldData \<Rightarrow> bytes" where
  "unshield_bytes opt = joinsplit_bytes (un_nInputs opt) (un_nOutputs opt) (length (un_unshieldAmounts opt))
     (default_0 (un_proofSource opt)) (un_proofBytes opt) (un_merkleRoot opt) (un_boundParamsHash opt)
     (un_nullifiers opt) (un_commitmentsOut opt) (un_stealthData opt) (concat (map (le_bytes 8) (un_unshieldAmounts opt)))"

lemma unshield_built:
  assumes "unshield_ok opt"
  shows "buildUnshieldInstructionData opt = Inr (14 # unshield_bytes opt)"
proof -
  define ps where "ps = default_0 (un_proofSource opt)"
  let ?ni = "un_nInputs opt" and ?no = "un_nOutputs opt" and ?vs = "un_unshieldAmounts opt"
  let ?np = "length ?vs"
  note ok = assms [unfolded unshield_ok_def, folded ps_def]
  then have js: "joinsplit_ok ps (un_proofBytes opt) (un_merkleRoot opt) (un_boundParamsHash opt)
       (un_nullifiers opt) (un_commitmentsOut opt) 72 (un_stealthData opt)" by simp
  let ?len = "joinsplit_len ps ?ni ?no ((?no - ?np) * 72)"
  let ?ops = "joinsplit_ops (disc UNSHIELD) ?ni ?no ?np ps (un_proofBytes opt) (un_merkleRoot opt) (un_boundParamsHash opt)
        (un_nullifiers opt) (un_commitmentsOut opt) 72 (un_stealthData opt) @ map (PutLE 8) ?vs"
  have sl: "length (un_stealthData opt) = ?no - ?np" using ok by arith
  have np: "(case un_nPublicOutputs opt of None \<Rightarrow> ?np | Some n \<Rightarrow> n) = ?np"
    and src: "(case un_proofSource opt of None \<Rightarrow> 0 | Some p \<Rightarrow> p) = ps"
    using ok by (auto simp: ps_def default_0_def)
  have guards: "\<not> (?np < 1 \<or> ?np > 3)" "\<not> ?no < ?np" "\<not> proof_missing ps (un_proofBytes opt)"
    using ok proof_missing_ok [OF js] by auto
  have "buildUnshieldInstructionData opt =
      build (1 + 4 + (if ps = 0 then 256 else 0) + 32 + 32 + ?ni * 32 + ?no * 32 + (?no - ?np) * 72 + ?np * 8) ?ops"
    using ok guards sl unfolding buildUnshieldInstructionData_def Let_def np src by simp
  moreover have "1 + 4 + (if ps = 0 then 256 else 0) + 32 + 32 + ?ni * 32 + ?no * 32 + (?no - ?np) * 72 + ?np * 8 = 1 + ?len + ?np * 8"
    by (simp add: joinsplit_len_def GROTH16_PROOF_SIZE_def)
  moreover have "build (1 + ?len + ?np * 8) ?ops = Inr (14 # unshield_bytes opt)"
    using joinsplit_build [OF js amounts_layout(3)] amounts_layout ok sl by (simp add: unshield_bytes_def ps_def)
  ultimately show ?thesis by (simp only:)
qed


definition sample_unshield :: UnshieldData where
  "sample_unshield =
     \<lparr> un_nInputs = 2, un_nOutputs = 2, un_nPublicOutputs = None, un_proofBytes = None, un_merkleRoot = replicate 32 1,
       un_boundParamsHash = replicate 32 2, un_nullifiers = [replicate 32 3, replicate 32 4],
       un_commitmentsOut = [replicate 32 5, replicate 32 6], un_stealthData = [replicate 72 7],
       un_unshieldAmounts = [1000], un_proofSource = Some 1 \<rparr>"


section \<open>Redeem\<close>

definition output_bytes :: "int \<times> bytes \<times> int \<Rightarrow> bytes" where
  "output_bytes x = le_bytes 8 (fst x) @ of_nat (length (fst (snd x))) # fst (snd x) @ le_bytes 8 (snd (snd x))"

definition output_ok :: "int \<times> bytes \<times> int \<Rightarrow> bool" where
  "output_ok x \<longleftrightarrow> fits 8 (fst x) \<and> 0 < length (fst (snd x)) \<and> length (fst (snd x)) \<le> 62 \<and> fits 8 (snd (snd x))"

lemma read_redeem_output_eq:
  assumes "output_ok x" "bs = pre @ output_bytes x @ post" "off = length pre"
  shows "read_redeem_output bs off =
    (if length (fst (snd x)) \<le> 34 then Inr (x, off + length (output_bytes x)) else Inl InvalidBtcAddress)"
proof -
  obtain a script n where x: "x = (a, script, n)" by (cases x) auto
  have r: "rust_slice bs off (off + 8) = Inr (le_bytes 8 a)"
    using assms(2,3) x by (intro rust_slice_field [of _ pre]) (simp_all add: output_bytes_def del: le_bytes.simps)
  have b: "bs ! (off + 8) = of_nat (length script)"
    using assms(2,3) x by (simp add: output_bytes_def nth_append del: le_bytes.simps)
  have l: "off + 17 + length script \<le> length bs"
    using assms(2,3) x by (simp add: output_bytes_def del: le_bytes.simps)
  have s: "js_slice bs (off + 9) (off + 9 + length script) = script"
    using assms(2,3) x
    by (intro js_slice_field [of _ "pre @ le_bytes 8 a @ [of_nat (length script)]" _ "le_bytes 8 n @ post"])
       (simp_all add: output_bytes_def del: le_bytes.simps)
  have n: "rust_slice bs (off + 9 + length script) (off + 9 + length script + 8) = Inr (le_bytes 8 n)"
    using assms(2,3) x
    by (intro rust_slice_field [of _ "pre @ le_bytes 8 a @ [of_nat (length script)] @ script" _ post])
       (simp_all add: output_bytes_def del: le_bytes.simps)
  have "unat (of_nat (length script) :: byte) = length script"
    using assms(1) x by (intro unat_small) (simp add: output_ok_def)
  with assms(1) r b l s n x show ?thesis
    by (simp add: read_redeem_output_def Let_def MAX_BTC_SCRIPT_LEN_def output_ok_def output_bytes_def le_val_le_bytes fits_def
        add.commute add.left_commute del: le_bytes.simps)
qed

lemma read_redeem_outputs_eq:
  "\<forall>x \<in> set xs. output_ok x \<Longrightarrow> bs = pre @ concat (map output_bytes xs) @ post \<Longrightarrow> off = length pre \<Longrightarrow>
   read_redeem_outputs (length xs) bs off =
     (if \<forall>x \<in> set xs. length (fst (snd x)) \<le> 34 then Inr (xs, off + length (concat (map output_bytes xs)))
      else Inl InvalidBtcAddress)"
proof (induction xs arbitrary: pre off)
  case (Cons x xs)
  have "read_redeem_output bs off =
      (if length (fst (snd x)) \<le> 34 then Inr (x, off + length (output_bytes x)) else Inl InvalidBtcAddress)"
    using Cons.prems by (intro read_redeem_output_eq [of x _ pre "concat (map output_bytes xs) @ post"]) simp_all
  moreover have "read_redeem_outputs (length xs) bs (off + length (output_bytes x)) =
     (if \<forall>x \<in> set xs. length (fst (snd x)) \<le> 34
      then Inr (xs, off + length (output_bytes x) + length (concat (map output_bytes xs))) else Inl InvalidBtcAddress)"
    using Cons.prems by (intro Cons.IH [of "pre @ output_bytes x"]) simp_all
  ultimately show ?case by (simp add: add.assoc)
qed simp

definition redeem_outputs :: "RedeemData \<Rightarrow> (int \<times> bytes \<times> int) list" where
  "redeem_outputs opt = zip (re_redeemAmounts opt) (zip (re_btcScripts opt) (re_requestNonces opt))"

definition redeem_ok :: "RedeemData \<Rightarrow> bool" where
  "redeem_ok opt \<longleftrightarrow>
     joinsplit_ok (default_0 (re_proofSource opt)) (re_proofBytes opt) (re_merkleRoot opt) (re_boundParamsHash opt)
       (re_nullifiers opt) (re_commitmentsOut opt) 40 (re_stealthData opt) \<and>
     default_0 (re_proofSource opt) \<le> 1 \<and> counts_ok (re_nInputs opt) (re_nOutputs opt) \<and>
     length (re_nullifiers opt) = re_nInputs opt \<and> length (re_commitmentsOut opt) = re_nOutputs opt \<and>
     1 \<le> length (re_redeemAmounts opt) \<and> length (re_redeemAmounts opt) \<le> 3 \<and>
     length (re_btcScripts opt) = length (re_redeemAmounts opt) \<and> length (re_requestNonces opt) = length (re_redeemAmounts opt) \<and>
     length (re_redeemAmounts opt) + length (re_stealthData opt) = re_nOutputs opt \<and>
     (re_nPublicOutputs opt = None \<or> re_nPublicOutputs opt = Some (length (re_redeemAmounts opt))) \<and>
     (\<forall>x \<in> set (redeem_outputs opt). output_ok x)"

lemma redeem_output_layout:
  "wop_layout (concat (map (\<lambda>x. redeem_output_ops (fst x) (fst (snd x)) (snd (snd x))) xs)) = concat (map output_bytes xs)"
  "wop_total (concat (map (\<lambda>x. redeem_output_ops (fst x) (fst (snd x)) (snd (snd x))) xs)) = length (concat (map output_bytes xs))"
  "\<forall>op \<in> set (concat (map (\<lambda>x. redeem_output_ops (fst x) (fst (snd x)) (snd (snd x))) xs)). wop_fits op"
  by (induction xs) (auto simp: redeem_output_ops_def output_bytes_def simp del: le_bytes.simps)

lemma redeem_ops_zip:
  "length scripts = length amounts \<Longrightarrow> length nonces = length amounts \<Longrightarrow>
   map (\<lambda>k. redeem_output_ops (amounts ! k) (scripts ! k) (nonces ! k)) [0..<length amounts] =
     map (\<lambda>x. redeem_output_ops (fst x) (fst (snd x)) (snd (snd x))) (zip amounts (zip scripts nonces))"
  by (rule nth_equalityI) simp_all

lemma length_outputs:
  "length (concat (map output_bytes xs)) = length xs * 17 + foldl (\<lambda>t s. t + length s) 0 (map (fst \<circ> snd) xs)"
proof -
  have "foldl (\<lambda>t s. t + length s) n (map (fst \<circ> snd) xs) + length xs * 17 = n + length (concat (map output_bytes xs))" for n
    by (induction xs arbitrary: n) (simp_all add: output_bytes_def del: le_bytes.simps)
  from this [of 0] show ?thesis by simp
qed

lemma redeem_ok_scripts:
  assumes "redeem_ok opt"
  shows "length (redeem_outputs opt) = length (re_redeemAmounts opt)" "map (fst \<circ> snd) (redeem_outputs opt) = re_btcScripts opt"
    "set (re_btcScripts opt) = (fst \<circ> snd) ` set (redeem_outputs opt)"
proof -
  show "length (redeem_outputs opt) = length (re_redeemAmounts opt)"
    using assms by (simp add: redeem_ok_def redeem_outputs_def)
  show eq: "map (fst \<circ> snd) (redeem_outputs opt) = re_btcScripts opt"
    using assms by (intro nth_equalityI) (simp_all add: redeem_ok_def redeem_outputs_def)
  show "set (re_btcScripts opt) = (fst \<circ> snd) ` set (redeem_outputs opt)" by (simp only: eq [symmetric] set_map)
qed

definition redeem_bytes :: "RedeemData \<Rightarrow> bytes" where
  "redeem_bytes opt = joinsplit_bytes (re_nInputs opt) (re_nOutputs opt) (length (re_redeemAmounts opt))
     (default_0 (re_proofSource opt)) (re_proofBytes opt) (re_merkleRoot opt) (re_boundParamsHash opt)
     (re_nullifiers opt) (re_commitmentsOut opt) (re_stealthData opt) (concat (map output_bytes (redeem_outputs opt)))"

lemma redeem_built:
  assumes "redeem_ok opt"
  shows "buildRedeemInstructionData opt = Inr (15 # redeem_bytes opt)"
proof -
  define ps where "ps = default_0 (re_proofSource opt)"
  define rest where "rest = concat (map (\<lambda>x. redeem_output_ops (fst x) (fst (snd x)) (snd (snd x))) (redeem_outputs opt))"
  let ?ni = "re_nInputs opt" and ?no = "re_nOutputs opt" and ?np = "length (re_redeemAmounts opt)"
  note ok = assms [unfolded redeem_ok_def, folded ps_def] and xs = redeem_ok_scripts [OF assms]
  then have js: "joinsplit_ok ps (re_proofBytes opt) (re_merkleRoot opt) (re_boundParamsHash opt)
       (re_nullifiers opt) (re_commitmentsOut opt) 40 (re_stealthData opt)" by simp
  note rest = redeem_output_layout [of "redeem_outputs opt", folded rest_def]
  let ?len = "joinsplit_len ps ?ni ?no ((?no - ?np) * 40)"
  let ?ops = "joinsplit_ops (disc REDEEM) ?ni ?no ?np ps (re_proofBytes opt) (re_merkleRoot opt) (re_boundParamsHash opt)
          (re_nullifiers opt) (re_commitmentsOut opt) 40 (re_stealthData opt) @ rest"
  have sl: "length (re_stealthData opt) = ?no - ?np" using ok by arith
  have np: "(case re_nPublicOutputs opt of None \<Rightarrow> ?np | Some n \<Rightarrow> n) = ?np"
    and src: "(case re_proofSource opt of None \<Rightarrow> 0 | Some p \<Rightarrow> p) = ps"
    using ok by (auto simp: ps_def default_0_def)
  have guards: "\<not> (?np < 1 \<or> ?np > 3)" "\<not> ?no < ?np" "\<not> proof_missing ps (re_proofBytes opt)"
    "\<not> (\<exists>script \<in> set (re_btcScripts opt). length script = 0 \<or> length script > 62)"
    using ok proof_missing_ok [OF js] by (auto simp: xs(3) output_ok_def)
  have ops: "concat (map (\<lambda>k. redeem_output_ops (re_redeemAmounts opt ! k) (re_btcScripts opt ! k) (re_requestNonces opt ! k))
            [0..<?np]) = rest"
    using ok by (simp add: rest_def redeem_outputs_def redeem_ops_zip)
  have "buildRedeemInstructionData opt =
      build (1 + 4 + (if ps = 0 then 256 else 0) + 32 + 32 + ?ni * 32 + ?no * 32 + (?no - ?np) * 40 + ?np * (8 + 1 + 8)
        + foldl (\<lambda>t s. t + length s) 0 (re_btcScripts opt)) ?ops"
    using ok guards sl unfolding buildRedeemInstructionData_def Let_def np src ops by simp
  moreover have "1 + 4 + (if ps = 0 then 256 else 0) + 32 + 32 + ?ni * 32 + ?no * 32 + (?no - ?np) * 40 + ?np * (8 + 1 + 8)
        + foldl (\<lambda>t s. t + length s) 0 (re_btcScripts opt) = 1 + ?len + wop_total rest"
    using length_outputs [of "redeem_outputs opt"] by (simp add: joinsplit_len_def GROTH16_PROOF_SIZE_def rest(2) xs)
  moreover have "build (1 + ?len + wop_total rest) ?ops = Inr (15 # redeem_bytes opt)"
    using joinsplit_build [OF js rest(3)] rest(1) ok sl by (simp add: redeem_bytes_def ps_def)
  ultimately show ?thesis by (simp only:)
qed

text \<open>
  The program reads a \<open>redeem\<close> instruction as the SDK wrote it when every script has at most 34
  bytes. The SDK also accepts scripts of 35 to 62 bytes; the program refuses them all.
\<close>

theorem redeem_instruction_parsed:
  assumes "redeem_ok opt"
  shows "\<exists>bs. buildRedeemInstructionData opt = Inr (15 # bs) \<and>
    parse_redeem bs proof_account =
      js_bind (if default_0 (re_proofSource opt) = 0 then Inr (the (re_proofBytes opt)) else proof_account) (\<lambda>pr.
        if \<forall>s \<in> set (re_btcScripts opt). length s \<le> 34
        then Inr \<lparr> ri_n_inputs = re_nInputs opt, ri_n_outputs = re_nOutputs opt,
              ri_n_public_outputs = length (re_redeemAmounts opt),
              ri_body = \<lparr> jb_proof = pr, jb_merkle_root = re_merkleRoot opt, jb_bound_params_hash = re_boundParamsHash opt,
                jb_nullifiers = re_nullifiers opt, jb_commitments_out = re_commitmentsOut opt,
                jb_stealth = concat (re_stealthData opt) \<rparr>,
              ri_outputs = redeem_outputs opt \<rparr>
        else Inl InvalidBtcAddress)"
proof -
  define ps where "ps = default_0 (re_proofSource opt)"
  define short where "short \<longleftrightarrow> (\<forall>s \<in> set (re_btcScripts opt). length s \<le> 34)"
  define xs where "xs = redeem_outputs opt"
  let ?ni = "re_nInputs opt" and ?no = "re_nOutputs opt" and ?np = "length (re_redeemAmounts opt)"
  note ok = assms [unfolded redeem_ok_def, folded ps_def xs_def] and xs = redeem_ok_scripts [OF assms, folded xs_def]
  then have js: "joinsplit_ok ps (re_proofBytes opt) (re_merkleRoot opt) (re_boundParamsHash opt)
       (re_nullifiers opt) (re_commitmentsOut opt) 40 (re_stealthData opt)" by simp
  define bs where "bs = redeem_bytes opt"
  note bs = bs_def [unfolded redeem_bytes_def, folded ps_def xs_def]
  let ?len = "joinsplit_len ps ?ni ?no ((?no - ?np) * 40)"
  have sl: "length (re_stealthData opt) = ?no - ?np" using ok by arith
  have len: "length bs = ?len + length (concat (map output_bytes xs))"
    using length_joinsplit_bytes [OF js] ok sl by (simp add: bs)
  have tail: "bs = take ?len bs @ concat (map output_bytes xs) @ []"
    using joinsplit_bytes_tail [OF js, of ?ni ?no ?np "concat (map output_bytes xs)"] ok sl
    by (metis append_Nil2 append_take_drop_id bs)
  have "bs ! 0 = of_nat ?ni" "bs ! Suc 0 = of_nat ?no" "bs ! 2 = of_nat ?np" "bs ! 3 = of_nat ps"
    by (simp_all add: bs joinsplit_bytes_header)
  moreover have "?ni < 256" "?no < 256" "?np < 256" "ps < 256" using ok by (auto simp: counts_ok_def)
  moreover have "joinsplit_body bs proof_account ps ?ni ?no ((?no - ?np) * 40) =
      js_bind (if ps = 0 then Inr (the (re_proofBytes opt)) else proof_account) (\<lambda>pr.
        Inr (\<lparr> jb_proof = pr, jb_merkle_root = re_merkleRoot opt, jb_bound_params_hash = re_boundParamsHash opt,
               jb_nullifiers = re_nullifiers opt, jb_commitments_out = re_commitmentsOut opt,
               jb_stealth = concat (re_stealthData opt) \<rparr>, ?len))"
    using joinsplit_body_eq [OF js] ok sl by (simp add: bs)
  moreover have "read_redeem_outputs ?np bs ?len = (if short then Inr (xs, length bs) else Inl InvalidBtcAddress)"
  proof -
    have "read_redeem_outputs (length xs) bs ?len =
      (if \<forall>x \<in> set xs. length (fst (snd x)) \<le> 34 then Inr (xs, ?len + length (concat (map output_bytes xs))) else Inl InvalidBtcAddress)"
      by (rule read_redeem_outputs_eq [OF _ tail]) (use ok len in simp_all)
    then show ?thesis by (simp add: xs len short_def)
  qed
  moreover have "4 \<le> ?len" "?np * 17 \<le> length (concat (map output_bytes xs))"
    using length_outputs [of xs] xs by (simp_all add: joinsplit_len_def)
  moreover have "buildRedeemInstructionData opt = Inr (15 # bs)" using redeem_built [OF assms] by (simp add: bs_def)
  ultimately show ?thesis
    unfolding short_def [symmetric] xs_def [symmetric] using len ok
    by (auto simp: parse_redeem_def Let_def unat_small counts_ok_def MAX_JOINSPLIT_SIZE_def MAX_PUBLIC_OUTPUTS_def
        ps_def [symmetric] js_bind_assoc)
qed

definition sample_redeem :: "bytes \<Rightarrow> RedeemData" where
  "sample_redeem script =
     \<lparr> re_nInputs = 1, re_nOutputs = 1, re_nPublicOutputs = None, re_proofBytes = Some (replicate 256 0), re_merkleRoot = replicate 32 1,
       re_boundParamsHash = replicate 32 2, re_nullifiers = [replicate 32 3], re_commitmentsOut = [replicate 32 4],
       re_stealthData = [], re_redeemAmounts = [50000], re_btcScripts = [script], re_requestNonces = [7], re_proofSource = None \<rparr>"

theorem redeem_instruction_parsed_witness:
  "(\<exists>bs ix. buildRedeemInstructionData (sample_redeem (replicate 34 5)) = Inr (15 # bs) \<and> parse_redeem bs (Inl Panic) = Inr ix \<and>
     ri_outputs ix = [(50000, replicate 34 5, 7)]) \<and>
   (\<exists>bs. buildRedeemInstructionData (sample_redeem (replicate 62 5)) = Inr (15 # bs) \<and>
     parse_redeem bs (Inl Panic) = Inl InvalidBtcAddress)"
proof -
  have ok: "redeem_ok (sample_redeem (replicate n 5))" if "0 < n" "n \<le> 62" for n
    using that by (simp add: redeem_ok_def sample_redeem_def joinsplit_ok_def counts_ok_def default_0_def fits_def
        redeem_outputs_def output_ok_def)
  have f: "default_0 (re_proofSource (sample_redeem s)) = 0" "re_btcScripts (sample_redeem s) = [s]"
    "redeem_outputs (sample_redeem s) = [(50000, s, 7)]" for s
    by (simp_all add: sample_redeem_def default_0_def redeem_outputs_def)
  have "0 < (34::nat)" "34 \<le> (62::nat)" "0 < (62::nat)" "62 \<le> (62::nat)" by simp_all
  then show ?thesis
    using redeem_instruction_parsed [OF ok [of 34], of "Inl Panic"] redeem_instruction_parsed [OF ok [of 62], of "Inl Panic"]
    by (auto simp: f)
qed

section \<open>Fixed layouts\<close>

text \<open>Fields of a byte string that is written as a concatenation with known widths.\<close>

lemmas layout_reads = build_layout js_slice_def le_val_le_bytes fits_def nth_append

lemma script_len_byte: "length s \<le> 34 \<Longrightarrow> unat (word_of_int (int (length s)) :: byte) = length s" for s :: bytes
  by (simp add: unat_of_nat)

text \<open>What the program reads from the data of a built instruction, with the discriminator it dispatches on.\<close>

definition read_back :: "(bytes \<Rightarrow> 'a) \<Rightarrow> bytes result \<Rightarrow> (byte \<times> 'a) result" where
  "read_back parse built = js_bind built (\<lambda>d. Inr (hd d, parse (tl d)))"

lemma completion_read:
  assumes "length btcTxid = 32" "length poolScript \<le> 34" "fits 4 txSize" "fits 1 consumedUtxoCount"
  shows "read_back CompleteRedemptionData_from_bytes
        (buildCompleteRedemptionInstructionData btcTxid txSize poolScript consumedUtxoCount) =
      Inr (17, Inr \<lparr> cd_btc_txid = btcTxid, cd_tx_size = txSize, cd_pool_script = poolScript,
        cd_consumed_utxo_count = nat consumedUtxoCount \<rparr>)"
proof -
  have "unat (word_of_int consumedUtxoCount :: byte) = nat consumedUtxoCount"
    using assms(4) by (simp add: fits_def unat_eq_nat_uint uint_word_of_int)
  then show ?thesis
    using assms script_len_byte [OF assms(2)]
    by (auto simp: read_back_def buildCompleteRedemptionInstructionData_def CompleteRedemptionData_from_bytes_def
        Let_def layout_reads simp del: le_bytes.simps)
qed

text \<open>
  The redemption instructions are read as the SDK wrote them: the request with its script of up
  to 34 bytes, the signing approval with and without a message digest, and the completion with its
  pool script and the number of consumed outputs.
\<close>

theorem redemption_instructions_parsed:
  assumes "length proofHash = 32" "length merkleRoot = 32" "length nullifierHash = 32" "length vkHash = 32"
    and "length btcScript \<le> 34" "length poolScript \<le> 34"
    and "length btcSighash = 32" "\<forall>digest. ikaMessageDigest = Some digest \<longrightarrow> length digest = 32" "length btcTxid = 32"
    and "fits 8 amountSats" "fits 8 requestNonce" "fits 8 minerFeeSats" "fits 4 txSize" "fits 1 consumedUtxoCount"
  shows "read_back RequestRedemptionData_from_bytes
        (buildRedemptionRequestInstructionData proofHash merkleRoot nullifierHash amountSats vkHash btcScript requestNonce) =
      Inr (16, Inr \<lparr> rd_proof_hash = proofHash, rd_merkle_root = merkleRoot, rd_nullifier_hash = nullifierHash,
        rd_amount_sats = amountSats, rd_vk_hash = vkHash, rd_btc_script = btcScript, rd_request_nonce = requestNonce \<rparr>) \<and>
    read_back ApproveRedemptionSigningData_from_bytes
        (buildApproveRedemptionSigningInstructionData btcSighash ikaMessageDigest minerFeeSats) =
      Inr (27, Inr \<lparr> as_btc_sighash = btcSighash, as_ika_message_digest_override = ikaMessageDigest,
        as_signature_scheme_override = None, as_miner_fee_sats = minerFeeSats \<rparr>) \<and>
    read_back CompleteRedemptionData_from_bytes
        (buildCompleteRedemptionInstructionData btcTxid txSize poolScript consumedUtxoCount) =
      Inr (17, Inr \<lparr> cd_btc_txid = btcTxid, cd_tx_size = txSize, cd_pool_script = poolScript,
        cd_consumed_utxo_count = nat consumedUtxoCount \<rparr>)" (is "?request \<and> ?approve \<and> ?complete")
proof (intro conjI)
  show ?request
    using assms script_len_byte [OF assms(5)]
    by (simp add: read_back_def buildRedemptionRequestInstructionData_def RequestRedemptionData_from_bytes_def
        MAX_BTC_SCRIPT_LEN_def Let_def layout_reads del: le_bytes.simps)
  show ?approve
    using assms
    by (cases ikaMessageDigest)
       (simp_all add: read_back_def buildApproveRedemptionSigningInstructionData_def ApproveRedemptionSigningData_from_bytes_def
        layout_reads del: le_bytes.simps)
  show ?complete using assms by (intro completion_read)
qed

theorem redemption_instructions_parsed_witness:
  "\<exists>d. read_back RequestRedemptionData_from_bytes
      (buildRedemptionRequestInstructionData (replicate 32 1) (replicate 32 2) (replicate 32 3) 50000 (replicate 32 4)
         (replicate 22 5) 7) = Inr (16, Inr d) \<and> rd_btc_script d = replicate 22 5 \<and> rd_request_nonce d = 7"
  using redemption_instructions_parsed [of "replicate 32 1" "replicate 32 2" "replicate 32 3" "replicate 32 4" "replicate 22 5"
      "replicate 34 6" "replicate 32 7" "Some (replicate 32 8)" "replicate 32 9" 50000 7 200 250 2]
  by (simp add: fits_def)

text \<open>
  Shield, deposit completion and pool update are read as the SDK wrote them. The program
  accepts an update exactly when the limits are ordered and below the supply and the fee is below
  100 percent, whatever the SDK sends.
\<close>

theorem pool_instructions_parsed:
  assumes "length npk = 32" "length ephemeralPub = 32" "length sweepTxid = 32" "length depositTxid = 32"
    and "fits 8 amount" "fits 8 blockHeight" "fits 4 sweepTxSize" "fits 4 depositTxSize"
    and "fits 8 minDeposit" "fits 8 maxDeposit" "fits 8 serviceFee" "\<forall>bps. serviceFeeBps = Some bps \<longrightarrow> fits 2 bps"
  shows "read_back parse_shield (buildShieldInstructionData amount npk ephemeralPub) = Inr (12, Inr (amount, npk, ephemeralPub)) \<and>
    read_back CompleteDepositData_from_bytes
        (buildVerifyStealthDepositInstructionData sweepTxid blockHeight sweepTxSize depositTxSize depositTxid) =
      Inr (11, Inr \<lparr> dd_sweep_txid = sweepTxid, dd_block_height = blockHeight, dd_sweep_tx_size = sweepTxSize,
        dd_deposit_tx_size = depositTxSize, dd_deposit_txid = depositTxid \<rparr>) \<and>
    read_back parse_propose (buildProposePoolUpdateInstructionData minDeposit maxDeposit serviceFee serviceFeeBps) =
      Inr (3, let bps = (case serviceFeeBps of None \<Rightarrow> 0 | Some bps \<Rightarrow> bps) in
        if minDeposit \<le> maxDeposit \<and> maxDeposit \<le> 2100000000000000 \<and> bps < 10000
        then Inr (minDeposit, maxDeposit, serviceFee, bps) else Inl InvalidInstructionData)"
    (is "?shield \<and> ?deposit \<and> ?propose")
proof (intro conjI)
  show ?shield
    using assms by (simp add: read_back_def buildShieldInstructionData_def parse_shield_def layout_reads del: le_bytes.simps)
  show ?deposit
    using assms by (simp add: read_back_def buildVerifyStealthDepositInstructionData_def CompleteDepositData_from_bytes_def
        layout_reads del: le_bytes.simps)
  show ?propose
    using assms
    by (cases serviceFeeBps)
       (auto simp: read_back_def buildProposePoolUpdateInstructionData_def parse_propose_def Let_def layout_reads
        simp del: le_bytes.simps)
qed

theorem pool_instructions_parsed_witness:
  "read_back parse_propose (buildProposePoolUpdateInstructionData 1000 100000 300 (Some 10000)) = Inr (3, Inl InvalidInstructionData) \<and>
   read_back parse_propose (buildProposePoolUpdateInstructionData 1000 100000 300 None) = Inr (3, Inr (1000, 100000, 300, 0))"
  using pool_instructions_parsed [of "replicate 32 1" "replicate 32 2" "replicate 32 3" "replicate 32 4" 5 6 7 8 1000 100000 300 "Some 10000"]
    pool_instructions_parsed [of "replicate 32 1" "replicate 32 2" "replicate 32 3" "replicate 32 4" 5 6 7 8 1000 100000 300 None]
  by (simp add: fits_def)

text \<open>
  The accounts of a completed redemption: the SDK always places the change account at position
  13 and the consumed outputs from position 14 on, while the program, when it is given no pool
  script, takes the account at position 13 for the first consumed output.
\<close>

theorem completion_accounts_shift:
  assumes "buildCompleteRedemptionInstruction programId opt = Inr ix" "cr_consumedUtxos opt = Some utxos"
    and "length (cr_btcTxid opt) = 32" "length (cr_poolScript opt) \<le> 34" "fits 4 (cr_txSize opt)"
    and "cr_consumedUtxoCount opt = int (length utxos)" "0 < length utxos" "length utxos < 256"
  shows "\<exists>d. CompleteRedemptionData_from_bytes (tl (ix_data ix)) = Inr d \<and>
    map fst (js_slice (ix_accounts ix) (consumed_start d) (consumed_start d + cd_consumed_utxo_count d)) =
      (if cr_poolScript opt = [] then cr_changeUtxo opt # butlast utxos else utxos)"
proof -
  define d where "d = \<lparr> cd_btc_txid = cr_btcTxid opt, cd_tx_size = cr_txSize opt, cd_pool_script = cr_poolScript opt,
    cd_consumed_utxo_count = length utxos \<rparr>"
  have "CompleteRedemptionData_from_bytes (tl (ix_data ix)) = Inr d"
    using completion_read [of "cr_btcTxid opt" "cr_poolScript opt" "cr_txSize opt" "cr_consumedUtxoCount opt"] assms
    by (auto simp: buildCompleteRedemptionInstruction_def read_back_def js_bind_Inr_iff d_def fits_def)
  moreover have "drop 13 (map fst (ix_accounts ix)) = cr_changeUtxo opt # utxos" "drop 14 (map fst (ix_accounts ix)) = utxos"
    using assms by (auto simp: buildCompleteRedemptionInstruction_def js_bind_Inr_iff comp_def)
  then have "map fst (js_slice (ix_accounts ix) (consumed_start d) (consumed_start d + length utxos)) =
      (if cr_poolScript opt = [] then cr_changeUtxo opt # butlast utxos else utxos)"
    using assms(7) by (cases utxos rule: rev_cases)
      (simp_all add: js_slice_def d_def consumed_start_def flip: take_map drop_map)
  ultimately show ?thesis by (auto simp: d_def)
qed

definition sample_completion :: "bytes \<Rightarrow> CompleteRedemptionInstructionOptions" where
  "sample_completion script =
     \<lparr> cr_btcTxid = replicate 32 1, cr_txSize = 250, cr_poolScript = script, cr_consumedUtxoCount = 2, cr_poolState = ''a'',
       cr_redemptionRequest = ''b'', cr_authority = ''c'', cr_rentRecipient = ''d'', cr_verifiedTransaction = ''e'',
       cr_lightClient = ''f'', cr_txBuffer = ''g'', cr_zkbtcMint = ''h'', cr_poolVault = ''i'', cr_completionReceipt = ''j'',
       cr_poolConfig = ''k'', cr_changeUtxo = ''l'', cr_tokenProgram = None, cr_consumedUtxos = Some [''m'', ''n''] \<rparr>"

theorem completion_accounts_shift_witness:
  "\<exists>ix d. buildCompleteRedemptionInstruction ''p'' (sample_completion []) = Inr ix \<and>
    CompleteRedemptionData_from_bytes (tl (ix_data ix)) = Inr d \<and>
    map fst (js_slice (ix_accounts ix) (consumed_start d) (consumed_start d + cd_consumed_utxo_count d)) = [''l'', ''m'']"
proof -
  have "\<exists>ix. buildCompleteRedemptionInstruction ''p'' (sample_completion []) = Inr ix"
    by (simp add: buildCompleteRedemptionInstruction_def buildCompleteRedemptionInstructionData_def build_layout sample_completion_def
        del: le_bytes.simps)
  then obtain ix where ix: "buildCompleteRedemptionInstruction ''p'' (sample_completion []) = Inr ix" by blast
  show ?thesis
    using completion_accounts_shift [OF ix, of "[''m'', ''n'']"] ix by (simp add: sample_completion_def fits_def)
qed

end
