(* ===== verification/Onchain_Transact.thy ===== *)
theory Onchain_Transact
  imports Onchain_Tree Onchain_Instructions Bound_Params Events
begin

text \<open>
  The \<open>transact\<close> handler of the program,
  \<open>src/contracts/programs/utxopia/src/instructions/transact.rs\<close>, on a ledger of accounts: parsing,
  the checks on accounts, pool, verification key and root, the proof check, the creation of the
  nullifier records and the insertion of the output commitments, with everything it logs. The
  runtime (program addresses, account creation, SHA-256, Poseidon) and the Groth16 verifier, which
  runs on the pairing calls of the runtime, are parameters.
\<close>

section \<open>Accounts\<close>

record account =
  a_owner :: bytes
  a_data :: bytes

text \<open>Addresses without an account hold the empty data of the system program.\<close>

type_synonym ledger = "bytes \<Rightarrow> account"

record AccountInfo =
  m_key :: bytes
  m_signer :: bool
  m_writable :: bool

record runtime =
  r_sha :: sha
  r_poseidon :: syscall
  r_find_program_address :: "bytes list \<Rightarrow> bytes \<Rightarrow> bytes \<times> byte"
  r_create_account :: "bytes \<Rightarrow> bytes \<Rightarrow> bytes \<Rightarrow> nat \<Rightarrow> bytes list \<Rightarrow> ledger \<Rightarrow> ledger pres"
  r_verify_joinsplit :: "nat \<Rightarrow> nat \<Rightarrow> bytes \<Rightarrow> bytes list \<Rightarrow> unit pres"
  r_chain_id :: int
  r_chadbuffer_id :: bytes

datatype log_entry = LogMsg string | LogData "bytes list"

definition validate_program_owner :: "bytes \<Rightarrow> ledger \<Rightarrow> AccountInfo \<Rightarrow> unit pres" where
  "validate_program_owner program_id L m = (if a_owner (L (m_key m)) \<noteq> program_id then Inl InvalidAccountOwner else Inr ())"

definition validate_account_writable :: "AccountInfo \<Rightarrow> unit pres" where
  "validate_account_writable m = (if \<not> m_writable m then Inl AccountNotWritable else Inr ())"

definition validate_system_program :: "AccountInfo \<Rightarrow> unit pres" where
  "validate_system_program m = (if m_key m \<noteq> replicate 32 0 then Inl IncorrectProgramId else Inr ())"

definition ascii :: "string \<Rightarrow> bytes" where
  "ascii s = map (\<lambda>c. of_nat (of_char c)) s"

definition validate_active_tree_pda :: "runtime \<Rightarrow> bytes \<Rightarrow> AccountInfo \<Rightarrow> int \<Rightarrow> unit pres" where
  "validate_active_tree_pda R program_id m active_index =
     (if m_key m = fst (r_find_program_address R [ascii ''commitment_tree'', le_bytes 4 active_index] program_id) then Inr ()
      else if active_index = 0 \<and> m_key m = fst (r_find_program_address R [ascii ''commitment_tree''] program_id) then Inr ()
      else Inl InvalidSeeds)"

definition validate_chadbuffer_owner :: "runtime \<Rightarrow> ledger \<Rightarrow> AccountInfo \<Rightarrow> unit pres" where
  "validate_chadbuffer_owner R L m = (if a_owner (L (m_key m)) \<noteq> r_chadbuffer_id R then Inl InvalidAccountOwner else Inr ())"

section \<open>State accounts\<close>

text \<open>
  The fields of \<open>PoolState\<close> and \<open>VkRegistry\<close> that the handler reads, at the offsets of the
  \<open>repr(C)\<close> structs: all their fields are bytes and byte arrays.
\<close>

record PoolView =
  pv_flags :: byte
  pv_active_tree_index :: int

definition PoolState_from_bytes :: "bytes \<Rightarrow> PoolView pres" where
  "PoolState_from_bytes bs =
     (if length bs < 268 then Inl InvalidAccountData
      else if bs ! 0 \<noteq> 0x01 then Inl InvalidAccountData
      else Inr \<lparr> pv_flags = bs ! 2, pv_active_tree_index = le_val (js_slice bs 258 262) \<rparr>)"

definition is_paused :: "PoolView \<Rightarrow> bool" where
  "is_paused pool \<longleftrightarrow> pv_flags pool AND 1 \<noteq> 0"

definition VkRegistry_from_bytes :: "bytes \<Rightarrow> (byte \<times> byte) pres" where
  "VkRegistry_from_bytes bs =
     (if length bs < 256 then Inl InvalidAccountData
      else if bs ! 0 \<noteq> 0x14 then Inl InvalidAccountData
      else Inr (bs ! 2, bs ! 3))"

definition NULLIFIER_RECORD_DISCRIMINATOR :: byte where
  "NULLIFIER_RECORD_DISCRIMINATOR = 0x03"

definition NullifierRecord_init :: "bytes \<Rightarrow> bytes pres" where
  "NullifierRecord_init bs = (if bs = [] then Inl InvalidAccountData else Inr (bs[0 := NULLIFIER_RECORD_DISCRIMINATOR]))"

definition COMMITMENT_TREE_LEN :: nat where
  "COMMITMENT_TREE_LEN = 3824"

definition CommitmentTree_from_bytes :: "bytes \<Rightarrow> CommitmentTree pres" where
  "CommitmentTree_from_bytes bs =
     (if length bs < COMMITMENT_TREE_LEN then Inl InvalidAccountData
      else if bs ! 0 \<noteq> word_of_int COMMITMENT_TREE_DISCRIMINATOR then Inl InvalidAccountData
      else Inr \<lparr> rt_discriminator = bs ! 0, rt_bump = bs ! 1, rt_padding = js_slice bs 2 8,
                 rt_current_root = js_slice bs 8 40, rt_next_index = js_slice bs 40 48,
                 rt_frontier = read_slices TREE_DEPTH 48 bs,
                 rt_root_history = read_slices ROOT_HISTORY_SIZE (48 + TREE_DEPTH * 32) bs,
                 rt_root_history_index = js_slice bs 3760 3764, rt_reserved = js_slice bs 3764 3824 \<rparr>)"

text \<open>The struct is a view of the account, so its updates are updates of the account's first bytes.\<close>

definition store_tree :: "bytes \<Rightarrow> CommitmentTree \<Rightarrow> ledger \<Rightarrow> ledger" where
  "store_tree key t L = L(key := (L key)\<lparr> a_data := tree_bytes t @ drop COMMITMENT_TREE_LEN (a_data (L key)) \<rparr>)"

section \<open>The handler\<close>

definition proof_buffer :: "runtime \<Rightarrow> AccountInfo list \<Rightarrow> ledger \<Rightarrow> bytes pres" where
  "proof_buffer R metas L =
     (if metas = [] then Inl Panic
      else
        js_bind (validate_chadbuffer_owner R L (last metas)) (\<lambda>_.
          let buf_data = a_data (L (m_key (last metas))) in
          if length buf_data < 32 + GROTH16_PROOF_SIZE then Inl InvalidAccountData
          else Inr (js_slice buf_data 32 (32 + GROTH16_PROOF_SIZE))))"

definition transact_payer :: "AccountInfo list \<Rightarrow> nat \<Rightarrow> nat \<Rightarrow> AccountInfo pres" where
  "transact_payer metas n_inputs proof_source =
     (let extra = length metas - (5 + n_inputs);
          has_relayer = (if proof_source = 1 then extra > 1 else extra > 0);
          payer = (if has_relayer then metas ! (5 + n_inputs) else metas ! 3) in
      if \<not> m_signer payer then Inl MissingRequiredSignature else Inr payer)"

text \<open>The loop over the nullifiers with their accounts.\<close>

fun spend_nullifiers :: "runtime \<Rightarrow> bytes \<Rightarrow> AccountInfo \<Rightarrow> (AccountInfo \<times> bytes) list \<Rightarrow> ledger \<Rightarrow> ledger pres" where
  "spend_nullifiers R program_id payer [] L = Inr L"
| "spend_nullifiers R program_id payer ((m, nullifier) # rest) L =
     js_bind (validate_account_writable m) (\<lambda>_.
       let (expected_pda, bump) = r_find_program_address R [ascii ''nullifier'', nullifier] program_id;
           old = a_data (L (m_key m)) in
       if m_key m \<noteq> expected_pda then Inl InvalidSeeds
       else if old \<noteq> [] \<and> old ! 0 = NULLIFIER_RECORD_DISCRIMINATOR then Inl NullifierAlreadyUsed
       else
         js_bind (r_create_account R (m_key payer) (m_key m) program_id 1 [ascii ''nullifier'', nullifier, [bump]] L) (\<lambda>L1.
         js_bind (NullifierRecord_init (a_data (L1 (m_key m)))) (\<lambda>d.
           spend_nullifiers R program_id payer rest (L1(m_key m := (L1 (m_key m))\<lparr> a_data := d \<rparr>)))))"

text \<open>The loop over the outputs: commitment, stealth data and, when present, the memo.\<close>

fun insert_outputs :: "syscall \<Rightarrow> (bytes \<times> bytes \<times> bytes option) list \<Rightarrow> CommitmentTree \<Rightarrow> (CommitmentTree \<times> log_entry list) pres" where
  "insert_outputs hashv [] t = Inr (t, [])"
| "insert_outputs hashv ((commitment, sd, memo) # rest) t =
     js_bind (insert_leaf hashv commitment t) (\<lambda>(leaf_idx, t1).
     js_bind (insert_outputs hashv rest t1) (\<lambda>(t2, logs).
       Inr (t2,
         LogData (emit_stealth_announcement 1 (js_slice sd 0 32) (js_slice sd 32 40) commitment leaf_idx (js_slice sd 40 72))
         # (case memo of None \<Rightarrow> [] | Some mm \<Rightarrow> [LogData (emit_sender_memo (js_slice mm 0 24) (js_slice mm 24 80) commitment leaf_idx)])
         @ logs)))"

definition transact_outputs :: "TransactIx \<Rightarrow> (bytes \<times> bytes \<times> bytes option) list" where
  "transact_outputs ix =
     map (\<lambda>i. (jb_commitments_out (tr_body ix) ! i, js_slice (jb_stealth (tr_body ix)) (i * 72) (i * 72 + 72),
               map_option (\<lambda>memos. js_slice memos (i * 80) (i * 80 + 80)) (tr_memos ix)))
         [0..<tr_n_outputs ix]"

text \<open>
  The three parts of the handler, in the order of the source: the checks on the bound parameters,
  the accounts and their contents; the proof; the effects.
\<close>

definition check_accounts :: "runtime \<Rightarrow> bytes \<Rightarrow> AccountInfo list \<Rightarrow> ledger \<Rightarrow> unit pres" where
  "check_accounts R program_id metas L =
     js_bind (validate_program_owner program_id L (metas ! 0)) (\<lambda>_.
     js_bind (validate_program_owner program_id L (metas ! 1)) (\<lambda>_.
     js_bind (validate_program_owner program_id L (metas ! 2)) (\<lambda>_.
     js_bind (validate_system_program (metas ! 4)) (\<lambda>_.
     js_bind (validate_account_writable (metas ! 0)) (\<lambda>_.
     validate_account_writable (metas ! 1))))))"

definition check_state :: "runtime \<Rightarrow> bytes \<Rightarrow> AccountInfo list \<Rightarrow> TransactIx \<Rightarrow> ledger \<Rightarrow> unit pres" where
  "check_state R program_id metas ix L =
     js_bind (PoolState_from_bytes (a_data (L (m_key (metas ! 0))))) (\<lambda>pool.
     if is_paused pool then Inl PoolPaused
     else
       js_bind (validate_active_tree_pda R program_id (metas ! 1) (pv_active_tree_index pool)) (\<lambda>_.
       js_bind (VkRegistry_from_bytes (a_data (L (m_key (metas ! 2))))) (\<lambda>(vk_inputs, vk_outputs).
       if vk_inputs \<noteq> of_nat (tr_n_inputs ix) \<or> vk_outputs \<noteq> of_nat (tr_n_outputs ix) then Inl InvalidVkRegistry
       else
         js_bind (CommitmentTree_from_bytes (a_data (L (m_key (metas ! 1))))) (\<lambda>tree.
         if \<not> is_valid_root tree (jb_merkle_root (tr_body ix)) then Inl InvalidMerkleProof else Inr ()))))"

definition transact_checks :: "runtime \<Rightarrow> bytes \<Rightarrow> AccountInfo list \<Rightarrow> bytes \<Rightarrow> TransactIx \<Rightarrow> ledger \<Rightarrow> AccountInfo pres" where
  "transact_checks R program_id metas bs ix L =
     (let body = tr_body ix; n_inputs = tr_n_inputs ix in
      js_bind (compute_bound_params_hash_private_transfer (r_sha R) (r_chain_id R) (r_sha R (jb_stealth body))) (\<lambda>expected.
      if jb_bound_params_hash body \<noteq> expected then Inl InvalidBoundParams
      else if length metas < 5 + n_inputs then Inl NotEnoughAccountKeys
      else
        js_bind (transact_payer metas n_inputs (unat (bs ! 3))) (\<lambda>payer.
        js_bind (check_accounts R program_id metas L) (\<lambda>_.
        js_bind (check_state R program_id metas ix L) (\<lambda>_. Inr payer)))))"

definition transact_effects :: "runtime \<Rightarrow> bytes \<Rightarrow> AccountInfo list \<Rightarrow> AccountInfo \<Rightarrow> TransactIx \<Rightarrow> ledger \<Rightarrow> (ledger \<times> log_entry list) pres" where
  "transact_effects R program_id metas payer ix L =
     (let body = tr_body ix; tree_key = m_key (metas ! 1) in
      js_bind (spend_nullifiers R program_id payer (zip (js_slice metas 5 (5 + tr_n_inputs ix)) (jb_nullifiers body)) L) (\<lambda>L1.
      js_bind (CommitmentTree_from_bytes (a_data (L1 tree_key))) (\<lambda>tree.
      js_bind (insert_outputs (r_poseidon R) (transact_outputs ix) tree) (\<lambda>(tree', logs).
        Inr (store_tree tree_key tree' L1,
             LogMsg ''UTXOpia: transact'' # LogData (emit_nullifiers_batch (jb_nullifiers body) 2 13) # logs)))))"

definition process_transact :: "runtime \<Rightarrow> bytes \<Rightarrow> AccountInfo list \<Rightarrow> bytes \<Rightarrow> ledger \<Rightarrow> (ledger \<times> log_entry list) pres" where
  "process_transact R program_id metas bs L =
     js_bind (parse_transact bs (proof_buffer R metas L)) (\<lambda>ix.
     js_bind (transact_checks R program_id metas bs ix L) (\<lambda>payer.
     js_bind (r_verify_joinsplit R (tr_n_inputs ix) (tr_n_outputs ix) (jb_proof (tr_body ix))
       ([jb_merkle_root (tr_body ix), jb_bound_params_hash (tr_body ix)] @ jb_nullifiers (tr_body ix) @ jb_commitments_out (tr_body ix))) (\<lambda>_.
     transact_effects R program_id metas payer ix L)))"

section \<open>Nullifiers are spent once\<close>

text \<open>
  Account creation, as the system program documents it: it succeeds only on an address without
  data, gives the account to the new owner with zeroed data of the asked size, and changes the data of no
  other account.
\<close>

definition create_ok :: "runtime \<Rightarrow> bool" where
  "create_ok R \<longleftrightarrow> (\<forall>payer key owner space seeds L L'. r_create_account R payer key owner space seeds L = Inr L' \<longrightarrow>
     a_data (L key) = [] \<and> L' = L(key := \<lparr> a_owner = owner, a_data = replicate space 0 \<rparr>))"

definition nullifier_pda :: "runtime \<Rightarrow> bytes \<Rightarrow> bytes \<Rightarrow> bytes" where
  "nullifier_pda R program_id n = fst (r_find_program_address R [ascii ''nullifier'', n] program_id)"

definition is_record :: "bytes \<Rightarrow> account \<Rightarrow> bool" where
  "is_record program_id a \<longleftrightarrow> a_owner a = program_id \<and> a_data a \<noteq> [] \<and> a_data a ! 0 = NULLIFIER_RECORD_DISCRIMINATOR"

lemma spend_nullifiers_fresh:
  assumes "create_ok R" "spend_nullifiers R pid payer xs L = Inr L'"
  shows "distinct (map snd xs) \<and> (\<forall>x \<in> set xs. a_data (L (nullifier_pda R pid (snd x))) = [] \<and>
      is_record pid (L' (nullifier_pda R pid (snd x)))) \<and> (\<forall>k. a_data (L k) \<noteq> [] \<longrightarrow> L' k = L k)"
  using assms(2)
proof (induction xs arbitrary: L)
  case (Cons x xs)
  obtain m n where x: "x = (m, n)" by (cases x)
  let ?k = "nullifier_pda R pid n" and ?rec = "\<lparr> a_owner = pid, a_data = [NULLIFIER_RECORD_DISCRIMINATOR] \<rparr>"
  from Cons.prems obtain L1 where k: "m_key m = ?k" and "\<exists>bump. r_create_account R (m_key payer) ?k pid 1 [ascii ''nullifier'', n, [bump]] L = Inr L1"
    and rest: "spend_nullifiers R pid payer xs (L1(?k := (L1 ?k)\<lparr> a_data := (a_data (L1 ?k))[0 := NULLIFIER_RECORD_DISCRIMINATOR] \<rparr>)) = Inr L'"
    by (auto simp: x js_bind_Inr_iff nullifier_pda_def NullifierRecord_init_def Let_def split: prod.splits if_splits)
  then have c: "a_data (L ?k) = []" "L1 = L(?k := \<lparr> a_owner = pid, a_data = replicate 1 0 \<rparr>)"
    using assms(1) unfolding create_ok_def by blast+
  have e: "a_data (L ?k) = []" "spend_nullifiers R pid payer xs (L(?k := ?rec)) = Inr L'"
    using c rest by simp_all
  note IH = Cons.IH [OF e(2)]
  have "L' ?k = ?rec" using IH by (metis (no_types) fun_upd_same list.distinct(1) account.select_convs(2))
  moreover have "n \<notin> snd ` set xs" using IH by force
  ultimately show ?case using IH e(1) by (auto simp: x is_record_def split: if_splits)
qed simp

lemma read_arrays_length: "read_arrays n bs off = Inr (xs, off') \<Longrightarrow> length xs = n"
  by (induction n arbitrary: off xs off') (auto simp: js_bind_Inr_iff)

lemma parse_transact_counts:
  "parse_transact bs acct = Inr ix \<Longrightarrow>
   length (jb_nullifiers (tr_body ix)) = tr_n_inputs ix \<and> length (jb_commitments_out (tr_body ix)) = tr_n_outputs ix"
  by (auto simp: parse_transact_def joinsplit_body_def Let_def js_bind_Inr_iff dest!: read_arrays_length split: if_splits)

text \<open>A successful call spends fresh nullifiers and keeps every record there was.\<close>

lemma transact_spends:
  assumes "create_ok R" "process_transact R pid metas bs L = Inr (L', logs)"
    and "parse_transact bs (proof_buffer R metas L) = Inr ix"
  shows "distinct (jb_nullifiers (tr_body ix))"
    "\<forall>n \<in> set (jb_nullifiers (tr_body ix)). a_data (L (nullifier_pda R pid n)) = [] \<and> is_record pid (L' (nullifier_pda R pid n))"
    "is_record pid (L k) \<Longrightarrow> L' k = L k"
proof -
  let ?ns = "jb_nullifiers (tr_body ix)" and ?tk = "m_key (metas ! 1)"
  define xs where "xs = zip (js_slice metas 5 (5 + tr_n_inputs ix)) ?ns"
  from assms(2,3) obtain payer L1 tree tree' where
    checks: "transact_checks R pid metas bs ix L = Inr payer" and
    spend: "spend_nullifiers R pid payer xs L = Inr L1" and
    tree: "CommitmentTree_from_bytes (a_data (L1 ?tk)) = Inr tree" "L' = store_tree ?tk tree' L1"
    by (auto simp: process_transact_def transact_effects_def Let_def js_bind_Inr_iff xs_def)
  have "length ?ns = tr_n_inputs ix" using parse_transact_counts [OF assms(3)] by simp
  moreover have "5 + tr_n_inputs ix \<le> length metas"
    using checks by (auto simp: transact_checks_def Let_def js_bind_Inr_iff split: if_splits)
  ultimately have "length (js_slice metas 5 (5 + tr_n_inputs ix)) = length ?ns" by simp
  then have ns: "map snd xs = ?ns" by (simp add: xs_def)
  have L': "L' k = L1 k" if "is_record pid (L1 k)" for k
  proof -
    have "a_data (L1 ?tk) ! 0 = 5"
      using tree(1) by (auto simp: CommitmentTree_from_bytes_def COMMITMENT_TREE_DISCRIMINATOR_def split: if_splits)
    then have "k \<noteq> ?tk" using that by (auto simp: is_record_def NULLIFIER_RECORD_DISCRIMINATOR_def)
    then show ?thesis by (simp add: tree(2) store_tree_def)
  qed
  note fresh = spend_nullifiers_fresh [OF assms(1) spend]
  show "distinct ?ns" using fresh ns by simp
  show "\<forall>n \<in> set ?ns. a_data (L (nullifier_pda R pid n)) = [] \<and> is_record pid (L' (nullifier_pda R pid n))"
    using fresh L' unfolding ns [symmetric] by auto
  show "is_record pid (L k) \<Longrightarrow> L' k = L k"
    using fresh L' [of k] by (metis is_record_def)
qed

text \<open>
  The histories of the ledger: any start; successful calls of the handler, whose nullifiers are
  recorded; and any other change that keeps the nullifier records the program owns, which only
  the program could touch.
\<close>

inductive history :: "runtime \<Rightarrow> bytes \<Rightarrow> ledger \<Rightarrow> bytes list \<Rightarrow> bool" for R pid where
  start: "history R pid L []"
| transact: "history R pid L spent \<Longrightarrow> process_transact R pid metas bs L = Inr (L', logs) \<Longrightarrow>
    parse_transact bs (proof_buffer R metas L) = Inr ix \<Longrightarrow> history R pid L' (spent @ jb_nullifiers (tr_body ix))"
| other: "history R pid L spent \<Longrightarrow> (\<And>k. is_record pid (L k) \<Longrightarrow> L' k = L k) \<Longrightarrow> history R pid L' spent"

lemma history_records:
  assumes "history R pid L spent" "create_ok R"
  shows "distinct spent \<and> (\<forall>n \<in> set spent. is_record pid (L (nullifier_pda R pid n)))"
  using assms(1)
proof induction
  case (transact L spent metas bs L' logs ix)
  note spends = transact_spends [OF assms(2) transact.hyps(2,3)]
  have "n \<notin> set (jb_nullifiers (tr_body ix))" if "n \<in> set spent" for n
    using that spends(2) transact.IH by (auto simp: is_record_def)
  with spends transact.IH show ?case by auto
next
  case (other L spent L')
  then show ?case by (metis)
qed simp

end
