(* ===== verification/Transact_Properties.thy ===== *)
theory Transact_Properties
  imports Onchain_Transact Instruction_Properties
begin

text \<open>
  Properties of the \<open>transact\<close> handler: nullifiers are spent once in every history of the ledger,
  and an instruction built by the SDK, executed by the program and read back from its log by the
  SDK is the transaction that was meant.
\<close>

section \<open>A concrete runtime\<close>

text \<open>The last seed as the address, account creation on empty accounts, a verifier that accepts.\<close>

definition sample_create :: "bytes \<Rightarrow> bytes \<Rightarrow> bytes \<Rightarrow> nat \<Rightarrow> bytes list \<Rightarrow> ledger \<Rightarrow> ledger pres" where
  "sample_create payer key owner space seeds L =
     (if a_data (L key) = [] then Inr (L(key := \<lparr> a_owner = owner, a_data = replicate space 0 \<rparr>)) else Inl CreateAccountFailed)"

definition sample_runtime :: runtime where
  "sample_runtime =
     \<lparr> r_sha = sample_sha, r_poseidon = sample_hashv, r_find_program_address = (\<lambda>seeds pid. (last seeds, 255)),
       r_create_account = sample_create, r_verify_joinsplit = (\<lambda>n m proof inputs. Inr ()), r_chain_id = 103,
       r_chadbuffer_id = [9] \<rparr>"

lemma sample_create_ok: "create_ok sample_runtime"
  by (auto simp: create_ok_def sample_runtime_def sample_create_def split: if_splits)

section \<open>Execution of a built instruction\<close>

lemma tree_from_bytes:
  assumes "chain_inv P ls t"
  shows "CommitmentTree_from_bytes (tree_bytes t @ rest) = Inr t" "length (tree_bytes t) = 3824"
proof -
  note inv = assms [unfolded chain_inv_def history_ok_def frontier_ok_def]
  have w: "length (rt_frontier t) = 16" "\<forall>x \<in> set (rt_frontier t). length x = 32"
    "length (rt_root_history t) = 100" "\<forall>x \<in> set (rt_root_history t). length x = 32" using inv by auto
  have lens: "length (rt_padding t) = 6" "length (rt_current_root t) = 32" "length (rt_next_index t) = 8"
    "length (rt_root_history_index t) = 4" "length (rt_reserved t) = 60"
    "length (concat (rt_frontier t)) = 512" "length (concat (rt_root_history t)) = 3200"
    using inv length_concat_width [OF w(2)] length_concat_width [OF w(4)] by simp_all
  show "length (tree_bytes t) = 3824" by (simp add: tree_bytes_def lens)
  let ?bs = "tree_bytes t @ rest"
  have "js_slice ?bs 2 8 = rt_padding t" "js_slice ?bs 8 40 = rt_current_root t" "js_slice ?bs 40 48 = rt_next_index t"
    "js_slice ?bs 3760 3764 = rt_root_history_index t" "js_slice ?bs 3764 3824 = rt_reserved t"
    by (simp_all add: js_slice_def tree_bytes_def lens)
  moreover have "read_slices 16 48 ?bs = rt_frontier t"
    using chunks_concat [OF w(2), of "concat (rt_root_history t) @ rt_root_history_index t @ rt_reserved t @ rest"]
    by (simp add: read_slices_chunks tree_bytes_def lens w)
  moreover have "read_slices 100 560 ?bs = rt_root_history t"
    using chunks_concat [OF w(4), of "rt_root_history_index t @ rt_reserved t @ rest"]
    by (simp add: read_slices_chunks tree_bytes_def lens w)
  moreover have "?bs ! 0 = rt_discriminator t" "?bs ! 1 = rt_bump t" "3824 \<le> length ?bs" by (simp_all add: tree_bytes_def lens)
  ultimately show "CommitmentTree_from_bytes ?bs = Inr t"
    using inv by (simp add: CommitmentTree_from_bytes_def COMMITMENT_TREE_LEN_def ROOT_HISTORY_SIZE_def)
qed

text \<open>What one output writes to the log, and the events the SDK reads from it.\<close>

fun output_logs :: "int \<Rightarrow> bytes \<times> bytes \<times> bytes option \<Rightarrow> log_entry list" where
  "output_logs i (c, sd, memo) =
     LogData (emit_stealth_announcement 1 (js_slice sd 0 32) (js_slice sd 32 40) c i (js_slice sd 40 72))
     # (case memo of None \<Rightarrow> [] | Some mm \<Rightarrow> [LogData (emit_sender_memo (js_slice mm 0 24) (js_slice mm 24 80) c i)])"

fun output_events :: "int \<Rightarrow> bytes \<times> bytes \<times> bytes option \<Rightarrow> ProgramEvent list" where
  "output_events i (c, sd, memo) =
     StealthAnnouncementEvent 1 (js_slice sd 0 32) (js_slice sd 32 40) c i (Some (js_slice sd 40 72))
     # (case memo of None \<Rightarrow> [] | Some mm \<Rightarrow> [SenderMemoEvent (js_slice mm 0 24) (js_slice mm 24 80) c i])"

fun indexed :: "(int \<Rightarrow> 'a \<Rightarrow> 'b list) \<Rightarrow> int \<Rightarrow> 'a list \<Rightarrow> 'b list" where
  "indexed f i [] = []"
| "indexed f i (x # xs) = f i x @ indexed f (i + 1) xs"

lemma insert_outputs_inv:
  assumes "zero_ok P" "syscall_ok P hashv"
  shows "chain_inv P ls t \<Longrightarrow> \<forall>x \<in> set xs. field_bytes (fst x) \<Longrightarrow> length ls + length xs \<le> 65536 \<Longrightarrow>
    \<exists>t'. insert_outputs hashv xs t = Inr (t', indexed output_logs (int (length ls)) xs) \<and>
      chain_inv P (ls @ map (be_val \<circ> fst) xs) t'"
proof (induction xs arbitrary: ls t)
  case (Cons x xs)
  obtain c sd memo where x: "x = (c, sd, memo)" by (cases x) auto
  have "length ls < 65536" "field_bytes c" using Cons.prems x by simp_all
  then obtain t1 where t1: "insert_leaf hashv c t = Inr (int (length ls), t1)" "chain_inv P (ls @ [be_val c]) t1"
    using insert_leaf_inv [OF assms Cons.prems(1)] by blast
  then show ?case using Cons.IH [OF t1(2)] Cons.prems x by (auto simp: add.commute)
qed simp

definition render_log :: "(bytes list \<Rightarrow> string) \<Rightarrow> log_entry \<Rightarrow> string" where
  "render_log log e = (case e of LogMsg s \<Rightarrow> ''Program log: '' @ s | LogData slices \<Rightarrow> log slices)"

definition reads :: "(bytes list \<Rightarrow> string) \<Rightarrow> log_entry list \<Rightarrow> ProgramEvent list \<Rightarrow> bool" where
  "reads log es evs \<longleftrightarrow> (\<forall>events. js_fold parse_line (map (render_log log) es) events = Inr (events @ evs))"

lemma reads_append: "reads log es evs \<Longrightarrow> reads log es' evs' \<Longrightarrow> reads log (es @ es') (evs @ evs')"
  by (simp add: reads_def js_fold_append)

lemma reads_Nil: "reads log [] []"
  by (simp add: reads_def)

lemma reads_msg: "reads log [LogMsg s] []"
  by (simp add: reads_def render_log_def parse_line_def DATA_PREFIX_def)

lemma reads_data: "log_ok log \<Longrightarrow> slices \<noteq> [] \<Longrightarrow> parse_segments slices = Inr evs \<Longrightarrow> reads log [LogData slices] evs"
  by (simp add: reads_def render_log_def parse_line_log)

lemma reads_nullifiers:
  assumes "log_ok log" "\<forall>n \<in> set ns. length n = 32"
  shows "reads log [LogData (emit_nullifiers_batch ns p ix)] (if length ns = 1 then [NullifierSpentEvent (ns ! 0) (uint p)] else [])"
proof (cases "length ns = 1")
  case True
  moreover have "emit_nullifier_spent (ns ! 0) p ix \<noteq> []" by (simp add: emit_nullifier_spent_def)
  ultimately show ?thesis
    using assms by (intro reads_data) (simp_all add: emit_nullifiers_batch_def parse_nullifier_spent)
next
  case False
  with assms(1) show ?thesis
    by (intro reads_data) (simp_all add: emit_nullifiers_batch_def parse_segments_def event_discs Let_def)
qed

lemma reads_output:
  assumes "log_ok log" "length c = 32" "length sd = 72" "\<forall>mm. memo = Some mm \<longrightarrow> length mm = 80" "fits 4 i"
  shows "reads log (output_logs i (c, sd, memo)) (output_events i (c, sd, memo))"
proof -
  let ?it = "\<lparr> announcement_type = 1, ephemeral_pub = js_slice sd 0 32, encrypted_amount = js_slice sd 32 40,
    item_commitment = c, leaf_index = i, token_id = js_slice sd 40 72 \<rparr>"
  have "item_ok ?it" using assms by (simp add: item_ok_def)
  from parse_stealth_announcement [OF this] have ann: "reads log
     [LogData (emit_stealth_announcement 1 (js_slice sd 0 32) (js_slice sd 32 40) c i (js_slice sd 40 72))]
     [StealthAnnouncementEvent 1 (js_slice sd 0 32) (js_slice sd 32 40) c i (Some (js_slice sd 40 72))]"
    by (intro reads_data [OF assms(1)]) (simp_all add: emit_stealth_announcement_def announced_def)
  show ?thesis
  proof (cases memo)
    case (Some mm)
    then have "reads log [LogData (emit_sender_memo (js_slice mm 0 24) (js_slice mm 24 80) c i)]
        [SenderMemoEvent (js_slice mm 0 24) (js_slice mm 24 80) c i]"
      using assms by (intro reads_data [OF assms(1)]) (simp_all add: parse_sender_memo, simp add: emit_sender_memo_def)
    with ann reads_append show ?thesis using Some by fastforce
  qed (use ann in simp)
qed

definition output_widths :: "bytes \<times> bytes \<times> bytes option \<Rightarrow> bool" where
  "output_widths x \<longleftrightarrow> length (fst x) = 32 \<and> length (fst (snd x)) = 72 \<and> (\<forall>mm. snd (snd x) = Some mm \<longrightarrow> length mm = 80)"

lemma reads_outputs:
  assumes "log_ok log"
  shows "\<forall>x \<in> set xs. output_widths x \<Longrightarrow> 0 \<le> i \<Longrightarrow> i + int (length xs) \<le> 65536 \<Longrightarrow>
    reads log (indexed output_logs i xs) (indexed output_events i xs)"
proof (induction xs arbitrary: i)
  case (Cons x xs)
  obtain c sd memo where x: "x = (c, sd, memo)" by (cases x) auto
  have "reads log (output_logs i x) (output_events i x)"
    unfolding x using Cons.prems by (intro reads_output [OF assms]) (auto simp: x output_widths_def fits_def)
  moreover have "reads log (indexed output_logs (i + 1) xs) (indexed output_events (i + 1) xs)"
    using Cons.prems by (intro Cons.IH) auto
  ultimately show ?case by (simp add: reads_append del: output_logs.simps output_events.simps)
qed (simp add: reads_Nil)

lemma slice_concat:
  "\<forall>x \<in> set xs. length x = w \<Longrightarrow> i < length xs \<Longrightarrow> js_slice (concat xs) (i * w) (i * w + w) = xs ! i"
proof (induction xs arbitrary: i)
  case (Cons x xs)
  then show ?case by (cases i) (simp_all add: js_slice_def)
qed simp

text \<open>
  The accounts of a transaction that the program accepts: five fixed accounts that pass the
  checks, then the addresses of the nullifier records, none of them in use, and behind them the
  buffer of the proof when it is not inline.
\<close>

definition transact_env :: "runtime \<Rightarrow> bytes \<Rightarrow> AccountInfo list \<Rightarrow> ledger \<Rightarrow> TransactData \<Rightarrow> bool" where
  "transact_env R pid metas L opt \<longleftrightarrow>
     length metas = 5 + ta_nInputs opt + (if default_0 (ta_proofSource opt) = 0 then 0 else 1) \<and> m_signer (metas ! 3) \<and> check_accounts R pid metas L = Inr () \<and>
     (case PoolState_from_bytes (a_data (L (m_key (metas ! 0)))) of Inl e \<Rightarrow> False
      | Inr pool \<Rightarrow> \<not> is_paused pool \<and> validate_active_tree_pda R pid (metas ! 1) (pv_active_tree_index pool) = Inr ()) \<and>
     VkRegistry_from_bytes (a_data (L (m_key (metas ! 2)))) = Inr (of_nat (ta_nInputs opt), of_nat (ta_nOutputs opt)) \<and>
     (\<forall>x \<in> set (zip (drop 5 metas) (ta_nullifiers opt)). m_writable (fst x) \<and>
        m_key (fst x) = nullifier_pda R pid (snd x) \<and> a_data (L (nullifier_pda R pid (snd x))) = []) \<and>
     distinct (map (nullifier_pda R pid) (ta_nullifiers opt))"

text \<open>The proof of the instruction, inline or in the buffer account.\<close>

definition given_proof :: "runtime \<Rightarrow> AccountInfo list \<Rightarrow> ledger \<Rightarrow> TransactData \<Rightarrow> bytes pres" where
  "given_proof R metas L opt = (if default_0 (ta_proofSource opt) = 0 then Inr (the (ta_proofBytes opt)) else proof_buffer R metas L)"

text \<open>The payer can pay for the records.\<close>

definition create_funded :: "runtime \<Rightarrow> bytes \<Rightarrow> bytes \<Rightarrow> bool" where
  "create_funded R pid payer \<longleftrightarrow>
     (\<forall>key seeds L. a_data (L key) = [] \<longrightarrow> (\<exists>L'. r_create_account R payer key pid 1 seeds L = Inr L'))"

lemma spend_nullifiers_succeeds:
  assumes "create_ok R" "create_funded R pid (m_key payer)"
  shows "\<forall>x \<in> set xs. m_writable (fst x) \<and> m_key (fst x) = nullifier_pda R pid (snd x) \<and>
      a_data (L (nullifier_pda R pid (snd x))) = [] \<Longrightarrow> distinct (map (nullifier_pda R pid \<circ> snd) xs) \<Longrightarrow>
    \<exists>L'. spend_nullifiers R pid payer xs L = Inr L' \<and> (\<forall>x \<in> set xs. is_record pid (L' (nullifier_pda R pid (snd x)))) \<and>
      (\<forall>k. k \<notin> (nullifier_pda R pid \<circ> snd) ` set xs \<longrightarrow> L' k = L k)"
proof (induction xs arbitrary: L)
  case (Cons x xs)
  obtain m n where x: "x = (m, n)" by (cases x)
  let ?k = "nullifier_pda R pid n" and ?rec = "\<lparr> a_owner = pid, a_data = [NULLIFIER_RECORD_DISCRIMINATOR] \<rparr>"
  obtain bump where pda: "r_find_program_address R [ascii ''nullifier'', n] pid = (?k, bump)"
    by (metis nullifier_pda_def prod.collapse)
  from Cons.prems x have k: "m_key m = ?k" "m_writable m" "a_data (L ?k) = []" by auto
  then obtain L1 where L1: "r_create_account R (m_key payer) ?k pid 1 [ascii ''nullifier'', n, [bump]] L = Inr L1"
    using assms(2) unfolding create_funded_def by blast
  then have "L1 = L(?k := \<lparr> a_owner = pid, a_data = replicate 1 0 \<rparr>)" using assms(1) unfolding create_ok_def by blast
  then have step: "spend_nullifiers R pid payer (x # xs) L = spend_nullifiers R pid payer xs (L(?k := ?rec))"
    using L1 pda k by (simp add: x validate_account_writable_def NullifierRecord_init_def Let_def)
  have fresh: "?k \<notin> (nullifier_pda R pid \<circ> snd) ` set xs" using Cons.prems(2) x by auto
  have "m_writable (fst y) \<and> m_key (fst y) = nullifier_pda R pid (snd y) \<and>
      a_data ((L(?k := ?rec)) (nullifier_pda R pid (snd y))) = []" if "y \<in> set xs" for y
  proof -
    have "nullifier_pda R pid (snd y) \<noteq> ?k" using fresh that by force
    then show ?thesis using Cons.prems(1) that by simp
  qed
  moreover have "distinct (map (nullifier_pda R pid \<circ> snd) xs)" using Cons.prems(2) by (simp add: comp_def)
  ultimately obtain L' where L': "spend_nullifiers R pid payer xs (L(?k := ?rec)) = Inr L'"
    "\<forall>x \<in> set xs. is_record pid (L' (nullifier_pda R pid (snd x)))"
    "\<forall>k. k \<notin> (nullifier_pda R pid \<circ> snd) ` set xs \<longrightarrow> L' k = (L(?k := ?rec)) k"
    using Cons.IH [of "L(?k := ?rec)"] by blast
  then have "L' ?k = ?rec" using fresh by simp
  with L' step show ?case by (auto simp: x is_record_def)
qed simp

text \<open>The outputs as the program sees them are those of the options.\<close>

definition sdk_outputs :: "TransactData \<Rightarrow> (bytes \<times> bytes \<times> bytes option) list" where
  "sdk_outputs opt = map (\<lambda>i. (ta_commitmentsOut opt ! i, ta_stealthData opt ! i, map_option (\<lambda>memos. memos ! i) (ta_senderMemos opt)))
     [0..<ta_nOutputs opt]"

definition transact_ix :: "TransactData \<Rightarrow> bytes \<Rightarrow> TransactIx" where
  "transact_ix opt proof =
     \<lparr> tr_n_inputs = ta_nInputs opt, tr_n_outputs = ta_nOutputs opt,
       tr_body = \<lparr> jb_proof = proof, jb_merkle_root = ta_merkleRoot opt, jb_bound_params_hash = ta_boundParamsHash opt,
         jb_nullifiers = ta_nullifiers opt, jb_commitments_out = ta_commitmentsOut opt,
         jb_stealth = concat (ta_stealthData opt) \<rparr>,
       tr_memos = map_option concat (ta_senderMemos opt) \<rparr>"

lemma transact_ix_outputs:
  assumes "transact_ok opt"
  shows "transact_outputs (transact_ix opt pr) = sdk_outputs opt" "\<forall>x \<in> set (sdk_outputs opt). output_widths x"
    "map fst (sdk_outputs opt) = ta_commitmentsOut opt"
proof -
  note ok = assms [unfolded transact_ok_def joinsplit_ok_def]
  have sd: "js_slice (concat (ta_stealthData opt)) (i * 72) (i * 72 + 72) = ta_stealthData opt ! i" if "i < ta_nOutputs opt" for i
    using slice_concat [of "ta_stealthData opt" 72 i] ok that by simp
  have memo: "js_slice (concat memos) (i * 80) (i * 80 + 80) = memos ! i"
    if "i < ta_nOutputs opt" "ta_senderMemos opt = Some memos" for i memos
    using slice_concat [of memos 80 i] ok that by simp
  show "transact_outputs (transact_ix opt pr) = sdk_outputs opt"
    using sd memo by (cases "ta_senderMemos opt") (simp_all add: transact_outputs_def sdk_outputs_def transact_ix_def)
  show "\<forall>x \<in> set (sdk_outputs opt). output_widths x"
    using ok by (auto simp: sdk_outputs_def output_widths_def split: option.splits)
  show "map fst (sdk_outputs opt) = ta_commitmentsOut opt"
    using ok by (intro nth_equalityI) (simp_all add: sdk_outputs_def)
qed

lemma env_checks:
  assumes "transact_env R pid metas L opt" "ix = transact_ix opt pr" "bs ! 3 = of_nat (default_0 (ta_proofSource opt))" "default_0 (ta_proofSource opt) \<le> 1"
    and "compute_bound_params_hash_private_transfer (r_sha R) (r_chain_id R) (r_sha R (concat (ta_stealthData opt))) =
      Inr (ta_boundParamsHash opt)"
    and "CommitmentTree_from_bytes (a_data (L (m_key (metas ! 1)))) = Inr t" "is_valid_root t (ta_merkleRoot opt)"
  shows "transact_checks R pid metas bs ix L = Inr (metas ! 3)"
proof -
  note env = assms(1) [unfolded transact_env_def]
  have "transact_payer metas (ta_nInputs opt) (unat (bs ! 3)) = Inr (metas ! 3)"
    using env assms(3,4) by (cases "default_0 (ta_proofSource opt)") (auto simp: transact_payer_def Let_def)
  moreover have "check_state R pid metas ix L = Inr ()"
    using env assms(2,6,7) by (auto simp: check_state_def transact_ix_def split: sum.splits)
  ultimately show ?thesis
    using env assms(2,5) by (simp add: transact_checks_def Let_def transact_ix_def)
qed

lemma zip_take_left: "length ys \<le> n \<Longrightarrow> zip (take n xs) ys = zip xs ys"
  using take_zip [of n xs ys] by simp

lemma transact_effects_ok:
  assumes "zero_ok P" "syscall_ok P (r_poseidon R)" "create_ok R" "transact_ok opt"
    and "transact_env R pid metas L opt" "create_funded R pid (m_key payer)"
    and "a_data (L (m_key (metas ! 1))) = tree_bytes t" "chain_inv P ls t"
    and "\<forall>c \<in> set (ta_commitmentsOut opt). in_field (be_val c)" "length ls + ta_nOutputs opt \<le> 65536"
  shows "\<exists>L' t'. transact_effects R pid metas payer (transact_ix opt pr) L =
      Inr (L', [LogMsg ''UTXOpia: transact''] @ [LogData (emit_nullifiers_batch (ta_nullifiers opt) 2 13)]
        @ indexed output_logs (int (length ls)) (sdk_outputs opt)) \<and>
    (\<forall>n \<in> set (ta_nullifiers opt). is_record pid (L' (nullifier_pda R pid n))) \<and>
    a_data (L' (m_key (metas ! 1))) = tree_bytes t' \<and> chain_inv P (ls @ map be_val (ta_commitmentsOut opt)) t'"
proof -
  let ?tk = "m_key (metas ! 1)" and ?ns = "ta_nullifiers opt" and ?pda = "nullifier_pda R pid"
  note ok = assms(4) [unfolded transact_ok_def] and env = assms(5) [unfolded transact_env_def]
  have tree: "CommitmentTree_from_bytes (tree_bytes t) = Inr t" using tree_from_bytes(1) [OF assms(8), of "[]"] by simp
  define xs where "xs = zip (js_slice metas 5 (5 + ta_nInputs opt)) ?ns"
  have "xs = zip (drop 5 metas) ?ns" using ok by (simp add: xs_def js_slice_def zip_take_left)
  moreover have "map snd xs = ?ns" using env ok by (simp add: xs_def js_slice_def)
  ultimately have zip: "xs = zip (drop 5 metas) ?ns" "map snd xs = ?ns" by blast+
  have "\<exists>L1. spend_nullifiers R pid payer xs L = Inr L1 \<and> (\<forall>x \<in> set xs. is_record pid (L1 (?pda (snd x)))) \<and>
      (\<forall>k. k \<notin> (?pda \<circ> snd) ` set xs \<longrightarrow> L1 k = L k)"
    using env zip by (intro spend_nullifiers_succeeds [OF assms(3,6)]) (simp_all flip: map_map)
  then obtain L1 where L1: "spend_nullifiers R pid payer xs L = Inr L1" "\<forall>x \<in> set xs. is_record pid (L1 (?pda (snd x)))"
    "\<forall>k. k \<notin> (?pda \<circ> snd) ` set xs \<longrightarrow> L1 k = L k" by blast
  have tk: "?tk \<notin> (?pda \<circ> snd) ` set xs"
    using env zip(1) assms(7) tree_from_bytes(2) [OF assms(8)] by (fastforce simp: image_iff)
  note outs = transact_ix_outputs(1) [OF assms(4), of pr] transact_ix_outputs(2,3) [OF assms(4)]
  have "\<forall>x \<in> set (sdk_outputs opt). field_bytes (fst x)"
    using outs(2,3) assms(9) by (metis image_eqI list.set_map output_widths_def)
  moreover have "length ls + length (sdk_outputs opt) \<le> 65536" using assms(10) by (simp add: sdk_outputs_def)
  ultimately obtain t' where t': "insert_outputs (r_poseidon R) (sdk_outputs opt) t = Inr (t', indexed output_logs (int (length ls)) (sdk_outputs opt))"
    "chain_inv P (ls @ map (be_val \<circ> fst) (sdk_outputs opt)) t'"
    using insert_outputs_inv [OF assms(1,2,8)] by blast
  have leaves: "map (be_val \<circ> fst) (sdk_outputs opt) = map be_val (ta_commitmentsOut opt)"
    using outs(3) by (metis map_map)
  have "tr_n_inputs (transact_ix opt pr) = ta_nInputs opt" "jb_nullifiers (tr_body (transact_ix opt pr)) = ?ns"
    by (simp_all add: transact_ix_def)
  then have "transact_effects R pid metas payer (transact_ix opt pr) L = Inr (store_tree ?tk t' L1,
      [LogMsg ''UTXOpia: transact''] @ [LogData (emit_nullifiers_batch ?ns 2 13)] @ indexed output_logs (int (length ls)) (sdk_outputs opt))"
    using L1 tk tree t'(1) assms(7) outs(1) by (simp add: transact_effects_def Let_def xs_def [symmetric])
  moreover have "\<forall>n \<in> set ?ns. is_record pid (store_tree ?tk t' L1 (?pda n))"
    using L1(2) tk zip(2) by (force simp: store_tree_def simp flip: zip(2))
  moreover have "a_data (store_tree ?tk t' L1 ?tk) = tree_bytes t'"
    using L1(3) tk assms(7) tree_from_bytes(2) [OF assms(8)] by (simp add: store_tree_def COMMITMENT_TREE_LEN_def)
  ultimately show ?thesis using t'(2) unfolding leaves by blast
qed

lemma transact_logs_read:
  assumes "log_ok log" "transact_ok opt" "length ls + ta_nOutputs opt \<le> 65536"
  shows "parseProgramEvents (map (render_log log) ([LogMsg ''UTXOpia: transact''] @ [LogData (emit_nullifiers_batch (ta_nullifiers opt) 2 13)]
      @ indexed output_logs (int (length ls)) (sdk_outputs opt))) =
    Inr ((if ta_nInputs opt = 1 then [NullifierSpentEvent (ta_nullifiers opt ! 0) 2] else [])
      @ indexed output_events (int (length ls)) (sdk_outputs opt))" (is "parseProgramEvents (map _ ?logs) = _")
proof -
  have no: "length (sdk_outputs opt) = ta_nOutputs opt" by (simp add: sdk_outputs_def)
  have "reads log ?logs ([] @ (if length (ta_nullifiers opt) = 1 then [NullifierSpentEvent (ta_nullifiers opt ! 0) (uint (2::byte))] else [])
      @ indexed output_events (int (length ls)) (sdk_outputs opt))"
    using assms(2,3) no transact_ix_outputs(2) [OF assms(2)]
    by (intro reads_append reads_msg reads_nullifiers reads_outputs assms(1)) (simp_all add: joinsplit_ok_def transact_ok_def)
  then show ?thesis using assms(2) by (simp add: reads_def parseProgramEvents_def transact_ok_def)
qed

lemma built_bound_hash:
  assumes "sha_ok H" "computeStealthDataHash H sds = Inr sdh" "computeBoundParamsHash H (createTransferBoundParams sdh chain 0) = Inr h"
  shows "compute_bound_params_hash_private_transfer H chain (H (concat sds)) = Inr (bigintToBytes h)"
proof -
  have "sdh = H (concat sds)" using assms(2) by (simp add: computeStealthDataHash_def concat_loop_eq)
  moreover have "length sdh = 32" using calculation assms(1) by (simp add: sha_ok_def)
  ultimately show ?thesis using transfer_hash_matches [OF assms(1), of sdh chain] assms(3) by simp
qed

lemma transact_executes:
  assumes "zero_ok P" "syscall_ok P (r_poseidon R)" "sha_ok (r_sha R)" "log_ok log" "create_ok R"
    and "transact_ok opt" "given_proof R metas L opt = Inr pr"
    and "computeStealthDataHash (r_sha R) (ta_stealthData opt) = Inr sdh"
    and "computeBoundParamsHash (r_sha R) (createTransferBoundParams sdh (r_chain_id R) 0) = Inr h"
    and "ta_boundParamsHash opt = bigintToBytes h"
    and "transact_env R pid metas L opt" "create_funded R pid (m_key (metas ! 3))"
    and "a_data (L (m_key (metas ! 1))) = tree_bytes t" "chain_inv P ls t" "is_valid_root t (ta_merkleRoot opt)"
    and "\<forall>c \<in> set (ta_commitmentsOut opt). in_field (be_val c)" "length ls + ta_nOutputs opt \<le> 65536"
    and "r_verify_joinsplit R (ta_nInputs opt) (ta_nOutputs opt) pr
      ([ta_merkleRoot opt, ta_boundParamsHash opt] @ ta_nullifiers opt @ ta_commitmentsOut opt) = Inr ()"
  shows "\<exists>bs L' logs t'. buildTransactInstructionData opt = Inr (13 # bs) \<and>
    process_transact R pid metas bs L = Inr (L', logs) \<and>
    (\<forall>n \<in> set (ta_nullifiers opt). is_record pid (L' (nullifier_pda R pid n))) \<and>
    a_data (L' (m_key (metas ! 1))) = tree_bytes t' \<and> chain_inv P (ls @ map be_val (ta_commitmentsOut opt)) t' \<and>
    parseProgramEvents (map (render_log log) logs) =
      Inr ((if ta_nInputs opt = 1 then [NullifierSpentEvent (ta_nullifiers opt ! 0) 2] else [])
           @ indexed output_events (int (length ls)) (sdk_outputs opt))"
proof -
  define ix where "ix = transact_ix opt pr"
  define bs where "bs = transact_bytes opt"
  have built: "buildTransactInstructionData opt = Inr (13 # bs)" using transact_built [OF assms(6)] by (simp add: bs_def)
  then have parsed: "parse_transact bs (proof_buffer R metas L) = Inr ix"
    using transact_parsed [OF assms(6), of "proof_buffer R metas L"] assms(7) by (simp add: given_proof_def ix_def transact_ix_def split: if_splits)
  have b3: "bs ! 3 = of_nat (default_0 (ta_proofSource opt))" "default_0 (ta_proofSource opt) \<le> 1"
    using assms(6) by (simp_all add: bs_def transact_bytes_def joinsplit_bytes_header transact_ok_def)
  have bound: "compute_bound_params_hash_private_transfer (r_sha R) (r_chain_id R) (r_sha R (concat (ta_stealthData opt))) =
      Inr (ta_boundParamsHash opt)"
    using built_bound_hash [OF assms(3,8,9)] assms(10) by simp
  have checks: "transact_checks R pid metas bs ix L = Inr (metas ! 3)"
    using env_checks [OF assms(11) ix_def b3(1,2) bound] tree_from_bytes(1) [OF assms(14), of "[]"] assms(13,15) by simp
  have ixf: "tr_n_inputs ix = ta_nInputs opt" "tr_n_outputs ix = ta_nOutputs opt" "jb_nullifiers (tr_body ix) = ta_nullifiers opt"
    "jb_proof (tr_body ix) = pr" "jb_merkle_root (tr_body ix) = ta_merkleRoot opt"
    "jb_bound_params_hash (tr_body ix) = ta_boundParamsHash opt" "jb_commitments_out (tr_body ix) = ta_commitmentsOut opt"
    by (simp_all add: ix_def transact_ix_def)
  have "process_transact R pid metas bs L = transact_effects R pid metas (metas ! 3) ix L"
    using parsed checks assms(18) by (simp add: process_transact_def ixf)
  with built transact_effects_ok [OF assms(1,2,5,6,11,12,13,14,16,17), of pr, folded ix_def]
    transact_logs_read [OF assms(4,6,17)] show ?thesis by metis
qed

text \<open>
  (C1) From the SDK through the program and back. Take a transaction built by the SDK with the hash
  of its bound parameters, a root that the program still accepts, commitments in the field and room
  in the tree, and accounts as required, with a payer that can pay and a proof, inline or in a buffer, that verifies. Then the program accepts it; every nullifier is
  recorded; the tree account holds the old leaves followed by the commitments, in order; and from
  the log of the program the SDK reads an announcement for each output with its leaf index, its
  stealth data and, if sent, its memo (and the nullifier, when there is exactly one).
\<close>

theorem transact_end_to_end:
  assumes "zero_ok P" "syscall_ok P (r_poseidon R)" "sha_ok (r_sha R)" "log_ok log" "create_ok R"
    and "transact_ok opt" "given_proof R metas L opt = Inr pr"
    and "computeStealthDataHash (r_sha R) (ta_stealthData opt) = Inr sdh"
    and "computeBoundParamsHash (r_sha R) (createTransferBoundParams sdh (r_chain_id R) 0) = Inr h"
    and "ta_boundParamsHash opt = bigintToBytes h"
    and "transact_env R pid metas L opt" "create_funded R pid (m_key (metas ! 3))"
    and "a_data (L (m_key (metas ! 1))) = tree_bytes t" "chain_inv P ls t" "is_valid_root t (ta_merkleRoot opt)"
    and "\<forall>c \<in> set (ta_commitmentsOut opt). in_field (be_val c)" "length ls + ta_nOutputs opt \<le> 65536"
    and "r_verify_joinsplit R (ta_nInputs opt) (ta_nOutputs opt) pr
      ([ta_merkleRoot opt, ta_boundParamsHash opt] @ ta_nullifiers opt @ ta_commitmentsOut opt) = Inr ()"
  shows "\<exists>bs L' logs t'. buildTransactInstructionData opt = Inr (13 # bs) \<and>
    process_transact R pid metas bs L = Inr (L', logs) \<and>
    (\<forall>n \<in> set (ta_nullifiers opt). is_record pid (L' (nullifier_pda R pid n))) \<and>
    a_data (L' (m_key (metas ! 1))) = tree_bytes t' \<and> chain_inv P (ls @ map be_val (ta_commitmentsOut opt)) t' \<and>
    parseProgramEvents (map (render_log log) logs) =
      Inr ((if ta_nInputs opt = 1 then [NullifierSpentEvent (ta_nullifiers opt ! 0) 2] else [])
           @ indexed output_events (int (length ls)) (sdk_outputs opt))"
  using assms by (rule transact_executes)

section \<open>A concrete transaction\<close>

definition sample_pid :: bytes where "sample_pid = replicate 32 8"

definition sample_hash :: int where
  "sample_hash = (case computeStealthDataHash sample_sha (ta_stealthData sample_transact) of Inl _ \<Rightarrow> 0 | Inr sdh \<Rightarrow>
     (case computeBoundParamsHash sample_sha (createTransferBoundParams sdh 103 0) of Inl _ \<Rightarrow> 0 | Inr h \<Rightarrow> h))"

definition sample_payment :: TransactData where
  "sample_payment = sample_transact\<lparr> ta_merkleRoot := rt_current_root tree_init, ta_boundParamsHash := bigintToBytes sample_hash,
     ta_commitmentsOut := [be_bytes 32 11, be_bytes 32 12] \<rparr>"

definition sample_ledger :: ledger where
  "sample_ledger = (\<lambda>k. \<lparr> a_owner = replicate 32 0, a_data = [] \<rparr>)
     ([1] := \<lparr> a_owner = sample_pid, a_data = [1, 0, 0] @ replicate 265 0 \<rparr>,
      [0, 0, 0, 0] := \<lparr> a_owner = sample_pid, a_data = tree_bytes tree_init \<rparr>,
      [2] := \<lparr> a_owner = sample_pid, a_data = [0x14, 0, 1, 2] @ replicate 252 0 \<rparr>)"

definition sample_metas :: "AccountInfo list" where
  "sample_metas = [\<lparr> m_key = [1], m_signer = False, m_writable = True \<rparr>, \<lparr> m_key = [0, 0, 0, 0], m_signer = False, m_writable = True \<rparr>,
     \<lparr> m_key = [2], m_signer = False, m_writable = False \<rparr>, \<lparr> m_key = [3], m_signer = True, m_writable = True \<rparr>,
     \<lparr> m_key = replicate 32 0, m_signer = False, m_writable = False \<rparr>, \<lparr> m_key = replicate 32 3, m_signer = False, m_writable = True \<rparr>]"

lemma sample_payment_ok: "transact_ok sample_payment" "ta_proofSource sample_payment = None"
  "ta_nInputs sample_payment = 1" "ta_nOutputs sample_payment = 2" "ta_nullifiers sample_payment = [replicate 32 3]"
  "ta_commitmentsOut sample_payment = [be_bytes 32 11, be_bytes 32 12]"
proof -
  have "length (rt_current_root tree_init) = 32" using chain_inv_init [OF sample_zero_ok] by (simp add: chain_inv_def)
  then show "transact_ok sample_payment"
    by (simp add: sample_payment_def transact_ok_def sample_transact_def joinsplit_ok_def counts_ok_def default_0_def)
qed (simp_all add: sample_payment_def sample_transact_def)

lemma sample_bound:
  "\<exists>sdh. computeStealthDataHash sample_sha (ta_stealthData sample_payment) = Inr sdh \<and>
    computeBoundParamsHash sample_sha (createTransferBoundParams sdh 103 0) = Inr sample_hash"
proof -
  have sd: "ta_stealthData sample_payment = ta_stealthData sample_transact" by (simp add: sample_payment_def)
  have c: "computeStealthDataHash sample_sha (ta_stealthData sample_transact) = Inr (sample_sha (concat (ta_stealthData sample_transact)))"
    by (simp add: computeStealthDataHash_def concat_loop_eq)
  moreover have "length (sample_sha (concat (ta_stealthData sample_transact))) = 32" using sample_sha_ok by (simp add: sha_ok_def)
  ultimately show ?thesis
    using transfer_hash_matches [OF sample_sha_ok, of "sample_sha (concat (ta_stealthData sample_transact))" 103]
    by (auto simp: sd sample_hash_def)
qed

lemma sample_env: "transact_env sample_runtime sample_pid sample_metas sample_ledger sample_payment"
proof -
  have ne: "replicate 32 (3::byte) \<noteq> [1]" "replicate 32 (3::byte) \<noteq> [2]" "replicate 32 (3::byte) \<noteq> [0, 0, 0, 0]"
    by (auto dest: arg_cong [where f = length])
  have "check_accounts sample_runtime sample_pid sample_metas sample_ledger = Inr ()"
    by (simp add: check_accounts_def sample_metas_def sample_ledger_def validate_program_owner_def
        validate_system_program_def validate_account_writable_def)
  moreover have "le_bytes 4 0 = [0, 0, 0, 0 :: byte]" by (simp add: numeral_eq_Suc)
  moreover have "le_val (js_slice ([1, 0, 0] @ replicate 265 (0::byte)) 258 262) = 0"
    by (simp add: js_slice_def numeral_eq_Suc)
  ultimately show ?thesis
    using ne by (simp add: transact_env_def sample_payment_ok sample_metas_def sample_ledger_def PoolState_from_bytes_def is_paused_def
        validate_active_tree_pda_def VkRegistry_from_bytes_def nullifier_pda_def sample_runtime_def default_0_def del: le_bytes.simps)
qed

lemma sample_tree: "a_data (sample_ledger (m_key (sample_metas ! 1))) = tree_bytes tree_init"
  "chain_inv sample_poseidon [] tree_init" "is_valid_root tree_init (ta_merkleRoot sample_payment)"
  using chain_inv_init [OF sample_zero_ok]
  by (simp_all add: sample_ledger_def sample_metas_def is_valid_root_def sample_payment_def)

lemma sample_rt: "r_sha sample_runtime = sample_sha" "r_poseidon sample_runtime = sample_hashv" "r_chain_id sample_runtime = 103"
  "r_verify_joinsplit sample_runtime n m pr xs = Inr ()" "create_funded sample_runtime pid payer"
  by (simp_all add: sample_runtime_def create_funded_def sample_create_def)

lemma sample_commitments: "\<forall>c \<in> set (ta_commitmentsOut sample_payment). in_field (be_val c)"
  by (simp add: sample_payment_ok in_field_def BN254_SCALAR_FIELD_def)

theorem transact_end_to_end_witness:
  "\<exists>bs L' logs t'. buildTransactInstructionData sample_payment = Inr (13 # bs) \<and>
    process_transact sample_runtime sample_pid sample_metas bs sample_ledger = Inr (L', logs) \<and>
    chain_inv sample_poseidon [11, 12] t' \<and> a_data (L' [0, 0, 0, 0]) = tree_bytes t'"
proof -
  obtain sdh where sdh: "computeStealthDataHash sample_sha (ta_stealthData sample_payment) = Inr sdh"
    "computeBoundParamsHash sample_sha (createTransferBoundParams sdh 103 0) = Inr sample_hash"
    using sample_bound by blast
  have b: "ta_boundParamsHash sample_payment = bigintToBytes sample_hash" by (simp add: sample_payment_def)
  have k: "m_key (sample_metas ! 1) = [0, 0, 0, 0]" "map be_val (ta_commitmentsOut sample_payment) = [11, 12]"
    by (simp_all add: sample_metas_def sample_payment_ok in_field_def BN254_SCALAR_FIELD_def)
  have room: "length ([] :: int list) + ta_nOutputs sample_payment \<le> 65536" by (simp add: sample_payment_ok)
  have pr: "given_proof sample_runtime sample_metas sample_ledger sample_payment = Inr (the (ta_proofBytes sample_payment))"
    by (simp add: given_proof_def default_0_def sample_payment_ok)
  show ?thesis
    using transact_end_to_end [of sample_poseidon sample_runtime, unfolded sample_rt, OF sample_zero_ok sample_syscall_ok sample_sha_ok
        sample_log_ok sample_create_ok sample_payment_ok(1) pr sdh b sample_env sample_rt(5) sample_tree sample_commitments room refl]
    unfolding k by auto
qed

section \<open>Double spending\<close>

text \<open>
  (C3) No double spend. In every history of the ledger the nullifiers of all successful \<open>transact\<close>
  calls are different, also within one call, and a call that names a nullifier spent before fails.
\<close>

theorem no_double_spend:
  assumes "create_ok R" "history R pid L spent"
  shows "distinct spent \<and> (\<forall>metas bs ix n. parse_transact bs (proof_buffer R metas L) = Inr ix \<longrightarrow>
    n \<in> set (jb_nullifiers (tr_body ix)) \<longrightarrow> n \<in> set spent \<longrightarrow> (\<exists>e. process_transact R pid metas bs L = Inl e))"
proof (intro conjI allI impI)
  note rec = history_records [OF assms(2,1)]
  show "distinct spent" using rec by simp
  fix metas bs ix n
  assume ix: "parse_transact bs (proof_buffer R metas L) = Inr ix" "n \<in> set (jb_nullifiers (tr_body ix))" "n \<in> set spent"
  show "\<exists>e. process_transact R pid metas bs L = Inl e"
  proof (cases "process_transact R pid metas bs L")
    case (Inr r)
    then have "a_data (L (nullifier_pda R pid n)) = []"
      using transact_spends(2) [OF assms(1) _ ix(1), of pid "fst r" "snd r"] ix(2) by simp
    with rec ix(3) show ?thesis by (auto simp: is_record_def)
  qed simp
qed

theorem no_double_spend_witness:
  "\<exists>bs L' logs e. process_transact sample_runtime sample_pid sample_metas bs sample_ledger = Inr (L', logs) \<and>
    history sample_runtime sample_pid L' [replicate 32 3] \<and>
    process_transact sample_runtime sample_pid sample_metas bs L' = Inl e"
proof -
  obtain sdh where sdh: "computeStealthDataHash sample_sha (ta_stealthData sample_payment) = Inr sdh"
    "computeBoundParamsHash sample_sha (createTransferBoundParams sdh 103 0) = Inr sample_hash"
    using sample_bound by blast
  have b: "ta_boundParamsHash sample_payment = bigintToBytes sample_hash" by (simp add: sample_payment_def)
  have room: "length ([] :: int list) + ta_nOutputs sample_payment \<le> 65536" by (simp add: sample_payment_ok)
  have pr: "given_proof sample_runtime sample_metas sample_ledger sample_payment = Inr (the (ta_proofBytes sample_payment))"
    by (simp add: given_proof_def default_0_def sample_payment_ok)
  obtain bs L' logs where run: "buildTransactInstructionData sample_payment = Inr (13 # bs)"
    "process_transact sample_runtime sample_pid sample_metas bs sample_ledger = Inr (L', logs)"
    using transact_executes [of sample_poseidon sample_runtime, unfolded sample_rt, OF sample_zero_ok sample_syscall_ok sample_sha_ok
        sample_log_ok sample_create_ok sample_payment_ok(1) pr sdh b sample_env sample_rt(5) sample_tree sample_commitments room refl]
    by blast
  have p: "\<exists>ix. parse_transact bs acct = Inr ix \<and> jb_nullifiers (tr_body ix) = [replicate 32 3]" for acct
    using transact_parsed [OF sample_payment_ok(1), of acct] run(1) by (auto simp: sample_payment_ok default_0_def)
  obtain ix where ix: "parse_transact bs (proof_buffer sample_runtime sample_metas sample_ledger) = Inr ix"
    "jb_nullifiers (tr_body ix) = [replicate 32 3]" using p by blast
  have h: "history sample_runtime sample_pid L' [replicate 32 3]"
    using history.transact [OF history.start run(2) ix(1)] ix(2) by simp
  from no_double_spend [OF sample_create_ok h] p obtain e where "process_transact sample_runtime sample_pid sample_metas bs L' = Inl e"
    by (metis list.set_intros(1))
  with run h show ?thesis by blast
qed

end
