(* ===== verification/Chadbuffer.thy ===== *)
theory Chadbuffer
  imports Onchain_Transact
begin

text \<open>
  Proof and transaction buffers: \<open>src/sdk/src/chadbuffer.ts\<close>, which uploads data in chunks to an account of
  the ChadBuffer program, and \<open>contracts/programs/utxopia/src/utils/chadbuffer.rs\<close>, which reads it.
  The ChadBuffer program is not part of the repository: it is a parameter with the behaviour the
  sources document. Also the base58 encoder of addresses, inverse to the decoder of
  \<open>instructions.ts\<close>. What is sent to the network is a list of transactions.
\<close>

section \<open>The SDK\<close>

definition AUTHORITY_SIZE :: nat where "AUTHORITY_SIZE = 32"
definition SOLANA_TX_SIZE_LIMIT :: nat where "SOLANA_TX_SIZE_LIMIT = 1232"
definition WRITE_TX_OVERHEAD :: nat where "WRITE_TX_OVERHEAD = 176"
definition MAX_DATA_PER_WRITE :: nat where "MAX_DATA_PER_WRITE = SOLANA_TX_SIZE_LIMIT - WRITE_TX_OVERHEAD"

lemma MAX_DATA_PER_WRITE_eq: "MAX_DATA_PER_WRITE = 1056"
  by (simp add: MAX_DATA_PER_WRITE_def SOLANA_TX_SIZE_LIMIT_def WRITE_TX_OVERHEAD_def)

datatype ChadBufferInstruction = Create | Assign | Write | Close

fun chad_disc :: "ChadBufferInstruction \<Rightarrow> int" where
  "chad_disc Create = 0" | "chad_disc Assign = 1" | "chad_disc Write = 2" | "chad_disc Close = 3"

definition createInitInstructionData :: "bytes \<Rightarrow> bytes result" where
  "createInitInstructionData data = build (1 + length data) [PutByte (chad_disc Create), PutBytes data (length data)]"

definition createWriteInstructionData :: "int \<Rightarrow> bytes \<Rightarrow> bytes result" where
  "createWriteInstructionData offset data =
     build (1 + 3 + length data)
       [PutByte (chad_disc Write), PutByte (offset AND 0xff), PutByte (drop_bit 8 offset AND 0xff),
        PutByte (drop_bit 16 offset AND 0xff), PutBytes data (length data)]"

definition createCloseInstructionData :: bytes where
  "createCloseInstructionData = [word_of_int (chad_disc Close)]"

text \<open>The loop of \<open>splitIntoChunks\<close> from index \<open>i\<close> on.\<close>

function chunks_from :: "bytes \<Rightarrow> nat \<Rightarrow> nat \<Rightarrow> bytes list" where
  "chunks_from data chunkSize i =
     (if i < length data \<and> 0 < chunkSize
      then js_slice data i (min (i + chunkSize) (length data)) # chunks_from data chunkSize (i + chunkSize) else [])"
  by pat_completeness auto
termination by (relation "measure (\<lambda>(data, c, i). length data - i)") auto

declare chunks_from.simps [simp del]

definition splitIntoChunks :: "bytes \<Rightarrow> nat \<Rightarrow> bytes list" where
  "splitIntoChunks data chunkSize = chunks_from data chunkSize 0"

datatype upload_tx = CreateAccountTx nat | ChadTx bytes

fun write_txs :: "nat \<Rightarrow> bytes list \<Rightarrow> upload_tx list result" where
  "write_txs offset [] = Inr []"
| "write_txs offset (chunk # parts) =
     js_bind (createWriteInstructionData (int offset) chunk) (\<lambda>d.
     js_bind (write_txs (offset + length chunk) parts) (\<lambda>txs. Inr (ChadTx d # txs)))"

text \<open>
  The transactions in the order they are confirmed, and how the function ends. Without data there
  is no first chunk, and the access to it throws after the account has been created.
\<close>

definition uploadTransactionToBuffer :: "bytes \<Rightarrow> upload_tx list \<times> unit result" where
  "uploadTransactionToBuffer rawTx =
     (let space = AUTHORITY_SIZE + length rawTx; parts = splitIntoChunks rawTx MAX_DATA_PER_WRITE in
      case parts of
        [] \<Rightarrow> ([CreateAccountTx space], Inl TypeError)
      | chunk # rest \<Rightarrow>
          (case js_bind (createInitInstructionData chunk) (\<lambda>d. js_bind (write_txs (length chunk) rest) (\<lambda>txs. Inr (ChadTx d # txs))) of
             Inl e \<Rightarrow> ([CreateAccountTx space], Inl e)
           | Inr txs \<Rightarrow> (CreateAccountTx space # txs, Inr ())))"

definition padTo64Bytes :: "bytes \<Rightarrow> bytes result" where
  "padTo64Bytes seed32 = js_set (replicate 64 0) seed32 0"

function base58_digits :: "nat \<Rightarrow> string \<Rightarrow> string" where
  "base58_digits num res = (if num > 0 then base58_digits (num div 58) ((ALPHABET ! (num mod 58)) # res) else res)"
  by pat_completeness auto
termination by (relation "measure fst") auto

declare base58_digits.simps [simp del]

definition bytes_num :: "bytes \<Rightarrow> nat" where
  "bytes_num bs = foldl (\<lambda>num b. num * 256 + unat b) 0 bs"

definition bs58Encode :: "bytes \<Rightarrow> string" where
  "bs58Encode bs =
     (let res = replicate (length (takeWhile (\<lambda>b. b = 0) bs)) CHR ''1'' @ base58_digits (bytes_num bs) []
      in if res = [] then ''1'' else res)"

definition readBufferData :: "bytes option \<Rightarrow> (string \<times> bytes) result" where
  "readBufferData accountInfo =
     (case accountInfo of
        None \<Rightarrow> Inl (Error ''Buffer account not found'')
      | Some rawData \<Rightarrow>
          Inr (bs58Encode (js_slice rawData 0 AUTHORITY_SIZE), js_slice rawData AUTHORITY_SIZE (length rawData)))"

definition buildMerkleProof :: "bytes \<Rightarrow> bytes list \<Rightarrow> int \<Rightarrow> bytes result" where
  "buildMerkleProof txidBytes merkleProof txIndex =
     (if length txidBytes \<noteq> 32 then Inl (Error ''txid must be 32 bytes'')
      else if (\<exists>sibling \<in> set merkleProof. length sibling \<noteq> 32) then Inl (Error ''Each sibling must be 32 bytes'')
      else
        build (32 + 1 + length merkleProof * 32 + 4)
          ([PutBytes txidBytes 32, PutByte (int (length merkleProof))]
           @ map (\<lambda>sibling. PutBytes sibling 32) merkleProof @ [PutLE 4 txIndex]))"

definition needsBuffer :: "bytes \<Rightarrow> nat \<Rightarrow> bool" where
  "needsBuffer proofBytes availableSpace \<longleftrightarrow> length proofBytes > availableSpace"

datatype proof_source = inline_source | buffer_source

definition getProofSource :: "bytes \<Rightarrow> proof_source" where
  "getProofSource proofBytes = (if needsBuffer proofBytes 900 then buffer_source else inline_source)"

definition ceil_div :: "nat \<Rightarrow> nat \<Rightarrow> nat" where
  "ceil_div a b = (a + b - 1) div b"

record ProofUploadResult =
  pu_usedBuffer :: bool
  pu_chunksUploaded :: nat
  pu_proofSize :: nat

definition uploadProofToBuffer :: "bytes \<Rightarrow> upload_tx list \<times> ProofUploadResult result" where
  "uploadProofToBuffer proofBytes =
     (if \<not> needsBuffer proofBytes 900
      then ([], Inr \<lparr> pu_usedBuffer = False, pu_chunksUploaded = 0, pu_proofSize = length proofBytes \<rparr>)
      else
        (let (txs, r) = uploadTransactionToBuffer proofBytes in
         (txs, js_bind r (\<lambda>_. Inr \<lparr> pu_usedBuffer = True, pu_chunksUploaded = ceil_div (length proofBytes) MAX_DATA_PER_WRITE,
            pu_proofSize = length proofBytes \<rparr>))))"

definition calculateUploadTransactions :: "nat \<Rightarrow> bool \<Rightarrow> nat" where
  "calculateUploadTransactions proofSize useBuffer =
     (if \<not> useBuffer then 0 else 1 + ceil_div proofSize MAX_DATA_PER_WRITE)"

section \<open>The program\<close>

definition BUFFER_HEADER_SIZE :: nat where "BUFFER_HEADER_SIZE = 32"

definition read_transaction_from_buffer :: "bytes \<Rightarrow> nat \<Rightarrow> bytes pres" where
  "read_transaction_from_buffer buffer_data transaction_size =
     (if length buffer_data < BUFFER_HEADER_SIZE + 1 then Inl InvalidAccountData
      else
        (let expected_size = BUFFER_HEADER_SIZE + transaction_size in
         if length buffer_data < expected_size then Inl InvalidAccountData
         else Inr (js_slice buffer_data BUFFER_HEADER_SIZE expected_size)))"

definition validate_buffer_account :: "bytes \<Rightarrow> bytes option \<Rightarrow> unit pres" where
  "validate_buffer_account account_data expected_authority =
     (if length account_data < BUFFER_HEADER_SIZE then Inl InvalidAccountData
      else case expected_authority of
        None \<Rightarrow> Inr ()
      | Some authority \<Rightarrow> if js_slice account_data 0 32 \<noteq> authority then Inl InvalidAccountData else Inr ())"

definition get_buffer_authority :: "bytes \<Rightarrow> bytes pres" where
  "get_buffer_authority buffer_data =
     (if length buffer_data < BUFFER_HEADER_SIZE then Inl InvalidAccountData else Inr (js_slice buffer_data 0 32))"

section \<open>Base58\<close>

lemma alphabet_distinct: "distinct ALPHABET" "length ALPHABET = 58"
  by (simp_all add: ALPHABET_def)

lemma alphabet_index_nth: "v < 58 \<Longrightarrow> alphabet_index (ALPHABET ! v) = Some v"
  unfolding alphabet_index_def using alphabet_distinct map_of_zip_nth [of ALPHABET "[0..<58]" v] by simp

lemma alphabet_nth_one: "v < 58 \<Longrightarrow> ALPHABET ! v = CHR ''1'' \<longleftrightarrow> v = 0"
proof -
  have "ALPHABET ! 0 = CHR ''1''" by (simp add: ALPHABET_def)
  then show "v < 58 \<Longrightarrow> ALPHABET ! v = CHR ''1'' \<longleftrightarrow> v = 0"
    using alphabet_distinct nth_eq_iff_index_eq [of ALPHABET v 0] by simp
qed

lemma base58_num_digits: "base58_num (base58_digits num acc) 0 = base58_num acc num"
proof (induction num acc rule: base58_digits.induct)
  case (1 num acc)
  then show ?case
    by (subst base58_digits.simps) (simp add: alphabet_index_nth)
qed

lemma base58_digits_head: "0 < num \<Longrightarrow> \<exists>c cs. base58_digits num acc = c # cs \<and> c \<noteq> CHR ''1''"
proof (induction num acc rule: base58_digits.induct)
  case (1 num acc)
  show ?case
  proof (cases "num div 58 = 0")
    case True
    then have "base58_digits num acc = (ALPHABET ! num) # acc" "num < 58"
      using 1(2) by (simp_all add: base58_digits.simps [of num acc] base58_digits.simps [of 0])
    then show ?thesis using 1(2) alphabet_nth_one [of num] by simp
  next
    case False
    then show ?thesis using 1 by (subst base58_digits.simps) simp
  qed
qed

lemma base58_num_ones: "base58_num (replicate n CHR ''1'' @ s) 0 = base58_num s 0"
proof -
  have "alphabet_index (CHR ''1'') = Some 0" using alphabet_index_nth [of 0] alphabet_nth_one [of 0] by simp
  then show ?thesis by (induction n) simp_all
qed

lemma bytes_num_snoc: "bytes_num (xs @ [b]) = bytes_num xs * 256 + unat b"
  by (simp add: bytes_num_def)

lemma bytes_num_zeros: "bytes_num (replicate n 0 @ xs) = bytes_num xs"
proof (induction xs rule: rev_induct)
  case Nil
  show ?case by (induction n) (simp_all add: bytes_num_def)
next
  case (snoc b xs)
  then show ?case by (simp add: bytes_num_snoc flip: append_assoc)
qed

lemma bytes_num_pos: "xs \<noteq> [] \<Longrightarrow> hd xs \<noteq> 0 \<Longrightarrow> 0 < bytes_num xs"
proof (induction xs rule: rev_induct)
  case (snoc b xs)
  then show ?case by (cases xs) (auto simp: bytes_num_snoc bytes_num_def unat_gt_0)
qed simp

lemma unshift_bytes_num: "xs = [] \<or> hd xs \<noteq> 0 \<Longrightarrow> unshift_bytes (bytes_num xs) acc = xs @ acc"
proof (induction xs arbitrary: acc rule: rev_induct)
  case Nil
  then show ?case by (simp add: bytes_num_def unshift_bytes.simps)
next
  case (snoc b xs)
  have "0 < bytes_num (xs @ [b])" using snoc.prems by (intro bytes_num_pos) simp_all
  moreover have "unat b < 256" using unsigned_less [of b, where ?'a = nat] by simp
  ultimately have "unshift_bytes (bytes_num (xs @ [b])) acc = unshift_bytes (bytes_num xs) (b # acc)"
    by (subst unshift_bytes.simps) (simp add: bytes_num_snoc)
  also have "\<dots> = xs @ b # acc" using snoc by (cases xs) (auto intro: snoc.IH)
  finally show ?case by simp
qed

text \<open>
  Addresses of 32 bytes survive their base58 text: what \<open>bs58Encode\<close> writes, \<open>bs58Decode\<close> reads,
  leading zero bytes included.
\<close>

theorem address_roundtrip:
  assumes "length bs = 32"
  shows "addressToBytes (bs58Encode bs) = Inr bs"
proof -
  define z where "z = length (takeWhile (\<lambda>b. b = 0) bs)"
  define rest where "rest = dropWhile (\<lambda>b. b = 0) bs"
  have "takeWhile (\<lambda>b. b = 0) bs = replicate z 0"
    by (intro replicate_eqI) (auto simp: z_def dest: set_takeWhileD)
  then have bs: "bs = replicate z 0 @ rest" unfolding rest_def by (metis takeWhile_dropWhile_id)
  have rest: "rest = [] \<or> hd rest \<noteq> 0" unfolding rest_def using hd_dropWhile [of "\<lambda>b. b = 0" bs] by blast
  let ?ds = "base58_digits (bytes_num rest) []"
  have "bytes_num [] = 0" "base58_digits 0 [] = []" by (simp_all add: bytes_num_def base58_digits.simps)
  then have ds: "rest = [] \<and> ?ds = [] \<or> (\<exists>c cs. ?ds = c # cs \<and> c \<noteq> CHR ''1'')"
    using rest base58_digits_head [of "bytes_num rest" "[]"] bytes_num_pos [of rest] by metis
  have ne: "replicate z CHR ''1'' @ ?ds \<noteq> []" using ds assms by (auto simp: bs)
  then have enc: "bs58Encode bs = replicate z CHR ''1'' @ ?ds"
    unfolding bs58Encode_def z_def [symmetric] by (simp add: bs bytes_num_zeros Let_def del: append_is_Nil_conv)
  have "base58_num (replicate z CHR ''1'' @ ?ds) 0 = Inr (bytes_num rest)"
    by (simp add: base58_num_ones base58_num_digits)
  moreover have "takeWhile (\<lambda>c. c = CHR ''1'') ?ds = []" using ds by auto
  then have "length (takeWhile (\<lambda>c. c = CHR ''1'') (replicate z CHR ''1'' @ ?ds)) = z" by (subst takeWhile_append2) auto
  ultimately show ?thesis
    unfolding addressToBytes_def bs58Decode_def enc
    using assms unshift_bytes_num [OF rest, of "[]"] by (simp add: bs Let_def)
qed

theorem address_roundtrip_witness:
  "addressToBytes (bs58Encode (replicate 2 0 @ replicate 30 7)) = Inr (replicate 2 0 @ replicate 30 7)"
  using address_roundtrip [of "replicate 2 0 @ replicate 30 7"] by simp

section \<open>Uploads\<close>

text \<open>
  The ChadBuffer program as the sources describe it: it keeps the authority in the first 32 bytes;
  initialisation sets the authority and writes the data behind it; a write puts its data at a
  24-bit offset behind the authority, if the signer is the authority. Both need the room.
\<close>

type_synonym chad_program = "bytes \<Rightarrow> bytes \<Rightarrow> bytes \<Rightarrow> bytes option"

definition chad_ok :: "chad_program \<Rightarrow> bool" where
  "chad_ok chad \<longleftrightarrow>
     (\<forall>payer d acct. length payer = 32 \<longrightarrow> 32 + length d \<le> length acct \<longrightarrow>
        chad payer (0 # d) acct = Some (payer @ d @ drop (32 + length d) acct)) \<and>
     (\<forall>payer off d acct. take 32 acct = payer \<longrightarrow> fits 3 (int off) \<longrightarrow> 32 + off + length d \<le> length acct \<longrightarrow>
        chad payer (2 # le_bytes 3 (int off) @ d) acct = Some (take (32 + off) acct @ d @ drop (32 + off + length d) acct))"

definition sample_chad :: chad_program where
  "sample_chad payer ix acct =
     (case ix of
        [] \<Rightarrow> None
      | op # d \<Rightarrow>
          if op = 0 then Some (payer @ d @ drop (32 + length d) acct)
          else if op = 2 \<and> take 32 acct = payer
          then (let off = nat (le_val (take 3 d)) in Some (take (32 + off) acct @ drop 3 d @ drop (32 + off + length (drop 3 d)) acct))
          else None)"

lemma sample_chad_ok: "chad_ok sample_chad"
  by (auto simp: chad_ok_def sample_chad_def le_val_le_bytes fits_def Let_def simp del: le_bytes.simps)

fun run_uploads :: "chad_program \<Rightarrow> bytes \<Rightarrow> upload_tx list \<Rightarrow> bytes \<Rightarrow> bytes option" where
  "run_uploads chad payer [] acct = Some acct"
| "run_uploads chad payer (CreateAccountTx space # txs) acct = run_uploads chad payer txs (replicate space 0)"
| "run_uploads chad payer (ChadTx d # txs) acct = Option.bind (chad payer d acct) (run_uploads chad payer txs)"

lemma write_data: "createWriteInstructionData (int off) d = Inr (2 # le_bytes 3 (int off) @ d)"
proof -
  have "word_of_int (x AND 0xff) = (word_of_int x :: byte)" for x :: int
  proof -
    have m: "(255::int) = mask 8" by (simp add: mask_eq_exp_minus_1)
    show ?thesis unfolding m by (rule bit_word_eqI) (simp add: bit_word_of_int_iff bit_and_iff bit_mask_iff)
  qed
  then show ?thesis
    by (simp add: createWriteInstructionData_def build_layout drop_bit_eq_div numeral_3_eq_3 zdiv_zmult2_eq [symmetric])
qed

lemma ceil_div_step:
  assumes "0 < n" "0 < c"
  shows "ceil_div n c = Suc (ceil_div (n - c) c)"
proof (cases "c \<le> n")
  case True
  then obtain k where "n = c + k" using le_Suc_ex by blast
  then have "n + c - 1 = (k + c - 1) + c" "n - c = k" using assms by simp_all
  then show ?thesis using assms unfolding ceil_div_def by (metis div_add_self2 Suc_eq_plus1 less_numeral_extra(3))
next
  case False
  then have "n + c - 1 = (n - 1) + c" "n - c = 0" "n - 1 < c" using assms by simp_all
  then show ?thesis using assms unfolding ceil_div_def by (metis div_add_self2 Suc_eq_plus1 less_numeral_extra(3) div_less add_0 diff_less zero_less_one)
qed

lemma chad_write:
  "chad_ok chad \<Longrightarrow> take 32 acct = payer \<Longrightarrow> fits 3 (int off) \<Longrightarrow> 32 + off + length d \<le> length acct \<Longrightarrow>
   chad payer (2 # le_bytes 3 (int off) @ d) acct = Some (take (32 + off) acct @ d @ drop (32 + off + length d) acct)"
  unfolding chad_ok_def by blast

lemma chunks_from_props:
  "0 < c \<Longrightarrow> concat (chunks_from data c i) = drop i data \<and> (\<forall>part \<in> set (chunks_from data c i). part \<noteq> [] \<and> length part \<le> c) \<and>
   length (chunks_from data c i) = ceil_div (length data - i) c"
proof (induction data c i rule: chunks_from.induct)
  case (1 data c i)
  show ?case
  proof (cases "i < length data")
    case True
    then have step: "chunks_from data c i = js_slice data i (min (i + c) (length data)) # chunks_from data c (i + c)"
      using 1(2) by (simp add: chunks_from.simps [of data c i])
    have "js_slice data i (min (i + c) (length data)) = take c (drop i data)"
      using True by (simp add: js_slice_def min_def)
    moreover have "concat (chunks_from data c (i + c)) = drop c (drop i data)"
      using 1 True by (simp add: add.commute)
    moreover have "Suc (ceil_div (length data - (i + c)) c) = ceil_div (length data - i) c"
      using ceil_div_step [of "length data - i" c] True 1(2) by simp
    moreover have "take c (drop i data) @ drop (c + i) data = drop i data" by (metis append_take_drop_id drop_drop)
    ultimately show ?thesis using step 1 True by auto
  next
    case False
    then show ?thesis using 1(2) by (simp add: chunks_from.simps [of data c i] ceil_div_def)
  qed
qed

lemma write_txs_run:
  assumes "chad_ok chad" "length payer = 32"
  shows "off = length written \<Longrightarrow> length (concat parts) \<le> length room \<Longrightarrow> off + length (concat parts) < 2 ^ 24 \<Longrightarrow>
    \<exists>txs. write_txs off parts = Inr txs \<and> length txs = length parts \<and>
      run_uploads chad payer txs (payer @ written @ room) = Some (payer @ written @ concat parts @ drop (length (concat parts)) room)"
proof (induction parts arbitrary: off written room)
  case (Cons part parts)
  let ?acct = "payer @ written @ room"
  have c: "chad payer (2 # le_bytes 3 (int off) @ part) ?acct =
      Some (take (32 + off) ?acct @ part @ drop (32 + off + length part) ?acct)"
    using assms Cons.prems by (intro chad_write) (simp_all add: fits_def)
  have "take (32 + off) ?acct @ part @ drop (32 + off + length part) ?acct = payer @ (written @ part) @ drop (length part) room"
    using assms(2) Cons.prems by simp
  moreover obtain txs where "write_txs (off + length part) parts = Inr txs" "length txs = length parts"
    "run_uploads chad payer txs (payer @ (written @ part) @ drop (length part) room) =
      Some (payer @ (written @ part) @ concat parts @ drop (length (concat parts)) (drop (length part) room))"
    using Cons.IH [of "off + length part" "written @ part" "drop (length part) room"] Cons.prems
    by (auto simp: le_diff_conv2)
  ultimately show ?case using c by (simp add: write_data add.commute del: le_bytes.simps)
qed simp



end
