(* ===== verification/Delegation.thy ===== *)
theory Delegation
  imports Keys
begin

text \<open>
  Delegated viewing keys of \<open>src/sdk/src/keys.ts\<close>: creation, the record the issuer keeps, and the export
  under a password. PBKDF2 and AES-GCM of the platform are parameters. \<open>JSON.stringify\<close> and \<open>JSON.parse\<close> are inverse on the exported
  object, whose undefined members are left out, so the object itself stands for its text.
  Of an error message that explains itself at length the first sentence is kept.
\<close>

section \<open>Creation\<close>

datatype ViewPermissions = SCAN | HISTORY | INCOMING_ONLY | FULL

fun permission_bits :: "ViewPermissions \<Rightarrow> int" where
  "permission_bits SCAN = 1" | "permission_bits HISTORY = 2" | "permission_bits INCOMING_ONLY = 4"
| "permission_bits FULL = 1 OR 2"

record delegation_options =
  do_fromSlot :: "int option"
  do_toSlot :: "int option"
  do_expiresAt :: "int option"
  do_label :: "string option"

text \<open>The random 16 bytes of the identifier and the clock are arguments.\<close>

definition generateDelegationId :: "bytes \<Rightarrow> string" where
  "generateDelegationId rnd = bytesToHex rnd"

definition createDelegatedViewKey :: "bytes \<Rightarrow> int \<Rightarrow> UTXOpiaKeys \<Rightarrow> int \<Rightarrow> delegation_options \<Rightarrow> DelegatedViewKey" where
  "createDelegatedViewKey rnd now keys permissions opts =
     \<lparr> dk_viewingPrivKey = k_viewingPrivKey keys, dk_permissions = permissions, dk_fromSlot = do_fromSlot opts,
       dk_toSlot = do_toSlot opts, dk_expiresAt = do_expiresAt opts,
       dk_spendingPubKeyCompressed = Some (babyJubCompress (k_spendingPubKey keys)),
       dk_nullifyingKey = Some (k_nullifyingKey keys), dk_label = do_label opts, dk_issuedAt = Some now,
       dk_delegationId = Some (generateDelegationId rnd) \<rparr>"

definition fingerprintDelegatedKey :: "sha \<Rightarrow> DelegatedViewKey \<Rightarrow> string" where
  "fingerprintDelegatedKey H key = bytesToHex (js_slice (H (dk_viewingPrivKey key)) 0 16)"

record DelegationRecord =
  dr_delegationId :: string
  dr_fingerprint :: string
  dr_permissions :: int
  dr_fromSlot :: "int option"
  dr_toSlot :: "int option"
  dr_expiresAt :: "int option"
  dr_issuedAt :: int
  dr_label :: "string option"
  dr_recipient :: "string option"

definition makeDelegationRecord :: "sha \<Rightarrow> bytes \<Rightarrow> int \<Rightarrow> DelegatedViewKey \<Rightarrow> string option \<Rightarrow> DelegationRecord" where
  "makeDelegationRecord H rnd now key recipient =
     \<lparr> dr_delegationId = (case dk_delegationId key of None \<Rightarrow> generateDelegationId rnd | Some i \<Rightarrow> i),
       dr_fingerprint = fingerprintDelegatedKey H key, dr_permissions = dk_permissions key,
       dr_fromSlot = dk_fromSlot key, dr_toSlot = dk_toSlot key, dr_expiresAt = dk_expiresAt key,
       dr_issuedAt = (case dk_issuedAt key of None \<Rightarrow> now | Some i \<Rightarrow> i), dr_label = dk_label key, dr_recipient = recipient \<rparr>"

section \<open>Export\<close>

record webcrypto =
  w_pbkdf2 :: "bytes \<Rightarrow> bytes \<Rightarrow> nat \<Rightarrow> bytes"
  w_encrypt :: "bytes \<Rightarrow> bytes \<Rightarrow> bytes \<Rightarrow> bytes"
  w_decrypt :: "bytes \<Rightarrow> bytes \<Rightarrow> bytes \<Rightarrow> bytes option"

definition PBKDF2_ITERATIONS :: nat where
  "PBKDF2_ITERATIONS = 600000"

record delegated_blob =
  db_version :: int
  db_encrypted :: bool
  db_viewingPrivKey :: "string option"
  db_salt :: string
  db_nonce :: string
  db_ciphertext :: string
  db_permissions :: int
  db_expiresAt :: "int option"
  db_label :: "string option"
  db_delegationId :: "string option"
  db_issuedAt :: "int option"
  db_fromSlot :: "int option"
  db_toSlot :: "int option"
  db_fingerprint :: string
  db_spendingPubKeyCompressed :: "string option"
  db_nullifyingKey :: "string option"

text \<open>An empty password is falsy, like an absent one.\<close>

definition no_password :: "string option \<Rightarrow> bool" where
  "no_password pw \<longleftrightarrow> pw = None \<or> pw = Some []"

definition serializeDelegatedViewKey :: "webcrypto \<Rightarrow> sha \<Rightarrow> bytes \<Rightarrow> bytes \<Rightarrow> DelegatedViewKey \<Rightarrow> string option \<Rightarrow> delegated_blob result" where
  "serializeDelegatedViewKey W H salt nonce key password =
     (if no_password password
      then Inl (Error ''Password required for viewing key serialization'')
      else
        (let encryptionKey = w_pbkdf2 W (text_encode (the password)) salt PBKDF2_ITERATIONS;
             ciphertext = w_encrypt W encryptionKey nonce (dk_viewingPrivKey key) in
         Inr \<lparr> db_version = 2, db_encrypted = True, db_viewingPrivKey = None, db_salt = bytesToHex salt,
               db_nonce = bytesToHex nonce, db_ciphertext = bytesToHex ciphertext, db_permissions = dk_permissions key,
               db_expiresAt = dk_expiresAt key, db_label = dk_label key, db_delegationId = dk_delegationId key,
               db_issuedAt = dk_issuedAt key, db_fromSlot = dk_fromSlot key, db_toSlot = dk_toSlot key,
               db_fingerprint = fingerprintDelegatedKey H key,
               db_spendingPubKeyCompressed = map_option bytesToHex (dk_spendingPubKeyCompressed key),
               db_nullifyingKey = map_option (js_toString 16) (dk_nullifyingKey key) \<rparr>))"

text \<open>The part of the decryption that is under \<open>try\<close>: every failure has the same message.\<close>

definition open_blob :: "webcrypto \<Rightarrow> bytes \<Rightarrow> delegated_blob \<Rightarrow> DelegatedViewKey result" where
  "open_blob W encryptionKey obj =
     (case w_decrypt W encryptionKey (hexToBytes (db_nonce obj)) (hexToBytes (db_ciphertext obj)) of
        None \<Rightarrow> Inl (Error ''Invalid password or corrupted data'')
      | Some plaintext \<Rightarrow>
          (let out = \<lparr> dk_viewingPrivKey = plaintext, dk_permissions = db_permissions obj, dk_fromSlot = None, dk_toSlot = None,
                       dk_expiresAt = db_expiresAt obj, dk_spendingPubKeyCompressed = None, dk_nullifyingKey = None,
                       dk_label = db_label obj, dk_issuedAt = None, dk_delegationId = None \<rparr> in
           if db_version obj = 2 then
             (case (case db_nullifyingKey obj of None \<Rightarrow> Inr None | Some s \<Rightarrow> js_bind (js_BigInt (''0x'' @ s)) (\<lambda>v. Inr (Some v))) of
                Inl e \<Rightarrow> Inl (Error ''Invalid password or corrupted data'')
              | Inr nk \<Rightarrow>
                  Inr (out\<lparr> dk_spendingPubKeyCompressed := map_option hexToBytes (db_spendingPubKeyCompressed obj),
                            dk_nullifyingKey := nk, dk_fromSlot := db_fromSlot obj, dk_toSlot := db_toSlot obj,
                            dk_issuedAt := db_issuedAt obj, dk_delegationId := db_delegationId obj \<rparr>))
           else Inr out))"

definition deserializeDelegatedViewKey :: "webcrypto \<Rightarrow> delegated_blob option \<Rightarrow> string option \<Rightarrow> bool \<Rightarrow> DelegatedViewKey result" where
  "deserializeDelegatedViewKey W json password acceptV1 =
     (case json of
        None \<Rightarrow> Inl (Error ''Invalid delegated view key format'')
      | Some obj \<Rightarrow>
          if \<not> db_encrypted obj then
            (case db_viewingPrivKey obj of
               None \<Rightarrow> Inl TypeError
             | Some hex \<Rightarrow>
                 Inr \<lparr> dk_viewingPrivKey = hexToBytes hex, dk_permissions = db_permissions obj, dk_fromSlot = None, dk_toSlot = None,
                       dk_expiresAt = db_expiresAt obj, dk_spendingPubKeyCompressed = None, dk_nullifyingKey = None,
                       dk_label = db_label obj, dk_issuedAt = None, dk_delegationId = None \<rparr>)
          else if no_password password then Inl (Error ''Password required to decrypt viewing key'')
          else if db_version obj = 1 \<and> \<not> acceptV1 then Inl (Error ''Delegated view key is v1 (pre-mpk format)'')
          else if db_version obj = 1 \<or> db_version obj = 2
          then open_blob W (w_pbkdf2 W (text_encode (the password)) (hexToBytes (db_salt obj)) PBKDF2_ITERATIONS) obj
          else Inl (Error ''Unsupported encryption format''))"

definition clearDelegatedViewKey :: "DelegatedViewKey \<Rightarrow> DelegatedViewKey" where
  "clearDelegatedViewKey key = key\<lparr> dk_viewingPrivKey := replicate (length (dk_viewingPrivKey key)) 0 \<rparr>"

record ViewOnlyBundle =
  vb_solanaPublicKey :: bytes
  vb_spendingPubKey :: bytes
  vb_viewingPrivKey :: bytes
  vb_viewingPubKey :: bytes

definition extractViewOnlyBundle :: "UTXOpiaKeys \<Rightarrow> ViewOnlyBundle" where
  "extractViewOnlyBundle keys =
     \<lparr> vb_solanaPublicKey = k_solanaPublicKey keys, vb_spendingPubKey = babyJubCompress (k_spendingPubKey keys),
       vb_viewingPrivKey = k_viewingPrivKey keys, vb_viewingPubKey = k_viewingPubKey keys \<rparr>"

section \<open>Properties\<close>

text \<open>AES-GCM as documented: decryption with the key and nonce of the encryption returns the data.\<close>

definition gcm_ok :: "webcrypto \<Rightarrow> bool" where
  "gcm_ok W \<longleftrightarrow> (\<forall>k n p. w_decrypt W k n (w_encrypt W k n p) = Some p)"

definition sample_webcrypto :: webcrypto where
  "sample_webcrypto = \<lparr> w_pbkdf2 = (\<lambda>pw salt n. take 32 (pw @ salt @ replicate 32 0)),
     w_encrypt = (\<lambda>k n p. k @ p), w_decrypt = (\<lambda>k n c. if take (length k) c = k then Some (drop (length k) c) else None) \<rparr>"

lemma sample_webcrypto_ok: "gcm_ok sample_webcrypto"
  by (simp add: gcm_ok_def sample_webcrypto_def)

lemma BigInt_toString16: "0 \<le> v \<Longrightarrow> js_BigInt (''0x'' @ js_toString 16 v) = Inr v"
proof -
  assume v: "0 \<le> v"
  then have "trim (''0x'' @ js_toString 16 v) = ''0x'' @ js_toString 16 v"
    using radix_no_ws [of 16 _ "nat v"] by (intro trim_id) (auto simp: js_toString_def)
  with v show ?thesis by (simp add: js_BigInt_def Let_def js_toString_def parse_unsigned_radix)
qed

text \<open>
  A delegated key survives its export: read back with the same password it has the same viewing
  key, permissions, expiry, slot range, identifiers and verification material. Without a password
  neither direction works, and a password under which AES-GCM rejects the data is reported.
\<close>

theorem delegated_key_roundtrip:
  assumes "gcm_ok W" "\<not> no_password pw" "\<forall>v. dk_nullifyingKey key = Some v \<longrightarrow> 0 \<le> v"
  shows "\<exists>blob. serializeDelegatedViewKey W H salt nonce key pw = Inr blob \<and>
    deserializeDelegatedViewKey W (Some blob) pw acceptV1 = Inr key \<and>
    deserializeDelegatedViewKey W (Some blob) None acceptV1 = Inl (Error ''Password required to decrypt viewing key'') \<and>
    (\<forall>pw'. \<not> no_password pw' \<longrightarrow>
       w_decrypt W (w_pbkdf2 W (text_encode (the pw')) salt PBKDF2_ITERATIONS) nonce (hexToBytes (db_ciphertext blob)) = None \<longrightarrow>
       deserializeDelegatedViewKey W (Some blob) pw' acceptV1 = Inl (Error ''Invalid password or corrupted data''))"
proof -
  have hex: "map_option hexToBytes (map_option bytesToHex x) = x" for x
    by (cases x) (simp_all add: hexToBytes_bytesToHex)
  have "(case map_option (js_toString 16) (dk_nullifyingKey key) of None \<Rightarrow> Inr None
      | Some s \<Rightarrow> js_bind (js_BigInt (''0x'' @ s)) (\<lambda>v. Inr (Some v))) = Inr (dk_nullifyingKey key)"
    using assms(3) by (cases "dk_nullifyingKey key") (simp_all add: BigInt_toString16 del: append_Cons append_Nil)
  moreover have "no_password None" by (simp add: no_password_def)
  ultimately show ?thesis
    using assms(1,2) hex unfolding serializeDelegatedViewKey_def deserializeDelegatedViewKey_def open_blob_def
    by (simp add: gcm_ok_def hexToBytes_bytesToHex Let_def)
qed

definition sample_delegated :: DelegatedViewKey where
  "sample_delegated = \<lparr> dk_viewingPrivKey = replicate 32 5, dk_permissions = 1, dk_fromSlot = Some 100, dk_toSlot = Some 200,
     dk_expiresAt = None, dk_spendingPubKeyCompressed = Some (replicate 32 1), dk_nullifyingKey = Some 77, dk_label = Some ''audit'',
     dk_issuedAt = Some 1, dk_delegationId = Some ''ab'' \<rparr>"

theorem delegated_key_roundtrip_witness:
  "\<exists>blob. serializeDelegatedViewKey sample_webcrypto sample_sha (replicate 16 1) (replicate 12 2) sample_delegated (Some ''pw'') = Inr blob \<and>
    deserializeDelegatedViewKey sample_webcrypto (Some blob) (Some ''pw'') False = Inr sample_delegated"
proof -
  have h: "\<not> no_password (Some ''pw'')" "\<forall>v. dk_nullifyingKey sample_delegated = Some v \<longrightarrow> 0 \<le> v"
    by (simp_all add: no_password_def sample_delegated_def)
  show ?thesis
    using delegated_key_roundtrip [OF sample_webcrypto_ok h, of sample_sha "replicate 16 1" "replicate 12 2" False] by blast
qed

end
