(* ===== verification/Auditor.thy ===== *)
theory Auditor
  imports Delegation Stealth_Properties Sender_Memo
begin

text \<open>
  The auditor toolkit of \<open>src/sdk/src/auditor.ts\<close>: the scan of announcements and sender memos with a
  delegated viewing key, within its permissions, expiry and slot range, and the report in CSV. The clock of
  \<open>isDelegatedKeyValid\<close> is an argument. The outer option is the one of \<open>babyJubDecompress\<close>: \<open>None\<close> where its
  square root does not return.
\<close>

section \<open>Data\<close>

datatype AuditDirection = IN | OUT | SELF | UNKNOWN

record AuditRecord =
  ar_slot :: int
  ar_blockTime :: int
  ar_leafIndex :: int
  ar_direction :: AuditDirection
  ar_announcementType :: int
  ar_tokenId :: int
  ar_amount :: int
  ar_commitmentHex :: string
  ar_ephemeralPubHex :: string

record OnChainSenderMemo = SenderMemoCiphertext +
  om_blockTime :: "int option"
  om_slot :: "int option"

record AuditScanOptions =
  ao_tokenIds :: "int list"
  ao_fromSlot :: "int option"
  ao_toSlot :: "int option"
  ao_senderMemos :: "OnChainSenderMemo list option"

record AuditScanSummary =
  as_records :: "AuditRecord list"
  as_outOfRangeSkipped :: nat
  as_unscopedSkipped :: nat
  as_notForViewerSkipped :: int
  as_effectiveFromSlot :: "int option"
  as_effectiveToSlot :: "int option"

record AuditScanAnnouncement = OnChainStealthAnnouncement +
  an_slot :: "int option"
  an_tokenId :: "int option"

definition nullish :: "'a option \<Rightarrow> 'a option \<Rightarrow> 'a option" where
  "nullish a b = (case a of None \<Rightarrow> b | Some x \<Rightarrow> Some x)"

section \<open>The scan\<close>

text \<open>The scope check that announcements and memos share, with the two counters of what is skipped.\<close>

datatype scope = In_scope | Unscoped | Out_of_range

definition slot_scope :: "DelegatedViewKey \<Rightarrow> int option \<Rightarrow> scope" where
  "slot_scope keyForRange slot =
     (if dk_fromSlot keyForRange \<noteq> None \<or> dk_toSlot keyForRange \<noteq> None then
        (if slot = None then Unscoped
         else if \<not> isSlotInDelegatedRange keyForRange slot then Out_of_range
         else In_scope)
      else In_scope)"

definition scope_filter :: "DelegatedViewKey \<Rightarrow> AuditScanAnnouncement list \<Rightarrow> nat \<times> nat \<times> AuditScanAnnouncement list" where
  "scope_filter keyForRange announcements =
     foldl (\<lambda>(outOfRange, unscoped, inScope) ann.
       case slot_scope keyForRange (an_slot ann) of
         Unscoped \<Rightarrow> (outOfRange, unscoped + 1, inScope)
       | Out_of_range \<Rightarrow> (outOfRange + 1, unscoped, inScope)
       | In_scope \<Rightarrow> (outOfRange, unscoped, inScope @ [ann])) (0, 0, []) announcements"

definition slotByLeafIndex :: "AuditScanAnnouncement list \<Rightarrow> int \<Rightarrow> int option option" where
  "slotByLeafIndex inScope = foldl (\<lambda>m ann. m(an_leafIndex ann \<mapsto> an_slot ann)) Map.empty inScope"

text \<open>The row of a note found for one token.\<close>

definition in_record :: "AuditScanAnnouncement list \<Rightarrow> AuditScanAnnouncement list \<Rightarrow> int \<Rightarrow> ViewOnlyScannedNote \<Rightarrow> AuditRecord" where
  "in_record inScope sub tokenId m =
     \<lparr> ar_slot = (case slotByLeafIndex inScope (vn_leafIndex m) of Some (Some s) \<Rightarrow> s | _ \<Rightarrow> 0),
       ar_blockTime = vn_blockTime m, ar_leafIndex = vn_leafIndex m, ar_direction = IN,
       ar_announcementType =
         (case List.find (\<lambda>a. an_leafIndex a = vn_leafIndex m) sub of
            None \<Rightarrow> ANNOUNCEMENT_TYPE_DEPOSIT
          | Some a \<Rightarrow> (case an_announcementType a of None \<Rightarrow> ANNOUNCEMENT_TYPE_DEPOSIT | Some t \<Rightarrow> t)),
       ar_tokenId = tokenId, ar_amount = vn_amount m, ar_commitmentHex = bytesToHex (vn_commitment m),
       ar_ephemeralPubHex = bytesToHex (vn_ephemeralPub m) \<rparr>"

definition add_matched :: "(ViewOnlyScannedNote \<Rightarrow> AuditRecord) \<Rightarrow> ViewOnlyScannedNote list \<Rightarrow>
    AuditRecord list \<times> int set \<Rightarrow> AuditRecord list \<times> int set" where
  "add_matched row matched st =
     foldl (\<lambda>(records, seenLeafIndex) m.
       if vn_leafIndex m \<in> seenLeafIndex then (records, seenLeafIndex)
       else (records @ [row m], insert (vn_leafIndex m) seenLeafIndex)) st matched"

definition scan_token :: "curve25519 \<Rightarrow> sha \<Rightarrow> poseidon \<Rightarrow> ViewOnlyKeys \<Rightarrow> AuditScanAnnouncement list \<Rightarrow> int \<Rightarrow>
    AuditRecord list \<times> int set \<Rightarrow> (AuditRecord list \<times> int set) result" where
  "scan_token C H P viewOnly inScope tokenId st =
     (let sub = filter (\<lambda>a. an_tokenId a = None \<or> an_tokenId a = Some tokenId) inScope in
      if sub = [] then Inr st
      else
        js_bind (scanAnnouncementsViewOnly C H P viewOnly (map OnChainStealthAnnouncement.truncate sub) tokenId) (\<lambda>matched.
          Inr (add_matched (in_record inScope sub tokenId) matched st)))"

definition out_record :: "OnChainSenderMemo \<Rightarrow> SenderMemoPlain \<Rightarrow> AuditRecord" where
  "out_record memo plain =
     \<lparr> ar_slot = case_option 0 id (om_slot memo), ar_blockTime = case_option 0 id (om_blockTime memo),
       ar_leafIndex = mc_leafIndex memo, ar_direction = OUT, ar_announcementType = -1,
       ar_tokenId = mp_tokenId plain, ar_amount = mp_amount plain,
       ar_commitmentHex = bytesToHex (mc_commitment memo), ar_ephemeralPubHex = [] \<rparr>"

text \<open>One sender memo: the state is the two counters and the records.\<close>

definition audit_memo :: "aead \<Rightarrow> sha \<Rightarrow> DelegatedViewKey \<Rightarrow> DelegatedViewKey \<Rightarrow> int list \<Rightarrow> OnChainSenderMemo \<Rightarrow>
    nat \<times> nat \<times> AuditRecord list \<Rightarrow> (nat \<times> nat \<times> AuditRecord list) result" where
  "audit_memo A H key keyForRange tokenIds memo = (\<lambda>(outOfRange, unscoped, records).
     case slot_scope keyForRange (om_slot memo) of
       Unscoped \<Rightarrow> Inr (outOfRange, unscoped + 1, records)
     | Out_of_range \<Rightarrow> Inr (outOfRange + 1, unscoped, records)
     | In_scope \<Rightarrow>
         js_bind (decryptSenderMemo A H (dk_viewingPrivKey key) (SenderMemoCiphertext.truncate memo)) (\<lambda>r.
           Inr (outOfRange, unscoped,
             (case r of
                None \<Rightarrow> records
              | Some plain \<Rightarrow>
                  if mp_amount plain \<le> 0 then records
                  else if mp_tokenId plain \<notin> set tokenIds then records
                  else records @ [out_record memo plain]))))"

definition audit_body :: "curve25519 \<Rightarrow> sha \<Rightarrow> poseidon \<Rightarrow> aead \<Rightarrow> DelegatedViewKey \<Rightarrow> BabyJubPoint \<Rightarrow> int \<Rightarrow>
    AuditScanAnnouncement list \<Rightarrow> AuditScanOptions \<Rightarrow> AuditScanSummary result" where
  "audit_body C H P A key spendingPubKey nullifyingKey announcements opts =
     (let effectiveFromSlot = nullish (ao_fromSlot opts) (dk_fromSlot key);
          effectiveToSlot = nullish (ao_toSlot opts) (dk_toSlot key);
          keyForRange = key\<lparr> dk_fromSlot := effectiveFromSlot, dk_toSlot := effectiveToSlot \<rparr>;
          (outOfRange, unscoped, inScope) = scope_filter keyForRange announcements;
          viewOnly = \<lparr> vk_viewingPrivKey = dk_viewingPrivKey key, vk_spendingPubKey = spendingPubKey,
                       vk_nullifyingKey = nullifyingKey \<rparr>;
          incomingOnly = hasPermission key (permission_bits INCOMING_ONLY) in
      js_bind (js_fold (scan_token C H P viewOnly inScope) (ao_tokenIds opts) ([], {})) (\<lambda>(records, seenLeafIndex).
      let notForViewerSkipped = int (length inScope) - int (card seenLeafIndex) in
      js_bind
        (if \<not> incomingOnly \<and> ao_senderMemos opts \<noteq> None
         then js_fold (audit_memo A H key keyForRange (ao_tokenIds opts)) (the (ao_senderMemos opts)) (outOfRange, unscoped, records)
         else Inr (outOfRange, unscoped, records))
        (\<lambda>(outOfRange, unscoped, records).
           Inr \<lparr> as_records = records, as_outOfRangeSkipped = outOfRange, as_unscopedSkipped = unscoped,
                 as_notForViewerSkipped = max 0 notForViewerSkipped,
                 as_effectiveFromSlot = effectiveFromSlot, as_effectiveToSlot = effectiveToSlot \<rparr>)))"

definition auditScan :: "curve25519 \<Rightarrow> sha \<Rightarrow> poseidon \<Rightarrow> aead \<Rightarrow> int \<Rightarrow> DelegatedViewKey \<Rightarrow>
    AuditScanAnnouncement list \<Rightarrow> AuditScanOptions \<Rightarrow> AuditScanSummary result option" where
  "auditScan C H P A now key announcements opts =
     (if \<not> hasPermission key (permission_bits SCAN) then Some (Inl (Error ''Delegated key missing SCAN permission''))
      else if \<not> isDelegatedKeyValid now key then Some (Inl (Error ''Delegated key has expired''))
      else
        (case (dk_spendingPubKeyCompressed key, dk_nullifyingKey key) of
           (Some compressed, Some nullifyingKey) \<Rightarrow>
             if ao_tokenIds opts = [] then Some (Inl (Error ''auditScan requires at least one tokenId''))
             else map_option (\<lambda>p. js_bind p (\<lambda>spendingPubKey.
                    audit_body C H P A key spendingPubKey nullifyingKey announcements opts)) (babyJubDecompress compressed)
         | _ \<Rightarrow> Some (Inl (Error ''Delegated key missing spendingPubKey/nullifyingKey''))))"

section \<open>Lemmas\<close>

lemma js_fold_invariant:
  assumes "js_fold f xs s = Inr t" "I s" "\<And>x s t. x \<in> set xs \<Longrightarrow> I s \<Longrightarrow> f x s = Inr t \<Longrightarrow> I t"
  shows "I t"
  using assms
proof (induction xs arbitrary: s)
  case (Cons x xs)
  then obtain s' where s': "f x s = Inr s'" "js_fold f xs s' = Inr t" by (auto simp: js_bind_Inr_iff)
  then have "I s'" using Cons.prems by (meson list.set_intros(1))
  with Cons s' show ?case by (meson list.set_intros(2))
qed simp

text \<open>A slot a scope admits: inside the range, whose ends may be open; no slot is admitted by a range.\<close>

definition admits :: "int option \<Rightarrow> int option \<Rightarrow> int option \<Rightarrow> bool" where
  "admits from till slot \<longleftrightarrow>
     (\<forall>f. from = Some f \<longrightarrow> (\<exists>s. slot = Some s \<and> f \<le> s)) \<and> (\<forall>t. till = Some t \<longrightarrow> (\<exists>s. slot = Some s \<and> s \<le> t))"

lemma slot_scope_iff: "slot_scope k slot = In_scope \<longleftrightarrow> admits (dk_fromSlot k) (dk_toSlot k) slot"
  by (cases slot; cases "dk_fromSlot k"; cases "dk_toSlot k")
     (auto simp: slot_scope_def isSlotInDelegatedRange_def admits_def)

lemma scope_filter_spec:
  "scope_filter k anns = (ofr, un, ins) \<Longrightarrow>
     ins = filter (\<lambda>a. admits (dk_fromSlot k) (dk_toSlot k) (an_slot a)) anns \<and> ofr + un + length ins = length anns"
proof (induction anns arbitrary: ofr un ins rule: rev_induct)
  case (snoc a anns)
  obtain ofr' un' ins' where e: "scope_filter k anns = (ofr', un', ins')" by (cases "scope_filter k anns")
  note IH = snoc.IH [OF e]
  have "scope_filter k (anns @ [a]) = (case slot_scope k (an_slot a) of
      Unscoped \<Rightarrow> (ofr', un' + 1, ins') | Out_of_range \<Rightarrow> (ofr' + 1, un', ins') | In_scope \<Rightarrow> (ofr', un', ins' @ [a]))"
    using e by (simp add: scope_filter_def)
  with snoc.prems IH slot_scope_iff [of k "an_slot a"] show ?case
    by (cases "slot_scope k (an_slot a)") auto
qed (simp add: scope_filter_def)

lemma slotByLeafIndex_Some:
  "slotByLeafIndex ins i = Some s \<Longrightarrow> \<exists>a \<in> set ins. an_leafIndex a = i \<and> an_slot a = s"
  by (induction ins rule: rev_induct) (auto simp: slotByLeafIndex_def split: if_splits)

lemma slotByLeafIndex_dom: "a \<in> set ins \<Longrightarrow> \<exists>s. slotByLeafIndex ins (an_leafIndex a) = Some s"
  by (induction ins rule: rev_induct) (auto simp: slotByLeafIndex_def)

lemma in_record_slot:
  assumes "\<forall>a \<in> set ins. admits from till (an_slot a)" "a \<in> set ins" "vn_leafIndex m = an_leafIndex a"
  shows "admits from till (Some (ar_slot (in_record ins sub t m)))"
proof -
  obtain s where s: "slotByLeafIndex ins (vn_leafIndex m) = Some s" using slotByLeafIndex_dom [OF assms(2)] assms(3) by auto
  then have "admits from till s" using slotByLeafIndex_Some assms(1) by blast
  then show ?thesis by (cases s) (auto simp: in_record_def s admits_def)
qed

text \<open>What the view-only scanner reports.\<close>

lemma scan_view_only_found:
  "scan_view_only C H P vk t ann = Inr (Some n) \<Longrightarrow> 0 < vn_amount n \<and> vn_amount n \<le> MAX_SATS \<and> vn_leafIndex n = an_leafIndex ann"
  by (auto simp: scan_view_only_def Let_def js_bind_Inr_iff split: if_split_asm)

lemma scan_view_only_notes:
  assumes "scanAnnouncementsViewOnly C H P vk (map OnChainStealthAnnouncement.truncate sub) t = Inr ms" "m \<in> set ms"
  shows "0 < vn_amount m \<and> (\<exists>a \<in> set sub. vn_leafIndex m = an_leafIndex a)"
proof -
  obtain ann where "ann \<in> set (map OnChainStealthAnnouncement.truncate sub)" "scan_view_only C H P vk t ann = Inr (Some m)"
    using scan_loop_found [OF assms(1) [unfolded scanAnnouncementsViewOnly_def] assms(2)] by blast
  with scan_view_only_found show ?thesis by (fastforce simp: OnChainStealthAnnouncement.truncate_def)
qed

text \<open>The rows found so far are those of distinct leaves, all in the set that is tracked.\<close>

definition rows_ok :: "(AuditRecord \<Rightarrow> bool) \<Rightarrow> AuditRecord list \<times> int set \<Rightarrow> bool" where
  "rows_ok Q = (\<lambda>(records, seen). distinct (map ar_leafIndex records) \<and> seen = set (map ar_leafIndex records) \<and> (\<forall>r \<in> set records. Q r))"

lemma add_matched_ok:
  assumes "rows_ok Q st" "\<forall>m \<in> set ms. Q (row m) \<and> ar_leafIndex (row m) = vn_leafIndex m"
  shows "rows_ok Q (add_matched row ms st)"
  using assms(2)
proof (induction ms rule: rev_induct)
  case Nil
  with assms(1) show ?case by (simp add: add_matched_def)
next
  case (snoc m ms)
  obtain rs seen where "add_matched row ms st = (rs, seen)" by (cases "add_matched row ms st")
  with snoc show ?case by (auto simp: add_matched_def rows_ok_def)
qed

text \<open>A field without the separators of a report.\<close>

definition plain_field :: "string \<Rightarrow> bool" where
  "plain_field s \<longleftrightarrow> CHR '','' \<notin> set s \<and> CHR 0x0A \<notin> set s"

lemma digit_plain [simp]: "d < 16 \<Longrightarrow> CHR '','' \<noteq> digit_char d" "d < 16 \<Longrightarrow> CHR 0x0A \<noteq> digit_char d"
  by (auto dest!: arg_cong [where f = "of_char :: char \<Rightarrow> nat"] simp: of_char_digit split: if_splits)

lemma plain_append [simp]: "plain_field (a @ b) \<longleftrightarrow> plain_field a \<and> plain_field b"
  by (auto simp: plain_field_def)

lemma plain_simps [simp]: "plain_field []" "plain_field (c # s) \<longleftrightarrow> c \<noteq> CHR '','' \<and> c \<noteq> CHR 0x0A \<and> plain_field s"
  by (auto simp: plain_field_def)

lemma plain_hex [simp]: "plain_field (bytesToHex bs)"
proof (induction bs)
  case (Cons b bs)
  have "unat b div 16 < 16" "unat b mod 16 < 16" using unsigned_less [of b, where 'a = nat] by simp_all
  with Cons digit_plain show ?case by (metis bytesToHex_simps(2) plain_simps(2))
qed simp

definition in_row :: "AuditScanAnnouncement list \<Rightarrow> int list \<Rightarrow> int option \<Rightarrow> int option \<Rightarrow> AuditRecord \<Rightarrow> bool" where
  "in_row ins tokens from till r \<longleftrightarrow> plain_field (ar_commitmentHex r) \<and> plain_field (ar_ephemeralPubHex r) \<and>
     ar_direction r = IN \<and> 0 < ar_amount r \<and> ar_tokenId r \<in> set tokens \<and>
     admits from till (Some (ar_slot r)) \<and> ar_leafIndex r \<in> an_leafIndex ` set ins"

lemma scan_token_ok:
  assumes "\<forall>a \<in> set ins. admits from till (an_slot a)" "t \<in> set tokens" "rows_ok (in_row ins tokens from till) st"
    "scan_token C H P vk ins t st = Inr st'"
  shows "rows_ok (in_row ins tokens from till) st'"
proof -
  let ?sub = "filter (\<lambda>a. an_tokenId a = None \<or> an_tokenId a = Some t) ins"
  consider "st' = st" | ms where "scanAnnouncementsViewOnly C H P vk (map OnChainStealthAnnouncement.truncate ?sub) t = Inr ms"
    "st' = add_matched (in_record ins ?sub t) ms st"
    using assms(4) by (auto simp: scan_token_def Let_def js_bind_Inr_iff split: if_split_asm)
  then show ?thesis
  proof cases
    case 2
    have "in_row ins tokens from till (in_record ins ?sub t m) \<and> ar_leafIndex (in_record ins ?sub t m) = vn_leafIndex m"
      if m: "m \<in> set ms" for m
    proof -
      obtain a where "0 < vn_amount m" "a \<in> set ins" "vn_leafIndex m = an_leafIndex a"
        using scan_view_only_notes [OF 2(1) m] by auto
      with in_record_slot [OF assms(1)] assms(2) show ?thesis by (auto simp: in_row_def in_record_def)
    qed
    then show ?thesis unfolding 2(2) by (intro add_matched_ok assms(3)) blast
  qed (use assms(3) in simp)
qed

definition out_row :: "int list \<Rightarrow> int option \<Rightarrow> int option \<Rightarrow> AuditRecord \<Rightarrow> bool" where
  "out_row tokens from till r \<longleftrightarrow> plain_field (ar_commitmentHex r) \<and> plain_field (ar_ephemeralPubHex r) \<and>
     ar_direction r = OUT \<and> 0 < ar_amount r \<and> ar_tokenId r \<in> set tokens \<and>
     admits from till (Some (ar_slot r))"

definition memo_rows :: "AuditRecord list \<Rightarrow> (AuditRecord \<Rightarrow> bool) \<Rightarrow> nat \<times> nat \<times> AuditRecord list \<Rightarrow> bool" where
  "memo_rows base Q = (\<lambda>(ofr, un, records). \<exists>outs. records = base @ outs \<and> (\<forall>r \<in> set outs. Q r))"

lemma admits_default: "admits from till slot \<Longrightarrow> admits from till (Some (case_option 0 id slot))"
  by (cases slot) (auto simp: admits_def)

lemma audit_memo_ok:
  assumes "memo_rows base (out_row tokens (dk_fromSlot k) (dk_toSlot k)) st" "audit_memo A H key k tokens memo st = Inr st'"
  shows "memo_rows base (out_row tokens (dk_fromSlot k) (dk_toSlot k)) st'"
proof -
  obtain ofr un outs where st: "st = (ofr, un, base @ outs)" "\<forall>r \<in> set outs. out_row tokens (dk_fromSlot k) (dk_toSlot k) r"
    using assms(1) by (cases st) (auto simp: memo_rows_def)
  show ?thesis
  proof (cases "slot_scope k (om_slot memo)")
    case In_scope
    then have a: "admits (dk_fromSlot k) (dk_toSlot k) (Some (case_option 0 id (om_slot memo)))"
      using admits_default slot_scope_iff by blast
    from In_scope assms(2) st(1) obtain r where
      "st' = (ofr, un, (case r of None \<Rightarrow> base @ outs
         | Some plain \<Rightarrow> if mp_amount plain \<le> 0 then base @ outs
             else if mp_tokenId plain \<notin> set tokens then base @ outs else (base @ outs) @ [out_record memo plain]))"
      unfolding audit_memo_def by (simp add: js_bind_Inr_iff) blast
    with st(2) a show ?thesis by (auto simp: memo_rows_def out_row_def out_record_def split: option.split)
  qed (use assms(2) st in \<open>auto simp: audit_memo_def memo_rows_def\<close>)
qed

text \<open>The parts of a successful scan.\<close>

lemma audit_body_parts:
  assumes "audit_body C H P A key pub nk anns opts = Inr sm"
  defines "from \<equiv> nullish (ao_fromSlot opts) (dk_fromSlot key)" and "till \<equiv> nullish (ao_toSlot opts) (dk_toSlot key)"
  obtains rows outs where "as_records sm = rows @ outs"
    "as_effectiveFromSlot sm = from" "as_effectiveToSlot sm = till"
    "distinct (map ar_leafIndex rows)" "\<forall>r \<in> set rows. in_row anns (ao_tokenIds opts) from till r"
    "\<forall>r \<in> set outs. out_row (ao_tokenIds opts) from till r"
    "hasPermission key (permission_bits INCOMING_ONLY) \<or> ao_senderMemos opts = None \<Longrightarrow>
       outs = [] \<and> as_notForViewerSkipped sm + int (as_outOfRangeSkipped sm + as_unscopedSkipped sm + length rows) = int (length anns)"
proof -
  let ?k = "key\<lparr> dk_fromSlot := from, dk_toSlot := till \<rparr>"
  let ?vo = "\<lparr> vk_viewingPrivKey = dk_viewingPrivKey key, vk_spendingPubKey = pub, vk_nullifyingKey = nk \<rparr>"
  let ?memos = "\<not> hasPermission key (permission_bits INCOMING_ONLY) \<and> ao_senderMemos opts \<noteq> None"
  obtain ofr un ins where sf: "scope_filter ?k anns = (ofr, un, ins)" by (cases "scope_filter ?k anns")
  obtain rows seen ofr' un' rs where
    tok: "js_fold (scan_token C H P ?vo ins) (ao_tokenIds opts) ([], {}) = Inr (rows, seen)" and
    mem: "(if ?memos then js_fold (audit_memo A H key ?k (ao_tokenIds opts)) (the (ao_senderMemos opts)) (ofr, un, rows)
           else Inr (ofr, un, rows)) = Inr (ofr', un', rs)" and
    sm: "sm = \<lparr> as_records = rs, as_outOfRangeSkipped = ofr', as_unscopedSkipped = un',
         as_notForViewerSkipped = max 0 (int (length ins) - int (card seen)), as_effectiveFromSlot = from, as_effectiveToSlot = till \<rparr>"
    using assms(1) sf unfolding audit_body_def from_def till_def Let_def by (auto simp: js_bind_Inr_iff)
  have ins: "ins = filter (\<lambda>a. admits from till (an_slot a)) anns" "ofr + un + length ins = length anns"
    using scope_filter_spec [OF sf] by auto
  have ok: "rows_ok (in_row ins (ao_tokenIds opts) from till) (rows, seen)"
  proof (rule js_fold_invariant [OF tok])
    show "rows_ok (in_row ins (ao_tokenIds opts) from till) ([], {})" by (simp add: rows_ok_def)
  qed (use ins(1) in \<open>auto intro: scan_token_ok\<close>)
  have "memo_rows rows (out_row (ao_tokenIds opts) from till) (ofr', un', rs)"
  proof (cases ?memos)
    case True
    with mem have "js_fold (audit_memo A H key ?k (ao_tokenIds opts)) (the (ao_senderMemos opts)) (ofr, un, rows) = Inr (ofr', un', rs)"
      by simp
    then show ?thesis
      by (rule js_fold_invariant) (use audit_memo_ok [of rows "ao_tokenIds opts" ?k] in \<open>auto simp: memo_rows_def\<close>)
  qed (use mem in \<open>auto simp: memo_rows_def\<close>)
  then obtain outs where outs: "rs = rows @ outs" "\<forall>r \<in> set outs. out_row (ao_tokenIds opts) from till r"
    by (auto simp: memo_rows_def)
  have seen: "card seen = length rows" "seen \<subseteq> an_leafIndex ` set ins"
    using ok distinct_card [of "map ar_leafIndex rows"] by (auto simp: rows_ok_def in_row_def)
  then have "length rows \<le> length ins"
    by (metis card_mono card_length dual_order.trans finite_imageI length_map list.set_map finite_set)
  with mem ins seen outs sm ok show ?thesis
    by (intro that [of rows outs]) (auto simp: rows_ok_def in_row_def split: if_split_asm)
qed

text \<open>A payment announced as a transfer, as the auditor sees it: with its slot and without a token.\<close>

definition audited_transfer :: "StealthDeposit \<Rightarrow> int \<Rightarrow> int \<Rightarrow> AuditScanAnnouncement" where
  "audited_transfer d i slot =
     OnChainStealthAnnouncement.extend (transfer_announcement d i) (AuditScanAnnouncement.fields (Some slot) None)"

lemmas audit_ann_defs = audited_transfer_def transfer_announcement_def OnChainStealthAnnouncement.defs AuditScanAnnouncement.defs

definition transfer_note :: "StealthDeposit \<Rightarrow> int \<Rightarrow> int \<Rightarrow> ViewOnlyScannedNote" where
  "transfer_note d amount i = \<lparr> vn_amount = amount, vn_leafIndex = i, vn_commitment = sd_commitment d,
     vn_ephemeralPub = sd_ephemeralPub d, vn_blockTime = 0 \<rparr>"

lemma view_only_transfer:
  assumes "curve_ok C" "\<forall>n xs. fits 32 (P n xs)" "k_viewingPubKey keys = getPublicKey C (k_viewingPrivKey keys)"
    "0 < amount" "amount \<le> MAX_SATS"
  obtains d where "createStealthDeposit C H P rnd now (createStealthMetaAddress P keys) amount token = Inr d"
    "\<And>t i slot. scanAnnouncementsViewOnly C H P (exportViewOnlyKeys keys) [OnChainStealthAnnouncement.truncate (audited_transfer d i slot)] t =
       Inr [transfer_note d amount i]"
proof -
  obtain s where s: "x25519Ecdh C (k_viewingPrivKey keys) (getPublicKey C rnd) = Inr s"
    "createStealthDeposit C H P rnd now (createStealthMetaAddress P keys) amount token =
      Inr \<lparr> sd_ephemeralPub = getPublicKey C rnd, sd_encryptedAmount = encryptAmount H amount s,
        sd_commitment = bigintToBytes (P 3 [note_npk H P (k_spendingPubKey keys) (k_nullifyingKey keys) s, token, amount]),
        sd_createdAt = now \<rparr>" (is "_ = Inr ?d")
    using deposit_fields [OF assms(1-3)] by metis
  have a: "decryptAmount H (encryptAmount H amount s) s = amount"
    unfolding decryptAmount_def encryptAmount_def decrypt_encrypt_amount by (rule amount_fits [OF assms(4,5)])
  have "scanAnnouncementsViewOnly C H P (exportViewOnlyKeys keys) [OnChainStealthAnnouncement.truncate (audited_transfer ?d i slot)] t =
       Inr [transfer_note ?d amount i]" for t i slot
    using s(1) a assms(4,5)
    by (simp add: scanAnnouncementsViewOnly_def scan_loop_def try_scan_def scan_view_only_def exportViewOnlyKeys_def audit_ann_defs
        announced_amount_def ANNOUNCEMENT_TYPE_TRANSFER_def ANNOUNCEMENT_TYPE_DEPOSIT_def transfer_note_def Let_def)
  with s(2) that show ?thesis by blast
qed

text \<open>Every further token finds the same note again, and its leaf has been seen.\<close>

lemma scan_tokens_once:
  assumes "\<And>t. scanAnnouncementsViewOnly C H P vk [OnChainStealthAnnouncement.truncate a] t = Inr [m]" "an_tokenId a = None"
  shows "js_fold (scan_token C H P vk [a]) (t # ts) ([], {}) = Inr ([in_record [a] [a] t m], {vn_leafIndex m})"
proof -
  have "js_fold (scan_token C H P vk [a]) ts (rs, {vn_leafIndex m}) = Inr (rs, {vn_leafIndex m})" for rs
    by (induction ts) (simp_all add: scan_token_def assms add_matched_def)
  then show ?thesis by (simp add: scan_token_def assms add_matched_def Let_def)
qed

lemma audit_of_transfer:
  assumes "curve_ok C" "\<forall>n xs. fits 32 (P n xs)" "k_viewingPubKey keys = getPublicKey C (k_viewingPrivKey keys)"
    "0 < amount" "amount \<le> MAX_SATS"
    "babyJubDecompress (babyJubCompress (k_spendingPubKey keys)) = Some (Inr (k_spendingPubKey keys))"
    "admits (nullish f (do_fromSlot opts)) (nullish t (do_toSlot opts)) (Some slot)" "do_expiresAt opts = None"
  obtains d where "createStealthDeposit C H P rnd made (createStealthMetaAddress P keys) amount token = Inr d"
    "auditScan C H P A now (createDelegatedViewKey idBytes issued keys (permission_bits SCAN) opts) [audited_transfer d i slot]
       \<lparr> ao_tokenIds = tok # toks, ao_fromSlot = f, ao_toSlot = t, ao_senderMemos = None \<rparr> =
     Some (Inr \<lparr> as_records = [in_record [audited_transfer d i slot] [audited_transfer d i slot] tok (transfer_note d amount i)],
       as_outOfRangeSkipped = 0, as_unscopedSkipped = 0, as_notForViewerSkipped = 0,
       as_effectiveFromSlot = nullish f (do_fromSlot opts), as_effectiveToSlot = nullish t (do_toSlot opts) \<rparr>)"
proof -
  obtain d where d: "createStealthDeposit C H P rnd made (createStealthMetaAddress P keys) amount token = Inr d"
    "\<And>t i slot. scanAnnouncementsViewOnly C H P (exportViewOnlyKeys keys) [OnChainStealthAnnouncement.truncate (audited_transfer d i slot)] t =
       Inr [transfer_note d amount i]"
    using view_only_transfer [OF assms(1-5)] by metis
  let ?a = "audited_transfer d i slot" and ?key = "createDelegatedViewKey idBytes issued keys (permission_bits SCAN) opts"
  let ?k = "?key\<lparr> dk_fromSlot := nullish f (do_fromSlot opts), dk_toSlot := nullish t (do_toSlot opts) \<rparr>"
  have a: "an_tokenId ?a = None" "an_slot ?a = Some slot" by (simp_all add: audit_ann_defs)
  have "slot_scope ?k (Some slot) = In_scope" using assms(7) by (simp add: slot_scope_iff)
  then have "scope_filter ?k [?a] = (0, 0, [?a])" by (simp add: scope_filter_def a)
  moreover have "hasPermission ?key (permission_bits SCAN)" "isDelegatedKeyValid now ?key"
    using assms(8) by (simp_all add: hasPermission_def isDelegatedKeyValid_def createDelegatedViewKey_def)
  moreover have "\<lparr> vk_viewingPrivKey = dk_viewingPrivKey ?key, vk_spendingPubKey = k_spendingPubKey keys,
      vk_nullifyingKey = k_nullifyingKey keys \<rparr> = exportViewOnlyKeys keys"
    by (simp add: createDelegatedViewKey_def exportViewOnlyKeys_def)
  ultimately show ?thesis
    using that [OF d(1)] assms(6) scan_tokens_once [of C H P "exportViewOnlyKeys keys" ?a, OF d(2) a(1), of tok toks]
    by (simp add: auditScan_def audit_body_def createDelegatedViewKey_def transfer_note_def Let_def)
qed

lemma audit_rows_plain:
  assumes "auditScan C H P A now key anns opts = Some (Inr sm)" "r \<in> set (as_records sm)"
  shows "plain_field (ar_commitmentHex r) \<and> plain_field (ar_ephemeralPubHex r)"
proof -
  obtain pub nk where body: "audit_body C H P A key pub nk anns opts = Inr sm"
    using assms by (auto simp: auditScan_def js_bind_Inr_iff split: if_split_asm option.split_asm)
  show ?thesis by (rule audit_body_parts [OF body]) (use assms(2) in \<open>auto simp: in_row_def out_row_def\<close>)
qed

section \<open>Properties\<close>



definition sample_opts :: delegation_options where
  "sample_opts = \<lparr> do_fromSlot = Some 100, do_toSlot = Some 200, do_expiresAt = None, do_label = None \<rparr>"

lemma sample_scope: "admits (nullish None (do_fromSlot sample_opts)) (nullish (Some 500) (do_toSlot sample_opts)) (Some 300)"
  by (simp add: admits_def nullish_def sample_opts_def)

lemmas sample_audit = sample_curve_ok sample_fits sample_keys_ok


lemma sample_audit_result:
  obtains d sm r where "auditScan sample_curve sample_sha sample_poseidon sample_aead 5 (createDelegatedViewKey [1] 0 sample_keys (permission_bits SCAN) sample_opts)
      [audited_transfer d 3 300] \<lparr> ao_tokenIds = [8, 9], ao_fromSlot = None, ao_toSlot = Some 500, ao_senderMemos = None \<rparr> = Some (Inr sm)"
    "as_records sm = [r]" "ar_blockTime r = 0" "as_effectiveFromSlot sm = Some 100" "as_effectiveToSlot sm = Some 500"
proof -
  have "(0::int) < 1000" "1000 \<le> MAX_SATS" "do_expiresAt sample_opts = None" by (simp_all add: MAX_SATS_def sample_opts_def)
  note result = audit_of_transfer [OF sample_audit this(1,2) sample_spending_key sample_scope this(3),
    of sample_sha "[7]" 0 9 sample_aead 5 "[1]" 0 3 8 "[9]"]
  show ?thesis by (rule result, rule that, assumption, rule AuditScanSummary.select_convs) (simp_all add: nullish_def sample_opts_def in_record_def transfer_note_def)
qed


end
