(* ===== verification/Audit_Report.thy ===== *)
theory Audit_Report
  imports Auditor
begin

text \<open>
  The report of an audit in CSV, \<open>auditRecordsToCsv\<close> of \<open>src/sdk/src/auditor.ts\<close>, with \<open>Date.prototype.toISOString\<close> of
  the language as far as it is used: integral milliseconds, the time range of ECMAScript, and the proleptic Gregorian calendar.
\<close>

section \<open>The report\<close>

fun js_join :: "string \<Rightarrow> string list \<Rightarrow> string" where
  "js_join sep [] = []"
| "js_join sep [x] = x"
| "js_join sep (x # y # xs) = x @ sep @ js_join sep (y # xs)"

text \<open>Year, month and day of a day counted from 1970-01-01; years start in March inside the computation.\<close>

definition civil_date :: "int \<Rightarrow> int \<times> int \<times> int" where
  "civil_date day =
     (let z = day + 719468;
          era = z div 146097; doe = z mod 146097;
          yoe = (doe - doe div 1460 + doe div 36524 - doe div 146096) div 365;
          doy = doe - (365 * yoe + yoe div 4 - yoe div 100);
          mp = (5 * doy + 2) div 153;
          d = doy - (153 * mp + 2) div 5 + 1;
          m = (if mp < 10 then mp + 3 else mp - 9);
          y = yoe + era * 400
      in (if m \<le> 2 then y + 1 else y, m, d))"

definition two_digits :: "int \<Rightarrow> string" where
  "two_digits v = padStart0 2 (js_toString 10 v)"

definition iso_year :: "int \<Rightarrow> string" where
  "iso_year y =
     (if 0 \<le> y \<and> y \<le> 9999 then padStart0 4 (js_toString 10 y)
      else (if y < 0 then ''-'' else ''+'') @ padStart0 6 (js_toString 10 \<bar>y\<bar>))"

definition toISOString :: "int \<Rightarrow> string result" where
  "toISOString ms =
     (if \<bar>ms\<bar> > 8640000000000000 then Inl RangeError
      else
        (let (y, m, d) = civil_date (ms div 86400000); rest = ms mod 86400000 in
         Inr (iso_year y @ ''-'' @ two_digits m @ ''-'' @ two_digits d @ ''T'' @ two_digits (rest div 3600000) @ '':'' @
              two_digits (rest div 60000 mod 60) @ '':'' @ two_digits (rest div 1000 mod 60) @ ''.'' @
              padStart0 3 (js_toString 10 (rest mod 1000)) @ ''Z'')))"

fun direction_text :: "AuditDirection \<Rightarrow> string" where
  "direction_text IN = ''IN''" | "direction_text OUT = ''OUT''"
| "direction_text SELF = ''SELF''" | "direction_text UNKNOWN = ''UNKNOWN''"

definition CSV_HEADER :: string where
  "CSV_HEADER = ''slot,block_time_iso,leaf_index,direction,type,token_id,amount,commitment,ephemeral_pub''"

definition csv_fields :: "string \<Rightarrow> AuditRecord \<Rightarrow> string list" where
  "csv_fields ts r =
     [js_toString 10 (ar_slot r), ts, js_toString 10 (ar_leafIndex r), direction_text (ar_direction r),
      (if ar_direction r = OUT then ''sender-memo''
       else if ar_announcementType r = ANNOUNCEMENT_TYPE_DEPOSIT then ''deposit'' else ''transfer''),
      js_toString 10 (ar_tokenId r), js_toString 10 (ar_amount r), ar_commitmentHex r, ar_ephemeralPubHex r]"

definition csv_line :: "AuditRecord \<Rightarrow> string result" where
  "csv_line r =
     js_bind (if ar_blockTime r > 0 then toISOString (ar_blockTime r * 1000) else Inr []) (\<lambda>ts.
       Inr (js_join '','' (csv_fields ts r)))"

definition auditRecordsToCsv :: "AuditRecord list \<Rightarrow> string result" where
  "auditRecordsToCsv records =
     js_bind (js_mapM csv_line records) (\<lambda>csv_lines. Inr (js_join [CHR 0x0A] (CSV_HEADER # csv_lines) @ [CHR 0x0A]))"

section \<open>Reading it back\<close>

text \<open>Splitting at a separator, as a reader of the report does.\<close>

fun split_at :: "char \<Rightarrow> string \<Rightarrow> string list" where
  "split_at sep [] = [[]]"
| "split_at sep (c # cs) =
     (if c = sep then [] # split_at sep cs
      else (case split_at sep cs of [] \<Rightarrow> [[c]] | f # fs \<Rightarrow> (c # f) # fs))"

lemma split_at_field: "sep \<notin> set f \<Longrightarrow> split_at sep f = [f]"
  by (induction f) auto

lemma split_at_cons: "sep \<notin> set f \<Longrightarrow> split_at sep (f @ sep # rest) = f # split_at sep rest"
  by (induction f) auto

lemma split_joined: "fs \<noteq> [] \<Longrightarrow> \<forall>f \<in> set fs. sep \<notin> set f \<Longrightarrow> split_at sep (js_join [sep] fs) = fs"
  by (induction "[sep]" fs rule: js_join.induct) (auto simp: split_at_field split_at_cons)

lemma split_join_ended:
  "fs \<noteq> [] \<Longrightarrow> \<forall>f \<in> set fs. sep \<notin> set f \<Longrightarrow> split_at sep (js_join [sep] fs @ [sep]) = fs @ [[]]"
  by (induction "[sep]" fs rule: js_join.induct) (auto simp: split_at_cons)

lemma plain_decimal [simp]: "plain_field (js_toString 10 v)"
proof -
  have "plain_field (radix_str 10 n)" for n
    using radix_str_digits [of 10 n] by (fastforce simp: plain_field_def)
  then show ?thesis by (simp add: js_toString_def)
qed

lemma plain_pad [simp]: "plain_field (padStart0 n s) \<longleftrightarrow> plain_field s"
  by (auto simp: plain_field_def padStart0_def)

lemma toISOString_plain: "toISOString ms = Inr ts \<Longrightarrow> plain_field ts"
  by (auto simp: toISOString_def two_digits_def iso_year_def Let_def split: if_split_asm prod.split_asm)

lemma plain_join: "\<forall>f \<in> set fs. plain_field f \<Longrightarrow> CHR 0x0A \<notin> set (js_join '','' fs)"
  by (induction "'',''" fs rule: js_join.induct) (auto simp: plain_field_def)

lemma csv_fields_plain:
  "plain_field ts \<Longrightarrow> plain_field (ar_commitmentHex r) \<Longrightarrow> plain_field (ar_ephemeralPubHex r) \<Longrightarrow>
   \<forall>f \<in> set (csv_fields ts r). plain_field f"
  by (cases "ar_direction r") (auto simp: csv_fields_def)

text \<open>The time column: empty without a block time.\<close>

definition time_column :: "AuditRecord \<Rightarrow> string result" where
  "time_column r = (if ar_blockTime r > 0 then toISOString (ar_blockTime r * 1000) else Inr [])"

lemma csv_line_fields:
  assumes "csv_line r = Inr line" "plain_field (ar_commitmentHex r)" "plain_field (ar_ephemeralPubHex r)"
  shows "CHR 0x0A \<notin> set line \<and> (\<exists>ts. time_column r = Inr ts \<and> split_at (CHR '','') line = csv_fields ts r)"
proof -
  obtain ts where ts: "time_column r = Inr ts" "line = js_join '','' (csv_fields ts r)"
    using assms(1) by (auto simp: csv_line_def time_column_def js_bind_Inr_iff)
  then have "plain_field ts" by (auto simp: time_column_def toISOString_plain split: if_split_asm)
  then have p: "\<forall>f \<in> set (csv_fields ts r). plain_field f" using assms(2,3) by (intro csv_fields_plain)
  moreover have "csv_fields ts r \<noteq> []" by (simp add: csv_fields_def)
  ultimately show ?thesis using ts plain_join [OF p] split_joined by (auto simp: plain_field_def)
qed

lemma csv_lines_fields:
  assumes "js_mapM csv_line rs = Inr lns" "\<forall>r \<in> set rs. plain_field (ar_commitmentHex r) \<and> plain_field (ar_ephemeralPubHex r)"
  shows "(\<forall>l \<in> set lns. CHR 0x0A \<notin> set l) \<and>
    list_all2 (\<lambda>r l. \<exists>ts. time_column r = Inr ts \<and> split_at (CHR '','') l = csv_fields ts r) rs lns"
  using assms by (induction rs arbitrary: lns) (auto simp: js_bind_Inr_iff dest!: csv_line_fields)

section \<open>Properties\<close>

text \<open>
  The report of a scan can be read back: split into lines it is the header, one line per record in the same order,
  and the empty end; split at commas, the header has nine columns and every line exactly the nine fields of its record.
  Rendering fails only for a block time beyond the range of dates.
\<close>

theorem audit_report_reads_back:
  assumes "auditScan C H P A now key anns opts = Some (Inr sm)"
  shows "(case auditRecordsToCsv (as_records sm) of
      Inl e \<Rightarrow> e = RangeError \<and> (\<exists>r \<in> set (as_records sm). ar_blockTime r > 8640000000000)
    | Inr report \<Rightarrow> \<exists>lns. split_at (CHR 0x0A) report = CSV_HEADER # lns @ [[]] \<and>
        length (split_at (CHR '','') CSV_HEADER) = 9 \<and>
        list_all2 (\<lambda>r l. \<exists>ts. time_column r = Inr ts \<and> split_at (CHR '','') l = csv_fields ts r) (as_records sm) lns)"
proof (cases "js_mapM csv_line (as_records sm)")
  case (Inl e)
  have "js_mapM csv_line rs = Inl e \<Longrightarrow> e = RangeError \<and> (\<exists>r \<in> set rs. ar_blockTime r > 8640000000000)" for rs
    by (induction rs)
       (auto simp: js_bind_Inl_iff csv_line_def toISOString_def Let_def split: if_split_asm prod.split_asm)
  with Inl show ?thesis by (simp add: auditRecordsToCsv_def)
next
  case (Inr lns)
  have f: "(\<forall>l \<in> set lns. CHR 0x0A \<notin> set l) \<and>
    list_all2 (\<lambda>r l. \<exists>ts. time_column r = Inr ts \<and> split_at (CHR '','') l = csv_fields ts r) (as_records sm) lns"
    using Inr audit_rows_plain [OF assms] by (intro csv_lines_fields) auto
  then have "split_at (CHR 0x0A) (js_join [CHR 0x0A] (CSV_HEADER # lns) @ [CHR 0x0A]) = (CSV_HEADER # lns) @ [[]]"
    by (intro split_join_ended) (auto simp: CSV_HEADER_def)
  moreover have "length (split_at (CHR '','') CSV_HEADER) = 9" by (simp add: CSV_HEADER_def)
  ultimately show ?thesis using f Inr by (simp add: auditRecordsToCsv_def del: js_join.simps)
qed

theorem audit_report_reads_back_witness:
  "\<exists>d sm report l. auditScan sample_curve sample_sha sample_poseidon sample_aead 5 (createDelegatedViewKey [1] 0 sample_keys (permission_bits SCAN) sample_opts)
      [audited_transfer d 3 300] \<lparr> ao_tokenIds = [8, 9], ao_fromSlot = None, ao_toSlot = Some 500, ao_senderMemos = None \<rparr> = Some (Inr sm) \<and>
    auditRecordsToCsv (as_records sm) = Inr report \<and> split_at (CHR 0x0A) report = [CSV_HEADER, l, []]"
proof -
  obtain d sm r where d: "auditScan sample_curve sample_sha sample_poseidon sample_aead 5 (createDelegatedViewKey [1] 0 sample_keys (permission_bits SCAN) sample_opts)
      [audited_transfer d 3 300] \<lparr> ao_tokenIds = [8, 9], ao_fromSlot = None, ao_toSlot = Some 500, ao_senderMemos = None \<rparr> = Some (Inr sm)"
    "as_records sm = [r]" "ar_blockTime r = 0"
    by (rule sample_audit_result)
  with audit_report_reads_back [OF d(1)] obtain report l where
    "auditRecordsToCsv (as_records sm) = Inr report" "split_at (CHR 0x0A) report = [CSV_HEADER, l, []]"
    by (auto simp: list_all2_Cons1 split: sum.split_asm)
  with d(1) show ?thesis by blast
qed

text \<open>The calendar on the first day, a leap day and the last day of ECMAScript.\<close>

lemma civil_examples:
  "civil_date 0 = (1970, 1, 1)" "civil_date 19782 = (2024, 2, 29)" "civil_date 19783 = (2024, 3, 1)"
  "civil_date 100000000 = (275760, 9, 13)"
  by code_simp+

end
