(* ===== verification/Bitcoin.thy ===== *)
theory Bitcoin
  imports Onchain_Field
begin

text \<open>
  Bitcoin transactions as the program reads them, \<open>src/contracts/programs/utxopia/src/utils/bitcoin.rs\<close>: variable
  length integers, the walk over inputs and outputs, and the searches for the deposit. The iterators are functions on the data
  that is left. The program is compiled with overflow checks: a sum above 64 bits panics.
\<close>

section \<open>The parser\<close>

definition OP_RETURN :: byte where "OP_RETURN = 0x6a"
definition COMMITMENT_SIZE :: nat where "COMMITMENT_SIZE = 32"

definition double_sha256 :: "sha \<Rightarrow> bytes \<Rightarrow> bytes" where
  "double_sha256 H bs = H (H bs)"

definition compute_tx_hash :: "sha \<Rightarrow> bytes \<Rightarrow> bytes" where
  "compute_tx_hash H raw_tx = double_sha256 H raw_tx"

definition read_varint :: "bytes \<Rightarrow> (nat \<times> nat) pres" where
  "read_varint bs =
     (case bs of
        [] \<Rightarrow> Inl InvalidInstructionData
      | b # _ \<Rightarrow>
          if b \<le> 0xfc then Inr (unat b, 1)
          else if b = 0xfd then
            (if length bs < 3 then Inl InvalidInstructionData else Inr (nat (le_val (js_slice bs 1 3)), 3))
          else if b = 0xfe then
            (if length bs < 5 then Inl InvalidInstructionData else Inr (nat (le_val (js_slice bs 1 5)), 5))
          else
            (if length bs < 9 then Inl InvalidInstructionData else Inr (nat (le_val (js_slice bs 1 9)), 9)))"

record TxOutput =
  to_value :: int
  to_script :: bytes

definition is_op_return :: "TxOutput \<Rightarrow> bool" where
  "is_op_return out \<longleftrightarrow> to_script out \<noteq> [] \<and> to_script out ! 0 = OP_RETURN"

definition get_commitment :: "TxOutput \<Rightarrow> bytes option" where
  "get_commitment out =
     (if \<not> is_op_return out \<or> length (to_script out) < 2 then None
      else
        (let push_len = unat (to_script out ! 1) in
         if length (to_script out) < 2 + push_len \<or> push_len < COMMITMENT_SIZE then None
         else Some (js_slice (to_script out) 2 (2 + COMMITMENT_SIZE))))"

record DepositOpReturn =
  dor_ephemeral_pub :: bytes
  dor_npk :: bytes

definition get_deposit_op_return :: "TxOutput \<Rightarrow> DepositOpReturn option" where
  "get_deposit_op_return out =
     (if \<not> is_op_return out \<or> length (to_script out) < 2 then None
      else
        (let s = to_script out;
             data_slice =
               (if length s = 66 \<and> s ! 1 = 0x40 then Some (js_slice s 2 66)
                else if length s = 67 \<and> s ! 1 = 0x4c \<and> s ! 2 = 0x40 then Some (js_slice s 3 67)
                else None)
         in map_option (\<lambda>d. \<lparr> dor_ephemeral_pub = js_slice d 0 32, dor_npk = js_slice d 32 64 \<rparr>) data_slice))"

record ParsedTransaction =
  pt_version :: int
  pt_inputs_data :: bytes
  pt_input_count :: nat
  pt_outputs_data :: bytes
  pt_output_count :: nat
  pt_is_segwit :: bool

text \<open>A sum of machine words.\<close>

definition usize :: "nat \<Rightarrow> nat pres" where
  "usize v = (if v < 2 ^ 64 then Inr v else Inl Panic)"

text \<open>One step over \<open>before\<close> bytes, a counted script and \<open>after\<close> bytes; the result is the new offset.\<close>

definition skip_item :: "nat \<Rightarrow> nat \<Rightarrow> bytes \<Rightarrow> nat \<Rightarrow> nat pres" where
  "skip_item before after raw_tx off =
     (if off + before > length raw_tx then Inl InvalidInstructionData
      else
        js_bind (read_varint (drop (off + before) raw_tx)) (\<lambda>(script_len, varint_size).
        js_bind (usize (off + before + (varint_size + script_len + after))) (\<lambda>off'.
          if off' > length raw_tx then Inl InvalidInstructionData else Inr off')))"

fun skip_items :: "nat \<Rightarrow> nat \<Rightarrow> nat \<Rightarrow> bytes \<Rightarrow> nat \<Rightarrow> nat pres" where
  "skip_items 0 before after raw_tx off = Inr off"
| "skip_items (Suc n) before after raw_tx off = js_bind (skip_item before after raw_tx off) (skip_items n before after raw_tx)"

definition signed32 :: "int \<Rightarrow> int" where
  "signed32 v = (if v \<ge> 2 ^ 31 then v - 2 ^ 32 else v)"

definition ParsedTransaction_parse :: "bytes \<Rightarrow> ParsedTransaction pres" where
  "ParsedTransaction_parse raw_tx =
     (if length raw_tx < 10 then Inl InvalidInstructionData
      else
        (let version = signed32 (le_val (js_slice raw_tx 0 4));
             is_segwit = (raw_tx ! 4 = 0x00 \<and> raw_tx ! 5 = 0x01);
             off = (if is_segwit then 6 else 4) in
         js_bind (read_varint (drop off raw_tx)) (\<lambda>(input_count, varint_size).
         let inputs_start = off + varint_size in
         js_bind (skip_items input_count 36 4 raw_tx inputs_start) (\<lambda>inputs_end.
         js_bind (read_varint (drop inputs_end raw_tx)) (\<lambda>(output_count, varint_size).
         let outputs_start = inputs_end + varint_size in
         js_bind (skip_items output_count 8 0 raw_tx outputs_start) (\<lambda>outputs_end.
           Inr \<lparr> pt_version = version, pt_inputs_data = js_slice raw_tx inputs_start inputs_end, pt_input_count = input_count,
                 pt_outputs_data = js_slice raw_tx outputs_start outputs_end, pt_output_count = output_count,
                 pt_is_segwit = is_segwit \<rparr>))))))"

text \<open>The iterators.\<close>

fun output_items :: "nat \<Rightarrow> bytes \<Rightarrow> TxOutput list" where
  "output_items 0 d = []"
| "output_items (Suc remaining) d =
     (if 8 > length d then []
      else
        (case read_varint (drop 8 d) of
           Inl e \<Rightarrow> []
         | Inr (script_len, varint_size) \<Rightarrow>
             (let start = 8 + varint_size; script_end = start + script_len in
              if script_end > length d then []
              else \<lparr> to_value = le_val (js_slice d 0 8), to_script = js_slice d start script_end \<rparr> #
                   output_items remaining (drop script_end d))))"

definition pt_outputs :: "ParsedTransaction \<Rightarrow> TxOutput list" where
  "pt_outputs tx = output_items (pt_output_count tx) (pt_outputs_data tx)"

record TxInput =
  ti_prev_txid :: bytes
  ti_prev_vout :: int

fun input_items :: "nat \<Rightarrow> bytes \<Rightarrow> TxInput list" where
  "input_items 0 d = []"
| "input_items (Suc remaining) d =
     (if 36 > length d then []
      else
        (case read_varint (drop 36 d) of
           Inl e \<Rightarrow> []
         | Inr (script_len, varint_size) \<Rightarrow>
             (let off = 36 + varint_size + script_len + 4 in
              if off > length d then []
              else \<lparr> ti_prev_txid = js_slice d 0 32, ti_prev_vout = le_val (js_slice d 32 36) \<rparr> #
                   input_items remaining (drop off d))))"

definition pt_inputs :: "ParsedTransaction \<Rightarrow> TxInput list" where
  "pt_inputs tx = input_items (pt_input_count tx) (pt_inputs_data tx)"

text \<open>The searches. A position is the index of the output.\<close>

definition sum_outputs :: "ParsedTransaction \<Rightarrow> int" where
  "sum_outputs tx = foldl (\<lambda>total out. min (2 ^ 64 - 1) (total + to_value out)) 0 (pt_outputs tx)"

fun find_some :: "('a \<Rightarrow> 'b option) \<Rightarrow> 'a list \<Rightarrow> 'b option" where
  "find_some f [] = None"
| "find_some f (x # xs) = (case f x of None \<Rightarrow> find_some f xs | Some y \<Rightarrow> Some y)"

fun find_index :: "nat \<Rightarrow> ('a \<Rightarrow> bool) \<Rightarrow> 'a list \<Rightarrow> ('a \<times> nat) option" where
  "find_index i p [] = None"
| "find_index i p (x # xs) = (if p x then Some (x, i) else find_index (Suc i) p xs)"

definition find_commitment :: "ParsedTransaction \<Rightarrow> bytes option" where
  "find_commitment tx = find_some (\<lambda>out. if is_op_return out then get_commitment out else None) (pt_outputs tx)"

definition is_deposit_output :: "TxOutput \<Rightarrow> bool" where
  "is_deposit_output out \<longleftrightarrow> \<not> is_op_return out \<and> to_value out > 0"

definition find_deposit_output :: "ParsedTransaction \<Rightarrow> TxOutput option" where
  "find_deposit_output tx = List.find is_deposit_output (pt_outputs tx)"

definition find_deposit_output_with_vout :: "ParsedTransaction \<Rightarrow> (TxOutput \<times> nat) option" where
  "find_deposit_output_with_vout tx = find_index 0 is_deposit_output (pt_outputs tx)"

definition find_output_by_script :: "ParsedTransaction \<Rightarrow> bytes \<Rightarrow> (TxOutput \<times> nat) option" where
  "find_output_by_script tx script = find_index 0 (\<lambda>out. to_script out = script) (pt_outputs tx)"

definition find_deposit_op_return :: "ParsedTransaction \<Rightarrow> DepositOpReturn option" where
  "find_deposit_op_return tx = find_some (\<lambda>out. if is_op_return out then get_deposit_op_return out else None) (pt_outputs tx)"

definition find_input_with_prev_txid :: "ParsedTransaction \<Rightarrow> bytes \<Rightarrow> bool" where
  "find_input_with_prev_txid tx target_txid \<longleftrightarrow> (\<exists>i \<in> set (pt_inputs tx). ti_prev_txid i = target_txid)"

section \<open>The format\<close>

text \<open>A transaction in the Bitcoin format without witness, which is what its identifier is the hash of.\<close>

definition varint_bytes :: "nat \<Rightarrow> bytes" where
  "varint_bytes n =
     (if n \<le> 0xfc then [of_nat n]
      else if n < 2 ^ 16 then 0xfd # le_bytes 2 (int n)
      else if n < 2 ^ 32 then 0xfe # le_bytes 4 (int n)
      else 0xff # le_bytes 8 (int n))"

text \<open>Inputs and outputs have one shape: fixed bytes, a counted script, fixed bytes.\<close>

fun btc_item :: "bytes \<times> bytes \<times> bytes \<Rightarrow> bytes" where
  "btc_item (pre, script, post) = pre @ varint_bytes (length script) @ script @ post"

record btc_input =
  bi_txid :: bytes
  bi_vout :: int
  bi_script :: bytes
  bi_sequence :: int

definition in_item :: "btc_input \<Rightarrow> bytes \<times> bytes \<times> bytes" where
  "in_item i = (bi_txid i @ le_bytes 4 (bi_vout i), bi_script i, le_bytes 4 (bi_sequence i))"

definition out_item :: "TxOutput \<Rightarrow> bytes \<times> bytes \<times> bytes" where
  "out_item out = (le_bytes 8 (to_value out), to_script out, [])"

definition btc_bytes :: "int \<Rightarrow> btc_input list \<Rightarrow> TxOutput list \<Rightarrow> int \<Rightarrow> bytes" where
  "btc_bytes version ins outs locktime =
     le_bytes 4 version @ varint_bytes (length ins) @ concat (map (btc_item \<circ> in_item) ins) @
     varint_bytes (length outs) @ concat (map (btc_item \<circ> out_item) outs) @ le_bytes 4 locktime"

lemma length_varint_pos: "1 \<le> length (varint_bytes n)"
  by (simp add: varint_bytes_def)

lemma read_varint_bytes [simp]:
  assumes "n < 2 ^ 64"
  shows "read_varint (varint_bytes n @ rest) = Inr (n, length (varint_bytes n))"
proof -
  have le: "js_slice (b # le_bytes k (int n) @ rest) 1 (Suc k) = le_bytes k (int n)" for b k
    by (simp add: js_slice_def del: le_bytes.simps)
  have v: "nat (le_val (le_bytes k (int n))) = n" if "n < 256 ^ k" for k
  proof -
    have "int n < 256 ^ k" using that by (metis of_nat_less_iff of_nat_numeral of_nat_power)
    then show ?thesis by (simp add: le_val_le_bytes del: le_bytes.simps)
  qed
  consider "n \<le> 0xfc" | "\<not> n \<le> 0xfc" "n < 2 ^ 16" | "\<not> n < 2 ^ 16" "n < 2 ^ 32" | "\<not> n < 2 ^ 32" by linarith
  then show ?thesis
  proof cases
    case 1
    then have "(of_nat n :: byte) \<le> 0xfc \<and> unat (of_nat n :: byte) = n"
      by (simp add: word_le_nat_alt take_bit_nat_eq_self unsigned_of_nat)
    with 1 show ?thesis by (simp add: varint_bytes_def read_varint_def)
  next
    case 2
    with le [of "0xfd" 2] v [of 2] show ?thesis by (simp add: varint_bytes_def read_varint_def del: le_bytes.simps)
  next
    case 3
    with le [of "0xfe" 4] v [of 4] show ?thesis by (simp add: varint_bytes_def read_varint_def del: le_bytes.simps)
  next
    case 4
    with le [of "0xff" 8] v [of 8] assms show ?thesis by (simp add: varint_bytes_def read_varint_def del: le_bytes.simps)
  qed
qed

text \<open>Walking over items and reading them.\<close>

lemma skip_items_over:
  assumes "\<forall>(p, s, q) \<in> set xs. length p = before \<and> length q = after"
    "length (A @ concat (map btc_item xs) @ B) < 2 ^ 64"
  shows "skip_items (length xs) before after (A @ concat (map btc_item xs) @ B) (length A) =
    Inr (length A + length (concat (map btc_item xs)))"
  using assms
proof (induction xs arbitrary: A)
  case (Cons x xs)
  obtain p s q where x: "x = (p, s, q)" by (cases x)
  let ?R = "concat (map btc_item xs) @ B" and ?v = "varint_bytes (length s)"
  let ?tx = "A @ concat (map btc_item (x # xs)) @ B"
  have w: "length p = before" "length q = after" "length s < 2 ^ 64" using Cons.prems x by auto
  have "?tx = (A @ p) @ ?v @ s @ q @ ?R" using x by simp
  then have "drop (length A + before) ?tx = ?v @ s @ q @ ?R" using w by (metis append_eq_conv_conj length_append)
  then have "read_varint (drop (length A + before) ?tx) = Inr (length s, length ?v)" using w by simp
  then have "skip_item before after ?tx (length A) = Inr (length (A @ btc_item x))"
    using Cons.prems(2) x w by (simp add: skip_item_def usize_def)
  moreover have "?tx = (A @ btc_item x) @ ?R" by simp
  moreover have "skip_items (length xs) before after ((A @ btc_item x) @ ?R) (length (A @ btc_item x)) =
      Inr (length (A @ btc_item x) + length (concat (map btc_item xs)))"
    using Cons.prems by (intro Cons.IH) auto
  ultimately show ?case by (simp add: add.assoc)
qed simp

lemma read_outputs:
  assumes "\<forall>(p, s, q) \<in> set xs. length p = 8 \<and> q = [] \<and> length s < 2 ^ 64"
  shows "output_items (length xs) (concat (map btc_item xs)) = map (\<lambda>(p, s, q). \<lparr> to_value = le_val p, to_script = s \<rparr>) xs"
  using assms
proof (induction xs)
  case (Cons x xs)
  obtain p s where x: "x = (p, s, [])" "length p = 8" "length s < 2 ^ 64" using Cons.prems by auto
  then show ?case using Cons by (simp add: js_slice_def)
qed simp

lemma read_inputs:
  assumes "\<forall>(p, s, q) \<in> set xs. length p = 36 \<and> length q = 4 \<and> length s < 2 ^ 64"
  shows "input_items (length xs) (concat (map btc_item xs)) =
    map (\<lambda>(p, s, q). \<lparr> ti_prev_txid = take 32 p, ti_prev_vout = le_val (drop 32 p) \<rparr>) xs"
  using assms
proof (induction xs)
  case (Cons x xs)
  obtain p s q where x: "x = (p, s, q)" "length p = 36" "length q = 4" "length s < 2 ^ 64" using Cons.prems by auto
  then show ?case using Cons by (simp add: js_slice_def)
qed simp

text \<open>What makes a transaction representable.\<close>

definition btc_ok :: "btc_input list \<Rightarrow> TxOutput list \<Rightarrow> bool" where
  "btc_ok ins outs \<longleftrightarrow> ins \<noteq> [] \<and> (\<forall>i \<in> set ins. length (bi_txid i) = 32 \<and> fits 4 (bi_vout i)) \<and>
     (\<forall>out \<in> set outs. fits 8 (to_value out)) \<and> length (btc_bytes 0 ins outs 0) < 2 ^ 64"

lemma concat_items: "concat (map (btc_item \<circ> f) xs) = concat (map btc_item (map f xs))"
  by simp

lemma item_in_concat: "x \<in> set xs \<Longrightarrow> length (btc_item x) \<le> length (concat (map btc_item xs))"
  by (induction xs) auto

lemma script_short:
  "length (concat (map (btc_item \<circ> f) xs)) < m \<Longrightarrow> x \<in> set xs \<Longrightarrow> f x = (p, s, q) \<Longrightarrow> length s < m"
proof -
  assume "length (concat (map (btc_item \<circ> f) xs)) < m" "x \<in> set xs" and f: "f x = (p, s, q)"
  moreover from this(2) have "f x \<in> set (map f xs)" by simp
  ultimately have "length (btc_item (f x)) < m" using item_in_concat le_less_trans unfolding concat_items by blast
  with f show ?thesis by simp
qed

lemma count_short: "length xs \<le> length (concat (map (btc_item \<circ> f) xs))"
proof (induction xs)
  case (Cons x xs)
  obtain p t q where "f x = (p, t, q)" by (cases "f x")
  then have "1 \<le> length (btc_item (f x))" using length_varint_pos [of "length t"] by simp
  with Cons show ?case by simp
qed simp

lemma le_field: "fits n v \<Longrightarrow> le_val (le_bytes n v) = v"
  by (simp add: le_val_le_bytes del: le_bytes.simps)

lemma parse_btc_bytes:
  assumes "btc_ok ins outs"
  obtains tx where "ParsedTransaction_parse (btc_bytes v ins outs lt) = Inr tx" "pt_version tx = signed32 (v mod 256 ^ 4)"
    "\<not> pt_is_segwit tx" "pt_outputs tx = outs"
    "pt_inputs tx = map (\<lambda>i. \<lparr> ti_prev_txid = bi_txid i, ti_prev_vout = bi_vout i \<rparr>) ins"
proof -
  let ?raw = "btc_bytes v ins outs lt" and ?I = "concat (map (btc_item \<circ> in_item) ins)" and ?O = "concat (map (btc_item \<circ> out_item) outs)"
  let ?vi = "varint_bytes (length ins)" and ?vo = "varint_bytes (length outs)"
  have raw: "?raw = le_bytes 4 v @ ?vi @ ?I @ ?vo @ ?O @ le_bytes 4 lt" by (simp add: btc_bytes_def del: le_bytes.simps)
  have total: "length ?raw < 2 ^ 64" using assms by (simp add: btc_ok_def btc_bytes_def del: le_bytes.simps)
  then have small: "length ?I < 2 ^ 64" "length ?O < 2 ^ 64" by (simp_all add: raw del: le_bytes.simps)
  have count: "length ins < 2 ^ 64" "length outs < 2 ^ 64"
    using count_short [of ins in_item] count_short [of outs out_item] small by linarith+
  have "0 < length ins" using assms by (simp add: btc_ok_def)
  have first: "?raw ! 4 \<noteq> 0"
  proof -
    have "?vi \<noteq> []" using length_varint_pos [of "length ins"] by auto
    then have "?raw ! 4 = ?vi ! 0" by (cases ?vi) (simp_all add: raw nth_append del: le_bytes.simps)
    also have "\<dots> \<noteq> 0"
      using \<open>0 < length ins\<close> by (auto simp: varint_bytes_def word_of_nat_eq_0_iff dest: dvd_imp_le)
    finally show ?thesis .
  qed
  have ten: "10 \<le> length ?raw" using length_varint_pos [of "length ins"] length_varint_pos [of "length outs"]
    by (simp only: raw length_append length_le_bytes)
  let ?A = "le_bytes 4 v @ ?vi" and ?B = "le_bytes 4 v @ ?vi @ ?I @ ?vo"
  have ins: "\<forall>(p, s, q) \<in> set (map in_item ins). length p = 36 \<and> length q = 4 \<and> length s < 2 ^ 64"
    using assms script_short [OF small(1)] by (fastforce simp: btc_ok_def in_item_def simp del: le_bytes.simps)
  have outs: "\<forall>(p, s, q) \<in> set (map out_item outs). length p = 8 \<and> q = [] \<and> length s < 2 ^ 64"
    using script_short [OF small(2)] by (fastforce simp: out_item_def simp del: le_bytes.simps)
  have s1: "skip_items (length ins) 36 4 ?raw (length ?A) = Inr (length ?A + length ?I)"
    using skip_items_over [of "map in_item ins" 36 4 ?A "?vo @ ?O @ le_bytes 4 lt"] ins total
    by (fastforce simp: raw concat_items simp del: le_bytes.simps map_map)
  have s2: "skip_items (length outs) 8 0 ?raw (length ?B) = Inr (length ?B + length ?O)"
    using skip_items_over [of "map out_item outs" 8 0 ?B "le_bytes 4 lt"] outs total
    by (fastforce simp: raw concat_items simp del: le_bytes.simps map_map)
  have r1: "read_varint (drop 4 ?raw) = Inr (length ins, length ?vi)" using count by (simp add: raw del: le_bytes.simps)
  have "drop (length ?A + length ?I) ?raw = ?vo @ ?O @ le_bytes 4 lt"
    by (simp add: raw del: le_bytes.simps)
  then have r2: "read_varint (drop (length ?A + length ?I) ?raw) = Inr (length outs, length ?vo)" using count by simp
  have sl: "js_slice ?raw (length ?A) (length ?A + length ?I) = ?I" "js_slice ?raw (length ?B) (length ?B + length ?O) = ?O"
    "js_slice ?raw 0 4 = le_bytes 4 v" by (simp_all add: raw js_slice_def del: le_bytes.simps)
  let ?tx = "\<lparr> pt_version = signed32 (v mod 256 ^ 4), pt_inputs_data = ?I, pt_input_count = length ins,
      pt_outputs_data = ?O, pt_output_count = length outs, pt_is_segwit = False \<rparr>"
  have "ParsedTransaction_parse ?raw = Inr ?tx"
    using ten first r1 r2 s1 s2 sl unfolding ParsedTransaction_parse_def
    by (simp add: le_val_le_bytes add.assoc del: le_bytes.simps)
  moreover have "pt_outputs ?tx = outs"
  proof -
    have "pt_outputs ?tx = map (\<lambda>(p, s, q). \<lparr> to_value = le_val p, to_script = s \<rparr>) (map out_item outs)"
      using read_outputs [OF outs] by (simp add: pt_outputs_def comp_def)
    also have "\<dots> = outs"
      using assms by (unfold map_map, intro map_idI) (simp add: out_item_def btc_ok_def le_field del: le_bytes.simps)
    finally show ?thesis .
  qed
  moreover have "pt_inputs ?tx = map (\<lambda>i. \<lparr> ti_prev_txid = bi_txid i, ti_prev_vout = bi_vout i \<rparr>) ins"
  proof -
    have "pt_inputs ?tx = map (\<lambda>(p, s, q). \<lparr> ti_prev_txid = take 32 p, ti_prev_vout = le_val (drop 32 p) \<rparr>) (map in_item ins)"
      using read_inputs [OF ins] by (simp add: pt_inputs_def comp_def)
    also have "\<dots> = map (\<lambda>i. \<lparr> ti_prev_txid = bi_txid i, ti_prev_vout = bi_vout i \<rparr>) ins"
      using assms by (auto simp: in_item_def btc_ok_def le_field simp del: le_bytes.simps)
    finally show ?thesis .
  qed
  ultimately show ?thesis by (intro that [of ?tx]) simp_all
qed

end
