(* ===== verification/Taproot.thy ===== *)
theory Taproot
  imports Bitcoin Stealth_Properties Commitment_Tree
begin

text \<open>
  Taproot addresses and deposit scripts: \<open>src/sdk/src/taproot.ts\<close>, \<open>src/sdk/src/bitcoin/ika.ts\<close>, the deposit functions of
  \<open>src/sdk/src/stealth.ts\<close>, and the reader of OP_RETURN outputs \<open>src/packages/btc-client/src/op-return.ts\<close>. The curve secp256k1
  (\<open>@noble/curves\<close>) and the bech32 encodings (package \<open>bech32\<close>) are parameters.
\<close>

section \<open>Parameters\<close>

record 'p secp256k1 =
  Point_fromHex :: "string \<Rightarrow> 'p result"
  BASE_multiply :: "int \<Rightarrow> 'p result"
  point_add :: "'p \<Rightarrow> 'p \<Rightarrow> 'p"
  toHex_compressed :: "'p \<Rightarrow> string"

record bech32 =
  toWords :: "bytes \<Rightarrow> int list"
  fromWords :: "int list \<Rightarrow> bytes result"
  bech_encode :: "string \<Rightarrow> int list \<Rightarrow> string result"
  bech_decode :: "string \<Rightarrow> (string \<times> int list) result"

datatype btc_network = mainnet | testnet | regtest

definition hrp_of :: "btc_network \<Rightarrow> string" where
  "hrp_of net = (if net = mainnet then ''bc'' else if net = regtest then ''bcrt'' else ''tb'')"

section \<open>Key-path addresses\<close>

definition INTERNAL_KEY_HEX :: string where
  "INTERNAL_KEY_HEX = ''79be667ef9dcbbac55a06295ce870b07029bfcdb2dce28d959f2815b16f81798''"

definition SECP256K1_ORDER :: int where
  "SECP256K1_ORDER = 0xFFFFFFFFFFFFFFFFFFFFFFFFFFFFFFFEBAAEDCE6AF48A03BBFD25E8CD0364141"

record TaprootAddress =
  tp_address :: string
  tp_outputKey :: bytes
  tp_tweak :: bytes

text \<open>The steps from the tweak to the compressed output point, which both derivations contain.\<close>

definition tweaked_point_hex :: "'p secp256k1 \<Rightarrow> bytes \<Rightarrow> bytes \<Rightarrow> string result" where
  "tweaked_point_hex S key tweak =
     (let tweakScalar = shift_in tweak in
      if tweakScalar \<ge> SECP256K1_ORDER then Inl (Error ''Tweak scalar exceeds curve order'')
      else
        js_bind (Point_fromHex S (''02'' @ bytesToHex key)) (\<lambda>internalPoint.
        js_bind (BASE_multiply S tweakScalar) (\<lambda>tweakPoint.
          Inr (toHex_compressed S (point_add S internalPoint tweakPoint)))))"

definition tap_tweak :: "sha \<Rightarrow> bytes \<Rightarrow> bytes \<Rightarrow> bytes result" where
  "tap_tweak H key commitment =
     js_bind (js_set (replicate 64 0) key 0) (\<lambda>t1.
     js_bind (js_set t1 commitment 32) (\<lambda>tweakInput. taggedHash H ''TapTweak'' tweakInput))"

definition deriveTaprootAddress ::
  "'p secp256k1 \<Rightarrow> bech32 \<Rightarrow> sha \<Rightarrow> bytes \<Rightarrow> btc_network \<Rightarrow> bytes option \<Rightarrow> TaprootAddress result" where
  "deriveTaprootAddress S B H commitment network internalKey =
     (let key = (case internalKey of Some k \<Rightarrow> k | None \<Rightarrow> hexToBytes INTERNAL_KEY_HEX) in
      if length key \<noteq> 32 then Inl (Error ''Internal key must be 32 bytes (x-only)'')
      else
        js_bind (tap_tweak H key commitment) (\<lambda>tweak.
        js_bind (tweaked_point_hex S key tweak) (\<lambda>outputKeyHex.
        let outputKey = hexToBytes (drop 2 outputKeyHex) in
        js_bind (bech_encode B (hrp_of network) (1 # toWords B outputKey)) (\<lambda>address.
          Inr \<lparr> tp_address = address, tp_outputKey = outputKey, tp_tweak = tweak \<rparr>))))"

definition verifyTaprootAddress :: "'p secp256k1 \<Rightarrow> bech32 \<Rightarrow> sha \<Rightarrow> string \<Rightarrow> bytes \<Rightarrow> bytes option \<Rightarrow> bool" where
  "verifyTaprootAddress S B H address commitment internalKey =
     (case js_bind (bech_decode B address) (\<lambda>(pref, words).
             if words = [] \<or> hd words \<noteq> 1 then Inr False
             else
               js_bind (fromWords B (drop 1 words)) (\<lambda>actualOutputKey.
               js_bind (deriveTaprootAddress S B H commitment (if pref = ''bc'' then mainnet else testnet) internalKey) (\<lambda>expected.
                 Inr (arraysEqual actualOutputKey (tp_outputKey expected))))) of
        Inl e \<Rightarrow> False
      | Inr b \<Rightarrow> b)"

definition createP2TRScriptPubkey :: "bytes \<Rightarrow> bytes result" where
  "createP2TRScriptPubkey outputKey =
     (if length outputKey \<noteq> 32 then Inl (Error ''Output key must be 32 bytes'')
      else build 34 [PutByte 0x51, PutByte 0x20, PutBytes outputKey 32])"

definition parseP2TRScriptPubkey :: "bytes \<Rightarrow> bytes option" where
  "parseP2TRScriptPubkey scriptPubkey =
     (if length scriptPubkey \<noteq> 34 then None
      else if scriptPubkey ! 0 \<noteq> 0x51 then None
      else if scriptPubkey ! 1 \<noteq> 0x20 then None
      else Some (drop 2 scriptPubkey))"

datatype address_type = p2pkh | p2sh | p2wpkh | p2wsh | p2tr | unknown_type
datatype address_network = main_net | test_net | unknown_net

definition startsWith :: "string \<Rightarrow> string \<Rightarrow> bool" where
  "startsWith s prefix \<longleftrightarrow> take (length prefix) s = prefix"

text \<open>The three parts of the format check; a part that does not decide gives \<open>None\<close>.\<close>

definition bech32m_part :: "bech32 \<Rightarrow> string \<Rightarrow> (address_type \<times> address_network) option result" where
  "bech32m_part B address =
     (if startsWith address ''bc1p'' \<or> startsWith address ''tb1p'' then
        js_bind (bech_decode B address) (\<lambda>(pref, words).
          Inr (if words \<noteq> [] \<and> hd words = 1 \<and> length words = 53
               then Some (p2tr, if pref = ''bc'' then main_net else test_net) else None))
      else Inr None)"

definition bech32_part :: "bech32 \<Rightarrow> string \<Rightarrow> (address_type \<times> address_network) option result" where
  "bech32_part B0 address =
     (if startsWith address ''bc1q'' \<or> startsWith address ''tb1q'' \<or> startsWith address ''bcrt1q'' then
        js_bind (bech_decode B0 address) (\<lambda>(pref, words).
          Inr (if words \<noteq> [] \<and> hd words = 0
               then Some (if length words = 33 then p2wpkh else p2wsh, if pref = ''bc'' then main_net else test_net) else None))
      else Inr None)"

definition legacy_part :: "string \<Rightarrow> (address_type \<times> address_network) option" where
  "legacy_part address =
     (if length address \<ge> 26 \<and> length address \<le> 35 then
        (if startsWith address ''1'' then Some (p2pkh, main_net)
         else if startsWith address ''3'' then Some (p2sh, main_net)
         else if startsWith address ''m'' \<or> startsWith address ''n'' then Some (p2pkh, test_net)
         else if startsWith address ''2'' then Some (p2sh, test_net)
         else None)
      else None)"

definition isValidBitcoinAddress :: "bech32 \<Rightarrow> bech32 \<Rightarrow> string \<Rightarrow> bool \<times> address_type \<times> address_network" where
  "isValidBitcoinAddress B B0 address =
     (case js_bind (bech32m_part B address) (\<lambda>r1.
             if r1 \<noteq> None then Inr r1
             else js_bind (bech32_part B0 address) (\<lambda>r2. Inr (if r2 \<noteq> None then r2 else legacy_part address))) of
        Inr (Some (t, n)) \<Rightarrow> (True, t, n)
      | _ \<Rightarrow> (False, unknown_type, unknown_net))"

section \<open>OP_RETURN\<close>

definition DEPOSIT_OP_RETURN_SIZE :: nat where
  "DEPOSIT_OP_RETURN_SIZE = 64"

definition buildDepositOpReturn :: "bytes \<Rightarrow> bytes \<Rightarrow> bytes result" where
  "buildDepositOpReturn ephemeralPub npk =
     (if length ephemeralPub \<noteq> 32 then Inl (Error ''ephemeralPub must be 32 bytes'')
      else if length npk \<noteq> 32 then Inl (Error ''npk must be 32 bytes'')
      else build DEPOSIT_OP_RETURN_SIZE [PutBytes ephemeralPub 32, PutBytes npk 32])"

definition parseDepositOpReturn :: "bytes \<Rightarrow> (bytes \<times> bytes) option" where
  "parseDepositOpReturn bs =
     (if length bs \<noteq> DEPOSIT_OP_RETURN_SIZE then None else Some (js_slice bs 0 32, js_slice bs 32 64))"

definition createOpReturnScriptFromPayload :: "bytes \<Rightarrow> bytes result" where
  "createOpReturnScriptFromPayload payload =
     (if length payload > 80 then Inl (Error ''OP_RETURN payload exceeds 80 bytes'')
      else if length payload \<le> 75
      then build (2 + length payload) [PutByte 0x6a, PutByte (int (length payload)), PutBytes payload (length payload)]
      else build (3 + length payload) [PutByte 0x6a, PutByte 0x4c, PutByte (int (length payload)), PutBytes payload (length payload)])"

definition createOpReturnScript :: "bytes \<Rightarrow> bytes result" where
  "createOpReturnScript commitment =
     (if length commitment \<noteq> 32 then Inl (Error ''Commitment must be 32 bytes'')
      else build 34 [PutByte 0x6a, PutByte 0x20, PutBytes commitment 32])"

definition parseOpReturnCommitment :: "bytes \<Rightarrow> bytes option" where
  "parseOpReturnCommitment script =
     (if length script \<noteq> 34 then None
      else if script ! 0 \<noteq> 0x6a then None
      else if script ! 1 \<noteq> 0x20 then None
      else Some (drop 2 script))"

text \<open>The mock transaction: the parts of the source, concatenated by its loop.\<close>

definition mock_input :: bytes where
  "mock_input = replicate 32 0x00 @ replicate 4 0xff @ [0x04, 0xde, 0xad, 0xbe, 0xef] @ replicate 4 0xff"

definition buildMockBtcTransaction :: "int \<Rightarrow> bytes \<Rightarrow> bytes \<Rightarrow> bytes result" where
  "buildMockBtcTransaction amountSats taprootOutputKey commitment =
     (if length taprootOutputKey \<noteq> 32 then Inl (Error ''Taproot output key must be 32 bytes'')
      else if length commitment \<noteq> 32 then Inl (Error ''Commitment must be 32 bytes'')
      else
        js_bind (build 43 [PutLE 8 amountSats, PutByte 34, PutByte 0x51, PutByte 0x20, PutBytes taprootOutputKey 32]) (\<lambda>out0.
        js_bind (build 43 [PutBytes (replicate 8 0) 8, PutByte 34, PutByte 0x6a, PutByte 0x20, PutBytes commitment 32]) (\<lambda>out1.
        let parts = [[0x02, 0x00, 0x00, 0x00], [0x01], mock_input, [0x02], out0, out1, [0x00, 0x00, 0x00, 0x00]];
            totalLen = sum_list (map length parts)
        in build totalLen (map (\<lambda>p. PutBytes p (length p)) parts))))"

section \<open>Refund path\<close>

definition compactSizeEncode :: "int \<Rightarrow> bytes result" where
  "compactSizeEncode n =
     (if n < 0 then Inl (Error ''compactSize cannot be negative'')
      else if n \<le> 252 then Inr [word_of_int n]
      else if n \<le> 0xffff then Inr [0xfd, word_of_int (n AND 0xff), word_of_int (drop_bit 8 n AND 0xff)]
      else Inl (Error ''compactSize > 65535 not supported''))"

definition buildRefundScript :: "bytes \<Rightarrow> bytes \<Rightarrow> bytes result" where
  "buildRefundScript npk userPubkey =
     (if length npk \<noteq> 32 then Inl (Error ''npk must be 32 bytes'')
      else if length userPubkey \<noteq> 32 then Inl (Error ''userPubkey must be 32 bytes (x-only)'')
      else build 73 [PutByte 0x20, PutBytes npk 32, PutByte 0x75, PutByte 0x02, PutByte 0x90, PutByte 0x00, PutByte 0xb2,
             PutByte 0x75, PutByte 0x20, PutBytes userPubkey 32, PutByte 0xac])"

definition computeTapLeafHash :: "sha \<Rightarrow> bytes \<Rightarrow> int \<Rightarrow> bytes result" where
  "computeTapLeafHash H script leafVersion =
     js_bind (compactSizeEncode (int (length script))) (\<lambda>scriptLenBytes.
     js_bind (build (1 + length scriptLenBytes + length script)
       [PutByte leafVersion, PutBytes scriptLenBytes (length scriptLenBytes), PutBytes script (length script)]) (\<lambda>bs.
       taggedHash H ''TapLeaf'' bs))"

record TaprootRefundAddress = TaprootAddress +
  tp_merkleRoot :: bytes
  tp_controlBlock :: bytes
  tp_refundScript :: bytes

definition deriveTaprootAddressWithRefund ::
  "'p secp256k1 \<Rightarrow> bech32 \<Rightarrow> sha \<Rightarrow> bytes \<Rightarrow> bytes \<Rightarrow> bytes \<Rightarrow> btc_network \<Rightarrow> TaprootRefundAddress result" where
  "deriveTaprootAddressWithRefund S B H npk userRefundPubkey internalKey network =
     (if length internalKey \<noteq> 32 then Inl (Error ''Internal key must be 32 bytes (x-only)'')
      else if length npk \<noteq> 32 then Inl (Error ''npk must be 32 bytes'')
      else if length userRefundPubkey \<noteq> 32 then Inl (Error ''userRefundPubkey must be 32 bytes (x-only)'')
      else
        js_bind (buildRefundScript npk userRefundPubkey) (\<lambda>refundScript.
        js_bind (computeTapLeafHash H refundScript 0xc0) (\<lambda>merkleRoot.
        js_bind (tap_tweak H internalKey merkleRoot) (\<lambda>tweak.
        js_bind (tweaked_point_hex S internalKey tweak) (\<lambda>outputKeyHex.
        let outputKey = hexToBytes (drop 2 outputKeyHex);
            parityBit = (if startsWith outputKeyHex ''03'' then 1 else 0 :: int) in
        js_bind (build 33 [PutByte (0xc0 OR parityBit), PutBytes internalKey 32]) (\<lambda>controlBlock.
        js_bind (bech_encode B (hrp_of network) (1 # toWords B outputKey)) (\<lambda>address.
          Inr \<lparr> tp_address = address, tp_outputKey = outputKey, tp_tweak = tweak, tp_merkleRoot = merkleRoot,
                tp_controlBlock = controlBlock, tp_refundScript = refundScript \<rparr>)))))))"

definition getInternalKey :: bytes where
  "getInternalKey = hexToBytes INTERNAL_KEY_HEX"

definition createCustomInternalKey :: "bytes \<Rightarrow> bytes result" where
  "createCustomInternalKey key =
     (if length key \<noteq> 32 then Inl (Error ''Internal key must be 32 bytes (x-only pubkey)'') else Inr key)"

section \<open>Custody of a dWallet\<close>

datatype IkaDWalletRef = literal_xonly bytes | literal_compressed bytes | dwallet_id string

fun extractXOnly :: "IkaDWalletRef \<Rightarrow> bytes result" where
  "extractXOnly (literal_xonly xonlyPubkey) =
     (if length xonlyPubkey \<noteq> 32 then Inl (Error ''xonlyPubkey must be 32 bytes'') else Inr xonlyPubkey)"
| "extractXOnly (literal_compressed compressedPubkey) =
     (if length compressedPubkey \<noteq> 33 then Inl (Error ''compressedPubkey must be 33 bytes'') else Inr (drop 1 compressedPubkey))"
| "extractXOnly (dwallet_id dwalletId) = Inl (Error ''deriveCustodyAddressFromIkaDWallet: 'id' resolution requires the Ika SDK'')"

definition deriveCustodyAddressFromIkaDWallet ::
  "'p secp256k1 \<Rightarrow> bech32 \<Rightarrow> sha \<Rightarrow> IkaDWalletRef \<Rightarrow> btc_network \<Rightarrow> string result" where
  "deriveCustodyAddressFromIkaDWallet S B H ref network =
     js_bind (extractXOnly ref) (\<lambda>xonly.
     js_bind (taggedHash H ''TapTweak'' xonly) (\<lambda>tweak.
     js_bind (Point_fromHex S (''02'' @ bytesToHex xonly)) (\<lambda>internalPoint.
     js_bind (BASE_multiply S (shift_in tweak)) (\<lambda>tweakPoint.
       bech_encode B (hrp_of network)
         (1 # toWords B (hexToBytes (drop 2 (toHex_compressed S (point_add S internalPoint tweakPoint)))))))))"

definition deriveRawXOnlyP2TRAddress :: "bech32 \<Rightarrow> bytes \<Rightarrow> btc_network \<Rightarrow> string result" where
  "deriveRawXOnlyP2TRAddress B xonlyPubkey network =
     (if length xonlyPubkey \<noteq> 32 then Inl (Error ''xonlyPubkey must be 32 bytes'')
      else bech_encode B (hrp_of network) (1 # toWords B xonlyPubkey))"

section \<open>What the packages guarantee\<close>

text \<open>A compressed point is written as the parity byte and the 32 bytes of its x coordinate.\<close>

definition secp_ok :: "'p secp256k1 \<Rightarrow> bool" where
  "secp_ok S \<longleftrightarrow> (\<forall>P. \<exists>x par. length (x :: bytes) = 32 \<and> toHex_compressed S P = (if par then ''03'' else ''02'') @ bytesToHex x)"

text \<open>Words of 32 bytes encode under the prefixes of Bitcoin and are read back.\<close>

definition bech_ok :: "bech32 \<Rightarrow> bool" where
  "bech_ok B \<longleftrightarrow> (\<forall>x. length x = 32 \<longrightarrow> fromWords B (toWords B x) = Inr x \<and>
     (\<forall>net. \<exists>a. bech_encode B (hrp_of net) (1 # toWords B x) = Inr a \<and> bech_decode B a = Inr (hrp_of net, 1 # toWords B x)))"

definition sample_secp :: "bytes secp256k1" where
  "sample_secp = \<lparr> Point_fromHex = (\<lambda>s. Inr (hexToBytes (drop 2 s))), BASE_multiply = (\<lambda>n. Inr (be_bytes 32 n)),
     point_add = xor_loop 32, toHex_compressed = (\<lambda>P. ''02'' @ bytesToHex (take 32 (P @ replicate 32 0))) \<rparr>"

definition sample_bech :: bech32 where
  "sample_bech = \<lparr> toWords = map uint, fromWords = (\<lambda>ws. Inr (map word_of_int ws)),
     bech_encode = (\<lambda>p ws. Inr (p @ ''-'' @ map (\<lambda>w. char_of (nat w)) ws)),
     bech_decode = (\<lambda>s. Inr (takeWhile (\<lambda>c. c \<noteq> CHR ''-'') s, map (\<lambda>c. int (of_char c)) (drop 1 (dropWhile (\<lambda>c. c \<noteq> CHR ''-'') s)))) \<rparr>"

lemma sample_secp_ok: "secp_ok sample_secp"
  unfolding secp_ok_def
proof
  fix P :: bytes
  have "length (take 32 (P @ replicate 32 0)) = 32" by simp
  then show "\<exists>x par. length (x :: bytes) = 32 \<and> toHex_compressed sample_secp P = (if par then ''03'' else ''02'') @ bytesToHex x"
    by (intro exI [of _ "take 32 (P @ replicate 32 0)"] exI [of _ False]) (simp add: sample_secp_def)
qed

lemma sample_bech_ok: "bech_ok sample_bech"
proof -
  have h: "takeWhile (\<lambda>c. c \<noteq> CHR ''-'') (hrp_of net @ CHR ''-'' # r) = hrp_of net"
    "dropWhile (\<lambda>c. c \<noteq> CHR ''-'') (hrp_of net @ CHR ''-'' # r) = CHR ''-'' # r" for net r
    by (simp_all add: hrp_of_def)
  have w: "unat b mod 256 = unat b" for b :: byte using unat_byte [of b] by simp
  show ?thesis by (simp add: bech_ok_def sample_bech_def h w comp_def)
qed

section \<open>Lemmas\<close>

definition tagged :: "sha \<Rightarrow> string \<Rightarrow> bytes \<Rightarrow> bytes" where
  "tagged H tag bs = H (H (text_encode tag) @ H (text_encode tag) @ bs)"

lemma taggedHash_eq: "sha_ok H \<Longrightarrow> taggedHash H tag bs = Inr (tagged H tag bs)"
  by (simp add: taggedHash_def tagged_def sha_ok_def js_set_def Let_def)

lemma tap_tweak_eq: "sha_ok H \<Longrightarrow> length key = 32 \<Longrightarrow> length c = 32 \<Longrightarrow> tap_tweak H key c = Inr (tagged H ''TapTweak'' (key @ c))"
  by (simp add: tap_tweak_def js_set_def taggedHash_eq)

lemma output_key:
  assumes "secp_ok S"
  obtains x par where "length (x :: bytes) = 32" "toHex_compressed S P = (if par then ''03'' else ''02'') @ bytesToHex x"
    "hexToBytes (drop 2 (toHex_compressed S P)) = x" "startsWith (toHex_compressed S P) ''03'' \<longleftrightarrow> par"
proof -
  obtain x par where x: "length (x :: bytes) = 32" "toHex_compressed S P = (if par then ''03'' else ''02'') @ bytesToHex x"
    using assms unfolding secp_ok_def by blast
  then show ?thesis by (intro that [of x par]) (auto simp: hexToBytes_bytesToHex startsWith_def)
qed

section \<open>Properties\<close>

text \<open>
  Address derivation and verification agree: the address derived for a commitment is a bech32m encoding of its output
  key, and verification accepts it for exactly the commitments that have the same output key.
\<close>

theorem taproot_address_verifies:
  assumes "secp_ok S" "bech_ok B" "deriveTaprootAddress S B H c net ik = Inr a"
  shows "bech_decode B (tp_address a) = Inr (hrp_of net, 1 # toWords B (tp_outputKey a)) \<and>
    verifyTaprootAddress S B H (tp_address a) c ik \<and>
    (\<forall>c'. verifyTaprootAddress S B H (tp_address a) c' ik \<longleftrightarrow>
       (\<exists>a'. deriveTaprootAddress S B H c' net ik = Inr a' \<and> tp_outputKey a' = tp_outputKey a))"
proof -
  have key: "length (tp_outputKey a') = 32 \<and> (\<forall>net''. \<exists>a''. deriveTaprootAddress S B H c' net'' ik = Inr a'' \<and> tp_outputKey a'' = tp_outputKey a')"
    if derived: "deriveTaprootAddress S B H c' net' ik = Inr a'" for c' net' a'
  proof -
    let ?key = "case ik of Some k \<Rightarrow> k | None \<Rightarrow> hexToBytes INTERNAL_KEY_HEX"
    obtain tw P T where d: "length ?key = 32" "tap_tweak H ?key c' = Inr tw" "\<not> shift_in tw \<ge> SECP256K1_ORDER"
      "Point_fromHex S (''02'' @ bytesToHex ?key) = Inr P" "BASE_multiply S (shift_in tw) = Inr T"
      "tp_outputKey a' = hexToBytes (drop 2 (toHex_compressed S (point_add S P T)))"
      using derived unfolding deriveTaprootAddress_def tweaked_point_hex_def Let_def
      by (auto simp: js_bind_Inr_iff simp del: append_Cons append_Nil split: if_split_asm)
    obtain x where x: "length x = 32" "hexToBytes (drop 2 (toHex_compressed S (point_add S P T))) = x"
      using output_key [OF assms(1)] by metis
    have "\<exists>a''. deriveTaprootAddress S B H c' n ik = Inr a'' \<and> tp_outputKey a'' = tp_outputKey a'" for n
    proof -
      obtain adr where "bech_encode B (hrp_of n) (1 # toWords B x) = Inr adr" using assms(2) x(1) by (auto simp: bech_ok_def)
      with d x show ?thesis
        by (auto simp: deriveTaprootAddress_def tweaked_point_hex_def Let_def simp del: append_Cons append_Nil)
    qed
    with d x show ?thesis by simp
  qed
  let ?w = "1 # toWords B (tp_outputKey a)"
  have "length (tp_outputKey a) = 32" using key [OF assms(3)] by simp
  moreover have "bech_encode B (hrp_of net) ?w = Inr (tp_address a)"
    using assms(3) unfolding deriveTaprootAddress_def Let_def by (auto simp: js_bind_Inr_iff split: if_split_asm)
  ultimately have dec: "bech_decode B (tp_address a) = Inr (hrp_of net, ?w)" "fromWords B (toWords B (tp_outputKey a)) = Inr (tp_outputKey a)"
    using assms(2) unfolding bech_ok_def by (metis Inr_inject)+
  have iff: "verifyTaprootAddress S B H (tp_address a) c' ik \<longleftrightarrow>
      (\<exists>a'. deriveTaprootAddress S B H c' net ik = Inr a' \<and> tp_outputKey a' = tp_outputKey a)" for c'
  proof -
    let ?n = "if hrp_of net = ''bc'' then mainnet else testnet"
    have "verifyTaprootAddress S B H (tp_address a) c' ik \<longleftrightarrow>
        (\<exists>a'. deriveTaprootAddress S B H c' ?n ik = Inr a' \<and> tp_outputKey a' = tp_outputKey a)"
      unfolding verifyTaprootAddress_def dec
      by (cases "deriveTaprootAddress S B H c' ?n ik") (auto simp: dec arraysEqual_iff)
    also have "\<dots> \<longleftrightarrow> (\<exists>a'. deriveTaprootAddress S B H c' net ik = Inr a' \<and> tp_outputKey a' = tp_outputKey a)"
      using key by metis
    finally show ?thesis .
  qed
  with dec(1) assms(3) show ?thesis by blast
qed

text \<open>
  The script path of BIP-341, as a verifier of Bitcoin checks it: leaf version and internal key from the control block, the
  leaf hash combined with the path, and the tweaked key compared with the output key, parity included.
\<close>

definition tap_branch :: "sha \<Rightarrow> bytes \<Rightarrow> bytes \<Rightarrow> bytes" where
  "tap_branch H k e = tagged H ''TapBranch'' (if be_val k < be_val e then k @ e else e @ k)"

definition bip341_verify :: "'p secp256k1 \<Rightarrow> sha \<Rightarrow> bytes \<Rightarrow> bytes \<Rightarrow> bytes \<Rightarrow> bool" where
  "bip341_verify S H q script c \<longleftrightarrow>
     33 \<le> length c \<and> (length c - 33) mod 32 = 0 \<and>
     (let p = js_slice c 1 33; v = c ! 0 AND 0xfe;
          k0 = tagged H ''TapLeaf'' (v # varint_bytes (length script) @ script);
          k = foldl (tap_branch H) k0 (chunks 32 ((length c - 33) div 32) (drop 33 c));
          t = be_val (tagged H ''TapTweak'' (p @ k)) in
      t < SECP256K1_ORDER \<and>
      (case (Point_fromHex S (''02'' @ bytesToHex p), BASE_multiply S t) of
         (Inr P, Inr T) \<Rightarrow>
           (let h = toHex_compressed S (point_add S P T) in
            hexToBytes (drop 2 h) = q \<and> (take 2 h = ''03'' \<longleftrightarrow> c ! 0 AND 1 = 1))
       | _ \<Rightarrow> False))"

text \<open>The operations of a script: pushes of up to 75 bytes and single opcodes.\<close>

datatype script_op = Push bytes | Op byte

fun script_ops :: "nat \<Rightarrow> bytes \<Rightarrow> script_op list option" where
  "script_ops 0 s = (if s = [] then Some [] else None)"
| "script_ops (Suc n) s =
     (case s of
        [] \<Rightarrow> Some []
      | b # r \<Rightarrow>
          if 1 \<le> unat b \<and> unat b \<le> 75 then
            (if unat b \<le> length r then map_option ((#) (Push (take (unat b) r))) (script_ops n (drop (unat b) r)) else None)
          else map_option ((#) (Op b)) (script_ops n r))"

definition refund_bytes :: "bytes \<Rightarrow> bytes \<Rightarrow> bytes" where
  "refund_bytes npk userKey = 0x20 # npk @ [0x75, 0x02, 0x90, 0x00, 0xb2, 0x75, 0x20] @ userKey @ [0xac]"

lemma buildRefundScript_eq:
  "length npk = 32 \<Longrightarrow> length userKey = 32 \<Longrightarrow> buildRefundScript npk userKey = Inr (refund_bytes npk userKey)"
  unfolding buildRefundScript_def by (subst build_layout) (simp_all add: refund_bytes_def)

lemma script_push:
  "1 \<le> unat b \<Longrightarrow> unat b \<le> 75 \<Longrightarrow> length p = unat b \<Longrightarrow>
   script_ops (Suc n) (b # p @ r) = map_option ((#) (Push p)) (script_ops n r)"
  by simp

lemma script_opcode: "75 < unat b \<Longrightarrow> script_ops (Suc n) (b # r) = map_option ((#) (Op b)) (script_ops n r)"
  by simp

declare script_ops.simps [simp del]

lemma refund_bytes_ops:
  assumes "length npk = 32" "length userKey = 32"
  shows "script_ops 7 (refund_bytes npk userKey) =
    Some [Push npk, Op 0x75, Push [0x90, 0x00], Op 0xb2, Op 0x75, Push userKey, Op 0xac]"
proof -
  have seven: "7 = Suc (Suc (Suc (Suc (Suc (Suc (Suc 0))))))" by simp
  have two: "0x02 # 0x90 # 0x00 # r = (0x02 :: byte) # [0x90, 0x00] @ r" for r by simp
  show ?thesis
    unfolding refund_bytes_def seven using assms
    by (simp add: script_push script_opcode two del: append_Cons) (simp add: script_opcode script_push script_ops.simps)
qed

lemma leaf_hash_eq:
  assumes "sha_ok H" "length script \<le> 252"
  shows "computeTapLeafHash H script 0xc0 = Inr (tagged H ''TapLeaf'' (0xc0 # varint_bytes (length script) @ script))"
proof -
  have "compactSizeEncode (int (length script)) = Inr [of_nat (length script)]" using assms(2) by (simp add: compactSizeEncode_def)
  moreover have "varint_bytes (length script) = [of_nat (length script)]" using assms(2) by (simp add: varint_bytes_def)
  moreover have "build (1 + length [of_nat (length script) :: byte] + length script)
      [PutByte 0xc0, PutBytes [of_nat (length script)] (length [of_nat (length script) :: byte]), PutBytes script (length script)] =
    Inr (0xc0 # of_nat (length script) # script)" by (subst build_layout) simp_all
  ultimately show ?thesis using assms(1) by (simp add: computeTapLeafHash_def taggedHash_eq)
qed

text \<open>
  (C32) The refund path of a deposit address can be spent: a verifier of Bitcoin accepts the refund script with the control
  block against the output key of the address, and the script asks for the note key, a relative lock of 144 blocks and a
  signature of the user.
\<close>

theorem refund_path_spendable:
  assumes "secp_ok S" "bech_ok B" "sha_ok H" "deriveTaprootAddressWithRefund S B H npk userKey internalKey net = Inr r"
  shows "bip341_verify S H (tp_outputKey r) (tp_refundScript r) (tp_controlBlock r) \<and>
    script_ops 7 (tp_refundScript r) =
      Some [Push npk, Op 0x75, Push [0x90, 0x00], Op 0xb2, Op 0x75, Push userKey, Op 0xac] \<and>
    bech_decode B (tp_address r) = Inr (hrp_of net, 1 # toWords B (tp_outputKey r)) \<and>
    length (tp_outputKey r) = 32 \<and> length (tp_controlBlock r) = 33"
proof -
  have len: "length internalKey = 32" "length npk = 32" "length userKey = 32"
    using assms(4) by (auto simp: deriveTaprootAddressWithRefund_def split: if_split_asm)
  let ?s = "refund_bytes npk userKey"
  let ?k = "tagged H ''TapLeaf'' (0xc0 # varint_bytes (length ?s) @ ?s)"
  let ?t = "tagged H ''TapTweak'' (internalKey @ ?k)"
  have s: "length ?s \<le> 252" using len by (simp add: refund_bytes_def)
  have k: "length ?k = 32" using assms(3) by (simp add: tagged_def sha_ok_def)
  obtain P T x par adr where p: "be_val ?t < SECP256K1_ORDER" "Point_fromHex S (''02'' @ bytesToHex internalKey) = Inr P"
    "BASE_multiply S (be_val ?t) = Inr T" "length (x :: bytes) = 32" "toHex_compressed S (point_add S P T) = (if par then ''03'' else ''02'') @ bytesToHex x"
    "hexToBytes (drop 2 (toHex_compressed S (point_add S P T))) = x"
    "bech_encode B (hrp_of net) (1 # toWords B x) = Inr adr"
    "tp_outputKey r = x" "tp_address r = adr" "tp_refundScript r = ?s" 
    "tp_controlBlock r = (if par then 0xc1 else 0xc0) # internalKey"
  proof -
    obtain P T adr where d: "\<not> shift_in ?t \<ge> SECP256K1_ORDER" "Point_fromHex S (''02'' @ bytesToHex internalKey) = Inr P"
      "BASE_multiply S (shift_in ?t) = Inr T"
      and b: "bech_encode B (hrp_of net) (1 # toWords B (hexToBytes (drop 2 (toHex_compressed S (point_add S P T))))) = Inr adr"
      and r: "r = \<lparr> tp_address = adr, tp_outputKey = hexToBytes (drop 2 (toHex_compressed S (point_add S P T))), tp_tweak = ?t,
        tp_merkleRoot = ?k, tp_controlBlock = (if startsWith (toHex_compressed S (point_add S P T)) ''03'' then 0xc1 else 0xc0) # internalKey,
        tp_refundScript = ?s \<rparr>"
    proof -
      have cb: "build 33 [PutByte (0xc0 OR (if q then 1 else 0)), PutBytes internalKey 32] = Inr ((if q then 0xc1 else 0xc0) # internalKey)" for q
        using len by (subst build_layout) simp_all
      show thesis
        using that assms(4) len
        by (simp add: deriveTaprootAddressWithRefund_def buildRefundScript_eq leaf_hash_eq [OF assms(3) s] tap_tweak_eq [OF assms(3) len(1) k]
            tweaked_point_hex_def cb Let_def del: append_Cons append_Nil split: if_split_asm)
           (auto simp: js_bind_Inr_iff cb simp del: append_Cons append_Nil)
    qed
    obtain x par where x: "length (x :: bytes) = 32" "toHex_compressed S (point_add S P T) = (if par then ''03'' else ''02'') @ bytesToHex x"
      "hexToBytes (drop 2 (toHex_compressed S (point_add S P T))) = x" "startsWith (toHex_compressed S (point_add S P T)) ''03'' \<longleftrightarrow> par"
      by (rule output_key [OF assms(1)])
    with d b r show thesis by (intro that [of P T x par adr]) (simp_all add: shift_in_be_val)
  qed
  have cb: "length (tp_controlBlock r) = 33" "js_slice (tp_controlBlock r) 1 33 = internalKey" "tp_controlBlock r ! 0 AND 0xfe = 0xc0"
    "tp_controlBlock r ! 0 AND 1 = 1 \<longleftrightarrow> par"
    using len p(11) by (auto simp: js_slice_def)
  have "bip341_verify S H x ?s (tp_controlBlock r)"
    unfolding bip341_verify_def Let_def cb using p(1-3,5,6) cb(1) by (simp add: cb(4))
  moreover have "bech_decode B adr = Inr (hrp_of net, 1 # toWords B x)"
    using assms(2) p(4,7) unfolding bech_ok_def by (metis Inr_inject)
  ultimately show ?thesis using p len cb(1) by (simp add: refund_bytes_ops)
qed

lemma zero_sha_ok: "sha_ok zero_sha" "tagged zero_sha tag bs = replicate 32 0"
  by (simp_all add: sha_ok_def zero_sha_def tagged_def)

lemma zero_tweak: "shift_in (replicate 32 0) < SECP256K1_ORDER"
  by (simp add: shift_in_be_val be_val_zeros SECP256K1_ORDER_def)

theorem taproot_address_verifies_witness:
  "\<exists>a. deriveTaprootAddress sample_secp sample_bech zero_sha (replicate 32 7) regtest None = Inr a \<and>
     verifyTaprootAddress sample_secp sample_bech zero_sha (tp_address a) (replicate 32 7) None"
proof -
  have k: "length (hexToBytes INTERNAL_KEY_HEX) = 32" by (simp add: hexToBytes_def clean_hex_def INTERNAL_KEY_HEX_def)
  have "tap_tweak zero_sha (hexToBytes INTERNAL_KEY_HEX) (replicate 32 7) = Inr (replicate 32 0)"
    using k by (subst tap_tweak_eq) (simp_all add: zero_sha_ok)
  with zero_tweak obtain a where a: "deriveTaprootAddress sample_secp sample_bech zero_sha (replicate 32 7) regtest None = Inr a"
    using k by (simp add: deriveTaprootAddress_def tweaked_point_hex_def sample_secp_def sample_bech_def Let_def)
  with taproot_address_verifies [OF sample_secp_ok sample_bech_ok a] show ?thesis by blast
qed

theorem refund_path_spendable_witness:
  "\<exists>r. deriveTaprootAddressWithRefund sample_secp sample_bech zero_sha (replicate 32 1) (replicate 32 2) (replicate 32 3) mainnet = Inr r \<and>
     bip341_verify sample_secp zero_sha (tp_outputKey r) (tp_refundScript r) (tp_controlBlock r)"
proof -
  have cb: "build 33 [PutByte 0xc0, PutBytes (replicate 32 3) 32] = Inr (0xc0 # replicate 32 3)" by (subst build_layout) simp_all
  have s: "length (refund_bytes (replicate 32 1) (replicate 32 2)) \<le> 252" by (simp add: refund_bytes_def)
  obtain r where r: "deriveTaprootAddressWithRefund sample_secp sample_bech zero_sha (replicate 32 1) (replicate 32 2) (replicate 32 3) mainnet = Inr r"
    using zero_tweak
    by (simp add: deriveTaprootAddressWithRefund_def buildRefundScript_eq leaf_hash_eq [OF zero_sha_ok(1) s] tap_tweak_eq zero_sha_ok
        tweaked_point_hex_def sample_secp_def sample_bech_def Let_def startsWith_def cb)
  with refund_path_spendable [OF sample_secp_ok sample_bech_ok zero_sha_ok(1) r] show ?thesis by blast
qed

end
