(* ===== verification/Btc_Deposit.thy ===== *)
theory Btc_Deposit
  imports Taproot Chadbuffer
begin

text \<open>
  The way of a Bitcoin deposit: the SDK prepares the address and the OP_RETURN payload (\<open>src/sdk/src/stealth.ts\<close>), the indexer
  recognises the output (\<open>src/packages/btc-client/src/op-return.ts\<close>), and the program credits the note from the
  verified transaction (\<open>instructions/complete_deposit.rs\<close>).
\<close>

section \<open>Preparation\<close>

record NonInteractiveDepositResult =
  nd_btcAddress :: string
  nd_depositOutputKey :: bytes
  nd_opReturnPayload :: bytes
  nd_npk :: bytes
  nd_ephemeralPub :: bytes

record NonInteractiveDepositWithRefundResult = NonInteractiveDepositResult +
  nd_merkleRoot :: bytes
  nd_controlBlock :: bytes
  nd_refundScript :: bytes

text \<open>Ephemeral key and note key of the recipient, as both preparations compute them.\<close>

definition deposit_keys :: "curve25519 \<Rightarrow> sha \<Rightarrow> poseidon \<Rightarrow> bytes \<Rightarrow> StealthMetaAddress \<Rightarrow> (bytes \<times> bytes) result" where
  "deposit_keys C H P rnd recipientMeta =
     (let ephemeral = ed25519GenerateKeyPair C rnd in
      js_bind (x25519Ecdh C (ed_privKey ephemeral) (m_viewingPubKey recipientMeta)) (\<lambda>sharedSecret.
      js_bind (deriveStealthScalar H sharedSecret) (\<lambda>stealthScalar.
        Inr (ed_pubKey ephemeral, bigintToBytes (computeNPKSync P (bytesToBigint (m_mpk recipientMeta)) stealthScalar)))))"

text \<open>With a refund key the result has the three members of the script path, otherwise not.\<close>

definition createNonInteractiveDeposit ::
  "'p secp256k1 \<Rightarrow> bech32 \<Rightarrow> curve25519 \<Rightarrow> sha \<Rightarrow> poseidon \<Rightarrow> bytes \<Rightarrow> StealthMetaAddress \<Rightarrow> bytes \<Rightarrow> btc_network \<Rightarrow> bytes option \<Rightarrow>
     (NonInteractiveDepositResult + NonInteractiveDepositWithRefundResult) result" where
  "createNonInteractiveDeposit S B C H P rnd recipientMeta groupPubKey network userRefundPubkey =
     js_bind (deposit_keys C H P rnd recipientMeta) (\<lambda>(eph, npk).
       case userRefundPubkey of
         Some refundKey \<Rightarrow>
           js_bind (deriveTaprootAddressWithRefund S B H npk refundKey groupPubKey network) (\<lambda>t.
           js_bind (buildDepositOpReturn eph npk) (\<lambda>opReturnPayload.
             Inr (Inr \<lparr> nd_btcAddress = tp_address t, nd_depositOutputKey = tp_outputKey t, nd_opReturnPayload = opReturnPayload,
               nd_npk = npk, nd_ephemeralPub = eph, nd_merkleRoot = tp_merkleRoot t, nd_controlBlock = tp_controlBlock t,
               nd_refundScript = tp_refundScript t \<rparr>)))
       | None \<Rightarrow>
           js_bind (deriveTaprootAddress S B H npk network (Some groupPubKey)) (\<lambda>t.
           js_bind (buildDepositOpReturn eph npk) (\<lambda>opReturnPayload.
             Inr (Inl \<lparr> nd_btcAddress = tp_address t, nd_depositOutputKey = tp_outputKey t, nd_opReturnPayload = opReturnPayload,
               nd_npk = npk, nd_ephemeralPub = eph \<rparr>))))"

definition createDirectVaultDeposit ::
  "bech32 \<Rightarrow> curve25519 \<Rightarrow> sha \<Rightarrow> poseidon \<Rightarrow> bytes \<Rightarrow> StealthMetaAddress \<Rightarrow> bytes \<Rightarrow> btc_network \<Rightarrow> NonInteractiveDepositResult result" where
  "createDirectVaultDeposit B C H P rnd recipientMeta vaultXOnlyPubkey network =
     (if length vaultXOnlyPubkey \<noteq> 32 then Inl (Error ''vaultXOnlyPubkey must be 32 bytes'')
      else
        js_bind (deposit_keys C H P rnd recipientMeta) (\<lambda>(eph, npk).
        js_bind (buildDepositOpReturn eph npk) (\<lambda>opReturnPayload.
        js_bind (deriveRawXOnlyP2TRAddress B vaultXOnlyPubkey network) (\<lambda>btcAddress.
          Inr \<lparr> nd_btcAddress = btcAddress, nd_depositOutputKey = vaultXOnlyPubkey, nd_opReturnPayload = opReturnPayload,
                nd_npk = npk, nd_ephemeralPub = eph \<rparr>))))"

definition isDirectVaultDepositMode :: "string option \<Rightarrow> bool" where
  "isDirectVaultDepositMode mode \<longleftrightarrow> mode = Some ''direct'' \<or> mode = Some ''direct_vault'' \<or> mode = Some ''ika_direct''"

text \<open>The members of the configuration these functions read.\<close>

record deposit_config =
  dc_ikaDwalletXOnlyPubkey :: "string option"
  dc_groupPubKey :: string
  dc_depositMode :: "string option"

definition nonzero_hex_char :: "char \<Rightarrow> bool" where
  "nonzero_hex_char c \<longleftrightarrow> c \<in> set ''123456789abcdefABCDEF''"

definition pickIkaCustodyKey :: "deposit_config \<Rightarrow> bytes option" where
  "pickIkaCustodyKey config =
     (let ikaHex = case_option [] id (dc_ikaDwalletXOnlyPubkey config) in
      if ikaHex \<noteq> [] \<and> list_ex nonzero_hex_char ikaHex then Some (hexToBytes ikaHex) else None)"

definition pickCustodyInternalKey :: "deposit_config \<Rightarrow> bytes" where
  "pickCustodyInternalKey config =
     (case pickIkaCustodyKey config of None \<Rightarrow> hexToBytes (dc_groupPubKey config) | Some k \<Rightarrow> k)"

definition createDepositFromConfig ::
  "bech32 \<Rightarrow> curve25519 \<Rightarrow> sha \<Rightarrow> poseidon \<Rightarrow> bytes \<Rightarrow> deposit_config \<Rightarrow> StealthMetaAddress \<Rightarrow> btc_network \<Rightarrow> NonInteractiveDepositResult result" where
  "createDepositFromConfig B C H P rnd config recipientMeta network =
     (case pickIkaCustodyKey config of
        None \<Rightarrow> Inl (Error ''Ika direct-vault deposits require ikaDwalletXOnlyPubkey in config'')
      | Some ikaKey \<Rightarrow>
          if dc_depositMode config \<noteq> None \<and> dc_depositMode config \<noteq> Some [] \<and> \<not> isDirectVaultDepositMode (dc_depositMode config)
          then Inl (Error (''Unsupported depositMode \"'' @ the (dc_depositMode config) @
                 ''\"; only Ika direct-vault deposits are supported''))
          else createDirectVaultDeposit B C H P rnd recipientMeta ikaKey network)"

section \<open>The reader of the indexer\<close>

definition UTXOPIA_DEPOSIT_OP_RETURN_SIZE :: nat where
  "UTXOPIA_DEPOSIT_OP_RETURN_SIZE = 64"

definition hexToBytes_strict :: "string \<Rightarrow> bytes result" where
  "hexToBytes_strict hex =
     (if length hex mod 2 \<noteq> 0 then Inl (Error ''Invalid hex string length'')
      else Inr (map (\<lambda>i. to_uint8 (js_parseInt16 (take 2 (drop (2 * i) hex)))) [0..<length hex div 2]))"

definition parseOpReturnPayload :: "string \<Rightarrow> bytes option result" where
  "parseOpReturnPayload scriptPubkeyHex =
     js_bind (hexToBytes_strict scriptPubkeyHex) (\<lambda>script.
       Inr (if length script < 2 \<or> script ! 0 \<noteq> 0x6a then None
            else
              (let pushOpcode = unat (script ! 1) in
               if pushOpcode > 0 \<and> pushOpcode \<le> 75 then
                 (if 2 + pushOpcode = length script then Some (js_slice script 2 (2 + pushOpcode)) else None)
               else if pushOpcode = 0x4c \<and> length script \<ge> 3 then
                 (let len = unat (script ! 2) in if 3 + len = length script then Some (js_slice script 3 (3 + len)) else None)
               else None)))"

record UtxopiaDepositOpReturn =
  uo_ephemeralPubkey :: bytes
  uo_npk :: bytes
  uo_rawPayload :: bytes

fun extract_outputs :: "string list \<Rightarrow> UtxopiaDepositOpReturn option result" where
  "extract_outputs [] = Inr None"
| "extract_outputs (scriptpubkey # vout) =
     js_bind (parseOpReturnPayload scriptpubkey) (\<lambda>payload.
       case payload of
         None \<Rightarrow> extract_outputs vout
       | Some p \<Rightarrow>
           if length p \<noteq> UTXOPIA_DEPOSIT_OP_RETURN_SIZE then extract_outputs vout
           else Inr (Some \<lparr> uo_ephemeralPubkey = js_slice p 0 32, uo_npk = js_slice p 32 64, uo_rawPayload = p \<rparr>))"

text \<open>A transaction is given by the scripts of its outputs.\<close>

definition extractUtxopiaDepositOpReturn :: "string list option \<Rightarrow> UtxopiaDepositOpReturn option result" where
  "extractUtxopiaDepositOpReturn tx = (case tx of None \<Rightarrow> Inr None | Some vout \<Rightarrow> extract_outputs vout)"

section \<open>The program\<close>

text \<open>
  The part of \<open>process_complete_deposit\<close> between the checks of the accounts and the insertion into the tree: both transactions are
  read from their buffers, checked against the verified identifiers and parsed, keys and amount are extracted and the
  commitment is computed. The pool script is given when the configuration account is.
\<close>

record deposit_limits =
  dl_min_deposit :: int
  dl_max_deposit :: int
  dl_deposit_fee_bps :: int
  dl_service_fee :: int
  dl_token_id :: bytes
  dl_pool_script :: "bytes option"

record credited =
  cr_ephemeral_pub :: bytes
  cr_npk :: bytes
  cr_amount_sats :: int
  cr_sweep_vout :: nat
  cr_original_deposit_sats :: int
  cr_total_fee :: int
  cr_shielded_amount :: int
  cr_commitment :: bytes

definition ok_or :: "'a option \<Rightarrow> program_error \<Rightarrow> 'a pres" where
  "ok_or v e = (case v of None \<Rightarrow> Inl e | Some x \<Rightarrow> Inr x)"

text \<open>\<open>map_err\<close> replaces an error of the parser; a panic is not an error.\<close>

definition spv_parse :: "bytes \<Rightarrow> ParsedTransaction pres" where
  "spv_parse raw = (case ParsedTransaction_parse raw of Inl Panic \<Rightarrow> Inl Panic | Inl _ \<Rightarrow> Inl InvalidSpvProof | Inr tx \<Rightarrow> Inr tx)"

definition deposit_fee :: "deposit_limits \<Rightarrow> int \<Rightarrow> (int \<times> int) pres" where
  "deposit_fee l amount_sats =
     (let protocol_fee = (amount_sats * dl_deposit_fee_bps l div 10000) mod 2 ^ 64;
          total_fee = protocol_fee + dl_service_fee l in
      if total_fee \<ge> 2 ^ 64 then Inl ArithmeticOverflow
      else if amount_sats < total_fee then Inl ArithmeticOverflow
      else Inr (total_fee, amount_sats - total_fee))"

definition pool_output :: "deposit_limits \<Rightarrow> ParsedTransaction \<Rightarrow> (TxOutput \<times> nat) pres" where
  "pool_output l sweep_parsed =
     (case dl_pool_script l of
        Some pool_script \<Rightarrow>
          if pool_script \<noteq> [] then ok_or (find_output_by_script sweep_parsed pool_script) InvalidSpvProof
          else ok_or (find_deposit_output_with_vout sweep_parsed) InvalidSpvProof
      | None \<Rightarrow> ok_or (find_deposit_output_with_vout sweep_parsed) InvalidSpvProof)"

definition deposit_transactions :: "sha \<Rightarrow> CompleteDepositData \<Rightarrow> bytes \<Rightarrow> bytes \<Rightarrow> (ParsedTransaction \<times> ParsedTransaction) pres" where
  "deposit_transactions H ix sweep_buffer deposit_buffer =
     js_bind (read_transaction_from_buffer sweep_buffer (nat (dd_sweep_tx_size ix))) (\<lambda>sweep_raw_tx.
     if compute_tx_hash H sweep_raw_tx \<noteq> dd_sweep_txid ix then Inl InvalidSpvProof
     else
       js_bind (spv_parse sweep_raw_tx) (\<lambda>sweep_parsed.
       let direct_to_pool = (dd_deposit_tx_size ix = 0) in
       js_bind
         (if direct_to_pool then
            (if dd_deposit_txid ix \<noteq> dd_sweep_txid ix then Inl InvalidSpvProof else Inr sweep_raw_tx)
          else
            js_bind (read_transaction_from_buffer deposit_buffer (nat (dd_deposit_tx_size ix))) (\<lambda>raw.
              if compute_tx_hash H raw \<noteq> dd_deposit_txid ix then Inl InvalidSpvProof else Inr raw)) (\<lambda>deposit_raw_tx.
       js_bind (spv_parse deposit_raw_tx) (\<lambda>deposit_parsed.
         if \<not> direct_to_pool \<and> \<not> find_input_with_prev_txid sweep_parsed (dd_deposit_txid ix) then Inl InvalidSpvProof
         else Inr (sweep_parsed, deposit_parsed)))))"

definition credit_deposit :: "sha \<Rightarrow> syscall \<Rightarrow> deposit_limits \<Rightarrow> CompleteDepositData \<Rightarrow> bytes \<Rightarrow> bytes \<Rightarrow> credited pres" where
  "credit_deposit H hashv l ix sweep_buffer deposit_buffer =
     js_bind (deposit_transactions H ix sweep_buffer deposit_buffer) (\<lambda>(sweep_parsed, deposit_parsed).
     js_bind (ok_or (find_deposit_op_return deposit_parsed) InvalidStealthOpReturn) (\<lambda>op_return.
     js_bind (pool_output l sweep_parsed) (\<lambda>(deposit_output, sweep_vout).
     let amount_sats = to_value deposit_output;
         original_deposit_sats =
           (if dd_deposit_tx_size ix = 0 then amount_sats
            else (case find_deposit_output deposit_parsed of None \<Rightarrow> amount_sats | Some out \<Rightarrow> to_value out)) in
     if amount_sats < dl_min_deposit l then Inl AmountTooSmall
     else if amount_sats > dl_max_deposit l then Inl AmountTooLarge
     else
       js_bind (deposit_fee l amount_sats) (\<lambda>(total_fee, shielded_amount).
       js_bind (compute_commitment hashv (dor_npk op_return) (dl_token_id l) shielded_amount) (\<lambda>commitment.
         Inr \<lparr> cr_ephemeral_pub = dor_ephemeral_pub op_return, cr_npk = dor_npk op_return, cr_amount_sats = amount_sats,
               cr_sweep_vout = sweep_vout, cr_original_deposit_sats = original_deposit_sats, cr_total_fee = total_fee,
               cr_shielded_amount = shielded_amount, cr_commitment = commitment \<rparr>)))))"

section \<open>Scripts\<close>

lemma p2tr_script: "length k = 32 \<Longrightarrow> createP2TRScriptPubkey k = Inr (0x51 # 0x20 # k)"
  unfolding createP2TRScriptPubkey_def by (subst build_layout) simp_all

lemma deposit_payload: "length e = 32 \<Longrightarrow> length n = 32 \<Longrightarrow> buildDepositOpReturn e n = Inr (e @ n)"
  unfolding buildDepositOpReturn_def DEPOSIT_OP_RETURN_SIZE_def by (subst build_layout) simp_all

lemma op_return_script:
  "length p \<le> 75 \<Longrightarrow> createOpReturnScriptFromPayload p = Inr (0x6a # of_nat (length p) # p)"
  "75 < length p \<Longrightarrow> length p \<le> 80 \<Longrightarrow> createOpReturnScriptFromPayload p = Inr (0x6a # 0x4c # of_nat (length p) # p)"
  unfolding createOpReturnScriptFromPayload_def by ((subst build_layout; simp_all), (subst build_layout; simp_all))

lemma strict_hex: "hexToBytes_strict (bytesToHex bs) = Inr bs"
proof -
  have "hexToBytes_strict (bytesToHex bs) = Inr (map (\<lambda>i. bs ! i) [0..<length bs])"
    by (simp add: hexToBytes_strict_def take_drop_bytesToHex hex_pair_byte)
  then show ?thesis by (simp add: map_nth)
qed

lemma unat_of_small: "n < 256 \<Longrightarrow> unat (of_nat n :: byte) = n"
  by (simp add: unsigned_of_nat take_bit_nat_eq_self)

lemma payload_read:
  assumes "createOpReturnScriptFromPayload p = Inr script" "p \<noteq> []"
  shows "parseOpReturnPayload (bytesToHex script) = Inr (Some p)"
proof (cases "length p \<le> 75")
  case True
  then have "script = 0x6a # of_nat (length p) # p" using assms(1) by (simp add: op_return_script)
  with True assms(2) show ?thesis by (simp add: parseOpReturnPayload_def strict_hex unat_of_small js_slice_def Let_def del: bytesToHex_simps)
next
  case False
  then have "length p \<le> 80" using assms(1) by (auto simp: createOpReturnScriptFromPayload_def split: if_split_asm)
  with False assms(1) have "script = 0x6a # 0x4c # of_nat (length p) # p" "length p < 256" by (simp_all add: op_return_script)
  then show ?thesis by (simp add: parseOpReturnPayload_def strict_hex unat_of_small js_slice_def Let_def del: bytesToHex_simps)
qed

lemma payload_cases:
  "if length q > 80 then createOpReturnScriptFromPayload q = Inl (Error ''OP_RETURN payload exceeds 80 bytes'')
   else q \<noteq> [] \<longrightarrow> (\<exists>sc. createOpReturnScriptFromPayload q = Inr sc \<and> parseOpReturnPayload (bytesToHex sc) = Inr (Some q))"
proof (cases "length q > 80")
  case False
  then obtain sc where "createOpReturnScriptFromPayload q = Inr sc"
    using op_return_script [of q] by (cases "length q \<le> 75") auto
  with False payload_read show ?thesis by auto
qed (simp add: createOpReturnScriptFromPayload_def)

lemma deposit_script_read:
  "length e = 32 \<Longrightarrow> length n = 32 \<Longrightarrow>
   get_deposit_op_return \<lparr> to_value = v, to_script = 0x6a # 0x40 # e @ n \<rparr> = Some \<lparr> dor_ephemeral_pub = e, dor_npk = n \<rparr>"
  by (simp add: get_deposit_op_return_def is_op_return_def OP_RETURN_def js_slice_def)

section \<open>Properties\<close>

text \<open>
  (C31) The three readers of a deposit output agree with its writer: the payload of an ephemeral key and a note key, in the
  script the SDK makes of it, is found by the indexer among any other outputs that it can read, is split into the two keys by
  the parser of the SDK, and is recognised by the program; every other payload of 1 to 80 bytes is read back as it was.
\<close>

theorem deposit_output_read:
  assumes "length e = 32" "length n = 32"
    "\<forall>s \<in> set before. \<exists>p. parseOpReturnPayload s = Inr p \<and> (\<forall>q. p = Some q \<longrightarrow> length q \<noteq> 64)"
  shows "\<exists>payload script. buildDepositOpReturn e n = Inr payload \<and> createOpReturnScriptFromPayload payload = Inr script \<and>
    parseDepositOpReturn payload = Some (e, n) \<and>
    get_deposit_op_return \<lparr> to_value = v, to_script = script \<rparr> = Some \<lparr> dor_ephemeral_pub = e, dor_npk = n \<rparr> \<and>
    extractUtxopiaDepositOpReturn (Some (before @ bytesToHex script # after)) =
      Inr (Some \<lparr> uo_ephemeralPubkey = e, uo_npk = n, uo_rawPayload = payload \<rparr>) \<and>
    (\<forall>q. if length q > 80 then createOpReturnScriptFromPayload q = Inl (Error ''OP_RETURN payload exceeds 80 bytes'')
         else q \<noteq> [] \<longrightarrow> (\<exists>sc. createOpReturnScriptFromPayload q = Inr sc \<and> parseOpReturnPayload (bytesToHex sc) = Inr (Some q)))"
proof -
  let ?script = "0x6a # 0x40 # e @ n"
  have s: "createOpReturnScriptFromPayload (e @ n) = Inr ?script" using assms(1,2) by (simp add: op_return_script)
  have "e @ n \<noteq> []" using assms(1) by auto
  note r = payload_read [OF s this]
  have "extract_outputs (before @ bytesToHex ?script # after) =
      Inr (Some \<lparr> uo_ephemeralPubkey = e, uo_npk = n, uo_rawPayload = e @ n \<rparr>)"
    using assms(3)
  proof (induction before)
    case Nil
    from r assms(1,2) show ?case by (simp add: UTXOPIA_DEPOSIT_OP_RETURN_SIZE_def js_slice_def del: bytesToHex_simps)
  next
    case (Cons s before)
    then show ?case by (auto simp: UTXOPIA_DEPOSIT_OP_RETURN_SIZE_def simp del: bytesToHex_simps split: option.split)
  qed
  then show ?thesis
    using assms s payload_cases
    by (simp add: deposit_payload deposit_script_read parseDepositOpReturn_def DEPOSIT_OP_RETURN_SIZE_def js_slice_def
        extractUtxopiaDepositOpReturn_def del: bytesToHex_simps)
qed

theorem deposit_output_read_witness:
  "\<exists>payload script. buildDepositOpReturn (replicate 32 1) (replicate 32 2) = Inr payload \<and>
    createOpReturnScriptFromPayload payload = Inr script \<and>
    extractUtxopiaDepositOpReturn (Some [bytesToHex [0x51, 0x20], bytesToHex script]) =
      Inr (Some \<lparr> uo_ephemeralPubkey = replicate 32 1, uo_npk = replicate 32 2, uo_rawPayload = payload \<rparr>)"
proof -
  have h: "\<forall>s \<in> set [bytesToHex [0x51, 0x20]]. \<exists>p. parseOpReturnPayload s = Inr p \<and> (\<forall>q. p = Some q \<longrightarrow> length q \<noteq> 64)"
    by (simp add: parseOpReturnPayload_def strict_hex del: bytesToHex_simps)
  show ?thesis using deposit_output_read [OF _ _ h, of "replicate 32 1" "replicate 32 2" 0 "[]"] by auto
qed

text \<open>A deposit transaction of the wallet: the vault output, the OP_RETURN output, and change.\<close>

definition deposit_outputs :: "int \<Rightarrow> bytes \<Rightarrow> bytes \<Rightarrow> TxOutput list \<Rightarrow> TxOutput list" where
  "deposit_outputs amount vault_script op_return_script change =
     \<lparr> to_value = amount, to_script = vault_script \<rparr> # \<lparr> to_value = 0, to_script = op_return_script \<rparr> # change"

text \<open>The data of the instruction in direct mode, and the announcement the program logs.\<close>

definition direct_ix :: "sha \<Rightarrow> int \<Rightarrow> bytes \<Rightarrow> CompleteDepositData" where
  "direct_ix H height raw =
     \<lparr> dd_sweep_txid = compute_tx_hash H raw, dd_block_height = height, dd_sweep_tx_size = int (length raw),
       dd_deposit_tx_size = 0, dd_deposit_txid = compute_tx_hash H raw \<rparr>"

definition credited_announcement :: "credited \<Rightarrow> int \<Rightarrow> OnChainStealthAnnouncement" where
  "credited_announcement c i =
     \<lparr> an_announcementType = Some ANNOUNCEMENT_TYPE_DEPOSIT, an_ephemeralPub = cr_ephemeral_pub c,
       an_encryptedAmount = le_bytes 8 (cr_shielded_amount c), an_commitment = cr_commitment c, an_leafIndex = i,
       an_blockTime = None \<rparr>"

definition limits_ok :: "deposit_limits \<Rightarrow> bytes \<Rightarrow> int \<Rightarrow> int \<Rightarrow> bool" where
  "limits_ok l vault_script amount fee \<longleftrightarrow>
     dl_min_deposit l \<le> amount \<and> amount \<le> dl_max_deposit l \<and> fits 2 (dl_deposit_fee_bps l) \<and> dl_deposit_fee_bps l \<le> 10000 \<and>
     fee = amount * dl_deposit_fee_bps l div 10000 + dl_service_fee l \<and> 0 \<le> dl_service_fee l \<and> fee < amount \<and>
     length (dl_token_id l) = 32 \<and> in_field (be_val (dl_token_id l)) \<and>
     (dl_pool_script l = None \<or> dl_pool_script l = Some [] \<or> dl_pool_script l = Some vault_script)"

lemma direct_transactions:
  assumes "length header = 32" "0 < length raw" "ParsedTransaction_parse raw = Inr tx"
  shows "deposit_transactions H (direct_ix H height raw) (header @ raw @ rest) other = Inr (tx, tx)"
  using assms
  by (simp add: deposit_transactions_def direct_ix_def read_transaction_from_buffer_def BUFFER_HEADER_SIZE_def js_slice_def
      spv_parse_def)

lemma direct_deposit_fields:
  assumes "curve_ok C" "\<forall>n xs. fits 32 (P n xs)" "k_viewingPubKey keys = getPublicKey C (k_viewingPrivKey keys)"
    "createDirectVaultDeposit B C H P rnd (createStealthMetaAddress P keys) vault net = Inr d"
  obtains s where "x25519Ecdh C (k_viewingPrivKey keys) (getPublicKey C rnd) = Inr s" "length vault = 32"
    "nd_depositOutputKey d = vault" "nd_ephemeralPub d = getPublicKey C rnd"
    "nd_npk d = bigintToBytes (note_npk H P (k_spendingPubKey keys) (k_nullifyingKey keys) s)"
    "nd_opReturnPayload d = nd_ephemeralPub d @ nd_npk d" "length (nd_ephemeralPub d) = 32" "length (nd_npk d) = 32"
proof -
  obtain s where s: "x25519Ecdh C (k_viewingPrivKey keys) (getPublicKey C rnd) = Inr s"
    "x25519Ecdh C rnd (getPublicKey C (k_viewingPrivKey keys)) = Inr s"
    using assms(1) unfolding curve_ok_def by blast
  have v: "m_viewingPubKey (createStealthMetaAddress P keys) = getPublicKey C (k_viewingPrivKey keys)"
    using assms(3) by (simp add: createStealthMetaAddress_def Let_def)
  let ?npk = "bigintToBytes (note_npk H P (k_spendingPubKey keys) (k_nullifyingKey keys) s)"
  have k: "deposit_keys C H P rnd (createStealthMetaAddress P keys) = Inr (getPublicKey C rnd, ?npk)"
    using assms(2) s(2) v by (simp add: deposit_keys_def ed25519GenerateKeyPair_def Let_def meta_mpk)
  have len: "length (getPublicKey C rnd) = 32" "length ?npk = 32" using assms(1) by (simp_all add: curve_ok_def)
  show ?thesis
    using assms(4) k len s(1)
    by (intro that [of s]) (auto simp: createDirectVaultDeposit_def deposit_payload js_bind_Inr_iff split: if_split_asm)
qed

lemma be_val_pad: "be_val (replicate n 0 @ bs) = be_val bs"
  by (induction n) (simp_all add: be_val_Cons)

lemma amount_bytes: "fits 8 v \<Longrightarrow> be_val (replicate 24 0 @ be_bytes 8 v) = v"
  unfolding be_val_pad be_val_be_bytes by (rule fits_mod)

lemma credit_commitment:
  assumes "syscall_ok P hashv" "in_field npk" "length tok = 32" "in_field (be_val tok)" "fits 8 v"
  shows "compute_commitment hashv (bigintToBytes npk) tok v = Inr (bigintToBytes (P 3 [npk, be_val tok, v]))"
proof -
  have npk: "be_val (bigintToBytes npk) = npk" using bytes_roundtrip [OF in_field_fits [OF assms(2)]] by (simp add: bytesToBigint_eq)
  have v: "in_field v" using assms(5) by (simp add: in_field_def fits_def BN254_SCALAR_FIELD_def)
  have "\<forall>x \<in> {bigintToBytes npk, tok, replicate 24 0 @ be_bytes 8 v}. length x = 32 \<and> in_field (be_val x)"
    using assms v by (simp add: npk amount_bytes)
  then show ?thesis
    unfolding compute_commitment_def using poseidon3_hash_eq [OF assms(1)] assms(5)
    by (simp add: npk amount_bytes) (simp add: bigintToBytes_eq)
qed

lemma credited_deposit_found:
  assumes "\<forall>n xs. fits 32 (P n xs)" "x25519Ecdh C (k_viewingPrivKey keys) (cr_ephemeral_pub c) = Inr s"
    "cr_commitment c = bigintToBytes (P 3 [note_npk H P (k_spendingPubKey keys) (k_nullifyingKey keys) s, token, cr_shielded_amount c])"
    "0 < cr_shielded_amount c" "cr_shielded_amount c \<le> MAX_SATS" "scanUnifiedNotes C H P keys anns token = Inr found"
  shows "\<exists>n. scanUnifiedNotes C H P keys (anns @ [credited_announcement c i]) token = Inr (found @ [n]) \<and>
    sn_amount n = cr_shielded_amount c \<and> sn_leafIndex n = i \<and> sn_commitment n = cr_commitment c"
proof -
  have v: "view_get_le 8 (le_bytes 8 (cr_shielded_amount c)) 0 = Inr (cr_shielded_amount c)"
    using amount_fits [OF assms(4,5)] by (simp add: view_get_le_def js_slice_all le_val_le_bytes del: le_bytes.simps)
  have c: "bytesToBigint (bigintToBytes (P n xs)) = P n xs" for n xs using assms(1) bytes_roundtrip by blast
  show ?thesis
    using assms(2-6) v c
    by (simp add: scanUnifiedNotes_def scan_loop_snoc try_scan_def scan_unified_def credited_announcement_def announced_amount_def
        Let_def del: le_bytes.simps)
qed

lemma fee_fits:
  assumes "limits_ok l vs amount fee" "fits 8 amount"
  shows "deposit_fee l amount = Inr (fee, amount - fee) \<and> fits 8 (amount - fee) \<and> 0 < amount"
proof -
  let ?p = "amount * dl_deposit_fee_bps l div 10000"
  have h: "0 \<le> dl_deposit_fee_bps l" "dl_deposit_fee_bps l \<le> 10000" "0 \<le> amount" "amount < 2 ^ 64"
    using assms by (auto simp: limits_ok_def fits_def)
  then have "amount * dl_deposit_fee_bps l \<le> amount * 10000" by (intro mult_left_mono)
  then have "?p \<le> amount" by linarith
  moreover have "0 \<le> ?p" using h by (simp add: pos_imp_zdiv_nonneg_iff)
  ultimately have "?p mod 2 ^ 64 = ?p" using h(4) by (intro mod_pos_pos_trivial) linarith+
  with assms h \<open>0 \<le> ?p\<close> show ?thesis by (simp add: deposit_fee_def limits_ok_def Let_def fits_def)
qed


definition sample_limits :: deposit_limits where
  "sample_limits = \<lparr> dl_min_deposit = 1000, dl_max_deposit = 100000, dl_deposit_fee_bps = 50, dl_service_fee = 100,
     dl_token_id = replicate 31 0 @ [9], dl_pool_script = None \<rparr>"

definition sample_input :: btc_input where
  "sample_input = \<lparr> bi_txid = replicate 32 4, bi_vout = 1, bi_script = [], bi_sequence = 0 \<rparr>"


end
