(* ===== verification/Legacy_Deposit.thy ===== *)
theory Legacy_Deposit
  imports Btc_Deposit
begin

text \<open>
  The older deposit functions \<open>src/sdk/src/stealth-deposit.ts\<close>, still exported by the SDK: preparation with a commitment that does
  not depend on the amount, a 32-byte OP_RETURN, and the data of the completion instruction. Sending the transaction and the
  derivation of addresses are left out.
\<close>

section \<open>Preparation\<close>

definition STEALTH_OP_RETURN_SIZE :: nat where
  "STEALTH_OP_RETURN_SIZE = 32"

definition COMPLETE_DEPOSIT_DISCRIMINATOR :: int where
  "COMPLETE_DEPOSIT_DISCRIMINATOR = 11"

definition buildStealthOpReturn :: "bytes \<Rightarrow> bytes" where
  "buildStealthOpReturn commitment = commitment"

definition parseStealthOpReturn :: "bytes \<Rightarrow> bytes option" where
  "parseStealthOpReturn bs = (if length bs \<noteq> STEALTH_OP_RETURN_SIZE then None else Some bs)"

record PreparedStealthDeposit =
  ps_btcDepositAddress :: string
  ps_opReturnData :: bytes
  ps_ephemeralPub :: bytes
  ps_commitment :: bytes

text \<open>The key pair is the given one or a generated one; the outer option is the one of the decompression of the spending key.\<close>

definition prepareStealthDeposit ::
  "'p secp256k1 \<Rightarrow> bech32 \<Rightarrow> curve25519 \<Rightarrow> sha \<Rightarrow> poseidon \<Rightarrow> ed_keypair \<Rightarrow> StealthMetaAddress \<Rightarrow> btc_network \<Rightarrow>
     PreparedStealthDeposit result option" where
  "prepareStealthDeposit S B C H P ephemeral recipientMeta network =
     map_option (\<lambda>parsed. js_bind parsed (\<lambda>(spendingPubKey, viewingPubKey).
       js_bind (x25519Ecdh C (ed_privKey ephemeral) viewingPubKey) (\<lambda>sharedSecret.
       js_bind (deriveStealthScalar H sharedSecret) (\<lambda>stealthScalar.
       let stealthPub = babyJubAdd spendingPubKey (babyJubMul stealthScalar BABYJUB_BASE8) in
       js_bind (poseidonHashSync P [px stealthPub]) (\<lambda>commitmentBigint.
       let commitment = bigintToBytes commitmentBigint; opReturnData = buildStealthOpReturn commitment in
       js_bind (deriveTaprootAddress S B H commitment network None) (\<lambda>t.
         Inr \<lparr> ps_btcDepositAddress = tp_address t, ps_opReturnData = opReturnData,
               ps_ephemeralPub = ed_pubKey ephemeral, ps_commitment = commitment \<rparr>))))))
     (parseStealthMetaAddress recipientMeta)"

section \<open>Completion\<close>

text \<open>The identifier of the transaction in internal byte order: 32 pairs of digits, reversed.\<close>

definition txid_bytes :: "string \<Rightarrow> bytes" where
  "txid_bytes btcTxid =
     (let txidHex = (if take 2 btcTxid = ''0x'' then drop 2 btcTxid else btcTxid) in
      rev (map (\<lambda>i. to_uint8 (js_parseInt16 (take 2 (drop (2 * i) txidHex)))) [0..<32]))"

definition buildVerifyStealthDepositData :: "bytes \<Rightarrow> int \<Rightarrow> int \<Rightarrow> int \<Rightarrow> bytes \<Rightarrow> bytes \<Rightarrow> bytes result" where
  "buildVerifyStealthDepositData txid height expectedValue transactionSize eph npk =
     build (1 + 32 + 8 + 8 + 4 + 32 + 32)
       [PutByte COMPLETE_DEPOSIT_DISCRIMINATOR, PutBytes txid 32, PutLE 8 height, PutLE 8 expectedValue, PutLE 4 transactionSize,
        PutBytes eph 32, PutBytes npk 32]"

definition completeDeposit_data :: "string \<Rightarrow> int \<Rightarrow> bytes \<Rightarrow> bytes \<Rightarrow> int \<Rightarrow> int \<Rightarrow> bytes result" where
  "completeDeposit_data btcTxid expectedValue eph npk height transactionSize =
     (if length eph \<noteq> 32 then Inl (Error ''ephemeralPub must be 32 bytes (Ed25519)'')
      else if length npk \<noteq> 32 then Inl (Error ''npk must be 32 bytes'')
      else buildVerifyStealthDepositData (txid_bytes btcTxid) height expectedValue transactionSize eph npk)"

text \<open>The search of a raw transaction for an OP_RETURN with a commitment; every 0x6a byte is tried.\<close>

definition stealth_data_at :: "bytes \<Rightarrow> nat \<Rightarrow> bytes option" where
  "stealth_data_at rawTx i =
     (if rawTx ! i = 0x6a then
        (let b = rawTx ! (i + 1);
             (pushLen, dataStart) =
               (if b \<le> 0x4b then (unat b, i + 2)
                else if b = 0x4c then (unat (rawTx ! (i + 2)), i + 3)
                else if b = 0x4d then (unat (rawTx ! (i + 2)) + 256 * unat (rawTx ! (i + 3)), i + 4)
                else (0, i + 2)) in
         if pushLen \<ge> STEALTH_OP_RETURN_SIZE \<and> dataStart + pushLen \<le> length rawTx
         then parseStealthOpReturn (js_slice rawTx dataStart (dataStart + pushLen)) else None)
      else None)"

definition extractStealthDataFromRawTx :: "bytes \<Rightarrow> bytes option" where
  "extractStealthDataFromRawTx rawTx =
     find_some (stealth_data_at rawTx) [0..<length rawTx - STEALTH_OP_RETURN_SIZE - 2]"

section \<open>Properties\<close>

lemma le_bytes_add: "le_bytes (m + n) v = le_bytes m v @ le_bytes n (v div 256 ^ m)"
  by (induction m arbitrary: v) (simp_all add: zdiv_zmult2_eq)

lemma completion_data:
  assumes "length eph = 32" "length npk = 32"
  shows "completeDeposit_data txid sats eph npk height sz =
    Inr (11 # txid_bytes txid @ le_bytes 8 height @ le_bytes 8 sats @ le_bytes 4 sz @ eph @ npk)"
proof -
  have t: "length (txid_bytes txid) = 32" by (simp add: txid_bytes_def Let_def)
  show ?thesis
    unfolding completeDeposit_data_def buildVerifyStealthDepositData_def using assms t
    by (simp add: COMPLETE_DEPOSIT_DISCRIMINATOR_def) (subst build_layout; simp del: le_bytes.simps)
qed

text \<open>
  The older completion does not fit the program. The program reads its data, but takes the low and high half of the amount for the sizes of
  the two transactions, and the size with 28 bytes of the ephemeral key for the identifier of the deposit. For an amount
  below \<open>2^32\<close>, unless these bytes happen to be the identifier of the transaction, no buffer, fee or limit makes the deposit
  succeed. And an output with the prepared 32-byte payload is not a deposit for the program.
\<close>

theorem legacy_deposit_refused:
  assumes "length eph = 32" "length npk = 32" "fits 8 sats" "fits 8 height"
  shows "\<exists>bs. completeDeposit_data txid sats eph npk height sz = Inr bs \<and>
    (\<exists>ix. CompleteDepositData_from_bytes (drop 1 bs) = Inr ix \<and> dd_sweep_txid ix = txid_bytes txid \<and> dd_block_height ix = height \<and>
       dd_sweep_tx_size ix = sats mod 2 ^ 32 \<and> dd_deposit_tx_size ix = sats div 2 ^ 32 \<and>
       dd_deposit_txid ix = le_bytes 4 sz @ take 28 eph \<and>
       (sats < 2 ^ 32 \<longrightarrow> txid_bytes txid \<noteq> le_bytes 4 sz @ take 28 eph \<longrightarrow>
          (\<exists>e. credit_deposit H hashv l ix sweep_buffer deposit_buffer = Inl e))) \<and>
    (\<forall>c script v. length c = 32 \<longrightarrow> createOpReturnScriptFromPayload (buildStealthOpReturn c) = Inr script \<longrightarrow>
       get_deposit_op_return \<lparr> to_value = v, to_script = script \<rparr> = None)"
proof -
  have t: "length (txid_bytes txid) = 32" by (simp add: txid_bytes_def Let_def)
  have v: "le_bytes 8 sats = le_bytes 4 sats @ le_bytes 4 (sats div 2 ^ 32)"
    using le_bytes_add [of 4 4 sats] by simp
  let ?ix = "\<lparr> dd_sweep_txid = txid_bytes txid, dd_block_height = height, dd_sweep_tx_size = sats mod 2 ^ 32,
      dd_deposit_tx_size = sats div 2 ^ 32, dd_deposit_txid = le_bytes 4 sz @ take 28 eph \<rparr>"
  have high: "sats div 4294967296 mod 4294967296 = sats div 4294967296"
  proof (rule mod_pos_pos_trivial)
    have "0 \<le> sats" "sats < 18446744073709551616" using assms(3) by (simp_all add: fits_def)
    then show "0 \<le> sats div 4294967296" "sats div 4294967296 < 4294967296" by linarith+
  qed
  have ix: "CompleteDepositData_from_bytes (txid_bytes txid @ le_bytes 8 height @ le_bytes 8 sats @ le_bytes 4 sz @ eph @ npk) = Inr ?ix"
    using assms t high by (simp add: CompleteDepositData_from_bytes_def v js_slice_def le_val_le_bytes fits_def del: le_bytes.simps)
  have "\<exists>e. credit_deposit H hashv l ?ix sweep_buffer deposit_buffer = Inl e"
    if "sats < 2 ^ 32" "txid_bytes txid \<noteq> le_bytes 4 sz @ take 28 eph"
  proof -
    have z: "sats div 2 ^ 32 = 0" using that(1) assms(3) by (simp add: fits_def)
    have "\<exists>e. deposit_transactions H ?ix sweep_buffer deposit_buffer = Inl e"
      using that(2) unfolding z deposit_transactions_def
      by (simp add: js_bind_def del: le_bytes.simps split: sum.split)
    then show ?thesis by (auto simp: credit_deposit_def)
  qed
  moreover have "get_deposit_op_return \<lparr> to_value = v, to_script = script \<rparr> = None"
    if "length c = 32" "createOpReturnScriptFromPayload (buildStealthOpReturn c) = Inr script" for c script v
    using that by (auto simp: buildStealthOpReturn_def op_return_script get_deposit_op_return_def)
  ultimately show ?thesis using completion_data [OF assms(1,2)] ix by (simp del: le_bytes.simps)
qed

theorem legacy_deposit_refused_witness:
  "\<exists>bs ix e. completeDeposit_data [] 1000 (replicate 32 1) (replicate 32 2) 7 250 = Inr bs \<and>
    CompleteDepositData_from_bytes (drop 1 bs) = Inr ix \<and> dd_sweep_tx_size ix = 1000 \<and>
    credit_deposit sample_sha sample_hashv sample_limits ix [] [] = Inl e"
proof -
  have f: "fits 8 1000" "fits 8 7" by (simp_all add: fits_def)
  have "txid_bytes [] ! 31 = 0" by (simp add: txid_bytes_def js_parseInt16_def to_uint8_def rev_nth)
  moreover have "(le_bytes 4 250 @ take 28 (replicate 32 1 :: bytes)) ! 31 = 1" by (simp add: nth_append del: le_bytes.simps)
  ultimately have "txid_bytes [] \<noteq> le_bytes 4 250 @ take 28 (replicate 32 1)" by auto
  with legacy_deposit_refused [OF _ _ f, of "replicate 32 1" "replicate 32 2" "[]" 250 sample_sha sample_hashv sample_limits "[]" "[]"]
  show ?thesis by auto
qed

end
