(* ===== verification/Psbt.thy ===== *)
theory Psbt
  imports Complex_Main Btc_Deposit "HOL-Library.Multiset"
begin

text \<open>
  The wallet side of a deposit, \<open>src/sdk/src/psbt.ts\<close>: fee estimation, the selection of outputs to spend, and the construction of the
  transaction. The packages \<open>@scure/btc-signer\<close> and \<open>@scure/base\<close> are parameters: decoding of hexadecimal scripts, the script of an address and the
  serialisation. Satoshi amounts are integers; a fee rate is a rational number, multiplied exactly.
\<close>

section \<open>Fees\<close>

definition DUST_LIMIT :: int where "DUST_LIMIT = 546"
definition P2TR_INPUT_VBYTES :: int where "P2TR_INPUT_VBYTES = 58"
definition P2WPKH_INPUT_VBYTES :: int where "P2WPKH_INPUT_VBYTES = 68"
definition P2TR_OUTPUT_VBYTES :: int where "P2TR_OUTPUT_VBYTES = 43"
definition OP_RETURN_OUTPUT_VBYTES :: int where "OP_RETURN_OUTPUT_VBYTES = 75"
definition TX_OVERHEAD_VBYTES :: int where "TX_OVERHEAD_VBYTES = 11"

datatype input_type = P2TR | P2WPKH

definition estimateDepositFee :: "nat \<Rightarrow> rat \<Rightarrow> input_type \<Rightarrow> bool \<Rightarrow> int" where
  "estimateDepositFee numInputs feeRate inputType hasChange =
     (let inputVbytes = (if inputType = P2TR then P2TR_INPUT_VBYTES else P2WPKH_INPUT_VBYTES);
          vsize = TX_OVERHEAD_VBYTES + int numInputs * inputVbytes + P2TR_OUTPUT_VBYTES + OP_RETURN_OUTPUT_VBYTES +
                  (if hasChange then P2TR_OUTPUT_VBYTES else 0)
      in \<lceil>of_int vsize * feeRate\<rceil>)"

section \<open>The transaction\<close>

record UtxoDescriptor =
  u_txid :: string
  u_vout :: int
  u_amount :: int
  u_scriptPubkeyHex :: string

record psbt_input =
  pi_txid :: string
  pi_index :: int
  pi_script :: bytes
  pi_amount :: int
  pi_tapInternalKey :: "bytes option"

record scure =
  hex_decode :: "string \<Rightarrow> bytes result"
  address_script :: "bool \<Rightarrow> string \<Rightarrow> bytes result"
  to_psbt :: "psbt_input list \<Rightarrow> TxOutput list \<Rightarrow> bytes result"

datatype psbt_network = MainNet | TestNet | SigNet

record BuildDepositPsbtParams =
  bp_senderUtxos :: "UtxoDescriptor list"
  bp_depositAddress :: string
  bp_depositAmountSats :: int
  bp_opReturnPayload :: bytes
  bp_changeAddress :: string
  bp_feeRate :: rat
  bp_network :: psbt_network

record BuildDepositPsbtResult =
  br_psbtBase64 :: string
  br_psbtHex :: string
  br_estimatedFee :: int
  br_totalInput :: int
  br_changeAmount :: int

definition total_value :: "UtxoDescriptor list \<Rightarrow> int" where
  "total_value utxos = sum_list (map u_amount utxos)"

definition psbt_input_of :: "scure \<Rightarrow> UtxoDescriptor \<Rightarrow> psbt_input result" where
  "psbt_input_of K utxo =
     js_bind (hex_decode K (u_scriptPubkeyHex utxo)) (\<lambda>scriptPubkey.
       if scriptPubkey \<noteq> [] \<and> scriptPubkey ! 0 = 0x51 \<and> length scriptPubkey = 34 then
         Inr \<lparr> pi_txid = u_txid utxo, pi_index = u_vout utxo, pi_script = scriptPubkey, pi_amount = u_amount utxo,
               pi_tapInternalKey = Some (drop 2 scriptPubkey) \<rparr>
       else if scriptPubkey \<noteq> [] \<and> scriptPubkey ! 0 = 0x00 \<and> length scriptPubkey = 22 then
         Inr \<lparr> pi_txid = u_txid utxo, pi_index = u_vout utxo, pi_script = scriptPubkey, pi_amount = u_amount utxo,
               pi_tapInternalKey = None \<rparr>
       else Inl (Error (''Unsupported input script type for UTXO '' @ u_txid utxo @ '':'' @ js_toString 10 (u_vout utxo))))"

text \<open>Amounts and fee: the plan of a transaction, before anything is built. The members of the error text are kept.\<close>

definition deposit_plan :: "UtxoDescriptor list \<Rightarrow> int \<Rightarrow> rat \<Rightarrow> input_type \<Rightarrow> (bool \<times> int \<times> int) result" where
  "deposit_plan senderUtxos depositAmountSats feeRate inputType =
     (let totalInput = total_value senderUtxos;
          feeWithChange = estimateDepositFee (length senderUtxos) feeRate inputType True;
          changeAmount = totalInput - depositAmountSats - feeWithChange;
          feeWithoutChange = estimateDepositFee (length senderUtxos) feeRate inputType False in
      if totalInput < depositAmountSats + feeWithoutChange
      then Inl (Error (''Insufficient funds: have '' @ js_toString 10 totalInput @ '' sats, need '' @
             js_toString 10 (depositAmountSats + feeWithoutChange) @ '' sats (including fee)''))
      else
        (let hasChange = changeAmount > DUST_LIMIT in
         Inr (hasChange, changeAmount, if hasChange then feeWithChange else totalInput - depositAmountSats)))"

definition op_return_bytes :: "bytes \<Rightarrow> bytes result" where
  "op_return_bytes payload =
     build (2 + length payload) [PutByte 0x6a, PutByte (int (length payload)), PutBytes payload (length payload)]"

text \<open>Inputs and outputs of the transaction, with the result.\<close>

definition psbt_parts ::
  "scure \<Rightarrow> BuildDepositPsbtParams \<Rightarrow> (psbt_input list \<times> TxOutput list \<times> int \<times> int \<times> int) result" where
  "psbt_parts K ps =
     (if bp_senderUtxos ps = [] then Inl (Error ''No UTXOs provided'')
      else if bp_depositAmountSats ps < DUST_LIMIT
      then Inl (Error (''Deposit amount '' @ js_toString 10 (bp_depositAmountSats ps) @ '' is below dust limit '' @ js_toString 10 DUST_LIMIT))
      else if length (bp_opReturnPayload ps) \<noteq> 64
      then Inl (Error (''OP_RETURN payload must be 64 bytes, got '' @ js_toString 10 (int (length (bp_opReturnPayload ps)))))
      else
        js_bind (hex_decode K (u_scriptPubkeyHex (hd (bp_senderUtxos ps)))) (\<lambda>firstScript.
        let inputType = (if firstScript \<noteq> [] \<and> firstScript ! 0 = 0x51 then P2TR else P2WPKH); main = (bp_network ps = MainNet) in
        js_bind (deposit_plan (bp_senderUtxos ps) (bp_depositAmountSats ps) (bp_feeRate ps) inputType)
          (\<lambda>(hasChange, changeAmount, actualFee).
        js_bind (js_mapM (psbt_input_of K) (bp_senderUtxos ps)) (\<lambda>inputs.
        js_bind (address_script K main (bp_depositAddress ps)) (\<lambda>depositScript.
        js_bind (op_return_bytes (bp_opReturnPayload ps)) (\<lambda>opReturnScript.
        js_bind (if hasChange
                 then js_bind (address_script K main (bp_changeAddress ps)) (\<lambda>sc. Inr [\<lparr> to_value = changeAmount, to_script = sc \<rparr>])
                 else Inr []) (\<lambda>change.
          Inr (inputs,
               [\<lparr> to_value = bp_depositAmountSats ps, to_script = depositScript \<rparr>,
                \<lparr> to_value = 0, to_script = opReturnScript \<rparr>] @ change,
               actualFee, total_value (bp_senderUtxos ps), if hasChange then changeAmount else 0))))))))"

definition buildDepositPsbt :: "scure \<Rightarrow> BuildDepositPsbtParams \<Rightarrow> BuildDepositPsbtResult result" where
  "buildDepositPsbt K ps =
     js_bind (psbt_parts K ps) (\<lambda>(inputs, outputs, fee, totalInput, change).
     js_bind (to_psbt K inputs outputs) (\<lambda>psbtBytes.
       Inr \<lparr> br_psbtBase64 = base64_encode psbtBytes, br_psbtHex = bytesToHex psbtBytes, br_estimatedFee = fee,
             br_totalInput = totalInput, br_changeAmount = change \<rparr>))"

section \<open>Selection\<close>

fun select_loop :: "UtxoDescriptor list \<Rightarrow> int \<Rightarrow> rat \<Rightarrow> UtxoDescriptor list \<Rightarrow> int \<Rightarrow> UtxoDescriptor list result" where
  "select_loop [] targetSats feeRate selected sats =
     (let fee = estimateDepositFee (length selected) feeRate P2TR True in
      if sats < targetSats + fee
      then Inl (Error (''Insufficient funds: have '' @ js_toString 10 sats @ '' sats, need '' @ js_toString 10 (targetSats + fee) @ '' sats''))
      else Inr selected)"
| "select_loop (utxo # rest) targetSats feeRate selected sats =
     (let selected' = selected @ [utxo]; sats' = sats + u_amount utxo;
          fee = estimateDepositFee (length selected') feeRate P2TR True in
      if sats' \<ge> targetSats + fee then Inr selected' else select_loop rest targetSats feeRate selected' sats')"

definition selectUtxos :: "UtxoDescriptor list \<Rightarrow> int \<Rightarrow> rat \<Rightarrow> UtxoDescriptor list result" where
  "selectUtxos utxos targetSats feeRate = select_loop (sort_key (\<lambda>u. - u_amount u) utxos) targetSats feeRate [] 0"

section \<open>Reading the outputs of an address\<close>

text \<open>What \<open>fetchUtxos\<close> makes of the two answers of the service: confirmed outputs whose script is known.\<close>

record MempoolUtxo =
  mu_txid :: string
  mu_vout :: int
  mu_confirmed :: bool
  mu_value :: int

definition fetched_utxos :: "MempoolUtxo list \<Rightarrow> (string \<Rightarrow> (int \<Rightarrow> string option) option) \<Rightarrow> UtxoDescriptor list" where
  "fetched_utxos utxos txCache =
     filter (\<lambda>u. u_scriptPubkeyHex u \<noteq> [])
       (map (\<lambda>u. \<lparr> u_txid = mu_txid u, u_vout = mu_vout u, u_amount = mu_value u,
                   u_scriptPubkeyHex = (case txCache (mu_txid u) of None \<Rightarrow> [] | Some outs \<Rightarrow> case_option [] id (outs (mu_vout u))) \<rparr>)
         (filter mu_confirmed utxos))"

section \<open>Lemmas\<close>

lemma inputs_value:
  "js_mapM (psbt_input_of K) us = Inr ins \<Longrightarrow> sum_list (map pi_amount ins) = total_value us \<and> length ins = length us"
proof (induction us arbitrary: ins)
  case (Cons u us)
  then obtain i js where i: "psbt_input_of K u = Inr i" "js_mapM (psbt_input_of K) us = Inr js" "ins = i # js"
    by (auto simp: js_bind_Inr_iff)
  from i(1) have "pi_amount i = u_amount u" by (auto simp: psbt_input_of_def js_bind_Inr_iff split: if_split_asm)
  with Cons.IH [OF i(2)] i(3) show ?case by (simp add: total_value_def)
qed (simp add: total_value_def)

lemma fee_mono:
  assumes "0 \<le> r"
  shows "estimateDepositFee n r t False \<le> estimateDepositFee n r t True"
proof -
  have "of_int a * r \<le> of_int b * r" if "a \<le> b" for a b :: int using that assms by (simp add: mult_right_mono)
  then have "\<lceil>of_int a * r\<rceil> \<le> \<lceil>of_int b * r\<rceil>" if "a \<le> b" for a b :: int using that by (intro ceiling_mono) blast
  moreover have "0 \<le> P2TR_OUTPUT_VBYTES" by (simp add: P2TR_OUTPUT_VBYTES_def)
  ultimately show ?thesis unfolding estimateDepositFee_def Let_def if_True if_False by (metis add_left_mono)
qed

lemma payload_script: "length p = 64 \<Longrightarrow> op_return_bytes p = Inr (0x6a # 0x40 # p)"
  unfolding op_return_bytes_def by (subst build_layout) simp_all

lemma plan_cases:
  assumes "deposit_plan us amount r t = Inr (hasChange, change, fee)"
  shows "total_value us = amount + (if hasChange then change else 0) + fee \<and> (hasChange \<longleftrightarrow> change > DUST_LIMIT) \<and>
    estimateDepositFee (length us) r t hasChange \<le> fee \<and> fee \<le> estimateDepositFee (length us) r t True + DUST_LIMIT"
proof -
  let ?w = "estimateDepositFee (length us) r t True" and ?o = "estimateDepositFee (length us) r t False"
  have h: "\<not> total_value us < amount + ?o" "hasChange \<longleftrightarrow> change > DUST_LIMIT" "change = total_value us - amount - ?w"
    "fee = (if hasChange then ?w else total_value us - amount)"
    using assms unfolding deposit_plan_def Let_def by (auto split: if_split_asm)
  then show ?thesis by (cases hasChange) (auto simp: DUST_LIMIT_def)
qed

section \<open>Properties\<close>



text \<open>The loop stops at the first prefix that covers its own fee; when none does, the whole list is reported short.\<close>

definition covers :: "UtxoDescriptor list \<Rightarrow> int \<Rightarrow> rat \<Rightarrow> bool" where
  "covers us target r \<longleftrightarrow> target + estimateDepositFee (length us) r P2TR True \<le> total_value us"

lemma select_loop_spec:
  assumes "sats = total_value sel"
  shows "case select_loop us target r sel sats of
      Inr res \<Rightarrow> \<exists>k \<le> length us. res = sel @ take k us \<and> covers res target r \<and> (\<forall>j. 0 < j \<and> j < k \<longrightarrow> \<not> covers (sel @ take j us) target r)
    | Inl e \<Rightarrow> \<forall>j \<le> length us. 0 < j \<or> us = [] \<longrightarrow> \<not> covers (sel @ take j us) target r"
  using assms
proof (induction us arbitrary: sel sats)
  case Nil
  then show ?case by (auto simp: Let_def covers_def)
next
  case (Cons u us)
  have v: "sats + u_amount u = total_value (sel @ [u])" using Cons.prems by (simp add: total_value_def)
  show ?case
  proof (cases "covers (sel @ [u]) target r")
    case True
    then have "select_loop (u # us) target r sel sats = Inr (sel @ [u])" using v by (simp add: Let_def covers_def)
    with True show ?thesis by (auto intro!: exI [of _ 1])
  next
    case False
    then have l: "select_loop (u # us) target r sel sats = select_loop us target r (sel @ [u]) (total_value (sel @ [u]))"
      using v by (simp add: Let_def covers_def)
    show ?thesis
    proof (cases "select_loop us target r (sel @ [u]) (total_value (sel @ [u]))")
      case (Inl e)
      have "\<not> covers ((sel @ [u]) @ take j us) target r" if "j \<le> length us" for j
        using Cons.IH [OF refl, of "sel @ [u]"] Inl False that by (cases j) (auto split: sum.splits)
      then have "\<not> covers (sel @ take j (u # us)) target r" if "j \<le> Suc (length us)" "0 < j" for j using that by (cases j) auto
      then show ?thesis unfolding l Inl sum.case by simp
    next
      case (Inr res)
      then obtain k where k: "k \<le> length us" "res = (sel @ [u]) @ take k us" "covers res target r"
        "\<forall>j. 0 < j \<and> j < k \<longrightarrow> \<not> covers ((sel @ [u]) @ take j us) target r"
        using Cons.IH [OF refl, of "sel @ [u]"] by auto
      have "\<not> covers (sel @ take j (u # us)) target r" if "0 < j" "j < Suc k" for j
        using that k(4) False by (cases j; cases "j - 1") auto
      then show ?thesis unfolding l Inr sum.case using k by (intro exI [of _ "Suc k"]) auto
    qed
  qed
qed


text \<open>A selection covers the deposit and the fee with change, so for inputs of the kind the estimate is made for a plan exists.\<close>

lemma covers_plan:
  assumes "covers us target r" "0 \<le> r"
  shows "\<exists>hasChange ch fee. deposit_plan us target r P2TR = Inr (hasChange, ch, fee)"
  using assms(1) fee_mono [OF assms(2), of "length us" P2TR] unfolding covers_def deposit_plan_def Let_def by auto

lemma sorted_descending: "sorted_wrt (\<lambda>a b. u_amount b \<le> u_amount a) (sort_key (\<lambda>u. - u_amount u) us)"
  using sorted_sort_key [of "\<lambda>u. - u_amount u" us] by (simp add: sorted_map)

text \<open>
  Selection: the outputs are considered from the largest to the smallest, and the shortest beginning that covers the deposit and its
  own fee is taken, for which the construction does not run out of funds when every input is a Taproot one; an error means that no number of
  the largest outputs covers deposit and fee.
\<close>

theorem selectUtxos_correct:
  assumes "0 \<le> r"
  shows "\<exists>us'. mset us' = mset us \<and> sorted_wrt (\<lambda>a b. u_amount b \<le> u_amount a) us' \<and>
    (case selectUtxos us target r of
       Inr sel \<Rightarrow> (\<exists>k \<le> length us. sel = take k us' \<and> covers sel target r \<and> (\<forall>j. 0 < j \<and> j < k \<longrightarrow> \<not> covers (take j us') target r)) \<and>
                  (\<exists>hasChange ch fee. deposit_plan sel target r P2TR = Inr (hasChange, ch, fee))
     | Inl e \<Rightarrow> (\<forall>j \<le> length us. 0 < j \<or> us = [] \<longrightarrow> \<not> covers (take j us') target r))"
proof (intro exI [of _ "sort_key (\<lambda>u. - u_amount u) us"] conjI sorted_descending)
  let ?s = "sort_key (\<lambda>u. - u_amount u) us"
  have l: "length ?s = length us" "?s = [] \<longleftrightarrow> us = []" by (simp, metis length_0_conv length_sort)
  have "0 = total_value []" by (simp add: total_value_def)
  from select_loop_spec [OF this, of ?s target r, unfolded append_Nil l]
  show "case selectUtxos us target r of
       Inr sel \<Rightarrow> (\<exists>k \<le> length us. sel = take k ?s \<and> covers sel target r \<and> (\<forall>j. 0 < j \<and> j < k \<longrightarrow> \<not> covers (take j ?s) target r)) \<and>
                  (\<exists>hasChange ch fee. deposit_plan sel target r P2TR = Inr (hasChange, ch, fee))
     | Inl e \<Rightarrow> (\<forall>j \<le> length us. 0 < j \<or> us = [] \<longrightarrow> \<not> covers (take j ?s) target r)"
    unfolding selectUtxos_def [symmetric]
    by (cases "selectUtxos us target r") (use covers_plan [OF _ assms] in auto)
qed simp

text \<open>
  The selection always counts Taproot inputs: with five outputs of a P2WPKH wallet worth 1000 satoshis each it accepts a deposit of 4538
  satoshis at one satoshi per byte, which the construction then refuses.
\<close>

theorem segwit_selection_short:
  "let us = replicate 5 \<lparr> u_txid = [], u_vout = 0, u_amount = 1000, u_scriptPubkeyHex = [] \<rparr> in
   selectUtxos us 4538 1 = Inr us \<and> (\<exists>e. deposit_plan us 4538 1 P2WPKH = Inl e)"
  by (simp add: selectUtxos_def deposit_plan_def estimateDepositFee_def total_value_def P2TR_INPUT_VBYTES_def P2WPKH_INPUT_VBYTES_def
     P2TR_OUTPUT_VBYTES_def OP_RETURN_OUTPUT_VBYTES_def TX_OVERHEAD_VBYTES_def numeral_eq_Suc Let_def)


section \<open>Witnesses\<close>

definition sample_scure :: scure where
  "sample_scure = \<lparr> hex_decode = (\<lambda>_. Inr (0x51 # 0x20 # replicate 32 7)), address_script = (\<lambda>_ _. Inr (0x51 # 0x20 # replicate 32 9)),
     to_psbt = (\<lambda>_ _. Inr []) \<rparr>"

definition sample_utxo :: UtxoDescriptor where
  "sample_utxo = \<lparr> u_txid = ''ab'', u_vout = 1, u_amount = 10000, u_scriptPubkeyHex = [] \<rparr>"

definition sample_psbt_params :: BuildDepositPsbtParams where
  "sample_psbt_params = \<lparr> bp_senderUtxos = [sample_utxo], bp_depositAddress = ''tb1p'', bp_depositAmountSats = 5000,
     bp_opReturnPayload = replicate 64 3, bp_changeAddress = ''tb1q'', bp_feeRate = 2, bp_network = TestNet \<rparr>"

lemmas fee_constants = estimateDepositFee_def P2TR_INPUT_VBYTES_def P2WPKH_INPUT_VBYTES_def P2TR_OUTPUT_VBYTES_def
  OP_RETURN_OUTPUT_VBYTES_def TX_OVERHEAD_VBYTES_def DUST_LIMIT_def

lemma sample_psbt:
  "psbt_parts sample_scure sample_psbt_params =
     Inr ([\<lparr> pi_txid = ''ab'', pi_index = 1, pi_script = 0x51 # 0x20 # replicate 32 7, pi_amount = 10000,
              pi_tapInternalKey = Some (replicate 32 7) \<rparr>],
          deposit_outputs 5000 (0x51 # 0x20 # replicate 32 9) (0x6a # 0x40 # replicate 64 3)
            [\<lparr> to_value = 4540, to_script = 0x51 # 0x20 # replicate 32 9 \<rparr>], 460, 10000, 4540)"
  by (simp add: psbt_parts_def sample_psbt_params_def sample_scure_def sample_utxo_def deposit_plan_def total_value_def psbt_input_of_def
      payload_script deposit_outputs_def fee_constants Let_def)


theorem selectUtxos_correct_witness:
  "selectUtxos [sample_utxo] 5000 2 = Inr [sample_utxo] \<and> (\<exists>h ch fee. deposit_plan [sample_utxo] 5000 2 P2TR = Inr (h, ch, fee))"
proof -
  have "selectUtxos [sample_utxo] 5000 2 = Inr [sample_utxo]"
    by (simp add: selectUtxos_def sample_utxo_def fee_constants)
  with selectUtxos_correct [of 2 "[sample_utxo]" 5000] show ?thesis by auto
qed

end
