(* ===== verification/Sui_Indexer.thy ===== *)
theory Sui_Indexer
  imports JsString "HOL-Library.Sublist"
begin

text \<open>
  The indexer of the Sui deployment, \<open>src/chains/sui/indexer/src\<close>: the source that polls the node for the events of the package
  and normalises them, the two stores (in memory, and in a SQLite database), the service that copies a page per call, and the
  routes of the API. The interface \<open>SuiIndexerStore\<close> is a record of operations; its contract is the locale \<open>sui_store\<close>, which both
  stores interpret. The node is an argument (\<open>rpc_ok\<close>: pages of the event log, in order, after a cursor), as is the clock.
\<close>

section \<open>Data\<close>

text \<open>\<open>types.ts\<close>. A JSON value; numbers are kept as their text.\<close>

datatype json = JNull | JBool bool | JNumber string | JString string | JArray "json list" | JObject "(string \<times> json) list"

datatype SuiUtxopiaEventType =
  PoolCreated | PoolPaused | BtcDepositVerified | CommitmentInserted | MerkleRootUpdated | NullifierSpent | RedemptionRequested |
  RedemptionCompleted | IkaSigningApproved | VerifyingKeyRegistered | JoinSplitVerified

record SuiEventCursor =
  sc_checkpoint :: "string option"
  sc_transactionDigest :: string
  sc_eventSequence :: string

record NormalizedSuiUtxopiaEvent =
  ne_type :: SuiUtxopiaEventType
  ne_packageId :: string
  ne_poolObjectId :: string
  ne_cursor :: SuiEventCursor
  ne_payload :: json

record SuiIndexerState =
  si_packageId :: string
  si_lastCursor :: "SuiEventCursor option"

record SuiIndexerConfig =
  ic_packageId :: string
  ic_poolObjectId :: string
  ic_pageLimit :: "nat option"

text \<open>The event and the page of the node, as the client library returns them.\<close>

record SuiEvent =
  ev_type :: string
  ev_packageId :: string
  ev_txDigest :: string
  ev_eventSeq :: string
  ev_parsedJson :: json

record event_page =
  pg_data :: "SuiEvent list"
  pg_nextCursor :: "(string \<times> string) option"
  pg_hasNextPage :: bool

type_synonym sui_rpc = "(string \<times> string) option \<Rightarrow> nat \<Rightarrow> event_page result"

section \<open>The event source\<close>

text \<open>\<open>split(sep)\<close> for a non-empty separator.\<close>

function js_split :: "string \<Rightarrow> string \<Rightarrow> string \<Rightarrow> string list" where
  "js_split sep acc [] = [rev acc]"
| "js_split sep acc (c # cs) =
     (if sep \<noteq> [] \<and> take (length sep) (c # cs) = sep then rev acc # js_split sep [] (drop (length sep) (c # cs))
      else js_split sep (c # acc) cs)"
  by pat_completeness auto
termination by (relation "measure (\<lambda>(sep, acc, s). length s)") (auto simp: neq_Nil_conv)

definition KNOWN_EVENT_TYPES :: "(string \<times> SuiUtxopiaEventType) list" where
  "KNOWN_EVENT_TYPES =
     [(''PoolCreated'', PoolCreated), (''PoolPaused'', PoolPaused), (''BtcDepositVerified'', BtcDepositVerified),
      (''CommitmentInserted'', CommitmentInserted), (''MerkleRootUpdated'', MerkleRootUpdated), (''NullifierSpent'', NullifierSpent),
      (''RedemptionRequested'', RedemptionRequested), (''RedemptionCompleted'', RedemptionCompleted),
      (''IkaSigningApproved'', IkaSigningApproved), (''VerifyingKeyRegistered'', VerifyingKeyRegistered),
      (''JoinSplitVerified'', JoinSplitVerified)]"

fun event_payload :: "json \<Rightarrow> json" where
  "event_payload (JObject fs) = JObject fs"
| "event_payload v = JObject [(''value'', v)]"

definition normalize :: "SuiIndexerConfig \<Rightarrow> SuiEvent \<Rightarrow> NormalizedSuiUtxopiaEvent option" where
  "normalize cfg event =
     map_option (\<lambda>t. \<lparr> ne_type = t, ne_packageId = ev_packageId event, ne_poolObjectId = ic_poolObjectId cfg,
         ne_cursor = \<lparr> sc_checkpoint = None, sc_transactionDigest = ev_txDigest event, sc_eventSequence = ev_eventSeq event \<rparr>,
         ne_payload = event_payload (ev_parsedJson event) \<rparr>)
       (map_of KNOWN_EVENT_TYPES (last (js_split ''::'' [] (ev_type event))))"

record polled =
  po_events :: "NormalizedSuiUtxopiaEvent list"
  po_nextCursor :: "SuiEventCursor option"
  po_hasNextPage :: bool

definition page_limit :: "SuiIndexerConfig \<Rightarrow> nat" where
  "page_limit cfg = (case ic_pageLimit cfg of None \<Rightarrow> 50 | Some n \<Rightarrow> n)"

definition poll :: "SuiIndexerConfig \<Rightarrow> sui_rpc \<Rightarrow> SuiEventCursor option \<Rightarrow> polled result" where
  "poll cfg queryEvents cursor =
     js_bind (queryEvents (map_option (\<lambda>c. (sc_transactionDigest c, sc_eventSequence c)) cursor) (page_limit cfg)) (\<lambda>page.
       Inr \<lparr> po_events = List.map_filter (normalize cfg) (pg_data page),
             po_nextCursor = map_option (\<lambda>(d, q). \<lparr> sc_checkpoint = None, sc_transactionDigest = d, sc_eventSequence = q \<rparr>)
               (pg_nextCursor page),
             po_hasNextPage = pg_hasNextPage page \<rparr>)"

section \<open>Stores\<close>

record 's SuiIndexerStore =
  getState :: "'s \<Rightarrow> string \<Rightarrow> SuiIndexerState option"
  saveState :: "int \<Rightarrow> SuiIndexerState \<Rightarrow> 's \<Rightarrow> 's"
  saveEvents :: "int \<Rightarrow> NormalizedSuiUtxopiaEvent list \<Rightarrow> 's \<Rightarrow> 's"
  getEventsAfter :: "'s \<Rightarrow> SuiEventCursor option \<Rightarrow> NormalizedSuiUtxopiaEvent list"

definition sameCursor :: "SuiEventCursor \<Rightarrow> SuiEventCursor \<Rightarrow> bool" where
  "sameCursor a b \<longleftrightarrow> sc_transactionDigest a = sc_transactionDigest b \<and> sc_eventSequence a = sc_eventSequence b"

fun js_findIndex :: "('a \<Rightarrow> bool) \<Rightarrow> 'a list \<Rightarrow> nat option" where
  "js_findIndex p [] = None"
| "js_findIndex p (x # xs) = (if p x then Some 0 else map_option Suc (js_findIndex p xs))"

subsection \<open>In memory\<close>

record mem_store =
  ms_states :: "string \<rightharpoonup> SuiIndexerState"
  ms_events :: "NormalizedSuiUtxopiaEvent list"

definition mem_getEventsAfter :: "mem_store \<Rightarrow> SuiEventCursor option \<Rightarrow> NormalizedSuiUtxopiaEvent list" where
  "mem_getEventsAfter s cursor =
     (case cursor of
        None \<Rightarrow> ms_events s
      | Some c \<Rightarrow>
          (case js_findIndex (\<lambda>event. sameCursor (ne_cursor event) c) (ms_events s) of
             None \<Rightarrow> ms_events s
           | Some index \<Rightarrow> drop (index + 1) (ms_events s)))"

definition InMemorySuiIndexerStore :: "mem_store SuiIndexerStore" where
  "InMemorySuiIndexerStore =
     \<lparr> getState = ms_states,
       saveState = (\<lambda>now state s. s\<lparr> ms_states := (ms_states s)(si_packageId state \<mapsto> state) \<rparr>),
       saveEvents = (\<lambda>now events s. s\<lparr> ms_events := ms_events s @ events \<rparr>),
       getEventsAfter = mem_getEventsAfter \<rparr>"

subsection \<open>In a database\<close>

text \<open>
  A row of each table; the events are in the order of their row identifiers, and the primary key is the pair of digest and
  sequence number. The text column of the payload holds a text that \<open>JSON.stringify\<close> made, which denotes one value.
\<close>

datatype json_text = JSON_stringify json

primrec JSON_parse :: "json_text \<Rightarrow> json" where
  "JSON_parse (JSON_stringify v) = v"

record state_row =
  last_tx_digest :: "string option"
  last_event_seq :: "string option"
  updated_at :: int

record event_row =
  tx_digest :: string
  event_seq :: string
  row_checkpoint :: "string option"
  event_type :: SuiUtxopiaEventType
  package_id :: string
  pool_object_id :: string
  payload_json :: json_text
  created_at :: int

record sqlite_db =
  sui_indexer_state :: "string \<rightharpoonup> state_row"
  sui_utxopia_events :: "event_row list"

definition sq_getState :: "sqlite_db \<Rightarrow> string \<Rightarrow> SuiIndexerState option" where
  "sq_getState db packageId =
     (case sui_indexer_state db packageId of
        None \<Rightarrow> None
      | Some row \<Rightarrow>
          (case (last_tx_digest row, last_event_seq row) of
             (Some d, Some q) \<Rightarrow>
               if d = [] \<or> q = [] then None
               else Some \<lparr> si_packageId = packageId,
                      si_lastCursor = Some \<lparr> sc_checkpoint = None, sc_transactionDigest = d, sc_eventSequence = q \<rparr> \<rparr>
           | _ \<Rightarrow> None))"

definition sq_saveState :: "int \<Rightarrow> SuiIndexerState \<Rightarrow> sqlite_db \<Rightarrow> sqlite_db" where
  "sq_saveState now state db =
     db\<lparr> sui_indexer_state := (sui_indexer_state db)(si_packageId state \<mapsto>
       \<lparr> last_tx_digest = map_option sc_transactionDigest (si_lastCursor state),
         last_event_seq = map_option sc_eventSequence (si_lastCursor state), updated_at = now \<rparr>) \<rparr>"

definition event_to_row :: "int \<Rightarrow> NormalizedSuiUtxopiaEvent \<Rightarrow> event_row" where
  "event_to_row now event =
     \<lparr> tx_digest = sc_transactionDigest (ne_cursor event), event_seq = sc_eventSequence (ne_cursor event),
       row_checkpoint = sc_checkpoint (ne_cursor event), event_type = ne_type event, package_id = ne_packageId event,
       pool_object_id = ne_poolObjectId event, payload_json = JSON_stringify (ne_payload event), created_at = now \<rparr>"

definition row_to_event :: "event_row \<Rightarrow> NormalizedSuiUtxopiaEvent" where
  "row_to_event row =
     \<lparr> ne_type = event_type row, ne_packageId = package_id row, ne_poolObjectId = pool_object_id row,
       ne_cursor = \<lparr> sc_checkpoint = row_checkpoint row, sc_transactionDigest = tx_digest row, sc_eventSequence = event_seq row \<rparr>,
       ne_payload = JSON_parse (payload_json row) \<rparr>"

definition insert_or_ignore :: "event_row \<Rightarrow> event_row list \<Rightarrow> event_row list" where
  "insert_or_ignore row rows =
     (if list_ex (\<lambda>r. tx_digest r = tx_digest row \<and> event_seq r = event_seq row) rows then rows else rows @ [row])"

definition sq_saveEvents :: "int \<Rightarrow> NormalizedSuiUtxopiaEvent list \<Rightarrow> sqlite_db \<Rightarrow> sqlite_db" where
  "sq_saveEvents now events db =
     db\<lparr> sui_utxopia_events := fold (\<lambda>event. insert_or_ignore (event_to_row now event)) events (sui_utxopia_events db) \<rparr>"

definition sq_getEventsAfter :: "sqlite_db \<Rightarrow> SuiEventCursor option \<Rightarrow> NormalizedSuiUtxopiaEvent list" where
  "sq_getEventsAfter db cursor =
     (let rows = sui_utxopia_events db;
          start = (case cursor of
              None \<Rightarrow> 0
            | Some c \<Rightarrow>
                (case js_findIndex (\<lambda>row. tx_digest row = sc_transactionDigest c \<and> event_seq row = sc_eventSequence c) rows of
                   None \<Rightarrow> 0
                 | Some index \<Rightarrow> index + 1)) in
      map row_to_event (drop start rows))"

definition SqliteSuiIndexerStore :: "sqlite_db SuiIndexerStore" where
  "SqliteSuiIndexerStore =
     \<lparr> getState = sq_getState, saveState = sq_saveState, saveEvents = sq_saveEvents, getEventsAfter = sq_getEventsAfter \<rparr>"

section \<open>Service and API\<close>

definition syncOnce :: "'s SuiIndexerStore \<Rightarrow> SuiIndexerConfig \<Rightarrow> sui_rpc \<Rightarrow> int \<Rightarrow> 's \<Rightarrow> ('s \<times> nat) result" where
  "syncOnce store cfg rpc now s =
     (let state = getState store s (ic_packageId cfg) in
      js_bind (poll cfg rpc (case state of None \<Rightarrow> None | Some st \<Rightarrow> si_lastCursor st)) (\<lambda>page.
        let s1 = saveEvents store now (po_events page) s;
            s2 = (case po_nextCursor page of
                    None \<Rightarrow> s1
                  | Some c \<Rightarrow> saveState store now \<lparr> si_packageId = ic_packageId cfg, si_lastCursor = Some c \<rparr> s1) in
        Inr (s2, length (po_events page))))"

datatype api_body =
    Health string
  | State "SuiIndexerState"
  | Empty_state string
  | Events "NormalizedSuiUtxopiaEvent list"
  | Not_found

definition cursorFromUrl :: "(string \<rightharpoonup> string) \<Rightarrow> SuiEventCursor option" where
  "cursorFromUrl searchParams =
     (case (searchParams ''txDigest'', searchParams ''eventSeq'') of
        (Some d, Some q) \<Rightarrow>
          if d = [] \<or> q = [] then None else Some \<lparr> sc_checkpoint = None, sc_transactionDigest = d, sc_eventSequence = q \<rparr>
      | _ \<Rightarrow> None)"

definition createSuiIndexerApi :: "string \<Rightarrow> 's SuiIndexerStore \<Rightarrow> 's \<Rightarrow> string \<Rightarrow> (string \<rightharpoonup> string) \<Rightarrow> nat \<times> api_body" where
  "createSuiIndexerApi packageId store s pathname searchParams =
     (if pathname = ''/health'' then (200, Health packageId)
      else if pathname = ''/state'' then
        (200, case getState store s packageId of None \<Rightarrow> Empty_state packageId | Some st \<Rightarrow> State st)
      else if pathname = ''/events'' then (200, Events (getEventsAfter store s (cursorFromUrl searchParams)))
      else (404, Not_found))"


section \<open>The contract of a store\<close>

definition event_key :: "NormalizedSuiUtxopiaEvent \<Rightarrow> string \<times> string" where
  "event_key e = (sc_transactionDigest (ne_cursor e), sc_eventSequence (ne_cursor e))"

definition after_key :: "string \<times> string \<Rightarrow> NormalizedSuiUtxopiaEvent list \<Rightarrow> NormalizedSuiUtxopiaEvent list" where
  "after_key k es = (case js_findIndex (\<lambda>e. event_key e = k) es of None \<Rightarrow> es | Some i \<Rightarrow> drop (Suc i) es)"

definition cursor_at :: "string \<times> string \<Rightarrow> SuiEventCursor" where
  "cursor_at k = \<lparr> sc_checkpoint = None, sc_transactionDigest = fst k, sc_eventSequence = snd k \<rparr>"

fun add_new :: "NormalizedSuiUtxopiaEvent list \<Rightarrow> NormalizedSuiUtxopiaEvent list \<Rightarrow> NormalizedSuiUtxopiaEvent list" where
  "add_new old [] = old"
| "add_new old (e # es) = add_new (if event_key e \<in> event_key ` set old then old else old @ [e]) es"

text \<open>
  What the service and the API rely on: a saved cursor is read back, events and state do not disturb each other, new events are
  appended, and a cursor selects what follows its event. A store may moreover ignore events that it has.
\<close>

locale sui_store =
  fixes store :: "'s SuiIndexerStore"
  assumes state_saved: "fst k \<noteq> [] \<Longrightarrow> snd k \<noteq> [] \<Longrightarrow>
      getState store (saveState store now \<lparr> si_packageId = p, si_lastCursor = Some (cursor_at k) \<rparr> s) q =
        (if q = p then Some \<lparr> si_packageId = p, si_lastCursor = Some (cursor_at k) \<rparr> else getState store s q)"
    and events_of_state: "getEventsAfter store (saveState store now st s) oc = getEventsAfter store s oc"
    and state_of_events: "getState store (saveEvents store now es s) q = getState store s q"
    and events_saved: "distinct (map event_key (getEventsAfter store s None @ es)) \<Longrightarrow>
      getEventsAfter store (saveEvents store now es s) None = getEventsAfter store s None @ es"
    and events_after: "getEventsAfter store s (Some c) =
      after_key (sc_transactionDigest c, sc_eventSequence c) (getEventsAfter store s None)"

locale idempotent_store = sui_store +
  assumes events_added: "getEventsAfter store (saveEvents store now es s) None = add_new (getEventsAfter store s None) es"

lemma findIndex_map: "js_findIndex p (map f xs) = js_findIndex (\<lambda>x. p (f x)) xs"
  by (induction xs) simp_all

interpretation mem: sui_store InMemorySuiIndexerStore
  by unfold_locales
    (auto simp: InMemorySuiIndexerStore_def mem_getEventsAfter_def after_key_def event_key_def sameCursor_def split: option.splits)

lemma row_event [simp]: "row_to_event (event_to_row now e) = e"
  by (simp add: row_to_event_def event_to_row_def)

lemma row_key: "(tx_digest r = d \<and> event_seq r = q) \<longleftrightarrow> event_key (row_to_event r) = (d, q)"
  by (auto simp: row_to_event_def event_key_def)

lemma insert_row:
  "map row_to_event (insert_or_ignore (event_to_row now e) rows) =
     (if event_key e \<in> event_key ` set (map row_to_event rows) then map row_to_event rows else map row_to_event rows @ [e])"
proof -
  have "tx_digest (event_to_row now e) = fst (event_key e)" "event_seq (event_to_row now e) = snd (event_key e)"
    by (simp_all add: event_to_row_def event_key_def)
  then show ?thesis unfolding insert_or_ignore_def list_ex_iff row_key by (force simp: image_image)
qed

lemma saved_rows:
  "map row_to_event (fold (\<lambda>event. insert_or_ignore (event_to_row now event)) es rows) = add_new (map row_to_event rows) es"
proof (induction es arbitrary: rows)
  case (Cons e es)
  show ?case unfolding fold.simps comp_def Cons.IH add_new.simps insert_row ..
qed simp

lemma add_new_fresh: "distinct (map event_key (old @ es)) \<Longrightarrow> add_new old es = old @ es"
proof (induction es arbitrary: old)
  case (Cons e es)
  then have "event_key e \<notin> event_key ` set old" by auto
  with Cons.IH [of "old @ [e]"] Cons.prems show ?case by simp
qed simp

lemma add_new_append: "add_new old (es @ fs) = add_new (add_new old es) fs"
  by (induction es arbitrary: old) simp_all

lemma add_new_known: "event_key ` set es \<subseteq> event_key ` set old \<Longrightarrow> add_new old es = old"
  by (induction es) auto

interpretation sqlite: idempotent_store SqliteSuiIndexerStore
proof unfold_locales
  fix db :: sqlite_db and now es c
  show "getEventsAfter SqliteSuiIndexerStore (saveEvents SqliteSuiIndexerStore now es db) None =
      add_new (getEventsAfter SqliteSuiIndexerStore db None) es"
    by (simp add: SqliteSuiIndexerStore_def sq_getEventsAfter_def sq_saveEvents_def saved_rows)
  then show "distinct (map event_key (getEventsAfter SqliteSuiIndexerStore db None @ es)) \<Longrightarrow>
      getEventsAfter SqliteSuiIndexerStore (saveEvents SqliteSuiIndexerStore now es db) None =
        getEventsAfter SqliteSuiIndexerStore db None @ es" by (simp only: add_new_fresh)
  show "getEventsAfter SqliteSuiIndexerStore db (Some c) =
      after_key (sc_transactionDigest c, sc_eventSequence c) (getEventsAfter SqliteSuiIndexerStore db None)"
    by (simp add: SqliteSuiIndexerStore_def sq_getEventsAfter_def after_key_def findIndex_map row_key drop_map split: option.split)
qed (auto simp: SqliteSuiIndexerStore_def sq_getEventsAfter_def sq_saveState_def sq_getState_def sq_saveEvents_def cursor_at_def)

section \<open>The node and the histories of the indexer\<close>

definition sui_id :: "SuiEvent \<Rightarrow> string \<times> string" where
  "sui_id e = (ev_txDigest e, ev_eventSeq e)"

definition chain_ok :: "SuiEvent list \<Rightarrow> bool" where
  "chain_ok chain \<longleftrightarrow> distinct (map sui_id chain) \<and> (\<forall>e \<in> set chain. ev_txDigest e \<noteq> [] \<and> ev_eventSeq e \<noteq> [])"

text \<open>A page starts after the cursor, and its next cursor is its last event; an empty page repeats the cursor or has none.\<close>

definition position :: "SuiEvent list \<Rightarrow> (string \<times> string) option \<Rightarrow> nat option" where
  "position chain c = (case c of None \<Rightarrow> Some 0 | Some k \<Rightarrow> map_option Suc (js_findIndex (\<lambda>e. sui_id e = k) chain))"

definition rpc_ok :: "sui_rpc \<Rightarrow> SuiEvent list \<Rightarrow> bool" where
  "rpc_ok rpc chain \<longleftrightarrow> (\<forall>c limit p. position chain c = Some p \<longrightarrow>
     (\<exists>page. rpc c limit = Inr page \<and> pg_data page = take limit (drop p chain) \<and>
        (if pg_data page = [] then pg_nextCursor page = None \<or> pg_nextCursor page = c
         else pg_nextCursor page = Some (sui_id (last (pg_data page))))))"

definition normalized :: "SuiIndexerConfig \<Rightarrow> SuiEvent list \<Rightarrow> NormalizedSuiUtxopiaEvent list" where
  "normalized cfg chain = List.map_filter (normalize cfg) chain"

definition cursor_after :: "SuiEvent list \<Rightarrow> nat \<Rightarrow> SuiEventCursor option" where
  "cursor_after chain k = (if k = 0 then None else Some (cursor_at (sui_id (chain ! (k - 1)))))"

definition last_cursor :: "'s SuiIndexerStore \<Rightarrow> SuiIndexerConfig \<Rightarrow> 's \<Rightarrow> SuiEventCursor option" where
  "last_cursor store cfg s = (case getState store s (ic_packageId cfg) of None \<Rightarrow> None | Some st \<Rightarrow> si_lastCursor st)"

text \<open>
  A history: the event log of the package grows, and the indexer synchronises; a synchronisation may also stop between its two
  writes, which the second argument allows.
\<close>

inductive indexer_history :: "'s SuiIndexerStore \<Rightarrow> SuiIndexerConfig \<Rightarrow> bool \<Rightarrow> SuiEvent list \<Rightarrow> 's \<Rightarrow> bool"
  for store cfg stops where
  start: "getEventsAfter store s None = [] \<Longrightarrow> last_cursor store cfg s = None \<Longrightarrow> indexer_history store cfg stops [] s"
| grow: "indexer_history store cfg stops chain s \<Longrightarrow> chain_ok (chain @ new) \<Longrightarrow> indexer_history store cfg stops (chain @ new) s"
| sync: "indexer_history store cfg stops chain s \<Longrightarrow> rpc_ok rpc chain \<Longrightarrow> syncOnce store cfg rpc now s = Inr (s', n) \<Longrightarrow>
    indexer_history store cfg stops chain s'"
| stop: "indexer_history store cfg stops chain s \<Longrightarrow> stops \<Longrightarrow> rpc_ok rpc chain \<Longrightarrow>
    poll cfg rpc (last_cursor store cfg s) = Inr page \<Longrightarrow>
    indexer_history store cfg stops chain (saveEvents store now (po_events page) s)"

text \<open>The invariant: the cursor is after the first \<open>k\<close> events, the store has the first \<open>m\<close> of them.\<close>

definition indexed_upto :: "'s SuiIndexerStore \<Rightarrow> SuiIndexerConfig \<Rightarrow> SuiEvent list \<Rightarrow> 's \<Rightarrow> nat \<Rightarrow> nat \<Rightarrow> bool" where
  "indexed_upto store cfg chain s k m \<longleftrightarrow> k \<le> m \<and> m \<le> length chain \<and> last_cursor store cfg s = cursor_after chain k \<and>
     getEventsAfter store s None = normalized cfg (take m chain)"

lemma normalized_append: "normalized cfg (xs @ ys) = normalized cfg xs @ normalized cfg ys"
  by (simp add: normalized_def map_filter_def)

lemma normalized_keys: "map event_key (normalized cfg chain) = map sui_id (filter (\<lambda>e. normalize cfg e \<noteq> None) chain)"
  by (induction chain) (auto simp: normalized_def map_filter_def normalize_def event_key_def sui_id_def)

lemma normalized_distinct: "chain_ok chain \<Longrightarrow> distinct (map event_key (normalized cfg chain))"
  unfolding normalized_keys chain_ok_def by (metis distinct_map_filter)

lemma findIndex_distinct:
  "distinct (map f xs) \<Longrightarrow> i < length xs \<Longrightarrow> js_findIndex (\<lambda>x. f x = f (xs ! i)) xs = Some i"
proof (induction xs arbitrary: i)
  case (Cons x xs)
  then show ?case by (cases i) (auto simp: image_iff)
qed simp

lemma position_cursor:
  assumes "chain_ok chain" "k \<le> length chain"
  shows "position chain (map_option (\<lambda>c. (sc_transactionDigest c, sc_eventSequence c)) (cursor_after chain k)) = Some k"
proof (cases k)
  case (Suc j)
  then have "js_findIndex (\<lambda>e. sui_id e = sui_id (chain ! j)) chain = Some j"
    using assms findIndex_distinct [of sui_id chain j] by (simp add: chain_ok_def)
  with Suc show ?thesis by (simp add: position_def cursor_after_def cursor_at_def)
qed (simp add: position_def cursor_after_def)

text \<open>The page the service gets when its cursor is after \<open>k\<close> events.\<close>

lemma polled_page:
  fixes cfg :: SuiIndexerConfig
  assumes "chain_ok chain" "rpc_ok rpc chain" "k \<le> length chain"
  defines "k' \<equiv> min (length chain) (k + page_limit cfg)"
  shows "\<exists>page. poll cfg rpc (cursor_after chain k) = Inr page \<and> po_events page = normalized cfg (take (k' - k) (drop k chain)) \<and>
    (po_nextCursor page = cursor_after chain k' \<or> (po_nextCursor page = None \<and> k' = k)) \<and> k \<le> k' \<and> k' \<le> length chain"
proof -
  let ?c = "map_option (\<lambda>c. (sc_transactionDigest c, sc_eventSequence c)) (cursor_after chain k)"
  have p: "position chain ?c = Some k" using assms(1,3) by (rule position_cursor)
  obtain page where page: "rpc ?c (page_limit cfg) = Inr page" "pg_data page = take (page_limit cfg) (drop k chain)"
    "if pg_data page = [] then pg_nextCursor page = None \<or> pg_nextCursor page = ?c
     else pg_nextCursor page = Some (sui_id (last (pg_data page)))"
    using assms(2) p unfolding rpc_ok_def by blast
  have le: "k \<le> k'" "k' \<le> length chain" using assms(3) by (auto simp: k'_def)
  have data: "pg_data page = take (k' - k) (drop k chain)" using page(2) le by (auto simp: k'_def min_def)
  have "k' = k" if "pg_data page = []" using that data le by auto
  moreover have "last (pg_data page) = chain ! (k' - 1)" "k' \<noteq> 0" if "pg_data page \<noteq> []"
    using that le unfolding data by (simp_all add: last_conv_nth min.absorb2 diff_le_mono) (use le in auto)
  ultimately have nx: "map_option (\<lambda>(d, q). \<lparr> sc_checkpoint = None, sc_transactionDigest = d, sc_eventSequence = q \<rparr>) (pg_nextCursor page) =
      cursor_after chain k' \<or> (pg_nextCursor page = None \<and> k' = k)"
    using page(3) by (cases "pg_data page = []") (auto simp: cursor_after_def cursor_at_def case_prod_beta split: if_split_asm)
  then show ?thesis using page(1) data le by (auto simp: poll_def normalized_def)
qed

lemma take_segment: "k \<le> k' \<Longrightarrow> take k xs @ take (k' - k) (drop k xs) = take k' xs"
  by (metis le_add_diff_inverse take_add)


lemma normalized_mono: "set xs \<subseteq> set ys \<Longrightarrow> event_key ` set (normalized cfg xs) \<subseteq> event_key ` set (normalized cfg ys)"
  by (force simp: normalized_def map_filter_def)

lemma chain_take: "chain_ok chain \<Longrightarrow> chain_ok (take k chain)"
  by (auto simp: chain_ok_def take_map [symmetric] dest: in_set_takeD)

lemma add_new_segment:
  assumes "chain_ok chain" "k \<le> m" "m \<le> length chain" "k \<le> k'" "k' \<le> length chain"
  shows "add_new (normalized cfg (take m chain)) (normalized cfg (take (k' - k) (drop k chain))) = normalized cfg (take (max m k') chain)"
proof (cases "k' \<le> m")
  case True
  have "set (take (k' - k) (drop k chain)) \<subseteq> set (take m chain)"
    using True assms(2,4) take_segment [of k k' chain] by (metis Un_upper2 set_append set_take_subset_set_take order_trans)
  then show ?thesis using True by (simp add: add_new_known normalized_mono max_def)
next
  case False
  have seg: "take (k' - k) (drop k chain) = take (m - k) (drop k chain) @ take (k' - m) (drop m chain)"
    using False assms(2) take_add [of "m - k" "k' - m" "drop k chain"] by simp
  have "set (take (m - k) (drop k chain)) \<subseteq> set (take m chain)"
    using take_segment [OF assms(2), of chain] by (metis Un_upper2 set_append)
  then have "add_new (normalized cfg (take m chain)) (normalized cfg (take (m - k) (drop k chain))) = normalized cfg (take m chain)"
    by (intro add_new_known normalized_mono)
  moreover have "add_new (normalized cfg (take m chain)) (normalized cfg (take (k' - m) (drop m chain))) = normalized cfg (take k' chain)"
    using False normalized_distinct [OF chain_take [OF assms(1)], of cfg k'] take_segment [of m k' chain]
    by (subst add_new_fresh) (simp_all flip: normalized_append)
  ultimately show ?thesis using False by (simp add: seg normalized_append add_new_append max_def)
qed

section \<open>Lemmas of every store\<close>

context sui_store
begin

lemma cursor_of_events: "last_cursor store cfg (saveEvents store now es s) = last_cursor store cfg s"
  by (simp add: last_cursor_def state_of_events)

lemma sync_result:
  fixes cfg :: SuiIndexerConfig
  assumes "chain_ok chain" "rpc_ok rpc chain" "k \<le> length chain" "last_cursor store cfg s = cursor_after chain k"
  defines "k' \<equiv> min (length chain) (k + page_limit cfg)"
  shows "\<exists>s' n. syncOnce store cfg rpc now s = Inr (s', n) \<and> last_cursor store cfg s' = cursor_after chain k' \<and>
    getEventsAfter store s' None = getEventsAfter store (saveEvents store now (normalized cfg (take (k' - k) (drop k chain))) s) None"
proof -
  obtain page where page: "poll cfg rpc (cursor_after chain k) = Inr page" "po_events page = normalized cfg (take (k' - k) (drop k chain))"
    "po_nextCursor page = cursor_after chain k' \<or> (po_nextCursor page = None \<and> k' = k)" "k' \<le> length chain"
    using polled_page [OF assms(1-3), of cfg] unfolding k'_def by blast
  let ?s1 = "saveEvents store now (po_events page) s"
  have poll: "poll cfg rpc (case getState store s (ic_packageId cfg) of None \<Rightarrow> None | Some st \<Rightarrow> si_lastCursor st) = Inr page"
    using page(1) assms(4) by (simp add: last_cursor_def)
  show ?thesis
  proof (cases "po_nextCursor page")
    case None
    with page(3) have "k' = 0 \<or> k' = k" by (auto simp: cursor_after_def split: if_split_asm)
    then have "cursor_after chain k' = cursor_after chain k" using k'_def assms(3) by (auto simp: min_def split: if_split_asm)
    then show ?thesis using None poll assms(4) page(2) by (simp add: syncOnce_def cursor_of_events)
  next
    case (Some c)
    with page(3) have c: "cursor_after chain k' = Some c" by auto
    then have j: "c = cursor_at (sui_id (chain ! (k' - 1)))" "k' \<noteq> 0" by (auto simp: cursor_after_def split: if_split_asm)
    then have "chain ! (k' - 1) \<in> set chain" using page(4) by simp
    then have "fst (sui_id (chain ! (k' - 1))) \<noteq> []" "snd (sui_id (chain ! (k' - 1))) \<noteq> []"
      using assms(1) by (auto simp: chain_ok_def sui_id_def)
    then show ?thesis using Some poll c page(2) unfolding j(1)
      by (simp add: syncOnce_def last_cursor_def state_saved events_of_state)
  qed
qed

lemma sync_follows:
  assumes "chain_ok chain" "rpc_ok rpc chain" "indexed_upto store cfg chain s k k"
  shows "\<exists>s' n. syncOnce store cfg rpc now s = Inr (s', n) \<and>
    indexed_upto store cfg chain s' (min (length chain) (k + page_limit cfg)) (min (length chain) (k + page_limit cfg))"
proof -
  let ?k = "min (length chain) (k + page_limit cfg)"
  have f: "k \<le> length chain" "last_cursor store cfg s = cursor_after chain k" "getEventsAfter store s None = normalized cfg (take k chain)"
    using assms(3) by (auto simp: indexed_upto_def)
  have e: "normalized cfg (take k chain) @ normalized cfg (take (?k - k) (drop k chain)) = normalized cfg (take ?k chain)"
    using f(1) take_segment [of k ?k chain] by (simp flip: normalized_append)
  have "distinct (map event_key (getEventsAfter store s None @ normalized cfg (take (?k - k) (drop k chain))))"
    unfolding f(3) e by (rule normalized_distinct [OF chain_take [OF assms(1)]])
  from events_saved [OF this] have "getEventsAfter store (saveEvents store now (normalized cfg (take (?k - k) (drop k chain))) s) None =
      normalized cfg (take ?k chain)" for now unfolding f(3) e .
  then show ?thesis using sync_result [OF assms(1,2) f(1,2)] by (simp add: indexed_upto_def)
qed

lemma history_chain: "indexer_history store cfg stops chain s \<Longrightarrow> chain_ok chain"
  by (induction rule: indexer_history.induct) (auto simp: chain_ok_def)

lemma indexed_upto_grow: "indexed_upto store cfg chain s k m \<Longrightarrow> indexed_upto store cfg (chain @ new) s k m"
  by (auto simp: indexed_upto_def cursor_after_def nth_append)

lemma indexed_upto_start: "getEventsAfter store s None = [] \<Longrightarrow> last_cursor store cfg s = None \<Longrightarrow> indexed_upto store cfg [] s 0 0"
  by (simp add: indexed_upto_def cursor_after_def normalized_def map_filter_def)

lemma history_follows: "indexer_history store cfg False chain s \<Longrightarrow> \<exists>k. indexed_upto store cfg chain s k k"
proof (induction rule: indexer_history.induct)
  case (sync chain s rpc now s' n)
  then obtain k where "indexed_upto store cfg chain s k k" by blast
  from sync_follows [OF history_chain [OF sync.hyps(1)] sync.hyps(2) this, of now] sync.hyps(3) show ?case by auto
qed (use indexed_upto_start indexed_upto_grow in blast)+

lemma after_event:
  assumes "getEventsAfter store s None = es @ e # fs" "distinct (map event_key (es @ e # fs))"
  shows "getEventsAfter store s (Some (ne_cursor e)) = fs"
proof -
  have "js_findIndex (\<lambda>x. event_key x = event_key e) (es @ e # fs) = Some (length es)"
    using findIndex_distinct [OF assms(2), of "length es"] by simp
  moreover have "(sc_transactionDigest (ne_cursor e), sc_eventSequence (ne_cursor e)) = event_key e" by (simp add: event_key_def)
  ultimately show ?thesis unfolding events_after assms(1) by (simp add: after_key_def)
qed

lemma indexed_upto_after:
  assumes "indexed_upto store cfg chain s k m" "chain_ok chain" "getEventsAfter store s None = es @ e # fs"
  shows "getEventsAfter store s (Some (ne_cursor e)) = fs"
proof (rule after_event [OF assms(3)])
  have "normalized cfg (take m chain) = es @ e # fs" using assms(1,3) by (simp add: indexed_upto_def)
  then show "distinct (map event_key (es @ e # fs))" using normalized_distinct [OF chain_take [OF assms(2)], of cfg m] by simp
qed

end

context idempotent_store
begin

lemma sync_follows_stopped:
  assumes "chain_ok chain" "rpc_ok rpc chain" "indexed_upto store cfg chain s k m"
  shows "\<exists>s' n. syncOnce store cfg rpc now s = Inr (s', n) \<and>
    indexed_upto store cfg chain s' (min (length chain) (k + page_limit cfg)) (max m (min (length chain) (k + page_limit cfg)))"
proof -
  let ?k = "min (length chain) (k + page_limit cfg)"
  have f: "k \<le> m" "m \<le> length chain" "last_cursor store cfg s = cursor_after chain k" "getEventsAfter store s None = normalized cfg (take m chain)"
    using assms(3) by (auto simp: indexed_upto_def)
  have "getEventsAfter store (saveEvents store now (normalized cfg (take (?k - k) (drop k chain))) s) None = normalized cfg (take (max m ?k) chain)"
    unfolding events_added f(4) using f(1,2) by (intro add_new_segment assms(1)) auto
  moreover obtain s' n where "syncOnce store cfg rpc now s = Inr (s', n)" "last_cursor store cfg s' = cursor_after chain ?k"
    "getEventsAfter store s' None = getEventsAfter store (saveEvents store now (normalized cfg (take (?k - k) (drop k chain))) s) None"
    using sync_result [OF assms(1,2) _ f(3), of now] f(1,2) by auto
  ultimately show ?thesis using f(1,2) by (intro exI [of _ s'] exI [of _ n]) (simp add: indexed_upto_def)
qed

lemma stop_follows:
  assumes "chain_ok chain" "rpc_ok rpc chain" "indexed_upto store cfg chain s k m" "poll cfg rpc (last_cursor store cfg s) = Inr page"
  shows "\<exists>m'. indexed_upto store cfg chain (saveEvents store now (po_events page) s) k m'"
proof -
  let ?k = "min (length chain) (k + page_limit cfg)"
  have f: "k \<le> m" "m \<le> length chain" "last_cursor store cfg s = cursor_after chain k" "getEventsAfter store s None = normalized cfg (take m chain)"
    using assms(3) by (auto simp: indexed_upto_def)
  then have "po_events page = normalized cfg (take (?k - k) (drop k chain))" "k \<le> length chain"
    using polled_page [OF assms(1,2), of k cfg] assms(4) by auto
  then have "getEventsAfter store (saveEvents store now (po_events page) s) None = normalized cfg (take (max m ?k) chain)"
    unfolding events_added f(4) using f(1,2) by (simp add: add_new_segment [OF assms(1)])
  then show ?thesis using f by (intro exI [of _ "max m ?k"]) (auto simp: indexed_upto_def cursor_of_events)
qed

lemma history_follows_stopped: "indexer_history store cfg stops chain s \<Longrightarrow> \<exists>k m. indexed_upto store cfg chain s k m"
proof (induction rule: indexer_history.induct)
  case (sync chain s rpc now s' n)
  then obtain k m where "indexed_upto store cfg chain s k m" by blast
  from sync_follows_stopped [OF history_chain [OF sync.hyps(1)] sync.hyps(2) this, of now] sync.hyps(3) show ?case by auto
next
  case (stop chain s rpc page now)
  then show ?case using stop_follows history_chain by blast
qed (use indexed_upto_start indexed_upto_grow in blast)+

end


section \<open>Properties\<close>

text \<open>
  The timer of \<open>server.ts\<close>: every tick synchronises once, with the node as it is then, and a failure is only logged. A node that is
  down fails every request.
\<close>

definition sync :: "'s SuiIndexerStore \<Rightarrow> SuiIndexerConfig \<Rightarrow> sui_rpc \<Rightarrow> int \<Rightarrow> 's \<Rightarrow> 's" where
  "sync store cfg rpc now s = (case syncOnce store cfg rpc now s of Inl _ \<Rightarrow> s | Inr (s', _) \<Rightarrow> s')"

fun sync_ticks :: "'s SuiIndexerStore \<Rightarrow> SuiIndexerConfig \<Rightarrow> sui_rpc list \<Rightarrow> int \<Rightarrow> 's \<Rightarrow> 's" where
  "sync_ticks store cfg [] now s = s"
| "sync_ticks store cfg (rpc # rpcs) now s = sync_ticks store cfg rpcs now (sync store cfg rpc now s)"

definition rpc_down :: "sui_rpc \<Rightarrow> bool" where
  "rpc_down rpc \<longleftrightarrow> (\<forall>c limit. \<exists>e. rpc c limit = Inl e)"

lemma sync_down: "rpc_down rpc \<Longrightarrow> sync store cfg rpc now s = s"
proof -
  assume "rpc_down rpc"
  then have "\<exists>e. rpc c limit = Inl e" for c limit by (simp add: rpc_down_def)
  then obtain err where "rpc c limit = Inl (err c limit)" for c limit by metis
  then show ?thesis by (simp add: sync_def syncOnce_def poll_def split: option.split)
qed

lemma ok_not_down: "rpc_ok rpc chain \<Longrightarrow> \<not> rpc_down rpc"
proof
  assume "rpc_ok rpc chain" "rpc_down rpc"
  moreover have "position chain None = Some 0" by (simp add: position_def)
  ultimately have "\<exists>page. rpc None 0 = Inr page" "\<exists>e. rpc None 0 = Inl e" unfolding rpc_ok_def rpc_down_def by blast+
  then show False by auto
qed

context sui_store
begin

lemma ticks_follow:
  assumes "chain_ok chain" "\<forall>rpc \<in> set rpcs. rpc_ok rpc chain \<or> rpc_down rpc" "indexed_upto store cfg chain s k k"
    "length chain \<le> k + length (filter (\<lambda>rpc. \<not> rpc_down rpc) rpcs) * page_limit cfg"
  shows "indexed_upto store cfg chain (sync_ticks store cfg rpcs now s) (length chain) (length chain)"
  using assms(2-4)
proof (induction rpcs arbitrary: s k)
  case Nil
  then have "k = length chain" by (simp_all add: indexed_upto_def)
  with Nil show ?case by simp
next
  case (Cons rpc rpcs)
  show ?case
  proof (cases "rpc_down rpc")
    case True
    then show ?thesis using Cons.IH [of s k] Cons.prems by (simp add: sync_down)
  next
    case False
    then obtain s' x where s': "syncOnce store cfg rpc now s = Inr (s', x)"
      "indexed_upto store cfg chain s' (min (length chain) (k + page_limit cfg)) (min (length chain) (k + page_limit cfg))"
      using sync_follows [OF assms(1) _ Cons.prems(2)] Cons.prems(1) by (meson list.set_intros(1))
    from Cons.IH [OF _ s'(2)] Cons.prems(1,3) s'(1) False show ?thesis by (simp add: sync_def min_def split: if_split_asm)
  qed
qed

lemma state_cursor_restarts:
  assumes "indexed_upto store cfg chain s k m" "chain_ok chain" "0 < k" "normalize cfg (chain ! (k - 1)) = None"
  shows "getEventsAfter store s (last_cursor store cfg s) = getEventsAfter store s None"
proof -
  let ?e = "chain ! (k - 1)"
  have f: "k \<le> m" "m \<le> length chain" "last_cursor store cfg s = Some (cursor_at (sui_id ?e))" "getEventsAfter store s None = normalized cfg (take m chain)"
    using assms(1,3) by (auto simp: indexed_upto_def cursor_after_def)
  have "sui_id ?e \<notin> event_key ` set (normalized cfg (take m chain))"
  proof
    assume "sui_id ?e \<in> event_key ` set (normalized cfg (take m chain))"
    then have "sui_id ?e \<in> set (map sui_id (filter (\<lambda>e. normalize cfg e \<noteq> None) (take m chain)))"
      unfolding normalized_keys [symmetric] by simp
    then obtain e where e: "e \<in> set chain" "sui_id e = sui_id ?e" "normalize cfg e \<noteq> None" by (auto dest: in_set_takeD)
    moreover have "?e \<in> set chain" using f(1,2) assms(3) by simp
    ultimately have "e = ?e" using assms(2) by (auto simp: chain_ok_def distinct_map dest: inj_onD)
    with e(3) assms(4) show False by simp
  qed
  moreover have "js_findIndex (\<lambda>x. event_key x = q) xs = None" if "q \<notin> event_key ` set xs" for q xs
    using that by (induction xs) auto
  ultimately show ?thesis unfolding f(3) events_after f(4) by (simp add: after_key_def cursor_at_def)
qed

end

context idempotent_store
begin

lemma ticks_follow_stopped:
  assumes "chain_ok chain" "\<forall>rpc \<in> set rpcs. rpc_ok rpc chain \<or> rpc_down rpc" "indexed_upto store cfg chain s k m"
    "length chain \<le> k + length (filter (\<lambda>rpc. \<not> rpc_down rpc) rpcs) * page_limit cfg"
  shows "indexed_upto store cfg chain (sync_ticks store cfg rpcs now s) (length chain) (length chain)"
  using assms(2-4)
proof (induction rpcs arbitrary: s k m)
  case Nil
  then have "k = length chain" "m = length chain" by (simp_all add: indexed_upto_def)
  with Nil show ?case by simp
next
  case (Cons rpc rpcs)
  show ?case
  proof (cases "rpc_down rpc")
    case True
    then show ?thesis using Cons.IH [of s k m] Cons.prems by (simp add: sync_down)
  next
    case False
    then obtain s' x where s': "syncOnce store cfg rpc now s = Inr (s', x)"
      "indexed_upto store cfg chain s' (min (length chain) (k + page_limit cfg)) (max m (min (length chain) (k + page_limit cfg)))"
      using sync_follows_stopped [OF assms(1) _ Cons.prems(2)] Cons.prems(1) by (meson list.set_intros(1))
    from Cons.IH [OF _ s'(2)] Cons.prems(1,3) s'(1) False show ?thesis by (simp add: sync_def min_def split: if_split_asm)
  qed
qed

end

text \<open>
  (C21) The database is exact in every history, also when synchronisations stop between their two writes: it has the known events of a
  beginning of the log, each once and in order, and the cursor is not beyond them. The API hands out, after the cursor of any
  event it has given, exactly the later ones.
\<close>

theorem sui_index_exact:
  assumes "indexer_history SqliteSuiIndexerStore cfg True chain s"
  shows "(\<exists>k m. k \<le> m \<and> m \<le> length chain \<and> last_cursor SqliteSuiIndexerStore cfg s = cursor_after chain k \<and>
      createSuiIndexerApi p SqliteSuiIndexerStore s ''/events'' Map.empty = (200, Events (normalized cfg (take m chain)))) \<and>
    (\<forall>es e fs. getEventsAfter SqliteSuiIndexerStore s None = es @ e # fs \<longrightarrow>
      createSuiIndexerApi p SqliteSuiIndexerStore s ''/events''
        [''txDigest'' \<mapsto> sc_transactionDigest (ne_cursor e), ''eventSeq'' \<mapsto> sc_eventSequence (ne_cursor e)] = (200, Events fs))"
proof (intro conjI allI impI)
  obtain k m where f: "indexed_upto SqliteSuiIndexerStore cfg chain s k m" using sqlite.history_follows_stopped [OF assms] by blast
  then show "\<exists>k m. k \<le> m \<and> m \<le> length chain \<and> last_cursor SqliteSuiIndexerStore cfg s = cursor_after chain k \<and>
      createSuiIndexerApi p SqliteSuiIndexerStore s ''/events'' Map.empty = (200, Events (normalized cfg (take m chain)))"
    by (auto simp: indexed_upto_def createSuiIndexerApi_def cursorFromUrl_def)
  fix es e fs
  assume e: "getEventsAfter SqliteSuiIndexerStore s None = es @ e # fs"
  note ok = sqlite.history_chain [OF assms]
  have "normalized cfg (take m chain) = es @ e # fs" using f e by (simp add: indexed_upto_def)
  then have "event_key e \<in> set (map event_key (normalized cfg (take m chain)))" by simp
  then obtain x where "x \<in> set chain" "event_key e = sui_id x" unfolding normalized_keys by (auto dest: in_set_takeD)
  then have ne: "sc_transactionDigest (ne_cursor e) \<noteq> []" "sc_eventSequence (ne_cursor e) \<noteq> []"
    using ok by (auto simp: chain_ok_def sui_id_def event_key_def)
  have "getEventsAfter SqliteSuiIndexerStore s (Some (cursor_at (event_key e))) = getEventsAfter SqliteSuiIndexerStore s (Some (ne_cursor e))"
    unfolding sqlite.events_after by (simp add: cursor_at_def event_key_def)
  also have "\<dots> = fs" by (rule sqlite.indexed_upto_after [OF f ok e])
  finally show "createSuiIndexerApi p SqliteSuiIndexerStore s ''/events''
      [''txDigest'' \<mapsto> sc_transactionDigest (ne_cursor e), ''eventSeq'' \<mapsto> sc_eventSequence (ne_cursor e)] = (200, Events fs)"
    using ne by (simp add: createSuiIndexerApi_def cursorFromUrl_def cursor_at_def event_key_def)
qed

text \<open>
  (C23) Both stores catch up: from every state they can be in, and whenever the node was down, as many successful ticks as the log has pages bring them to all
  known events of the log, with the same cursor.
\<close>

theorem sui_index_catches_up:
  assumes "indexer_history SqliteSuiIndexerStore cfg True chain db" "indexer_history InMemorySuiIndexerStore cfg False chain s"
    "\<forall>rpc \<in> set rpcs. rpc_ok rpc chain \<or> rpc_down rpc" "length chain \<le> length (filter (\<lambda>rpc. \<not> rpc_down rpc) rpcs) * page_limit cfg"
    "db' = sync_ticks SqliteSuiIndexerStore cfg rpcs now db" "s' = sync_ticks InMemorySuiIndexerStore cfg rpcs now s"
  shows "getEventsAfter SqliteSuiIndexerStore db' None = normalized cfg chain \<and>
    getEventsAfter InMemorySuiIndexerStore s' None = normalized cfg chain \<and>
    last_cursor SqliteSuiIndexerStore cfg db' = cursor_after chain (length chain) \<and>
    last_cursor InMemorySuiIndexerStore cfg s' = cursor_after chain (length chain)"
proof -
  note ok = sqlite.history_chain [OF assms(1)]
  obtain k m l where "indexed_upto SqliteSuiIndexerStore cfg chain db k m" "indexed_upto InMemorySuiIndexerStore cfg chain s l l"
    using sqlite.history_follows_stopped [OF assms(1)] mem.history_follows [OF assms(2)] by blast
  then have "indexed_upto SqliteSuiIndexerStore cfg chain db' (length chain) (length chain)"
    "indexed_upto InMemorySuiIndexerStore cfg chain s' (length chain) (length chain)"
    unfolding assms(5,6) using sqlite.ticks_follow_stopped [OF ok assms(3)] mem.ticks_follow [OF ok assms(3)] assms(4)
    by (metis trans_le_add2)+
  then show ?thesis by (simp add: indexed_upto_def)
qed

section \<open>Witnesses\<close>

definition sample_sui_event :: "string \<Rightarrow> string \<Rightarrow> SuiEvent" where
  "sample_sui_event kind q = \<lparr> ev_type = ''0x2::events::'' @ kind, ev_packageId = ''0x2'', ev_txDigest = ''D'', ev_eventSeq = q, ev_parsedJson = JNull \<rparr>"

definition sample_rpc :: "SuiEvent list \<Rightarrow> sui_rpc" where
  "sample_rpc chain c limit =
     (case position chain c of
        None \<Rightarrow> Inl (Error ''Could not find the referenced transaction events'')
      | Some p \<Rightarrow>
          (let es = take limit (drop p chain) in
           Inr \<lparr> pg_data = es, pg_nextCursor = (if es = [] then c else Some (sui_id (last es))), pg_hasNextPage = (p + limit < length chain) \<rparr>))"

lemma sample_rpc_ok: "rpc_ok (sample_rpc chain) chain"
  by (auto simp: rpc_ok_def sample_rpc_def Let_def)

definition sample_chain :: "SuiEvent list" where
  "sample_chain = [sample_sui_event ''PoolCreated'' ''0'', sample_sui_event ''CommitmentInserted'' ''1'']"

definition sample_index :: SuiIndexerConfig where
  "sample_index = \<lparr> ic_packageId = ''0x2'', ic_poolObjectId = ''0x5'', ic_pageLimit = Some 1 \<rparr>"

lemma sample_chain_ok: "chain_ok sample_chain"
  by (simp add: chain_ok_def sample_chain_def sample_sui_event_def sui_id_def)

lemma empty_history:
  "indexer_history SqliteSuiIndexerStore sample_index True sample_chain \<lparr> sui_indexer_state = Map.empty, sui_utxopia_events = [] \<rparr>"
  "indexer_history InMemorySuiIndexerStore sample_index False sample_chain \<lparr> ms_states = Map.empty, ms_events = [] \<rparr>"
  using indexer_history.grow [OF indexer_history.start, of SqliteSuiIndexerStore _ sample_index sample_chain True]
    indexer_history.grow [OF indexer_history.start, of InMemorySuiIndexerStore _ sample_index sample_chain False] sample_chain_ok
  by (simp_all add: SqliteSuiIndexerStore_def InMemorySuiIndexerStore_def last_cursor_def sq_getEventsAfter_def sq_getState_def mem_getEventsAfter_def)

theorem sui_index_catches_up_witness:
  "getEventsAfter SqliteSuiIndexerStore
     (sync_ticks SqliteSuiIndexerStore sample_index [sample_rpc sample_chain, \<lambda>_ _. Inl (Error ''fetch failed''), sample_rpc sample_chain] 0
        \<lparr> sui_indexer_state = Map.empty, sui_utxopia_events = [] \<rparr>) None = normalized sample_index sample_chain \<and>
   length (normalized sample_index sample_chain) = 2"
proof
  let ?down = "(\<lambda>_ _. Inl (Error ''fetch failed'')) :: sui_rpc"
  have down: "rpc_down ?down" "\<not> rpc_down (sample_rpc sample_chain)" using ok_not_down [OF sample_rpc_ok] by (simp_all add: rpc_down_def)
  then have n: "length sample_chain \<le> length (filter (\<lambda>rpc. \<not> rpc_down rpc) [sample_rpc sample_chain, ?down, sample_rpc sample_chain]) * page_limit sample_index"
    by (simp add: sample_chain_def sample_index_def page_limit_def)
  have "\<forall>rpc \<in> set [sample_rpc sample_chain, ?down, sample_rpc sample_chain]. rpc_ok rpc sample_chain \<or> rpc_down rpc" using down sample_rpc_ok by simp
  from sui_index_catches_up [OF empty_history this n refl refl, of 0]
  show "getEventsAfter SqliteSuiIndexerStore
     (sync_ticks SqliteSuiIndexerStore sample_index [sample_rpc sample_chain, ?down, sample_rpc sample_chain] 0
        \<lparr> sui_indexer_state = Map.empty, sui_utxopia_events = [] \<rparr>) None = normalized sample_index sample_chain" by blast
  show "length (normalized sample_index sample_chain) = 2"
    by (simp add: normalized_def map_filter_def normalize_def sample_chain_def sample_sui_event_def KNOWN_EVENT_TYPES_def)
qed

theorem sui_index_exact_witness:
  "\<exists>m. createSuiIndexerApi ''0x2'' SqliteSuiIndexerStore \<lparr> sui_indexer_state = Map.empty, sui_utxopia_events = [] \<rparr> ''/events'' Map.empty =
    (200, Events (normalized sample_index (take m sample_chain)))"
  using sui_index_exact [OF empty_history(1)] by blast

end
