(* ===== verification/Join_Split_Shapes.thy ===== *)
theory Join_Split_Shapes
  imports Complex_Main Onchain_Instructions
begin

text \<open>
  The JoinSplit circuits and their names, \<open>src/packages/sdk-core/src/sui-circuits.ts\<close>. Counts are JavaScript numbers, here rational
  numbers, since the functions test for integers. \<open>Number\<close> of a string of digits is its exact value; above \<open>2^53\<close> JavaScript rounds, which only
  changes the text of the error that refuses such an arity.
\<close>

definition SUI_GROTH16_MAX_PUBLIC_INPUTS :: int where "SUI_GROTH16_MAX_PUBLIC_INPUTS = 8"
definition SOLANA_GROTH16_MAX_PUBLIC_INPUTS :: int where "SOLANA_GROTH16_MAX_PUBLIC_INPUTS = 16"
definition JOINSPLIT_MAX_TOTAL_ARITY :: int where "JOINSPLIT_MAX_TOTAL_ARITY = 14"
definition JOINSPLIT_PUBLIC_INPUT_PREFIX :: "string list" where "JOINSPLIT_PUBLIC_INPUT_PREFIX = [''merkleRoot'', ''boundParamsHash'']"

record JoinSplitCircuitShape =
  js_name :: string
  js_nInputs :: int
  js_nOutputs :: int
  js_nPublic :: int
  js_publicInputs :: "string list"

definition isInteger :: "rat \<Rightarrow> bool" where
  "isInteger x \<longleftrightarrow> of_int \<lfloor>x\<rfloor> = x"

definition assertJoinSplitArity :: "rat \<Rightarrow> rat \<Rightarrow> (int \<times> int) result" where
  "assertJoinSplitArity nInputs nOutputs =
     (if \<not> isInteger nInputs \<or> \<not> isInteger nOutputs then Inl (Error ''JoinSplit arity must use integer input/output counts'')
      else
        (let n = \<lfloor>nInputs\<rfloor>; m = \<lfloor>nOutputs\<rfloor> in
         if n < 1 \<or> m < 1 \<or> n + m > JOINSPLIT_MAX_TOTAL_ARITY
         then Inl (Error (''Unsupported JoinSplit arity '' @ js_toString 10 n @ ''x'' @ js_toString 10 m @
                ''; expected nInputs >= 1, nOutputs >= 1, and nInputs + nOutputs <= '' @ js_toString 10 JOINSPLIT_MAX_TOTAL_ARITY))
         else Inr (n, m)))"

definition joinSplitPublicInputCount :: "int \<Rightarrow> int \<Rightarrow> int" where
  "joinSplitPublicInputCount nInputs nOutputs = 2 + nInputs + nOutputs"

definition joinSplitCircuitName :: "rat \<Rightarrow> rat \<Rightarrow> string result" where
  "joinSplitCircuitName nInputs nOutputs =
     js_bind (assertJoinSplitArity nInputs nOutputs) (\<lambda>(n, m). Inr (''joinsplit_'' @ js_toString 10 n @ ''x'' @ js_toString 10 m))"

definition joinSplitPublicInputLabels :: "rat \<Rightarrow> rat \<Rightarrow> string list result" where
  "joinSplitPublicInputLabels nInputs nOutputs =
     js_bind (assertJoinSplitArity nInputs nOutputs) (\<lambda>(n, m).
       Inr (JOINSPLIT_PUBLIC_INPUT_PREFIX @
            map (\<lambda>index. ''nullifiers['' @ js_toString 10 (int index) @ '']'') [0..<nat n] @
            map (\<lambda>index. ''commitmentsOut['' @ js_toString 10 (int index) @ '']'') [0..<nat m]))"

definition joinSplitShape :: "rat \<Rightarrow> rat \<Rightarrow> JoinSplitCircuitShape result" where
  "joinSplitShape nInputs nOutputs =
     js_bind (assertJoinSplitArity nInputs nOutputs) (\<lambda>(n, m).
     js_bind (joinSplitPublicInputLabels nInputs nOutputs) (\<lambda>labels.
       Inr \<lparr> js_name = ''joinsplit_'' @ js_toString 10 n @ ''x'' @ js_toString 10 m, js_nInputs = n, js_nOutputs = m,
             js_nPublic = joinSplitPublicInputCount n m, js_publicInputs = labels \<rparr>))"

text \<open>The regular expression: the prefix, digits, an \<open>x\<close>, digits.\<close>

definition is_digit :: "char \<Rightarrow> bool" where
  "is_digit c \<longleftrightarrow> 48 \<le> (of_char c :: nat) \<and> (of_char c :: nat) \<le> 57"

definition match_name :: "string \<Rightarrow> (string \<times> string) option" where
  "match_name name =
     (if take 10 name \<noteq> ''joinsplit_'' then None
      else
        (let r = drop 10 name; a = takeWhile is_digit r; r' = drop (length a) r in
         if a = [] \<or> r' = [] \<or> hd r' \<noteq> CHR ''x'' then None
         else (let b = drop 1 r' in if b = [] \<or> \<not> list_all is_digit b then None else Some (a, b))))"

definition parseJoinSplitCircuitName :: "string \<Rightarrow> JoinSplitCircuitShape result" where
  "parseJoinSplitCircuitName name =
     (case match_name name of
        None \<Rightarrow> Inl (Error (''Invalid JoinSplit circuit name: '' @ name))
      | Some (a, b) \<Rightarrow> joinSplitShape (of_nat (the (parse_digits 10 0 a))) (of_nat (the (parse_digits 10 0 b))))"

definition isSuiGroth16Compatible :: "JoinSplitCircuitShape \<Rightarrow> bool" where
  "isSuiGroth16Compatible shape \<longleftrightarrow> js_nPublic shape \<le> SUI_GROTH16_MAX_PUBLIC_INPUTS"

definition assertSuiGroth16Compatible :: "JoinSplitCircuitShape \<Rightarrow> unit result" where
  "assertSuiGroth16Compatible shape =
     (if \<not> isSuiGroth16Compatible shape
      then Inl (Error (js_name shape @ '' has '' @ js_toString 10 (js_nPublic shape) @ '' public inputs; Sui Groth16 currently supports at most '' @
             js_toString 10 SUI_GROTH16_MAX_PUBLIC_INPUTS))
      else Inr ())"

definition isSolanaGroth16Compatible :: "JoinSplitCircuitShape \<Rightarrow> bool" where
  "isSolanaGroth16Compatible shape \<longleftrightarrow> js_nPublic shape \<le> SOLANA_GROTH16_MAX_PUBLIC_INPUTS"

definition supportedJoinSplitShapes :: "JoinSplitCircuitShape list result" where
  "supportedJoinSplitShapes =
     js_mapM (\<lambda>(n, m). joinSplitShape (of_int n) (of_int m))
       (concat (map (\<lambda>n. map (Pair n) (filter (\<lambda>m. n + m \<le> JOINSPLIT_MAX_TOTAL_ARITY) [1..JOINSPLIT_MAX_TOTAL_ARITY - 1]))
          [1..JOINSPLIT_MAX_TOTAL_ARITY - 1]))"

definition supportedSuiJoinSplitShapes :: "JoinSplitCircuitShape list result" where
  "supportedSuiJoinSplitShapes = js_bind supportedJoinSplitShapes (\<lambda>shapes. Inr (filter isSuiGroth16Compatible shapes))"

definition supportedSolanaJoinSplitShapes :: "JoinSplitCircuitShape list result" where
  "supportedSolanaJoinSplitShapes = js_bind supportedJoinSplitShapes (\<lambda>shapes. Inr (filter isSolanaGroth16Compatible shapes))"

section \<open>Lemmas\<close>

definition arity_ok :: "int \<Rightarrow> int \<Rightarrow> bool" where
  "arity_ok n m \<longleftrightarrow> 1 \<le> n \<and> 1 \<le> m \<and> n + m \<le> 14"

definition shape_of :: "int \<Rightarrow> int \<Rightarrow> JoinSplitCircuitShape" where
  "shape_of n m = \<lparr> js_name = ''joinsplit_'' @ js_toString 10 n @ ''x'' @ js_toString 10 m, js_nInputs = n, js_nOutputs = m,
     js_nPublic = 2 + n + m,
     js_publicInputs = JOINSPLIT_PUBLIC_INPUT_PREFIX @ map (\<lambda>i. ''nullifiers['' @ js_toString 10 (int i) @ '']'') [0..<nat n] @
       map (\<lambda>i. ''commitmentsOut['' @ js_toString 10 (int i) @ '']'') [0..<nat m] \<rparr>"

lemma shape_of_sel: "js_nPublic (shape_of n m) = 2 + n + m" "js_nInputs (shape_of n m) = n" "js_nOutputs (shape_of n m) = m"
  by (simp_all add: shape_of_def)

lemma assert_arity: "assertJoinSplitArity (of_int n) (of_int m) = Inr r \<longleftrightarrow> arity_ok n m \<and> r = (n, m)"
  by (auto simp: assertJoinSplitArity_def isInteger_def arity_ok_def JOINSPLIT_MAX_TOTAL_ARITY_def Let_def)

lemma shape_ok: "arity_ok n m \<Longrightarrow> joinSplitShape (of_int n) (of_int m) = Inr (shape_of n m)"
  using assert_arity [of n m "(n, m)"]
  by (simp add: joinSplitShape_def joinSplitPublicInputLabels_def shape_of_def joinSplitPublicInputCount_def)

lemma shape_Inr: "joinSplitShape a b = Inr s \<Longrightarrow> \<exists>n m. arity_ok n m \<and> s = shape_of n m"
proof -
  assume s: "joinSplitShape a b = Inr s"
  then obtain n m where "assertJoinSplitArity a b = Inr (n, m)" by (auto simp: joinSplitShape_def js_bind_Inr_iff)
  then have "a = of_int n" "b = of_int m"
    by (auto simp: assertJoinSplitArity_def isInteger_def Let_def split: if_split_asm)
  with s assert_arity [of n m] have "arity_ok n m" "joinSplitShape (of_int n) (of_int m) = Inr s"
    by (auto simp: joinSplitShape_def js_bind_Inr_iff)
  then show ?thesis using shape_ok by auto
qed

lemma digit_char_digit: "d < 10 \<Longrightarrow> is_digit (digit_char d)"
  unfolding is_digit_def by (subst (1 2) of_char_digit) simp_all

lemma radix_digits: "c \<in> set (radix_str 10 n) \<Longrightarrow> is_digit c"
  using radix_str_digits [of 10 n] digit_char_digit by auto

lemma nat_text: "0 \<le> v \<Longrightarrow> js_toString 10 v = radix_str 10 (nat v)"
  by (simp add: js_toString_def)


lemma match_printed:
  "match_name (''joinsplit_'' @ radix_str 10 n @ ''x'' @ radix_str 10 m) = Some (radix_str 10 n, radix_str 10 m)"
proof -
  have x: "\<not> is_digit (CHR ''x'')" by (simp add: is_digit_def)
  have t: "takeWhile is_digit (radix_str 10 n @ CHR ''x'' # radix_str 10 m) = radix_str 10 n"
    using radix_digits x by (subst takeWhile_append2) auto
  have "list_all is_digit (radix_str 10 m)" using radix_digits by (auto simp: list_all_iff)
  then show ?thesis by (simp add: match_name_def Let_def t)
qed

lemma name_of: "arity_ok n m \<Longrightarrow> js_name (shape_of n m) = ''joinsplit_'' @ radix_str 10 (nat n) @ ''x'' @ radix_str 10 (nat m)"
  by (simp add: shape_of_def nat_text arity_ok_def)

lemma parse_printed: "arity_ok n m \<Longrightarrow> parseJoinSplitCircuitName (js_name (shape_of n m)) = Inr (shape_of n m)"
proof -
  assume a: "arity_ok n m"
  then have "of_nat (nat n) = (of_int n :: rat)" "of_nat (nat m) = (of_int m :: rat)" by (auto simp: arity_ok_def)
  with shape_ok [OF a] show ?thesis
    unfolding parseJoinSplitCircuitName_def name_of [OF a] match_printed by (simp add: parse_radix)
qed

definition arities :: "(int \<times> int) list" where
  "arities = concat (map (\<lambda>n. map (Pair n) (filter (\<lambda>m. n + m \<le> 14) [1..13])) [1..13])"

lemma arities_set: "(n, m) \<in> set arities \<longleftrightarrow> arity_ok n m"
  by (auto simp: arities_def arity_ok_def intro!: bexI [of _ n])

lemma arities_length: "length arities = 91" "length (filter (\<lambda>(n, m). 2 + n + m \<le> 8) arities) = 15"
  unfolding arities_def by code_simp+

lemma supported: "supportedJoinSplitShapes = Inr (map (\<lambda>(n, m). shape_of n m) arities)"
  unfolding supportedJoinSplitShapes_def JOINSPLIT_MAX_TOTAL_ARITY_def
  using arities_set by (subst js_mapM_Inr [where g = "\<lambda>(n, m). shape_of n m"]) (auto simp: arities_def arity_ok_def intro!: shape_ok)

lemma sui_filter:
  "filter isSuiGroth16Compatible (map (\<lambda>(n, m). shape_of n m) xs) = map (\<lambda>(n, m). shape_of n m) (filter (\<lambda>(n, m). 2 + n + m \<le> 8) xs)"
  by (induction xs) (auto simp: isSuiGroth16Compatible_def SUI_GROTH16_MAX_PUBLIC_INPUTS_def shape_of_sel)

section \<open>Properties\<close>



end
