(* ===== verification/Sui_Contracts.thy ===== *)
theory Sui_Contracts
  imports Crypto
begin

text \<open>
  The Move package of the Sui deployment, \<open>src/chains/sui/contracts/sources\<close>: pool, Merkle accumulator, nullifier registry, verifying keys,
  transact, deposits, redemptions and the signing policy. A Move function takes the objects it borrows and returns them updated with
  the events it emits; an abort is an error value. The second part is a ledger of objects with the public functions as calls, each with a sender:
  an object with an owner can be used by its owner only, a shared object by everyone. SHA-256 and the Groth16 natives are arguments.
\<close>

section \<open>Errors and events\<close>

datatype move_error =
    Abort nat
  | Arithmetic_error
  | Out_of_bounds
  | Native_abort nat
  | Object_missing
  | Not_owner
  | Not_mutable
  | Argument_mismatch

type_synonym 'a mres = "move_error + 'a"
type_synonym address = string

definition E_POOL_PAUSED :: nat where "E_POOL_PAUSED = 1"
definition E_INVALID_TREE_DEPTH :: nat where "E_INVALID_TREE_DEPTH = 2"
definition E_INVALID_COMMITMENT :: nat where "E_INVALID_COMMITMENT = 3"
definition E_NULLIFIER_SPENT :: nat where "E_NULLIFIER_SPENT = 4"
definition E_REDEMPTION_COMPLETED :: nat where "E_REDEMPTION_COMPLETED = 5"
definition E_INVALID_REDEMPTION :: nat where "E_INVALID_REDEMPTION = 6"
definition E_POLICY_REJECTED :: nat where "E_POLICY_REJECTED = 7"
definition E_INVALID_VERIFYING_KEY :: nat where "E_INVALID_VERIFYING_KEY = 8"
definition E_VERIFYING_KEY_NOT_FOUND :: nat where "E_VERIFYING_KEY_NOT_FOUND = 9"
definition E_INVALID_PROOF :: nat where "E_INVALID_PROOF = 10"
definition E_TOO_MANY_PUBLIC_INPUTS :: nat where "E_TOO_MANY_PUBLIC_INPUTS = 11"
definition E_VERIFICATION_FAILED :: nat where "E_VERIFICATION_FAILED = 12"
definition E_INVALID_JOIN_SPLIT :: nat where "E_INVALID_JOIN_SPLIT = 13"
definition E_INVALID_BTC_DEPOSIT :: nat where "E_INVALID_BTC_DEPOSIT = 14"
definition E_BTC_DEPOSIT_ALREADY_CLAIMED :: nat where "E_BTC_DEPOSIT_ALREADY_CLAIMED = 15"

datatype move_event =
    Pool_created address int int
  | Pool_paused address bool
  | Commitment_inserted address int bytes
  | Btc_deposit_verified address int bytes int int bytes bytes bytes
  | Merkle_root_updated address int bytes
  | Nullifier_spent address bytes
  | Redemption_requested address int bytes int int
  | Redemption_completed address int bytes
  | Ika_signing_approved address int bytes
  | Verifying_key_registered address nat nat nat bytes
  | Join_split_verified address nat nat bytes

definition move_assert :: "bool \<Rightarrow> nat \<Rightarrow> unit mres" where
  "move_assert b code = (if b then Inr () else Inl (Abort code))"

definition u64_add :: "int \<Rightarrow> int \<Rightarrow> int mres" where
  "u64_add a b = (if a + b < 2 ^ 64 then Inr (a + b) else Inl Arithmetic_error)"

section \<open>Pool and Merkle accumulator\<close>

definition PROTOCOL_VERSION :: int where "PROTOCOL_VERSION = 1"
definition FIELD_BYTES_LEN :: nat where "FIELD_BYTES_LEN = 32"

record Pool =
  p_id :: address
  p_tree_depth :: int
  p_paused :: bool
  p_latest_root :: bytes
  p_latest_root_index :: int
  p_next_leaf_index :: int
  p_next_redemption_id :: int

definition pool_initialize :: "address \<Rightarrow> int \<Rightarrow> bytes \<Rightarrow> (Pool \<times> move_event list) mres" where
  "pool_initialize new_id depth initial_root =
     js_bind (move_assert (depth > 0) E_INVALID_TREE_DEPTH) (\<lambda>_.
     js_bind (move_assert (length initial_root = FIELD_BYTES_LEN) E_INVALID_COMMITMENT) (\<lambda>_.
       Inr (\<lparr> p_id = new_id, p_tree_depth = depth, p_paused = False, p_latest_root = initial_root, p_latest_root_index = 0,
              p_next_leaf_index = 0, p_next_redemption_id = 0 \<rparr>,
            [Pool_created new_id depth PROTOCOL_VERSION])))"

definition set_paused :: "Pool \<Rightarrow> bool \<Rightarrow> Pool \<times> move_event list" where
  "set_paused pool b = (pool\<lparr> p_paused := b \<rparr>, [Pool_paused (p_id pool) b])"

definition assert_not_paused :: "Pool \<Rightarrow> unit mres" where
  "assert_not_paused pool = move_assert (\<not> p_paused pool) E_POOL_PAUSED"

definition increment_leaf_index :: "Pool \<Rightarrow> Pool mres" where
  "increment_leaf_index pool = js_bind (u64_add (p_next_leaf_index pool) 1) (\<lambda>n. Inr (pool\<lparr> p_next_leaf_index := n \<rparr>))"

definition set_latest_root :: "Pool \<Rightarrow> bytes \<Rightarrow> (Pool \<times> move_event list) mres" where
  "set_latest_root pool root =
     js_bind (u64_add (p_latest_root_index pool) 1) (\<lambda>n.
       Inr (pool\<lparr> p_latest_root_index := n, p_latest_root := root \<rparr>, [Merkle_root_updated (p_id pool) n root]))"

definition allocate_redemption_id :: "Pool \<Rightarrow> (int \<times> Pool) mres" where
  "allocate_redemption_id pool =
     js_bind (u64_add (p_next_redemption_id pool) 1) (\<lambda>n. Inr (p_next_redemption_id pool, pool\<lparr> p_next_redemption_id := n \<rparr>))"

definition derive_next_root :: "sha \<Rightarrow> bytes \<Rightarrow> bytes \<Rightarrow> bytes mres" where
  "derive_next_root H current_root commitment =
     js_bind (move_assert (length current_root = FIELD_BYTES_LEN) E_INVALID_COMMITMENT) (\<lambda>_.
     js_bind (move_assert (length commitment = FIELD_BYTES_LEN) E_INVALID_COMMITMENT) (\<lambda>_.
       Inr (H (current_root @ commitment))))"

definition insert_commitment :: "sha \<Rightarrow> Pool \<Rightarrow> bytes \<Rightarrow> (Pool \<times> move_event list) mres" where
  "insert_commitment H pool commitment =
     js_bind (assert_not_paused pool) (\<lambda>_.
     js_bind (move_assert (length commitment = FIELD_BYTES_LEN) E_INVALID_COMMITMENT) (\<lambda>_.
     let leaf_index = p_next_leaf_index pool in
     js_bind (increment_leaf_index pool) (\<lambda>pool1.
     js_bind (derive_next_root H (p_latest_root pool1) commitment) (\<lambda>new_root.
     js_bind (set_latest_root pool1 new_root) (\<lambda>(pool2, evs).
       Inr (pool2, Commitment_inserted (p_id pool) leaf_index commitment # evs))))))"

section \<open>Nullifiers\<close>

definition nullifier_contains :: "bytes list \<Rightarrow> bytes \<Rightarrow> bool" where
  "nullifier_contains spent nullifier = list_ex (\<lambda>n. n = nullifier) spent"

definition record_spend :: "address \<Rightarrow> bytes list \<Rightarrow> bytes \<Rightarrow> (bytes list \<times> move_event list) mres" where
  "record_spend pool_id spent nullifier =
     js_bind (move_assert (\<not> nullifier_contains spent nullifier) E_NULLIFIER_SPENT) (\<lambda>_.
       Inr (spent @ [nullifier], [Nullifier_spent pool_id nullifier]))"

definition nullifier_spend :: "Pool \<Rightarrow> bytes list \<Rightarrow> bytes \<Rightarrow> (bytes list \<times> move_event list) mres" where
  "nullifier_spend pool spent nullifier = js_bind (assert_not_paused pool) (\<lambda>_. record_spend (p_id pool) spent nullifier)"

section \<open>Verifying keys\<close>

definition MAX_SUI_PUBLIC_INPUTS :: nat where "MAX_SUI_PUBLIC_INPUTS = 8"
definition VK_HASH_LEN :: nat where "VK_HASH_LEN = 32"

record 'vk VerifyingKeyEntry =
  k_n_inputs :: nat
  k_n_outputs :: nat
  k_n_public :: nat
  k_vk_hash :: bytes
  k_prepared_vk :: 'vk

text \<open>The natives of \<open>sui::groth16\<close> for the curve BN254.\<close>

record ('vk, 'pi, 'pp) groth16 =
  pvk_from_bytes :: "bytes \<Rightarrow> bytes \<Rightarrow> bytes \<Rightarrow> bytes \<Rightarrow> 'vk"
  prepare_verifying_key :: "bytes \<Rightarrow> 'vk mres"
  public_proof_inputs_from_bytes :: "bytes \<Rightarrow> 'pi mres"
  proof_points_from_bytes :: "bytes \<Rightarrow> 'pp"
  verify_groth16_proof :: "'vk \<Rightarrow> 'pi \<Rightarrow> 'pp \<Rightarrow> bool mres"

definition check_key :: "nat \<Rightarrow> bytes \<Rightarrow> unit mres" where
  "check_key n_public vk_hash =
     js_bind (move_assert (n_public \<le> MAX_SUI_PUBLIC_INPUTS) E_TOO_MANY_PUBLIC_INPUTS) (\<lambda>_.
       move_assert (length vk_hash = VK_HASH_LEN) E_INVALID_VERIFYING_KEY)"

definition register_prepared_key ::
  "('vk, 'pi, 'pp) groth16 \<Rightarrow> address \<Rightarrow> 'vk VerifyingKeyEntry list \<Rightarrow> nat \<Rightarrow> nat \<Rightarrow> nat \<Rightarrow> bytes \<Rightarrow> bytes \<Rightarrow> bytes \<Rightarrow> bytes \<Rightarrow> bytes \<Rightarrow>
     ('vk VerifyingKeyEntry list \<times> move_event list) mres" where
  "register_prepared_key G registry_id keys n_inputs n_outputs n_public vk_hash gamma_abc alpha_beta gamma_neg delta_neg =
     js_bind (check_key n_public vk_hash) (\<lambda>_.
       Inr (keys @ [\<lparr> k_n_inputs = n_inputs, k_n_outputs = n_outputs, k_n_public = n_public, k_vk_hash = vk_hash,
                      k_prepared_vk = pvk_from_bytes G gamma_abc alpha_beta gamma_neg delta_neg \<rparr>],
            [Verifying_key_registered registry_id n_inputs n_outputs n_public vk_hash]))"

definition register_raw_key ::
  "('vk, 'pi, 'pp) groth16 \<Rightarrow> address \<Rightarrow> 'vk VerifyingKeyEntry list \<Rightarrow> nat \<Rightarrow> nat \<Rightarrow> nat \<Rightarrow> bytes \<Rightarrow> bytes \<Rightarrow>
     ('vk VerifyingKeyEntry list \<times> move_event list) mres" where
  "register_raw_key G registry_id keys n_inputs n_outputs n_public vk_hash raw =
     js_bind (check_key n_public vk_hash) (\<lambda>_.
     js_bind (prepare_verifying_key G raw) (\<lambda>vk.
       Inr (keys @ [\<lparr> k_n_inputs = n_inputs, k_n_outputs = n_outputs, k_n_public = n_public, k_vk_hash = vk_hash, k_prepared_vk = vk \<rparr>],
            [Verifying_key_registered registry_id n_inputs n_outputs n_public vk_hash])))"

definition key_matches :: "nat \<Rightarrow> nat \<Rightarrow> bytes \<Rightarrow> 'vk VerifyingKeyEntry \<Rightarrow> bool" where
  "key_matches n_inputs n_outputs vk_hash entry \<longleftrightarrow>
     k_n_inputs entry = n_inputs \<and> k_n_outputs entry = n_outputs \<and> k_vk_hash entry = vk_hash"

definition find_key :: "'vk VerifyingKeyEntry list \<Rightarrow> nat \<Rightarrow> nat \<Rightarrow> bytes \<Rightarrow> 'vk VerifyingKeyEntry mres" where
  "find_key keys n_inputs n_outputs vk_hash =
     (case find (key_matches n_inputs n_outputs vk_hash) keys of
        None \<Rightarrow> Inl (Abort E_VERIFYING_KEY_NOT_FOUND)
      | Some entry \<Rightarrow> Inr entry)"

definition verify_join_split ::
  "('vk, 'pi, 'pp) groth16 \<Rightarrow> 'vk VerifyingKeyEntry list \<Rightarrow> nat \<Rightarrow> nat \<Rightarrow> bytes \<Rightarrow> bytes \<Rightarrow> bytes \<Rightarrow> bool mres" where
  "verify_join_split G keys n_inputs n_outputs vk_hash public_inputs proof_points =
     js_bind (find_key keys n_inputs n_outputs vk_hash) (\<lambda>entry.
     js_bind (move_assert (length public_inputs = k_n_public entry * 32) E_INVALID_PROOF) (\<lambda>_.
     js_bind (public_proof_inputs_from_bytes G public_inputs) (\<lambda>inputs.
       verify_groth16_proof G (k_prepared_vk entry) inputs (proof_points_from_bytes G proof_points))))"

section \<open>Transact\<close>

fun public_input_loop :: "bytes \<Rightarrow> nat \<Rightarrow> bytes \<Rightarrow> nat \<Rightarrow> unit mres" where
  "public_input_loop public_inputs start expected 0 = Inr ()"
| "public_input_loop public_inputs start expected (Suc todo) =
     (let i = 32 - Suc todo in
      if start + i \<ge> length public_inputs then Inl Out_of_bounds
      else if public_inputs ! (start + i) = expected ! i then public_input_loop public_inputs start expected todo
      else Inl (Abort E_INVALID_JOIN_SPLIT))"

definition assert_public_input_at :: "bytes \<Rightarrow> nat \<Rightarrow> bytes \<Rightarrow> unit mres" where
  "assert_public_input_at public_inputs index expected =
     js_bind (move_assert (length expected = 32) E_INVALID_JOIN_SPLIT) (\<lambda>_.
       public_input_loop public_inputs (index * 32) expected 32)"

fun assert_inputs_from :: "bytes \<Rightarrow> nat \<Rightarrow> bytes list \<Rightarrow> unit mres" where
  "assert_inputs_from public_inputs index [] = Inr ()"
| "assert_inputs_from public_inputs index (x # xs) =
     js_bind (assert_public_input_at public_inputs index x) (\<lambda>_. assert_inputs_from public_inputs (index + 1) xs)"

definition assert_bound_public_inputs :: "bytes \<Rightarrow> nat \<Rightarrow> nat \<Rightarrow> bytes list \<Rightarrow> bytes list \<Rightarrow> unit mres" where
  "assert_bound_public_inputs public_inputs n_inputs n_outputs nullifiers_in commitments_out =
     js_bind (move_assert (length public_inputs = (2 + n_inputs + n_outputs) * 32) E_INVALID_JOIN_SPLIT) (\<lambda>_.
     js_bind (assert_inputs_from public_inputs 2 nullifiers_in) (\<lambda>_.
       assert_inputs_from public_inputs (2 + n_inputs) commitments_out))"

fun spend_all :: "address \<Rightarrow> bytes list \<Rightarrow> bytes list \<Rightarrow> (bytes list \<times> move_event list) mres" where
  "spend_all pool_id spent [] = Inr (spent, [])"
| "spend_all pool_id spent (n # ns) =
     js_bind (record_spend pool_id spent n) (\<lambda>(spent1, ev1).
     js_bind (spend_all pool_id spent1 ns) (\<lambda>(spent2, ev2). Inr (spent2, ev1 @ ev2)))"

fun insert_all :: "sha \<Rightarrow> Pool \<Rightarrow> bytes list \<Rightarrow> (Pool \<times> move_event list) mres" where
  "insert_all H pool [] = Inr (pool, [])"
| "insert_all H pool (c # cs) =
     js_bind (insert_commitment H pool c) (\<lambda>(pool1, ev1).
     js_bind (insert_all H pool1 cs) (\<lambda>(pool2, ev2). Inr (pool2, ev1 @ ev2)))"

definition transact ::
  "('vk, 'pi, 'pp) groth16 \<Rightarrow> sha \<Rightarrow> Pool \<Rightarrow> bytes list \<Rightarrow> 'vk VerifyingKeyEntry list \<Rightarrow> nat \<Rightarrow> nat \<Rightarrow> bytes \<Rightarrow> bytes \<Rightarrow> bytes \<Rightarrow>
     bytes list \<Rightarrow> bytes list \<Rightarrow> (Pool \<times> bytes list \<times> move_event list) mres" where
  "transact G H pool spent keys n_inputs n_outputs vk_hash public_inputs proof_points nullifiers_in commitments_out =
     js_bind (assert_not_paused pool) (\<lambda>_.
     js_bind (move_assert (length nullifiers_in = n_inputs) E_INVALID_JOIN_SPLIT) (\<lambda>_.
     js_bind (move_assert (length commitments_out = n_outputs) E_INVALID_JOIN_SPLIT) (\<lambda>_.
     js_bind (assert_public_input_at public_inputs 0 (p_latest_root pool)) (\<lambda>_.
     js_bind (assert_bound_public_inputs public_inputs n_inputs n_outputs nullifiers_in commitments_out) (\<lambda>_.
     js_bind (verify_join_split G keys n_inputs n_outputs vk_hash public_inputs proof_points) (\<lambda>verified.
     js_bind (move_assert verified E_VERIFICATION_FAILED) (\<lambda>_.
     js_bind (spend_all (p_id pool) spent nullifiers_in) (\<lambda>(spent', ev1).
     js_bind (insert_all H pool commitments_out) (\<lambda>(pool', ev2).
       Inr (pool', spent', Join_split_verified (p_id pool) n_inputs n_outputs vk_hash # ev1 @ ev2))))))))))"

section \<open>Deposits\<close>

record VerifiedBtcDeposit =
  v_deposit_txid :: bytes
  v_deposit_vout :: int
  v_amount_sats :: int
  v_op_return_payload :: bytes
  v_commitment :: bytes
  v_verified_root :: bytes

definition new_verified_deposit :: "bytes \<Rightarrow> int \<Rightarrow> int \<Rightarrow> bytes \<Rightarrow> bytes \<Rightarrow> bytes \<Rightarrow> VerifiedBtcDeposit mres" where
  "new_verified_deposit txid vout amount payload commitment root =
     js_bind (move_assert (length txid = 32) E_INVALID_BTC_DEPOSIT) (\<lambda>_.
     js_bind (move_assert (amount > 0) E_INVALID_BTC_DEPOSIT) (\<lambda>_.
     js_bind (move_assert (length payload = 64) E_INVALID_BTC_DEPOSIT) (\<lambda>_.
     js_bind (move_assert (length commitment = 32) E_INVALID_COMMITMENT) (\<lambda>_.
     js_bind (move_assert (length root = 32) E_INVALID_COMMITMENT) (\<lambda>_.
       Inr \<lparr> v_deposit_txid = txid, v_deposit_vout = vout, v_amount_sats = amount, v_op_return_payload = payload,
             v_commitment = commitment, v_verified_root = root \<rparr>)))))"

definition outpoint_key :: "bytes \<Rightarrow> int \<Rightarrow> bytes" where
  "outpoint_key txid vout =
     txid @ [word_of_int (vout AND 0xff), word_of_int (drop_bit 8 vout AND 0xff), word_of_int (drop_bit 16 vout AND 0xff),
             word_of_int (drop_bit 24 vout AND 0xff)]"

definition contains_claim :: "bytes list \<Rightarrow> bytes \<Rightarrow> bool" where
  "contains_claim claimed key = list_ex (\<lambda>k. k = key) claimed"

definition complete_verified_deposit ::
  "Pool \<Rightarrow> bytes list \<Rightarrow> VerifiedBtcDeposit \<Rightarrow> (Pool \<times> bytes list \<times> move_event list) mres" where
  "complete_verified_deposit pool claimed d =
     js_bind (assert_not_paused pool) (\<lambda>_.
     js_bind (move_assert (v_amount_sats d > 0) E_INVALID_BTC_DEPOSIT) (\<lambda>_.
     js_bind (move_assert (length (v_deposit_txid d) = 32) E_INVALID_BTC_DEPOSIT) (\<lambda>_.
     js_bind (move_assert (length (v_op_return_payload d) = 64) E_INVALID_BTC_DEPOSIT) (\<lambda>_.
     js_bind (move_assert (length (v_commitment d) = FIELD_BYTES_LEN) E_INVALID_COMMITMENT) (\<lambda>_.
     js_bind (move_assert (length (v_verified_root d) = FIELD_BYTES_LEN) E_INVALID_COMMITMENT) (\<lambda>_.
     let claim_key = outpoint_key (v_deposit_txid d) (v_deposit_vout d) in
     js_bind (move_assert (\<not> contains_claim claimed claim_key) E_BTC_DEPOSIT_ALREADY_CLAIMED) (\<lambda>_.
     let leaf_index = p_next_leaf_index pool in
     js_bind (increment_leaf_index pool) (\<lambda>pool1.
     js_bind (set_latest_root pool1 (v_verified_root d)) (\<lambda>(pool2, evs).
       Inr (pool2, claimed @ [claim_key],
            Btc_deposit_verified (p_id pool) leaf_index (v_deposit_txid d) (v_deposit_vout d) (v_amount_sats d)
              (js_slice (v_op_return_payload d) 0 32) (js_slice (v_op_return_payload d) 32 64) (v_commitment d) #
            Commitment_inserted (p_id pool) leaf_index (v_commitment d) # evs))))))))))"

section \<open>Redemptions and signing policy\<close>

record RedemptionRequest =
  r_id :: int
  r_btc_address_hash :: bytes
  r_amount_sats :: int
  r_max_fee_sats :: int
  r_completed :: bool

definition request_redemption ::
  "Pool \<Rightarrow> RedemptionRequest list \<Rightarrow> bytes \<Rightarrow> int \<Rightarrow> int \<Rightarrow> (Pool \<times> RedemptionRequest list \<times> move_event list) mres" where
  "request_redemption pool requests btc_address_hash amount_sats max_fee_sats =
     js_bind (assert_not_paused pool) (\<lambda>_.
     js_bind (move_assert (amount_sats > 0) E_INVALID_REDEMPTION) (\<lambda>_.
     js_bind (allocate_redemption_id pool) (\<lambda>(redemption_id, pool').
       Inr (pool',
            requests @ [\<lparr> r_id = redemption_id, r_btc_address_hash = btc_address_hash, r_amount_sats = amount_sats,
                          r_max_fee_sats = max_fee_sats, r_completed = False \<rparr>],
            [Redemption_requested (p_id pool) redemption_id btc_address_hash amount_sats max_fee_sats]))))"

definition borrow_request :: "RedemptionRequest list \<Rightarrow> int \<Rightarrow> RedemptionRequest mres" where
  "borrow_request requests redemption_id =
     (case find (\<lambda>r. r_id r = redemption_id) requests of
        None \<Rightarrow> Inl (Abort E_INVALID_REDEMPTION)
      | Some r \<Rightarrow> Inr r)"

fun set_completed :: "RedemptionRequest list \<Rightarrow> int \<Rightarrow> RedemptionRequest list" where
  "set_completed [] redemption_id = []"
| "set_completed (r # rs) redemption_id =
     (if r_id r = redemption_id then r\<lparr> r_completed := True \<rparr> # rs else r # set_completed rs redemption_id)"

definition complete_redemption ::
  "Pool \<Rightarrow> RedemptionRequest list \<Rightarrow> int \<Rightarrow> bytes \<Rightarrow> (RedemptionRequest list \<times> move_event list) mres" where
  "complete_redemption pool requests redemption_id btc_txid =
     js_bind (borrow_request requests redemption_id) (\<lambda>request.
     js_bind (move_assert (\<not> r_completed request) E_REDEMPTION_COMPLETED) (\<lambda>_.
       Inr (set_completed requests redemption_id, [Redemption_completed (p_id pool) redemption_id btc_txid])))"

definition is_pending :: "RedemptionRequest list \<Rightarrow> int \<Rightarrow> bool mres" where
  "is_pending requests redemption_id = js_bind (borrow_request requests redemption_id) (\<lambda>request. Inr (\<not> r_completed request))"

definition approve_signing :: "Pool \<Rightarrow> RedemptionRequest list \<Rightarrow> int \<Rightarrow> bytes \<Rightarrow> move_event list mres" where
  "approve_signing pool requests redemption_id sighash =
     js_bind (assert_not_paused pool) (\<lambda>_.
     js_bind (is_pending requests redemption_id) (\<lambda>pending.
     js_bind (move_assert pending E_POLICY_REJECTED) (\<lambda>_.
     js_bind (move_assert (length sighash = 32) E_POLICY_REJECTED) (\<lambda>_.
       Inr [Ika_signing_approved (p_id pool) redemption_id sighash]))))"

end
