(* ===== verification/Sui_Ledger.thy ===== *)
theory Sui_Ledger
  imports Sui_Contracts
begin

text \<open>
  The ledger of objects on which the Move package of \<open>Sui_Contracts\<close> runs. A call names a public function and its arguments; the
  runtime looks up the objects, checks that an owned object belongs to the sender and that a shared object borrowed mutably
  was passed as mutable, and commits the effects of the function, all or none. Object versions are not modelled. Two fresh addresses
  are an argument of each call, for the objects it creates.
\<close>

section \<open>Calls\<close>

datatype sui_arg =
    Obj_ref address string string
  | Shared_ref address string bool
  | Pure_u8 nat
  | Pure_u64 int
  | Pure_bool bool
  | Pure_bytes bytes
  | Pure_bytes_list "bytes list"

record move_call =
  mc_target :: string
  mc_args :: "sui_arg list"

record 'vk sui_ledger =
  l_pools :: "address \<rightharpoonup> Pool"
  l_admin_caps :: "address \<rightharpoonup> address"
  l_nullifiers :: "address \<rightharpoonup> bytes list"
  l_keys :: "address \<rightharpoonup> 'vk VerifyingKeyEntry list"
  l_claims :: "address \<rightharpoonup> bytes list"
  l_verified :: "address \<rightharpoonup> address \<times> VerifiedBtcDeposit"
  l_queues :: "address \<rightharpoonup> RedemptionRequest list"
  l_redemption_caps :: "address \<rightharpoonup> address"
  l_events :: "move_event list"

definition borrow_shared :: "(address \<rightharpoonup> 'a) \<Rightarrow> sui_arg \<Rightarrow> (address \<times> 'a) mres" where
  "borrow_shared objects arg =
     (case arg of
        Shared_ref a v m \<Rightarrow> (case objects a of None \<Rightarrow> Inl Object_missing | Some x \<Rightarrow> Inr (a, x))
      | _ \<Rightarrow> Inl Argument_mismatch)"

definition borrow_shared_mut :: "(address \<rightharpoonup> 'a) \<Rightarrow> sui_arg \<Rightarrow> (address \<times> 'a) mres" where
  "borrow_shared_mut objects arg =
     (case arg of
        Shared_ref a v m \<Rightarrow> if m then borrow_shared objects arg else Inl Not_mutable
      | _ \<Rightarrow> Inl Argument_mismatch)"

definition use_cap :: "(address \<rightharpoonup> address) \<Rightarrow> address \<Rightarrow> sui_arg \<Rightarrow> unit mres" where
  "use_cap caps sender arg =
     (case arg of
        Obj_ref a v d \<Rightarrow>
          (case caps a of None \<Rightarrow> Inl Object_missing | Some owner \<Rightarrow> if owner = sender then Inr () else Inl Not_owner)
      | _ \<Rightarrow> Inl Argument_mismatch)"

definition emit :: "move_event list \<Rightarrow> 'vk sui_ledger \<Rightarrow> 'vk sui_ledger" where
  "emit evs L = L\<lparr> l_events := l_events L @ evs \<rparr>"

section \<open>The public functions as calls\<close>

definition arg_u8 :: "sui_arg \<Rightarrow> nat mres" where
  "arg_u8 arg = (case arg of Pure_u8 n \<Rightarrow> Inr n | _ \<Rightarrow> Inl Argument_mismatch)"

definition arg_u64 :: "sui_arg \<Rightarrow> int mres" where
  "arg_u64 arg = (case arg of Pure_u64 v \<Rightarrow> Inr v | _ \<Rightarrow> Inl Argument_mismatch)"

definition arg_bool :: "sui_arg \<Rightarrow> bool mres" where
  "arg_bool arg = (case arg of Pure_bool b \<Rightarrow> Inr b | _ \<Rightarrow> Inl Argument_mismatch)"

definition arg_bytes :: "sui_arg \<Rightarrow> bytes mres" where
  "arg_bytes arg = (case arg of Pure_bytes b \<Rightarrow> Inr b | _ \<Rightarrow> Inl Argument_mismatch)"

definition arg_bytes_list :: "sui_arg \<Rightarrow> bytes list mres" where
  "arg_bytes_list arg = (case arg of Pure_bytes_list b \<Rightarrow> Inr b | _ \<Rightarrow> Inl Argument_mismatch)"

definition take_verified :: "'vk sui_ledger \<Rightarrow> address \<Rightarrow> sui_arg \<Rightarrow> (address \<times> VerifiedBtcDeposit) mres" where
  "take_verified L sender arg =
     (case arg of
        Obj_ref d v dg \<Rightarrow>
          (case l_verified L d of
             None \<Rightarrow> Inl Object_missing
           | Some (owner, deposit) \<Rightarrow> if owner = sender then Inr (d, deposit) else Inl Not_owner)
      | _ \<Rightarrow> Inl Argument_mismatch)"

definition call_pool_initialize :: "address \<Rightarrow> address \<times> address \<Rightarrow> sui_arg list \<Rightarrow> 'vk sui_ledger \<Rightarrow> 'vk sui_ledger mres" where
  "call_pool_initialize sender new args L =
     (case args of
        [xdepth, xroot] \<Rightarrow>
          js_bind (arg_u64 xdepth) (\<lambda>depth.
          js_bind (arg_bytes xroot) (\<lambda>root.
          js_bind (pool_initialize (fst new) depth root) (\<lambda>(pool, evs).
            Inr (emit evs (L\<lparr> l_pools := (l_pools L)(fst new \<mapsto> pool), l_admin_caps := (l_admin_caps L)(snd new \<mapsto> sender) \<rparr>)))))
      | _ \<Rightarrow> Inl Argument_mismatch)"

definition call_set_paused :: "address \<Rightarrow> sui_arg list \<Rightarrow> 'vk sui_ledger \<Rightarrow> 'vk sui_ledger mres" where
  "call_set_paused sender args L =
     (case args of
        [cap, pool, xv] \<Rightarrow>
          js_bind (arg_bool xv) (\<lambda>v.
          js_bind (use_cap (l_admin_caps L) sender cap) (\<lambda>_.
          js_bind (borrow_shared_mut (l_pools L) pool) (\<lambda>(a, p).
            let (p', evs) = set_paused p v in Inr (emit evs (L\<lparr> l_pools := (l_pools L)(a \<mapsto> p') \<rparr>)))))
      | _ \<Rightarrow> Inl Argument_mismatch)"

definition call_spend :: "sui_arg list \<Rightarrow> 'vk sui_ledger \<Rightarrow> 'vk sui_ledger mres" where
  "call_spend args L =
     (case args of
        [pool, registry, xn] \<Rightarrow>
          js_bind (arg_bytes xn) (\<lambda>n.
          js_bind (borrow_shared (l_pools L) pool) (\<lambda>(_, p).
          js_bind (borrow_shared_mut (l_nullifiers L) registry) (\<lambda>(r, spent).
          js_bind (nullifier_spend p spent n) (\<lambda>(spent', evs).
            Inr (emit evs (L\<lparr> l_nullifiers := (l_nullifiers L)(r \<mapsto> spent') \<rparr>))))))
      | _ \<Rightarrow> Inl Argument_mismatch)"

definition call_register_prepared_key :: "('vk, 'pi, 'pp) groth16 \<Rightarrow> address \<Rightarrow> sui_arg list \<Rightarrow> 'vk sui_ledger \<Rightarrow> 'vk sui_ledger mres" where
  "call_register_prepared_key G sender args L =
     (case args of
        [cap, registry, xni, xno, xnp, xh, xga, xab, xgn, xdn] \<Rightarrow>
          js_bind (arg_u8 xni) (\<lambda>ni.
          js_bind (arg_u8 xno) (\<lambda>no.
          js_bind (arg_u8 xnp) (\<lambda>np.
          js_bind (arg_bytes xh) (\<lambda>h.
          js_bind (arg_bytes xga) (\<lambda>ga.
          js_bind (arg_bytes xab) (\<lambda>ab.
          js_bind (arg_bytes xgn) (\<lambda>gn.
          js_bind (arg_bytes xdn) (\<lambda>dn.
          js_bind (use_cap (l_admin_caps L) sender cap) (\<lambda>_.
          js_bind (borrow_shared_mut (l_keys L) registry) (\<lambda>(r, keys).
          js_bind (register_prepared_key G r keys ni no np h ga ab gn dn) (\<lambda>(keys', evs).
            Inr (emit evs (L\<lparr> l_keys := (l_keys L)(r \<mapsto> keys') \<rparr>)))))))))))))
      | _ \<Rightarrow> Inl Argument_mismatch)"

definition call_register_raw_key :: "('vk, 'pi, 'pp) groth16 \<Rightarrow> address \<Rightarrow> sui_arg list \<Rightarrow> 'vk sui_ledger \<Rightarrow> 'vk sui_ledger mres" where
  "call_register_raw_key G sender args L =
     (case args of
        [cap, registry, xni, xno, xnp, xh, xraw] \<Rightarrow>
          js_bind (arg_u8 xni) (\<lambda>ni.
          js_bind (arg_u8 xno) (\<lambda>no.
          js_bind (arg_u8 xnp) (\<lambda>np.
          js_bind (arg_bytes xh) (\<lambda>h.
          js_bind (arg_bytes xraw) (\<lambda>raw.
          js_bind (use_cap (l_admin_caps L) sender cap) (\<lambda>_.
          js_bind (borrow_shared_mut (l_keys L) registry) (\<lambda>(r, keys).
          js_bind (register_raw_key G r keys ni no np h raw) (\<lambda>(keys', evs).
            Inr (emit evs (L\<lparr> l_keys := (l_keys L)(r \<mapsto> keys') \<rparr>))))))))))
      | _ \<Rightarrow> Inl Argument_mismatch)"

definition call_transact :: "('vk, 'pi, 'pp) groth16 \<Rightarrow> sha \<Rightarrow> sui_arg list \<Rightarrow> 'vk sui_ledger \<Rightarrow> 'vk sui_ledger mres" where
  "call_transact G H args L =
     (case args of
        [pool, registry, vks, xni, xno, xh, xinputs, xpoints, xns, xcs] \<Rightarrow>
          js_bind (arg_u8 xni) (\<lambda>ni.
          js_bind (arg_u8 xno) (\<lambda>no.
          js_bind (arg_bytes xh) (\<lambda>h.
          js_bind (arg_bytes xinputs) (\<lambda>inputs.
          js_bind (arg_bytes xpoints) (\<lambda>points.
          js_bind (arg_bytes_list xns) (\<lambda>ns.
          js_bind (arg_bytes_list xcs) (\<lambda>cs.
          js_bind (borrow_shared_mut (l_pools L) pool) (\<lambda>(a, p).
          js_bind (borrow_shared_mut (l_nullifiers L) registry) (\<lambda>(r, spent).
          js_bind (borrow_shared (l_keys L) vks) (\<lambda>(_, keys).
          js_bind (transact G H p spent keys ni no h inputs points ns cs) (\<lambda>(p', spent', evs).
            Inr (emit evs (L\<lparr> l_pools := (l_pools L)(a \<mapsto> p'), l_nullifiers := (l_nullifiers L)(r \<mapsto> spent') \<rparr>)))))))))))))
      | _ \<Rightarrow> Inl Argument_mismatch)"

definition call_complete_deposit :: "address \<Rightarrow> sui_arg list \<Rightarrow> 'vk sui_ledger \<Rightarrow> 'vk sui_ledger mres" where
  "call_complete_deposit sender args L =
     (case args of
        [pool, registry, deposit] \<Rightarrow>
          js_bind (borrow_shared_mut (l_pools L) pool) (\<lambda>(a, p).
          js_bind (borrow_shared_mut (l_claims L) registry) (\<lambda>(r, claimed).
          js_bind (take_verified L sender deposit) (\<lambda>(d, v).
          js_bind (complete_verified_deposit p claimed v) (\<lambda>(p', claimed', evs).
            Inr (emit evs (L\<lparr> l_pools := (l_pools L)(a \<mapsto> p'), l_claims := (l_claims L)(r \<mapsto> claimed'),
                              l_verified := (l_verified L)(d := None) \<rparr>))))))
      | _ \<Rightarrow> Inl Argument_mismatch)"

definition call_request_redemption :: "address \<Rightarrow> sui_arg list \<Rightarrow> 'vk sui_ledger \<Rightarrow> 'vk sui_ledger mres" where
  "call_request_redemption sender args L =
     (case args of
        [cap, pool, queue, xbtc, xamount, xfee] \<Rightarrow>
          js_bind (arg_bytes xbtc) (\<lambda>btc.
          js_bind (arg_u64 xamount) (\<lambda>amount.
          js_bind (arg_u64 xfee) (\<lambda>fee.
          js_bind (use_cap (l_redemption_caps L) sender cap) (\<lambda>_.
          js_bind (borrow_shared_mut (l_pools L) pool) (\<lambda>(a, p).
          js_bind (borrow_shared_mut (l_queues L) queue) (\<lambda>(q, requests).
          js_bind (request_redemption p requests btc amount fee) (\<lambda>(p', requests', evs).
            Inr (emit evs (L\<lparr> l_pools := (l_pools L)(a \<mapsto> p'), l_queues := (l_queues L)(q \<mapsto> requests') \<rparr>)))))))))
      | _ \<Rightarrow> Inl Argument_mismatch)"

definition call_complete_redemption :: "address \<Rightarrow> sui_arg list \<Rightarrow> 'vk sui_ledger \<Rightarrow> 'vk sui_ledger mres" where
  "call_complete_redemption sender args L =
     (case args of
        [cap, pool, queue, xrid, xtxid] \<Rightarrow>
          js_bind (arg_u64 xrid) (\<lambda>rid.
          js_bind (arg_bytes xtxid) (\<lambda>txid.
          js_bind (use_cap (l_redemption_caps L) sender cap) (\<lambda>_.
          js_bind (borrow_shared (l_pools L) pool) (\<lambda>(_, p).
          js_bind (borrow_shared_mut (l_queues L) queue) (\<lambda>(q, requests).
          js_bind (complete_redemption p requests rid txid) (\<lambda>(requests', evs).
            Inr (emit evs (L\<lparr> l_queues := (l_queues L)(q \<mapsto> requests') \<rparr>))))))))
      | _ \<Rightarrow> Inl Argument_mismatch)"

definition call_approve_signing :: "sui_arg list \<Rightarrow> 'vk sui_ledger \<Rightarrow> 'vk sui_ledger mres" where
  "call_approve_signing args L =
     (case args of
        [pool, queue, xrid, xsighash] \<Rightarrow>
          js_bind (arg_u64 xrid) (\<lambda>rid.
          js_bind (arg_bytes xsighash) (\<lambda>sighash.
          js_bind (borrow_shared (l_pools L) pool) (\<lambda>(_, p).
          js_bind (borrow_shared (l_queues L) queue) (\<lambda>(_, requests).
          js_bind (approve_signing p requests rid sighash) (\<lambda>evs. Inr (emit evs L))))))
      | _ \<Rightarrow> Inl Argument_mismatch)"

fun pure_in_range :: "sui_arg \<Rightarrow> bool" where
  "pure_in_range (Pure_u8 n) \<longleftrightarrow> n < 256"
| "pure_in_range (Pure_u64 v) \<longleftrightarrow> 0 \<le> v \<and> v < 2 ^ 64"
| "pure_in_range _ \<longleftrightarrow> True"

definition run_call :: "('vk, 'pi, 'pp) groth16 \<Rightarrow> sha \<Rightarrow> string \<Rightarrow> address \<Rightarrow> address \<times> address \<Rightarrow> move_call \<Rightarrow> 'vk sui_ledger \<Rightarrow> 'vk sui_ledger mres" where
  "run_call G H pkg sender new c L =
     (let f = mc_target c; args = mc_args c in
      if \<not> list_all pure_in_range args then Inl Argument_mismatch
      else if f = pkg @ ''::pool::initialize'' then call_pool_initialize sender new args L
      else if f = pkg @ ''::pool::set_paused'' then call_set_paused sender args L
      else if f = pkg @ ''::nullifier::initialize_registry'' then Inr (L\<lparr> l_nullifiers := (l_nullifiers L)(fst new \<mapsto> []) \<rparr>)
      else if f = pkg @ ''::nullifier::spend'' then call_spend args L
      else if f = pkg @ ''::verifier::initialize_registry'' then Inr (L\<lparr> l_keys := (l_keys L)(fst new \<mapsto> []) \<rparr>)
      else if f = pkg @ ''::verifier::register_prepared_key'' then call_register_prepared_key G sender args L
      else if f = pkg @ ''::verifier::register_raw_key'' then call_register_raw_key G sender args L
      else if f = pkg @ ''::transact::transact'' then call_transact G H args L
      else if f = pkg @ ''::btc_deposit::initialize_registry'' then Inr (L\<lparr> l_claims := (l_claims L)(fst new \<mapsto> []) \<rparr>)
      else if f = pkg @ ''::btc_deposit::complete_verified_deposit'' then call_complete_deposit sender args L
      else if f = pkg @ ''::redemption::initialize_queue'' then
        Inr (L\<lparr> l_queues := (l_queues L)(fst new \<mapsto> []), l_redemption_caps := (l_redemption_caps L)(snd new \<mapsto> sender) \<rparr>)
      else if f = pkg @ ''::redemption::request_redemption'' then call_request_redemption sender args L
      else if f = pkg @ ''::redemption::complete_redemption'' then call_complete_redemption sender args L
      else if f = pkg @ ''::ika_policy::approve_signing'' then call_approve_signing args L
      else Inl Argument_mismatch)"

text \<open>A sequence of calls of one sender, with fresh addresses for each.\<close>

fun run_calls :: "('vk, 'pi, 'pp) groth16 \<Rightarrow> sha \<Rightarrow> string \<Rightarrow> address \<Rightarrow> ((address \<times> address) \<times> move_call) list \<Rightarrow> 'vk sui_ledger \<Rightarrow> 'vk sui_ledger mres" where
  "run_calls G H pkg sender [] L = Inr L"
| "run_calls G H pkg sender ((new, c) # cs) L = js_bind (run_call G H pkg sender new c L) (run_calls G H pkg sender cs)"

section \<open>Histories\<close>

definition used :: "'vk sui_ledger \<Rightarrow> address set" where
  "used L = dom (l_pools L) \<union> dom (l_admin_caps L) \<union> dom (l_nullifiers L) \<union> dom (l_keys L) \<union> dom (l_claims L) \<union> dom (l_verified L) \<union>
     dom (l_queues L) \<union> dom (l_redemption_caps L)"

definition empty_sui_ledger :: "'vk sui_ledger" where
  "empty_sui_ledger = \<lparr> l_pools = Map.empty, l_admin_caps = Map.empty, l_nullifiers = Map.empty, l_keys = Map.empty, l_claims = Map.empty,
     l_verified = Map.empty, l_queues = Map.empty, l_redemption_caps = Map.empty, l_events = [] \<rparr>"

text \<open>
  Any sender may make any call; a failed call changes nothing. A deposit object comes from the light client, which has no public
  function yet, so its appearance is a step of its own.
\<close>

inductive sui_run :: "('vk, 'pi, 'pp) groth16 \<Rightarrow> sha \<Rightarrow> string \<Rightarrow> 'vk sui_ledger \<Rightarrow> 'vk sui_ledger \<Rightarrow> bool" for G H pkg L0 where
  start: "sui_run G H pkg L0 L0"
| call: "sui_run G H pkg L0 L \<Longrightarrow> fst new \<notin> used L \<Longrightarrow> snd new \<notin> used L \<Longrightarrow> run_call G H pkg sender new c L = Inr L' \<Longrightarrow>
    sui_run G H pkg L0 L'"
| verified: "sui_run G H pkg L0 L \<Longrightarrow> a \<notin> used L \<Longrightarrow> new_verified_deposit txid vout amount payload commitment root = Inr d \<Longrightarrow>
    sui_run G H pkg L0 (L\<lparr> l_verified := (l_verified L)(a \<mapsto> (owner, d)) \<rparr>)"

end
