(* ===== verification/Sui_Pool_Properties.thy ===== *)
theory Sui_Pool_Properties
  imports Sui_Ledger
begin

text \<open>
  Properties of the Move package: what a successful transact call is and does, nullifiers and outpoints are used once per registry, the leaf
  indices of the event log are consecutive, and what the capabilities do not protect.
\<close>

section \<open>Transact\<close>

lemma move_assert_Inr [simp]: "move_assert b code = Inr u \<longleftrightarrow> b"
  by (simp add: move_assert_def)

lemma input_loop:
  "todo \<le> 32 \<Longrightarrow> public_input_loop bs start e todo = Inr () \<longleftrightarrow> (\<forall>i. 32 - todo \<le> i \<and> i < 32 \<longrightarrow> start + i < length bs \<and> bs ! (start + i) = e ! i)"
proof (induction todo)
  case (Suc todo)
  have s: "(\<forall>i. 32 - Suc todo \<le> i \<and> i < 32 \<longrightarrow> P i) \<longleftrightarrow> P (32 - Suc todo) \<and> (\<forall>i. 32 - todo \<le> i \<and> i < 32 \<longrightarrow> P i)" for P
  proof (intro iffI conjI allI impI)
    fix i assume h: "P (32 - Suc todo) \<and> (\<forall>i. 32 - todo \<le> i \<and> i < 32 \<longrightarrow> P i)" "32 - Suc todo \<le> i \<and> i < 32"
    show "P i" using h Suc.prems by (cases "i = 32 - Suc todo") auto
  qed (use Suc.prems in auto)
  show ?case unfolding s using Suc by (auto simp: Let_def not_le)
qed auto

lemma public_input_at:
  "assert_public_input_at bs index e = Inr () \<longleftrightarrow>
     length e = 32 \<and> index * 32 + 32 \<le> length bs \<and> take 32 (drop (index * 32) bs) = e"
proof -
  have "public_input_loop bs (index * 32) e 32 = Inr () \<longleftrightarrow> index * 32 + 32 \<le> length bs \<and> take 32 (drop (index * 32) bs) = e"
    if e: "length e = 32"
  proof -
    have "public_input_loop bs (index * 32) e 32 = Inr () \<longleftrightarrow> (\<forall>i < 32. index * 32 + i < length bs \<and> bs ! (index * 32 + i) = e ! i)"
      by (simp add: input_loop)
    also have "\<dots> \<longleftrightarrow> (\<forall>i < 32. index * 32 + i < length bs) \<and> (\<forall>i < 32. bs ! (index * 32 + i) = e ! i)" by blast
    also have "(\<forall>i < 32. index * 32 + i < length bs) \<longleftrightarrow> index * 32 + 32 \<le> length bs" by (auto dest: spec [of _ 31])
    also have "index * 32 + 32 \<le> length bs \<and> (\<forall>i < 32. bs ! (index * 32 + i) = e ! i) \<longleftrightarrow> index * 32 + 32 \<le> length bs \<and> take 32 (drop (index * 32) bs) = e"
      using e by (auto simp: list_eq_iff_nth_eq)
    finally show ?thesis .
  qed
  then show ?thesis by (auto simp: assert_public_input_at_def js_bind_Inr_iff)
qed


lemma inputs_from:
  "assert_inputs_from bs index xs = Inr () \<longleftrightarrow>
     (\<forall>x \<in> set xs. length x = 32) \<and> (xs \<noteq> [] \<longrightarrow> (index + length xs) * 32 \<le> length bs) \<and>
     take (length xs * 32) (drop (index * 32) bs) = concat xs"
proof (induction xs arbitrary: index)
  case (Cons x xs)
  have step: "take ((Suc (length xs)) * 32) (drop (index * 32) bs) =
      take 32 (drop (index * 32) bs) @ take (length xs * 32) (drop (Suc index * 32) bs)"
    using take_add [of 32 "length xs * 32" "drop (index * 32) bs"] by (simp add: add.commute)
  have "take ((Suc (length xs)) * 32) (drop (index * 32) bs) = x @ concat xs \<longleftrightarrow>
      take 32 (drop (index * 32) bs) = x \<and> take (length xs * 32) (drop (Suc index * 32) bs) = concat xs"
    if "length x = 32" "index * 32 + 32 \<le> length bs"
    unfolding step using that by (intro append_eq_append_conv) simp
  then show ?case
    by (auto simp: js_bind_Inr_iff public_input_at Cons.IH algebra_simps simp del: take_append)
qed simp

text \<open>The public inputs are the root, the hash of the bound parameters, the nullifiers and the commitments.\<close>

lemma public_inputs_bound:
  "assert_public_input_at bs 0 root = Inr () \<and> assert_bound_public_inputs bs (length ns) (length cs) ns cs = Inr () \<longleftrightarrow>
     length root = 32 \<and> (\<forall>x \<in> set (ns @ cs). length x = 32) \<and>
     (\<exists>bound. length bound = 32 \<and> bs = root @ bound @ concat ns @ concat cs)" (is "?l \<longleftrightarrow> ?r")
proof
  assume ?l
  then have h: "length root = 32" "take 32 bs = root" "length bs = (2 + length ns + length cs) * 32" "\<forall>x \<in> set (ns @ cs). length x = 32"
    "take (length ns * 32) (drop 64 bs) = concat ns" "take (length cs * 32) (drop ((2 + length ns) * 32) bs) = concat cs"
    by (auto simp: public_input_at assert_bound_public_inputs_def js_bind_Inr_iff inputs_from)
  have "bs = take 32 bs @ take 32 (drop 32 bs) @ take (length ns * 32) (drop 64 bs) @ drop (length ns * 32) (drop 64 bs)"
    by (metis append_take_drop_id drop_drop numeral_Bit0)
  moreover have "drop (length ns * 32) (drop 64 bs) = concat cs"
    using h(3,6) by (simp add: algebra_simps)
  ultimately have "bs = root @ take 32 (drop 32 bs) @ concat ns @ concat cs" using h(2,5) by simp
  moreover have "length (take 32 (drop 32 bs)) = 32" using h(3) by simp
  ultimately show ?r using h(1,4) by blast
next
  assume ?r
  then obtain bound where b: "length root = 32" "\<forall>x \<in> set (ns @ cs). length x = 32" "length bound = 32" "bs = root @ bound @ concat ns @ concat cs"
    by blast
  have l: "length (concat ns) = length ns * 32" "length (concat cs) = length cs * 32" using b(2) by (auto intro: length_concat_width)
  show ?l using b(1,2,3) l unfolding b(4) by (simp add: public_input_at assert_bound_public_inputs_def inputs_from algebra_simps js_bind_Inr_iff)
qed

lemma spend_all_iff:
  "spend_all pid spent ns = Inr (spent', evs) \<longleftrightarrow>
     distinct ns \<and> set ns \<inter> set spent = {} \<and> spent' = spent @ ns \<and> evs = map (Nullifier_spent pid) ns"
proof (induction ns arbitrary: spent spent' evs)
  case (Cons n ns)
  then show ?case
    by (auto simp: js_bind_Inr_iff record_spend_def nullifier_contains_def list_ex_iff)
qed auto

text \<open>The effect of inserting commitments.\<close>

fun root_chain :: "sha \<Rightarrow> bytes \<Rightarrow> bytes list \<Rightarrow> bytes" where
  "root_chain H root [] = root"
| "root_chain H root (c # cs) = root_chain H (H (root @ c)) cs"

fun insert_events :: "sha \<Rightarrow> address \<Rightarrow> int \<Rightarrow> int \<Rightarrow> bytes \<Rightarrow> bytes list \<Rightarrow> move_event list" where
  "insert_events H pid leaf i root [] = []"
| "insert_events H pid leaf i root (c # cs) =
     Commitment_inserted pid leaf c # Merkle_root_updated pid (i + 1) (H (root @ c)) # insert_events H pid (leaf + 1) (i + 1) (H (root @ c)) cs"

lemma insert_all_iff:
  assumes "sha_ok H" "\<not> p_paused pool" "length (p_latest_root pool) = 32"
  shows "insert_all H pool cs = Inr (pool', evs) \<longleftrightarrow>
     (\<forall>c \<in> set cs. length c = 32) \<and> (cs \<noteq> [] \<longrightarrow> p_next_leaf_index pool + int (length cs) < 2 ^ 64 \<and> p_latest_root_index pool + int (length cs) < 2 ^ 64) \<and>
     pool' = pool\<lparr> p_next_leaf_index := p_next_leaf_index pool + int (length cs), p_latest_root_index := p_latest_root_index pool + int (length cs),
                   p_latest_root := root_chain H (p_latest_root pool) cs \<rparr> \<and>
     evs = insert_events H (p_id pool) (p_next_leaf_index pool) (p_latest_root_index pool) (p_latest_root pool) cs"
  using assms(2,3)
proof (induction cs arbitrary: pool pool' evs)
  case (Cons c cs)
  have r: "length (H (p_latest_root pool @ c)) = 32" using assms(1) by (simp add: sha_ok_def)
  let ?p = "pool\<lparr> p_next_leaf_index := p_next_leaf_index pool + 1, p_latest_root_index := p_latest_root_index pool + 1,
      p_latest_root := H (p_latest_root pool @ c) \<rparr>"
  have one: "insert_commitment H pool c = Inr (p1, e1) \<longleftrightarrow>
      length c = 32 \<and> p_next_leaf_index pool + 1 < 2 ^ 64 \<and> p_latest_root_index pool + 1 < 2 ^ 64 \<and> p1 = ?p \<and>
      e1 = [Commitment_inserted (p_id pool) (p_next_leaf_index pool) c, Merkle_root_updated (p_id pool) (p_latest_root_index pool + 1) (H (p_latest_root pool @ c))]"
    for p1 e1
    using Cons.prems
    by (auto simp: insert_commitment_def assert_not_paused_def js_bind_Inr_iff increment_leaf_index_def u64_add_def derive_next_root_def
        set_latest_root_def FIELD_BYTES_LEN_def split: if_split_asm)
  have IH: "insert_all H ?p cs = Inr (pool', evs2) \<longleftrightarrow>
     (\<forall>c \<in> set cs. length c = 32) \<and> (cs \<noteq> [] \<longrightarrow> p_next_leaf_index ?p + int (length cs) < 2 ^ 64 \<and> p_latest_root_index ?p + int (length cs) < 2 ^ 64) \<and>
     pool' = ?p\<lparr> p_next_leaf_index := p_next_leaf_index ?p + int (length cs), p_latest_root_index := p_latest_root_index ?p + int (length cs),
                   p_latest_root := root_chain H (p_latest_root ?p) cs \<rparr> \<and>
     evs2 = insert_events H (p_id ?p) (p_next_leaf_index ?p) (p_latest_root_index ?p) (p_latest_root ?p) cs" for evs2
    using Cons.prems r by (intro Cons.IH) simp_all
  have "insert_all H pool (c # cs) = Inr (pool', evs) \<longleftrightarrow>
      (\<exists>e1 e2. insert_commitment H pool c = Inr (?p, e1) \<and> insert_all H ?p cs = Inr (pool', e2) \<and> evs = e1 @ e2)"
    using one by (auto simp: js_bind_Inr_iff)
  then show ?case unfolding one IH by (cases cs) (auto simp: algebra_simps)
qed auto


lemma transact_iff:
  assumes "sha_ok H" "length (p_latest_root pool) = 32"
  shows "transact G H pool spent keys ni no vk_hash inputs points ns cs = Inr (pool', spent', evs) \<longleftrightarrow>
    \<not> p_paused pool \<and> length ns = ni \<and> length cs = no \<and> (\<forall>x \<in> set (ns @ cs). length x = 32) \<and>
    (\<exists>bound. length bound = 32 \<and> inputs = p_latest_root pool @ bound @ concat ns @ concat cs) \<and>
    verify_join_split G keys ni no vk_hash inputs points = Inr True \<and>
    distinct ns \<and> set ns \<inter> set spent = {} \<and>
    (cs \<noteq> [] \<longrightarrow> p_next_leaf_index pool + int no < 2 ^ 64 \<and> p_latest_root_index pool + int no < 2 ^ 64) \<and>
    spent' = spent @ ns \<and>
    pool' = pool\<lparr> p_next_leaf_index := p_next_leaf_index pool + int no, p_latest_root_index := p_latest_root_index pool + int no,
                  p_latest_root := root_chain H (p_latest_root pool) cs \<rparr> \<and>
    evs = Join_split_verified (p_id pool) ni no vk_hash # map (Nullifier_spent (p_id pool)) ns @
      insert_events H (p_id pool) (p_next_leaf_index pool) (p_latest_root_index pool) (p_latest_root pool) cs"
    (is "_ \<longleftrightarrow> ?r")
proof -
  have "transact G H pool spent keys ni no vk_hash inputs points ns cs = Inr (pool', spent', evs) \<longleftrightarrow>
      \<not> p_paused pool \<and> length ns = ni \<and> length cs = no \<and>
      (assert_public_input_at inputs 0 (p_latest_root pool) = Inr () \<and> assert_bound_public_inputs inputs ni no ns cs = Inr ()) \<and>
      verify_join_split G keys ni no vk_hash inputs points = Inr True \<and>
      (\<exists>ev1 ev2. spend_all (p_id pool) spent ns = Inr (spent', ev1) \<and> insert_all H pool cs = Inr (pool', ev2) \<and>
         evs = Join_split_verified (p_id pool) ni no vk_hash # ev1 @ ev2)"
    unfolding transact_def assert_not_paused_def by (auto simp: js_bind_Inr_iff)
  also have "\<dots> \<longleftrightarrow> ?r"
    using insert_all_iff [OF assms(1) _ assms(2), of cs] public_inputs_bound [of inputs "p_latest_root pool" ns cs] assms(2)
    by (auto simp: spend_all_iff)
  finally show ?thesis .
qed

section \<open>Effects of calls\<close>

text \<open>What a successful call can do to the ledger.\<close>

inductive sui_effect :: "('vk, 'pi, 'pp) groth16 \<Rightarrow> sha \<Rightarrow> address \<Rightarrow> address \<times> address \<Rightarrow> 'vk sui_ledger \<Rightarrow> 'vk sui_ledger \<Rightarrow> bool" for G H sender new L where
  pool: "pool_initialize (fst new) d root = Inr (p, evs) \<Longrightarrow>
    sui_effect G H sender new L (emit evs (L\<lparr> l_pools := (l_pools L)(fst new \<mapsto> p), l_admin_caps := (l_admin_caps L)(snd new \<mapsto> sender) \<rparr>))"
| paused: "l_pools L a = Some p \<Longrightarrow> l_admin_caps L cap = Some sender \<Longrightarrow> set_paused p v = (p', evs) \<Longrightarrow>
    sui_effect G H sender new L (emit evs (L\<lparr> l_pools := (l_pools L)(a \<mapsto> p') \<rparr>))"
| registry: "sui_effect G H sender new L (L\<lparr> l_nullifiers := (l_nullifiers L)(fst new \<mapsto> []) \<rparr>)"
| spend: "l_pools L a = Some p \<Longrightarrow> l_nullifiers L r = Some spent \<Longrightarrow> nullifier_spend p spent n = Inr (spent', evs) \<Longrightarrow>
    sui_effect G H sender new L (emit evs (L\<lparr> l_nullifiers := (l_nullifiers L)(r \<mapsto> spent') \<rparr>))"
| keys: "l_keys L r = Some ks \<or> r = fst new \<Longrightarrow> evs \<in> {[], [Verifying_key_registered r ni no np h]} \<Longrightarrow>
    sui_effect G H sender new L (emit evs (L\<lparr> l_keys := (l_keys L)(r \<mapsto> ks') \<rparr>))"
| transact: "l_pools L a = Some p \<Longrightarrow> l_nullifiers L r = Some spent \<Longrightarrow> l_keys L v = Some ks \<Longrightarrow>
    transact G H p spent ks ni no h inputs points ns cs = Inr (p', spent', evs) \<Longrightarrow>
    sui_effect G H sender new L (emit evs (L\<lparr> l_pools := (l_pools L)(a \<mapsto> p'), l_nullifiers := (l_nullifiers L)(r \<mapsto> spent') \<rparr>))"
| claims: "sui_effect G H sender new L (L\<lparr> l_claims := (l_claims L)(fst new \<mapsto> []) \<rparr>)"
| deposit: "l_pools L a = Some p \<Longrightarrow> l_claims L r = Some claimed \<Longrightarrow> l_verified L d = Some (sender, v) \<Longrightarrow>
    complete_verified_deposit p claimed v = Inr (p', claimed', evs) \<Longrightarrow>
    sui_effect G H sender new L (emit evs (L\<lparr> l_pools := (l_pools L)(a \<mapsto> p'), l_claims := (l_claims L)(r \<mapsto> claimed'),
      l_verified := (l_verified L)(d := None) \<rparr>))"
| queue: "sui_effect G H sender new L
    (L\<lparr> l_queues := (l_queues L)(fst new \<mapsto> []), l_redemption_caps := (l_redemption_caps L)(snd new \<mapsto> sender) \<rparr>)"
| request: "l_pools L a = Some p \<Longrightarrow> l_queues L q = Some rs \<Longrightarrow> l_redemption_caps L cap = Some sender \<Longrightarrow>
    request_redemption p rs btc amount fee = Inr (p', rs', evs) \<Longrightarrow>
    sui_effect G H sender new L (emit evs (L\<lparr> l_pools := (l_pools L)(a \<mapsto> p'), l_queues := (l_queues L)(q \<mapsto> rs') \<rparr>))"
| complete: "l_pools L a = Some p \<Longrightarrow> l_queues L q = Some rs \<Longrightarrow> l_redemption_caps L cap = Some sender \<Longrightarrow>
    complete_redemption p rs rid txid = Inr (rs', evs) \<Longrightarrow>
    sui_effect G H sender new L (emit evs (L\<lparr> l_queues := (l_queues L)(q \<mapsto> rs') \<rparr>))"
| approve: "l_pools L a = Some p \<Longrightarrow> l_queues L q = Some rs \<Longrightarrow> approve_signing p rs rid sighash = Inr evs \<Longrightarrow>
    sui_effect G H sender new L (emit evs L)"

lemma borrow_shared_Inr: "borrow_shared m arg = Inr (a, x) \<Longrightarrow> m a = Some x"
  by (auto simp: borrow_shared_def split: sui_arg.split_asm option.split_asm)

lemma borrow_shared_mut_Inr: "borrow_shared_mut m arg = Inr (a, x) \<Longrightarrow> m a = Some x"
  by (auto simp: borrow_shared_mut_def dest: borrow_shared_Inr split: sui_arg.split_asm if_split_asm)

lemma use_cap_Inr: "use_cap m sender arg = Inr u \<Longrightarrow> \<exists>a. m a = Some sender"
  by (auto simp: use_cap_def split: sui_arg.split_asm option.split_asm if_split_asm)

lemma take_verified_Inr: "take_verified L sender arg = Inr (d, v) \<Longrightarrow> l_verified L d = Some (sender, v)"
  by (auto simp: take_verified_def split: sui_arg.split_asm option.split_asm if_split_asm)

lemma register_events:
  "register_prepared_key G r ks ni no np h ga ab gn dn = Inr (ks', evs) \<Longrightarrow> evs = [Verifying_key_registered r ni no np h]"
  "register_raw_key G r ks ni no np h raw = Inr (ks', evs) \<Longrightarrow> evs = [Verifying_key_registered r ni no np h]"
  by (auto simp: register_prepared_key_def register_raw_key_def js_bind_Inr_iff)

lemmas borrowed = borrow_shared_Inr borrow_shared_mut_Inr use_cap_Inr take_verified_Inr

lemma arg_cases:
  "(case args of [a, b] \<Rightarrow> f2 a b | _ \<Rightarrow> Inl e) = Inr L' \<Longrightarrow> \<exists>a b. f2 a b = Inr L'"
  "(case args of [a, b, c] \<Rightarrow> f3 a b c | _ \<Rightarrow> Inl e) = Inr L' \<Longrightarrow> \<exists>a b c. f3 a b c = Inr L'"
  "(case args of [a, b, c, d] \<Rightarrow> f4 a b c d | _ \<Rightarrow> Inl e) = Inr L' \<Longrightarrow> \<exists>a b c d. f4 a b c d = Inr L'"
  "(case args of [a, b, c, d, x] \<Rightarrow> f5 a b c d x | _ \<Rightarrow> Inl e) = Inr L' \<Longrightarrow> \<exists>a b c d x. f5 a b c d x = Inr L'"
  "(case args of [a, b, c, d, x, y] \<Rightarrow> f6 a b c d x y | _ \<Rightarrow> Inl e) = Inr L' \<Longrightarrow> \<exists>a b c d x y. f6 a b c d x y = Inr L'"
  "(case args of [a, b, c, d, x, y, z] \<Rightarrow> f7 a b c d x y z | _ \<Rightarrow> Inl e) = Inr L' \<Longrightarrow> \<exists>a b c d x y z. f7 a b c d x y z = Inr L'"
  "(case args of [a, b, c, d, x, y, z, u, v, w] \<Rightarrow> f10 a b c d x y z u v w | _ \<Rightarrow> Inl e) = Inr L' \<Longrightarrow>
     \<exists>a b c d x y z u v w. f10 a b c d x y z u v w = Inr L'"
  by (auto split: list.split_asm; blast)+

lemma call_pool_initialize_effect: "call_pool_initialize sender new args L = Inr L' \<Longrightarrow> sui_effect G H sender new L L'"
  unfolding call_pool_initialize_def
  by (drule arg_cases(1), elim exE) (auto simp: js_bind_Inr_iff Let_def split: prod.split_asm dest!: borrowed intro: sui_effect.pool)

lemma call_set_paused_effect: "call_set_paused sender args L = Inr L' \<Longrightarrow> sui_effect G H sender new L L'"
  unfolding call_set_paused_def
  by (drule arg_cases(2), elim exE)
    (auto simp: js_bind_Inr_iff Let_def set_paused_def dest!: borrowed intro: sui_effect.paused [OF _ _ set_paused_def])

lemma call_spend_effect: "call_spend args L = Inr L' \<Longrightarrow> sui_effect G H sender new L L'"
  unfolding call_spend_def
  by (drule arg_cases(2), elim exE) (auto simp: js_bind_Inr_iff Let_def split: prod.split_asm dest!: borrowed intro: sui_effect.spend)

lemma call_register_prepared_key_effect: "call_register_prepared_key G sender args L = Inr L' \<Longrightarrow> sui_effect G H sender new L L'"
  unfolding call_register_prepared_key_def
  by (drule arg_cases(7), elim exE) (auto simp: js_bind_Inr_iff Let_def split: prod.split_asm dest!: borrowed register_events intro: sui_effect.keys)

lemma call_register_raw_key_effect: "call_register_raw_key G sender args L = Inr L' \<Longrightarrow> sui_effect G H sender new L L'"
  unfolding call_register_raw_key_def
  by (drule arg_cases(6), elim exE) (auto simp: js_bind_Inr_iff Let_def split: prod.split_asm dest!: borrowed register_events intro: sui_effect.keys)

lemma call_transact_effect: "call_transact G H args L = Inr L' \<Longrightarrow> sui_effect G H sender new L L'"
  unfolding call_transact_def
  by (drule arg_cases(7), elim exE) (auto simp: js_bind_Inr_iff Let_def split: prod.split_asm dest!: borrowed intro: sui_effect.transact)

lemma call_complete_deposit_effect: "call_complete_deposit sender args L = Inr L' \<Longrightarrow> sui_effect G H sender new L L'"
  unfolding call_complete_deposit_def
  by (drule arg_cases(2), elim exE) (auto simp: js_bind_Inr_iff Let_def split: prod.split_asm dest!: borrowed intro: sui_effect.deposit)

lemma call_request_redemption_effect: "call_request_redemption sender args L = Inr L' \<Longrightarrow> sui_effect G H sender new L L'"
  unfolding call_request_redemption_def
  by (drule arg_cases(5), elim exE) (auto simp: js_bind_Inr_iff Let_def split: prod.split_asm dest!: borrowed intro: sui_effect.request)

lemma call_complete_redemption_effect: "call_complete_redemption sender args L = Inr L' \<Longrightarrow> sui_effect G H sender new L L'"
  unfolding call_complete_redemption_def
  by (drule arg_cases(4), elim exE) (auto simp: js_bind_Inr_iff Let_def split: prod.split_asm dest!: borrowed intro: sui_effect.complete)

lemma call_approve_signing_effect: "call_approve_signing args L = Inr L' \<Longrightarrow> sui_effect G H sender new L L'"
  unfolding call_approve_signing_def
  by (drule arg_cases(3), elim exE) (auto simp: js_bind_Inr_iff Let_def split: prod.split_asm dest!: borrowed intro: sui_effect.approve)


lemma emit_Nil [simp]: "emit [] L = L"
  by (simp add: emit_def)

lemma exec_effect: "run_call G H pkg sender new c L = Inr L' \<Longrightarrow> sui_effect G H sender new L L'"
  unfolding run_call_def Let_def
  by (auto split: if_split_asm
      intro: call_pool_initialize_effect call_set_paused_effect call_spend_effect call_register_prepared_key_effect call_register_raw_key_effect
        call_transact_effect call_complete_deposit_effect call_request_redemption_effect call_complete_redemption_effect
        call_approve_signing_effect sui_effect.registry sui_effect.claims sui_effect.queue
        sui_effect.keys [where evs = "[]" and r = "fst new", unfolded emit_Nil])

section \<open>Invariants\<close>

definition leaf_indices :: "address \<Rightarrow> move_event list \<Rightarrow> int list" where
  "leaf_indices a evs = concat (map (\<lambda>e. case e of Commitment_inserted b i c \<Rightarrow> if a = b then [i] else [] | _ \<Rightarrow> []) evs)"

definition pool_inv :: "'vk sui_ledger \<Rightarrow> address \<Rightarrow> bool" where
  "pool_inv L a \<longleftrightarrow>
     (case l_pools L a of
        None \<Rightarrow> leaf_indices a (l_events L) = []
      | Some p \<Rightarrow> p_id p = a \<and> length (p_latest_root p) = 32 \<and> 0 \<le> p_next_leaf_index p \<and>
          leaf_indices a (l_events L) = map int [0..<nat (p_next_leaf_index p)])"

definition ledger_inv :: "'vk sui_ledger \<Rightarrow> bool" where
  "ledger_inv L \<longleftrightarrow> (\<forall>a. pool_inv L a) \<and> (\<forall>r spent. l_nullifiers L r = Some spent \<longrightarrow> distinct spent) \<and>
     (\<forall>r claimed. l_claims L r = Some claimed \<longrightarrow> distinct claimed)"

lemma leaf_indices_simps [simp]:
  "leaf_indices a [] = []"
  "leaf_indices a (xs @ ys) = leaf_indices a xs @ leaf_indices a ys"
  "leaf_indices a (Commitment_inserted b i c # evs) = (if a = b then i # leaf_indices a evs else leaf_indices a evs)"
  "leaf_indices a (Merkle_root_updated b i c # evs) = leaf_indices a evs"
  "leaf_indices a (Join_split_verified b n m h # evs) = leaf_indices a evs"
  "leaf_indices a (Btc_deposit_verified b i t v m2 e k c # evs) = leaf_indices a evs"
  "leaf_indices a (Nullifier_spent b nf # evs) = leaf_indices a evs"
  "leaf_indices a (Pool_created b d x # evs) = leaf_indices a evs"
  by (simp_all add: leaf_indices_def)

lemma spent_events: "leaf_indices a (map (Nullifier_spent b) ns) = []"
  by (induction ns) simp_all

lemma insert_leaf_indices:
  "leaf_indices a (insert_events H b leaf i root cs) = (if a = b then map (\<lambda>k. leaf + int k) [0..<length cs] else [])"
proof (induction cs arbitrary: leaf i root)
  case (Cons c cs)
  have "map (\<lambda>k. leaf + int k) [0..<Suc (length cs)] = leaf # map (\<lambda>k. leaf + 1 + int k) [0..<length cs]"
    by (subst upt_conv_Cons) (simp_all add: map_Suc_upt [symmetric] del: upt_Suc)
  then show ?case using Cons by (cases "a = b") (simp_all del: upt_Suc)
qed simp

text \<open>Effects on one pool: the leaf indices it emits continue the count.\<close>

definition continues :: "Pool \<Rightarrow> Pool \<Rightarrow> move_event list \<Rightarrow> bool" where
  "continues p p' evs \<longleftrightarrow> p_id p' = p_id p \<and> length (p_latest_root p') = 32 \<and> p_next_leaf_index p \<le> p_next_leaf_index p' \<and>
     (\<forall>a. leaf_indices a evs = (if a = p_id p then map (\<lambda>k. p_next_leaf_index p + int k) [0..<nat (p_next_leaf_index p' - p_next_leaf_index p)] else []))"

lemma root_chain_length: "sha_ok H \<Longrightarrow> length root = 32 \<Longrightarrow> length (root_chain H root cs) = 32"
  by (induction cs arbitrary: root) (simp_all add: sha_ok_def)

lemma continues_same: "length (p_latest_root p) = 32 \<Longrightarrow> p_id p' = p_id p \<Longrightarrow> p_latest_root p' = p_latest_root p \<Longrightarrow>
    p_next_leaf_index p' = p_next_leaf_index p \<Longrightarrow> (\<And>a. leaf_indices a evs = []) \<Longrightarrow> continues p p' evs"
  by (simp add: continues_def)

lemma deposit_continues:
  assumes "complete_verified_deposit p claimed d = Inr (p', claimed', evs)" "length (p_latest_root p) = 32"
  shows "continues p p' evs"
proof -
  have l: "length (v_verified_root d) = 32" "p' = p\<lparr> p_next_leaf_index := p_next_leaf_index p + 1,
       p_latest_root_index := p_latest_root_index p + 1, p_latest_root := v_verified_root d \<rparr>"
    "leaf_indices a evs = (if a = p_id p then [p_next_leaf_index p] else [])" for a
    using assms(1) unfolding complete_verified_deposit_def increment_leaf_index_def set_latest_root_def u64_add_def FIELD_BYTES_LEN_def
    by (auto simp: js_bind_Inr_iff Let_def split: if_split_asm)
  then show ?thesis by (simp add: continues_def)
qed

lemma transact_continues:
  assumes "sha_ok H" "length (p_latest_root p) = 32" "transact G H p spent ks ni no h inputs points ns cs = Inr (p', spent', evs)"
  shows "continues p p' evs"
  using assms(3) unfolding transact_iff [OF assms(1,2)]
  by (auto simp: continues_def spent_events insert_leaf_indices root_chain_length [OF assms(1,2)])


lemma pool_invD:
  "pool_inv L a \<Longrightarrow> l_pools L a = Some p \<Longrightarrow> p_id p = a \<and> length (p_latest_root p) = 32 \<and> 0 \<le> p_next_leaf_index p \<and>
     leaf_indices a (l_events L) = map int [0..<nat (p_next_leaf_index p)]"
  by (simp add: pool_inv_def)

lemma map_int_split: "map int [0..<n + m] = map int [0..<n] @ map (\<lambda>k. int n + int k) [0..<m]"
  by (induction m) simp_all

lemma pool_inv_update:
  assumes "pool_inv L a" "\<forall>b. pool_inv L b" "l_pools L a' = Some p" "continues p p' evs"
    "l_pools L' = (l_pools L)(a' \<mapsto> p')" "l_events L' = l_events L @ evs"
  shows "pool_inv L' a"
proof -
  have p: "p_id p = a'" "0 \<le> p_next_leaf_index p" "leaf_indices a' (l_events L) = map int [0..<nat (p_next_leaf_index p)]"
    using pool_invD [OF assms(2) [rule_format, of a'] assms(3)] by simp_all
  show ?thesis
  proof (cases "a = a'")
    case True
    let ?n = "nat (p_next_leaf_index p)" and ?m = "nat (p_next_leaf_index p' - p_next_leaf_index p)"
    have n: "nat (p_next_leaf_index p') = ?n + ?m" "int ?n = p_next_leaf_index p" 
      using conjunct1 [OF conjunct2 [OF conjunct2 [OF assms(4) [unfolded continues_def]]]] p(2) by simp_all
    have "map int [0..<nat (p_next_leaf_index p')] = map int [0..<?n] @ map (\<lambda>k. p_next_leaf_index p + int k) [0..<?m]"
      unfolding n(1) map_int_split n(2) ..
    then show ?thesis using True assms(4,5,6) p by (simp add: pool_inv_def continues_def)
  next
    case False
    then show ?thesis using assms(1,4,5,6) p(1) by (cases "l_pools L a") (simp_all add: pool_inv_def continues_def)
  qed
qed

lemma pool_inv_events:
  "pool_inv L a \<Longrightarrow> l_pools L' = l_pools L \<Longrightarrow> l_events L' = l_events L @ evs \<Longrightarrow> leaf_indices a evs = [] \<Longrightarrow> pool_inv L' a"
  by (cases "l_pools L a") (simp_all add: pool_inv_def)

lemma transact_spent:
  "transact G H p spent ks ni no h inputs points ns cs = Inr (p', spent', evs) \<Longrightarrow>
     spent' = spent @ ns \<and> distinct ns \<and> set ns \<inter> set spent = {}"
  unfolding transact_def by (auto simp: js_bind_Inr_iff spend_all_iff)

lemma spend_spent: "nullifier_spend p spent n = Inr (spent', evs) \<Longrightarrow> spent' = spent @ [n] \<and> n \<notin> set spent \<and> leaf_indices a evs = []"
  by (auto simp: nullifier_spend_def record_spend_def nullifier_contains_def list_ex_iff js_bind_Inr_iff)

lemma deposit_claimed:
  "complete_verified_deposit p claimed d = Inr (p', claimed', evs) \<Longrightarrow>
     claimed' = claimed @ [outpoint_key (v_deposit_txid d) (v_deposit_vout d)] \<and> outpoint_key (v_deposit_txid d) (v_deposit_vout d) \<notin> set claimed"
  unfolding complete_verified_deposit_def by (auto simp: js_bind_Inr_iff Let_def contains_claim_def list_ex_iff)

text \<open>A registry only grows.\<close>

lemma effect_grows:
  assumes "sui_effect G H sender new L L'" "fst new \<notin> used L"
  shows "l_nullifiers L r = Some spent \<Longrightarrow> \<exists>more. l_nullifiers L' r = Some (spent @ more)"
    and "l_claims L q = Some claimed \<Longrightarrow> \<exists>more. l_claims L' q = Some (claimed @ more)"
  using assms by (cases; auto simp: emit_def used_def dest!: transact_spent spend_spent deposit_claimed)+

lemma effect_distinct:
  assumes "sui_effect G H sender new L L'" "ledger_inv L"
  shows "l_nullifiers L' r = Some spent \<Longrightarrow> distinct spent" and "l_claims L' q = Some claimed \<Longrightarrow> distinct claimed"
  using assms by (cases; auto simp: ledger_inv_def emit_def split: if_split_asm dest!: transact_spent spend_spent deposit_claimed)+

lemma effect_pool_inv:
  assumes "sui_effect G H sender new L L'" "\<forall>a. pool_inv L a" "sha_ok H" "fst new \<notin> used L"
  shows "pool_inv L' a"
  using assms(1)
proof cases
  case (pool d root p evs)
  have fresh: "l_pools L (fst new) = None" using assms(4) by (auto simp: used_def)
  have "evs = [Pool_created (fst new) d PROTOCOL_VERSION]" "p_id p = fst new" "length (p_latest_root p) = 32" "p_next_leaf_index p = 0"
    using pool(2) by (auto simp: pool_initialize_def js_bind_Inr_iff FIELD_BYTES_LEN_def)
  moreover have "leaf_indices (fst new) (l_events L) = []" using assms(2) [rule_format, of "fst new"] fresh by (simp add: pool_inv_def)
  ultimately show ?thesis using assms(2) [rule_format, of a] fresh unfolding pool(1)
    by (cases "a = fst new"; cases "l_pools L a") (simp_all add: pool_inv_def emit_def)
next
  case (paused a' p cap v p' evs)
  have "continues p p' evs" using paused(4) pool_invD [OF assms(2) [rule_format] paused(2)]
    by (intro continues_same) (auto simp: set_paused_def leaf_indices_def)
  then show ?thesis unfolding paused(1) by (rule pool_inv_update [OF assms(2) [rule_format] assms(2) paused(2)]) (simp_all add: emit_def)
next
  case (transact a' p r spent v ks ni no h inputs points ns cs p' spent' evs)
  have "length (p_latest_root p) = 32" using pool_invD [OF assms(2) [rule_format] transact(2)] by simp
  from transact_continues [OF assms(3) this transact(5)] show ?thesis
    unfolding transact(1) by (rule pool_inv_update [OF assms(2) [rule_format] assms(2) transact(2)]) (simp_all add: emit_def)
next
  case (deposit a' p r claimed d v p' claimed' evs)
  have "length (p_latest_root p) = 32" using pool_invD [OF assms(2) [rule_format] deposit(2)] by simp
  from deposit_continues [OF deposit(5) this] show ?thesis
    unfolding deposit(1) by (rule pool_inv_update [OF assms(2) [rule_format] assms(2) deposit(2)]) (simp_all add: emit_def)
next
  case (request a' p q rs cap btc amount fee p' rs' evs)
  have "continues p p' evs" using request(5) pool_invD [OF assms(2) [rule_format] request(2)]
    by (intro continues_same)
      (auto simp: request_redemption_def allocate_redemption_id_def u64_add_def js_bind_Inr_iff leaf_indices_def split: if_split_asm)
  then show ?thesis unfolding request(1) by (rule pool_inv_update [OF assms(2) [rule_format] assms(2) request(2)]) (simp_all add: emit_def)
next
  case (spend a' p r spent n spent' evs)
  have "leaf_indices a evs = []" using spend_spent [OF spend(4)] by simp
  then show ?thesis unfolding spend(1) by (intro pool_inv_events [OF assms(2) [rule_format]]) (simp_all add: emit_def)
next
  case (keys r ks evs ni no np h ks')
  have "leaf_indices a evs = []" using keys(3) by (auto simp: leaf_indices_def)
  then show ?thesis unfolding keys(1) by (intro pool_inv_events [OF assms(2) [rule_format]]) (simp_all add: emit_def)
next
  case (complete a' p q rs cap rid txid rs' evs)
  have "leaf_indices a evs = []" using complete(5) by (auto simp: leaf_indices_def complete_redemption_def js_bind_Inr_iff)
  then show ?thesis unfolding complete(1) by (intro pool_inv_events [OF assms(2) [rule_format]]) (simp_all add: emit_def)
next
  case (approve a' p q rs rid sighash evs)
  have "leaf_indices a evs = []" using approve(4) by (auto simp: leaf_indices_def approve_signing_def js_bind_Inr_iff)
  then show ?thesis unfolding approve(1) by (intro pool_inv_events [OF assms(2) [rule_format]]) (simp_all add: emit_def)
qed (rule pool_inv_events [OF assms(2) [rule_format], where evs = "[]"]; simp)+

lemma run_inv:
  assumes "sui_run G H pkg L0 L" "sha_ok H" "ledger_inv L0"
  shows "ledger_inv L"
  using assms(1)
proof induction
  case (call L new sender c L')
  note e = exec_effect [OF call.hyps(4)]
  show ?case unfolding ledger_inv_def
    using effect_pool_inv [OF e _ assms(2) call.hyps(2)] effect_distinct [OF e call.IH] call.IH by (auto simp: ledger_inv_def)
next
  case (verified L a txid vout amount payload commitment root d owner)
  then show ?case by (auto simp: ledger_inv_def intro: pool_inv_events [where L = L and evs = "[]"])
qed (rule assms(3))

lemma empty_inv: "ledger_inv empty_sui_ledger"
  by (simp add: ledger_inv_def pool_inv_def empty_sui_ledger_def)

lemma run_grows:
  assumes "sui_run G H pkg L0 L"
  shows "l_nullifiers L0 r = Some spent \<Longrightarrow> \<exists>more. l_nullifiers L r = Some (spent @ more)"
    and "l_claims L0 q = Some claimed \<Longrightarrow> \<exists>more. l_claims L q = Some (claimed @ more)"
  using assms by (induction; (simp; fail)?; (auto dest!: exec_effect dest: effect_grows; fail)?; fastforce dest!: exec_effect dest: effect_grows)+


lemma outpoint_key_le: "outpoint_key txid vout = txid @ le_bytes 4 vout"
proof -
  have d: "drop_bit 16 v = v div 256 div 256" "drop_bit 24 v = v div 256 div 256 div 256" for v :: int
    by (simp_all add: drop_bit_eq_div zdiv_zmult2_eq [symmetric])
  show ?thesis unfolding outpoint_key_def word_of_int_and_255 d drop_bit_8 by (simp add: numeral_eq_Suc)
qed

lemma outpoint_key_inject:
  "length t = 32 \<Longrightarrow> length t' = 32 \<Longrightarrow> fits 4 v \<Longrightarrow> fits 4 v' \<Longrightarrow> outpoint_key t v = outpoint_key t' v' \<longleftrightarrow> t = t' \<and> v = v'"
  unfolding outpoint_key_le by (metis append_eq_append_conv fits_mod le_bytes_inject)

section \<open>Properties\<close>

text \<open>
  (C20) A transact call succeeds exactly when the pool is not paused, the public inputs are its current root, one more field, the nullifiers and the
  commitments, a registered key of that shape verifies the proof, and the nullifiers are different and not spent. Then the
  nullifiers are appended to the registry, the commitments extend the root chain, and the log has one event each.
\<close>

theorem sui_transact_correct:
  assumes "sha_ok H" "length (p_latest_root pool) = 32"
  shows "transact G H pool spent keys ni no vk_hash inputs points ns cs = Inr (pool', spent', evs) \<longleftrightarrow>
    \<not> p_paused pool \<and> length ns = ni \<and> length cs = no \<and> (\<forall>x \<in> set (ns @ cs). length x = 32) \<and>
    (\<exists>bound. length bound = 32 \<and> inputs = p_latest_root pool @ bound @ concat ns @ concat cs) \<and>
    verify_join_split G keys ni no vk_hash inputs points = Inr True \<and>
    distinct ns \<and> set ns \<inter> set spent = {} \<and>
    (cs \<noteq> [] \<longrightarrow> p_next_leaf_index pool + int no < 2 ^ 64 \<and> p_latest_root_index pool + int no < 2 ^ 64) \<and>
    spent' = spent @ ns \<and>
    pool' = pool\<lparr> p_next_leaf_index := p_next_leaf_index pool + int no, p_latest_root_index := p_latest_root_index pool + int no,
                  p_latest_root := root_chain H (p_latest_root pool) cs \<rparr> \<and>
    evs = Join_split_verified (p_id pool) ni no vk_hash # map (Nullifier_spent (p_id pool)) ns @
      insert_events H (p_id pool) (p_next_leaf_index pool) (p_latest_root_index pool) (p_latest_root pool) cs"
  by (rule transact_iff [OF assms])


text \<open>The log numbers the commitments of a pool consecutively from zero, in the order of their insertion.\<close>

theorem sui_leaf_indices:
  assumes "sha_ok H" "sui_run G H pkg empty_sui_ledger L" "l_pools L a = Some p"
  shows "leaf_indices a (l_events L) = map int [0..<nat (p_next_leaf_index p)] \<and> 0 \<le> p_next_leaf_index p \<and> p_id p = a"
  using run_inv [OF assms(2,1) empty_inv] pool_invD [of L a p] assms(3) by (simp add: ledger_inv_def)

text \<open>
  (C24) A capability is not tied to the object it is used on: every sender obtains one by creating a pool or a queue of its own, and with it pauses any
  pool, adds any verifying key that can be prepared to any registry, and requests a redemption of any amount from any pool and queue.
\<close>

theorem sui_capabilities_forgeable:
  assumes "l_pools L a = Some p" "l_keys L v = Some keys" "l_queues L q = Some requests"
    "x \<notin> used L" "y \<notin> used L" "x \<noteq> y" "length root = 32" "length vk_hash = 32" "np \<le> 8" "ni < 256" "no < 256"
    "prepare_verifying_key G raw = Inr vk" "\<not> p_paused p" "0 \<le> p_next_redemption_id p" "p_next_redemption_id p + 1 < 2 ^ 64"
    "0 < amount" "amount < 2 ^ 64" "0 \<le> fee" "fee < 2 ^ 64"
  shows "(\<exists>L'. run_calls G H pkg anyone
      [((x, y), \<lparr> mc_target = pkg @ ''::pool::initialize'', mc_args = [Pure_u64 16, Pure_bytes root] \<rparr>),
       ((z, w), \<lparr> mc_target = pkg @ ''::verifier::register_raw_key'',
          mc_args = [Obj_ref y ver dig, Shared_ref v ver True, Pure_u8 ni, Pure_u8 no, Pure_u8 np, Pure_bytes vk_hash, Pure_bytes raw] \<rparr>),
       ((z, w), \<lparr> mc_target = pkg @ ''::pool::set_paused'', mc_args = [Obj_ref y ver dig, Shared_ref a ver True, Pure_bool True] \<rparr>)] L = Inr L' \<and>
      l_pools L' a = Some (p\<lparr> p_paused := True \<rparr>) \<and>
      (\<exists>entry. l_keys L' v = Some (keys @ [entry]) \<and> k_prepared_vk entry = vk \<and> k_vk_hash entry = vk_hash)) \<and>
    (\<exists>L'. run_calls G H pkg anyone
      [((x, y), \<lparr> mc_target = pkg @ ''::redemption::initialize_queue'', mc_args = [] \<rparr>),
       ((z, w), \<lparr> mc_target = pkg @ ''::redemption::request_redemption'',
          mc_args = [Obj_ref y ver dig, Shared_ref a ver True, Shared_ref q ver True, Pure_bytes btc, Pure_u64 amount, Pure_u64 fee] \<rparr>)] L = Inr L' \<and>
      l_queues L' q = Some (requests @ [\<lparr> r_id = p_next_redemption_id p, r_btc_address_hash = btc, r_amount_sats = amount,
        r_max_fee_sats = fee, r_completed = False \<rparr>]))"
proof -
  have ne: "a \<noteq> x" "v \<noteq> x" "q \<noteq> x" using assms(1-4) by (auto simp: used_def)
  note defs = run_call_def call_pool_initialize_def call_set_paused_def call_register_raw_key_def call_request_redemption_def arg_u8_def arg_u64_def
    arg_bool_def arg_bytes_def use_cap_def borrow_shared_mut_def borrow_shared_def emit_def move_assert_def Let_def
  show ?thesis
    using assms ne
    by (simp add: defs pool_initialize_def FIELD_BYTES_LEN_def set_paused_def register_raw_key_def check_key_def MAX_SUI_PUBLIC_INPUTS_def
        VK_HASH_LEN_def request_redemption_def assert_not_paused_def allocate_redemption_id_def u64_add_def)
qed


section \<open>Witnesses\<close>

definition sample_groth16 :: "(unit, bytes, bytes) groth16" where
  "sample_groth16 = \<lparr> pvk_from_bytes = (\<lambda>_ _ _ _. ()), prepare_verifying_key = (\<lambda>_. Inr ()), public_proof_inputs_from_bytes = Inr,
     proof_points_from_bytes = id, verify_groth16_proof = (\<lambda>_ _ _. Inr True) \<rparr>"

definition sample_pool :: Pool where
  "sample_pool = \<lparr> p_id = ''0x5'', p_tree_depth = 16, p_paused = False, p_latest_root = replicate 32 0, p_latest_root_index = 0,
     p_next_leaf_index = 0, p_next_redemption_id = 0 \<rparr>"

definition sample_sui_ledger :: "unit sui_ledger" where
  "sample_sui_ledger = empty_sui_ledger\<lparr> l_pools := [''0x5'' \<mapsto> sample_pool], l_keys := [''0x6'' \<mapsto> []], l_queues := [''0x7'' \<mapsto> []] \<rparr>"

lemma const_sha_ok: "sha_ok (\<lambda>_. replicate 32 1)"
  by (simp add: sha_ok_def)

theorem sui_transact_correct_witness:
  "\<exists>evs. transact sample_groth16 (\<lambda>_. replicate 32 1) sample_pool [] [\<lparr> k_n_inputs = 1, k_n_outputs = 1, k_n_public = 4, k_vk_hash = replicate 32 3, k_prepared_vk = () \<rparr>]
     1 1 (replicate 32 3) (replicate 32 0 @ replicate 32 7 @ replicate 32 8 @ replicate 32 9) [] [replicate 32 8] [replicate 32 9] =
   Inr (sample_pool\<lparr> p_next_leaf_index := 1, p_latest_root_index := 1, p_latest_root := replicate 32 1 \<rparr>, [replicate 32 8], evs)"
proof -
  have r: "length (p_latest_root sample_pool) = 32" by (simp add: sample_pool_def)
  have "\<exists>bound. length bound = 32 \<and> replicate 32 0 @ replicate 32 7 @ replicate 32 8 @ replicate 32 9 =
      p_latest_root sample_pool @ bound @ concat [replicate 32 (8::byte)] @ concat [replicate 32 9]"
    by (intro exI [of _ "replicate 32 7"]) (simp add: sample_pool_def)
  then show ?thesis
    unfolding sui_transact_correct [OF const_sha_ok r]
    by (simp add: sample_pool_def verify_join_split_def find_key_def key_matches_def sample_groth16_def move_assert_def)
qed

definition created_ledger :: "unit sui_ledger" where
  "created_ledger = emit [Pool_created ''0x5'' 16 PROTOCOL_VERSION]
     (empty_sui_ledger\<lparr> l_pools := [''0x5'' \<mapsto> sample_pool], l_admin_caps := [''0x8'' \<mapsto> ''me''] \<rparr>)"

lemma sample_created: "sui_run sample_groth16 (\<lambda>_. replicate 32 1) ''0x2'' empty_sui_ledger created_ledger"
proof -
  let ?c = "\<lparr> mc_target = ''0x2'' @ ''::pool::initialize'', mc_args = [Pure_u64 16, Pure_bytes (replicate 32 0)] \<rparr>"
  have "run_call sample_groth16 (\<lambda>_. replicate 32 1) ''0x2'' ''me'' (''0x5'', ''0x8'') ?c empty_sui_ledger = Inr created_ledger"
    by (simp add: run_call_def call_pool_initialize_def pool_initialize_def arg_u64_def arg_bytes_def move_assert_def FIELD_BYTES_LEN_def sample_pool_def
        empty_sui_ledger_def created_ledger_def)
  from sui_run.call [OF sui_run.start _ _ this] show ?thesis by (simp add: used_def empty_sui_ledger_def)
qed

lemma sample_spent:
  "\<exists>L. sui_run sample_groth16 (\<lambda>_. replicate 32 1) ''0x2'' empty_sui_ledger L \<and> l_nullifiers L ''0x9'' = Some [replicate 32 8]"
proof -
  let ?H = "\<lambda>_. replicate 32 1" and ?c = "\<lparr> mc_target = ''0x2'' @ ''::nullifier::initialize_registry'', mc_args = [] \<rparr>"
  let ?d = "\<lparr> mc_target = ''0x2'' @ ''::nullifier::spend'', mc_args = [Shared_ref ''0x5'' [] False, Shared_ref ''0x9'' [] True, Pure_bytes (replicate 32 8)] \<rparr>"
  let ?L1 = "created_ledger\<lparr> l_nullifiers := [''0x9'' \<mapsto> []] \<rparr>"
  have "run_call sample_groth16 ?H ''0x2'' ''me'' (''0x9'', ''x'') ?c created_ledger = Inr ?L1"
    by (simp add: run_call_def created_ledger_def emit_def empty_sui_ledger_def)
  from sui_run.call [OF sample_created _ _ this] have r: "sui_run sample_groth16 ?H ''0x2'' empty_sui_ledger ?L1"
    by (simp add: used_def created_ledger_def emit_def empty_sui_ledger_def)
  have "run_call sample_groth16 ?H ''0x2'' ''me'' (''x'', ''y'') ?d ?L1 =
      Inr (emit [Nullifier_spent ''0x5'' (replicate 32 8)] (?L1\<lparr> l_nullifiers := [''0x9'' \<mapsto> [replicate 32 8]] \<rparr>))"
    by (simp add: run_call_def call_spend_def created_ledger_def emit_def empty_sui_ledger_def arg_bytes_def borrow_shared_def borrow_shared_mut_def
        nullifier_spend_def record_spend_def nullifier_contains_def move_assert_def assert_not_paused_def sample_pool_def)
  from sui_run.call [OF r _ _ this] show ?thesis by (auto simp: used_def created_ledger_def emit_def empty_sui_ledger_def)
qed


theorem sui_leaf_indices_witness:
  "\<exists>L. l_pools L ''0x5'' = Some sample_pool \<and> leaf_indices ''0x5'' (l_events (L :: unit sui_ledger)) = []"
proof -
  obtain L where L: "sui_run sample_groth16 (\<lambda>_. replicate 32 1) ''0x2'' empty_sui_ledger L" "l_pools L ''0x5'' = Some sample_pool"
    using sample_created by (force simp: created_ledger_def emit_def)
  from sui_leaf_indices [OF const_sha_ok L] L(2) show ?thesis by (auto simp: sample_pool_def)
qed

theorem sui_capabilities_forgeable_witness:
  "\<exists>L'. run_calls sample_groth16 (\<lambda>_. []) ''0x2'' ''mallory''
      [((''x'', ''y''), \<lparr> mc_target = ''0x2'' @ ''::redemption::initialize_queue'', mc_args = [] \<rparr>),
       ((''z'', ''w''), \<lparr> mc_target = ''0x2'' @ ''::redemption::request_redemption'',
          mc_args = [Obj_ref ''y'' [] [], Shared_ref ''0x5'' [] True, Shared_ref ''0x7'' [] True, Pure_bytes [1], Pure_u64 1000, Pure_u64 1] \<rparr>)] sample_sui_ledger = Inr L' \<and>
      l_queues L' ''0x7'' \<noteq> Some []"
  using sui_capabilities_forgeable [of sample_sui_ledger "''0x5''" sample_pool "''0x6''" "[]" "''0x7''" "[]" "''x''" "''y''" "replicate 32 0" "replicate 32 0"
      4 1 1 sample_groth16 "[]" "()" 1000 1 "\<lambda>_. []" "''0x2''" "''mallory''" "''z''" "''w''" "[]" "[]" "[1]"]
  by (auto simp: sample_sui_ledger_def sample_pool_def empty_sui_ledger_def used_def sample_groth16_def)

end
