(* ===== verification/Sui_Adapter.thy ===== *)
theory Sui_Adapter
  imports Join_Split_Shapes Sui_Pool_Properties
begin

text \<open>
  The adapter that builds transactions for the Move package, \<open>src/packages/sdk-sui/src/sui-adapter.ts\<close>, with the inputs of
  \<open>src/packages/sdk-core/src/chain-adapter.ts\<close>. A programmable transaction block is its one Move call; the
  serialisation by \<open>@mysten/sui\<close> is an argument. The properties execute the calls on the ledger of \<open>Sui_Ledger\<close>.
\<close>

section \<open>Configuration and inputs\<close>

record UTXOpiaSuiAdapterConfig =
  ac_packageId :: string
  ac_poolObjectId :: string
  ac_poolInitialSharedVersion :: "string option"
  ac_btcDepositRegistryObjectId :: "string option"
  ac_btcDepositRegistryInitialSharedVersion :: "string option"
  ac_adminCapObjectId :: "string option"
  ac_adminCapVersion :: "string option"
  ac_adminCapDigest :: "string option"
  ac_verifyingKeyRegistryObjectId :: "string option"
  ac_verifyingKeyRegistryInitialSharedVersion :: "string option"
  ac_nullifierRegistryObjectId :: "string option"
  ac_nullifierRegistryInitialSharedVersion :: "string option"
  ac_redemptionQueueObjectId :: "string option"
  ac_redemptionQueueInitialSharedVersion :: "string option"
  ac_redemptionCapObjectId :: "string option"
  ac_redemptionCapVersion :: "string option"
  ac_redemptionCapDigest :: "string option"
  ac_indexerUrl :: "string option"

record TransactInput =
  ti_inputNullifiers :: "string option list"
  ti_outputs :: nat
  ti_vkHash :: "bytes option"
  ti_publicInputs :: "bytes option"
  ti_proofPoints :: "bytes option"
  ti_nullifiers :: "bytes list option"
  ti_commitmentsOut :: "bytes list option"

record RedemptionInput =
  ri_btcAddress :: string
  ri_amountSats :: int
  ri_maxFeeSats :: int

record RegisterVerifyingKeyInput =
  rk_nInputs :: nat
  rk_nOutputs :: nat
  rk_nPublic :: nat
  rk_vkHash :: bytes
  rk_rawVerifyingKey :: "bytes option"
  rk_vkGammaAbcG1Bytes :: bytes
  rk_alphaG1BetaG2Bytes :: bytes
  rk_gammaG2NegPcBytes :: bytes
  rk_deltaG2NegPcBytes :: bytes

record SuiUnsignedTransaction =
  su_bytes :: bytes
  su_description :: string
  su_packageId :: string
  su_objectIds :: "string list"

text \<open>A configured string is missing when it is undefined or empty.\<close>

definition configured :: "string option \<Rightarrow> bool" where
  "configured v \<longleftrightarrow> v \<noteq> None \<and> v \<noteq> Some []"

definition sharedObject :: "string \<Rightarrow> string option \<Rightarrow> bool \<Rightarrow> sui_arg result" where
  "sharedObject objectId initialSharedVersion m =
     (case initialSharedVersion of
        None \<Rightarrow> Inl (Error (''Initial shared version is required for Sui object '' @ objectId))
      | Some v \<Rightarrow> Inr (Shared_ref objectId v m))"

definition is_hex_digit :: "char \<Rightarrow> bool" where
  "is_hex_digit c \<longleftrightarrow> digit_val c \<noteq> None"

definition bytesFromHexOrUtf8 :: "string \<Rightarrow> bytes" where
  "bytesFromHexOrUtf8 v =
     (let normalized = (if take 2 v = ''0x'' then drop 2 v else v) in
      if normalized \<noteq> [] \<and> list_all is_hex_digit normalized \<and> length normalized mod 2 = 0
      then map (\<lambda>i. to_uint8 (js_parseInt16 (take 2 (drop (2 * i) normalized)))) [0..<length normalized div 2]
      else text_encode v)"

section \<open>Calls\<close>

text \<open>Each builder: the Move call, the description and the object identifiers of its transaction.\<close>

type_synonym ptb = "move_call \<times> string \<times> string list"

definition deposit_call :: "UTXOpiaSuiAdapterConfig \<Rightarrow> string \<Rightarrow> string \<Rightarrow> string \<Rightarrow> ptb result" where
  "deposit_call cfg depositId version digest =
     (if \<not> configured (ac_btcDepositRegistryObjectId cfg)
      then Inl (Error ''Sui BTC deposit registry object ID is required to build BTC deposit PTBs'')
      else
        (let registry = the (ac_btcDepositRegistryObjectId cfg) in
         js_bind (sharedObject (ac_poolObjectId cfg) (ac_poolInitialSharedVersion cfg) True) (\<lambda>pool.
         js_bind (sharedObject registry (ac_btcDepositRegistryInitialSharedVersion cfg) True) (\<lambda>reg.
           Inr (\<lparr> mc_target = ac_packageId cfg @ ''::btc_deposit::complete_verified_deposit'',
                  mc_args = [pool, reg, Obj_ref depositId version digest] \<rparr>,
                ''Sui verified BTC deposit PTB'', [depositId, ac_poolObjectId cfg, registry])))))"

definition transact_nullifiers :: "TransactInput \<Rightarrow> bytes list" where
  "transact_nullifiers inp =
     (case ti_nullifiers inp of
        Some ns \<Rightarrow> ns
      | None \<Rightarrow> map (\<lambda>n. bytesFromHexOrUtf8 (the n)) (filter configured (ti_inputNullifiers inp)))"

definition transact_call :: "UTXOpiaSuiAdapterConfig \<Rightarrow> TransactInput \<Rightarrow> ptb result" where
  "transact_call cfg inp =
     (if \<not> configured (ac_nullifierRegistryObjectId cfg)
      then Inl (Error ''Sui nullifier registry object ID is required to build transact PTBs'')
      else if \<not> configured (ac_verifyingKeyRegistryObjectId cfg)
      then Inl (Error ''Sui verifying-key registry object ID is required to build transact PTBs'')
      else
        (case (ti_vkHash inp, ti_publicInputs inp, ti_proofPoints inp, ti_commitmentsOut inp) of
           (Some vkHash, Some publicInputs, Some proofPoints, Some commitmentsOut) \<Rightarrow>
             let registry = the (ac_nullifierRegistryObjectId cfg); vks = the (ac_verifyingKeyRegistryObjectId cfg) in
             js_bind (sharedObject (ac_poolObjectId cfg) (ac_poolInitialSharedVersion cfg) True) (\<lambda>pool.
             js_bind (sharedObject registry (ac_nullifierRegistryInitialSharedVersion cfg) True) (\<lambda>reg.
             js_bind (sharedObject vks (ac_verifyingKeyRegistryInitialSharedVersion cfg) False) (\<lambda>keys.
               Inr (\<lparr> mc_target = ac_packageId cfg @ ''::transact::transact'',
                      mc_args = [pool, reg, keys, Pure_u8 (length (ti_inputNullifiers inp)), Pure_u8 (ti_outputs inp), Pure_bytes vkHash,
                        Pure_bytes publicInputs, Pure_bytes proofPoints, Pure_bytes_list (transact_nullifiers inp),
                        Pure_bytes_list commitmentsOut] \<rparr>,
                    ''Sui private transfer PTB'', [ac_poolObjectId cfg, registry, vks]))))
         | _ \<Rightarrow> Inl (Error ''Sui transact PTBs require vkHash, publicInputs, proofPoints, and commitmentsOut'')))"

definition redemption_cap :: "UTXOpiaSuiAdapterConfig \<Rightarrow> string \<Rightarrow> (string \<times> sui_arg) result" where
  "redemption_cap cfg message =
     (if \<not> configured (ac_redemptionCapObjectId cfg) \<or> \<not> configured (ac_redemptionCapVersion cfg) \<or> \<not> configured (ac_redemptionCapDigest cfg)
      then Inl (Error message)
      else Inr (the (ac_redemptionCapObjectId cfg),
             Obj_ref (the (ac_redemptionCapObjectId cfg)) (the (ac_redemptionCapVersion cfg)) (the (ac_redemptionCapDigest cfg))))"

definition redemption_call :: "UTXOpiaSuiAdapterConfig \<Rightarrow> RedemptionInput \<Rightarrow> ptb result" where
  "redemption_call cfg inp =
     (if \<not> configured (ac_redemptionQueueObjectId cfg)
      then Inl (Error ''Sui redemption queue object ID is required to build redemption PTBs'')
      else
        (let queueId = the (ac_redemptionQueueObjectId cfg) in
         js_bind (redemption_cap cfg ''Sui redemption cap object ref is required to request redemptions'') (\<lambda>(capId, cap).
         js_bind (sharedObject (ac_poolObjectId cfg) (ac_poolInitialSharedVersion cfg) True) (\<lambda>pool.
         js_bind (sharedObject queueId (ac_redemptionQueueInitialSharedVersion cfg) True) (\<lambda>queue.
           Inr (\<lparr> mc_target = ac_packageId cfg @ ''::redemption::request_redemption'',
                  mc_args = [cap, pool, queue, Pure_bytes (bytesFromHexOrUtf8 (ri_btcAddress inp)), Pure_u64 (ri_amountSats inp),
                    Pure_u64 (ri_maxFeeSats inp)] \<rparr>,
                ''Sui BTC redemption request PTB'', [capId, ac_poolObjectId cfg, queueId]))))))"

definition ika_approval_call :: "UTXOpiaSuiAdapterConfig \<Rightarrow> int \<Rightarrow> bytes \<Rightarrow> ptb result" where
  "ika_approval_call cfg redemptionId sighash =
     (if \<not> configured (ac_redemptionQueueObjectId cfg)
      then Inl (Error ''Sui redemption queue object ID is required to build Ika approval PTBs'')
      else
        (let queueId = the (ac_redemptionQueueObjectId cfg) in
         js_bind (sharedObject (ac_poolObjectId cfg) (ac_poolInitialSharedVersion cfg) False) (\<lambda>pool.
         js_bind (sharedObject queueId (ac_redemptionQueueInitialSharedVersion cfg) False) (\<lambda>queue.
           Inr (\<lparr> mc_target = ac_packageId cfg @ ''::ika_policy::approve_signing'',
                  mc_args = [pool, queue, Pure_u64 redemptionId, Pure_bytes sighash] \<rparr>,
                ''Sui Ika signing approval PTB'', [ac_poolObjectId cfg, queueId])))))"

definition complete_redemption_call :: "UTXOpiaSuiAdapterConfig \<Rightarrow> int \<Rightarrow> bytes \<Rightarrow> ptb result" where
  "complete_redemption_call cfg redemptionId btcTxid =
     (if \<not> configured (ac_redemptionQueueObjectId cfg)
      then Inl (Error ''Sui redemption queue object ID is required to build completion PTBs'')
      else
        (let queueId = the (ac_redemptionQueueObjectId cfg) in
         js_bind (redemption_cap cfg ''Sui redemption cap object ref is required to complete redemptions'') (\<lambda>(capId, cap).
         js_bind (sharedObject (ac_poolObjectId cfg) (ac_poolInitialSharedVersion cfg) False) (\<lambda>pool.
         js_bind (sharedObject queueId (ac_redemptionQueueInitialSharedVersion cfg) True) (\<lambda>queue.
           Inr (\<lparr> mc_target = ac_packageId cfg @ ''::redemption::complete_redemption'',
                  mc_args = [cap, pool, queue, Pure_u64 redemptionId, Pure_bytes btcTxid] \<rparr>,
                ''Sui BTC redemption completion PTB'', [capId, ac_poolObjectId cfg, queueId]))))))"

definition register_key_call :: "UTXOpiaSuiAdapterConfig \<Rightarrow> RegisterVerifyingKeyInput \<Rightarrow> ptb result" where
  "register_key_call cfg inp =
     (if \<not> configured (ac_adminCapObjectId cfg) \<or> \<not> configured (ac_adminCapVersion cfg) \<or> \<not> configured (ac_adminCapDigest cfg)
      then Inl (Error ''Sui admin cap object ref is required to register verifying keys'')
      else if \<not> configured (ac_verifyingKeyRegistryObjectId cfg)
      then Inl (Error ''Sui verifying-key registry object ID is required to register verifying keys'')
      else
        js_bind (joinSplitShape (of_nat (rk_nInputs inp)) (of_nat (rk_nOutputs inp))) (\<lambda>shape.
        if int (rk_nPublic inp) \<noteq> js_nPublic shape
        then Inl (Error (js_name shape @ '' expects '' @ js_toString 10 (js_nPublic shape) @ '' public inputs, got '' @ js_toString 10 (int (rk_nPublic inp))))
        else
          js_bind (assertSuiGroth16Compatible shape) (\<lambda>_.
          let vks = the (ac_verifyingKeyRegistryObjectId cfg); capId = the (ac_adminCapObjectId cfg);
              cap = Obj_ref capId (the (ac_adminCapVersion cfg)) (the (ac_adminCapDigest cfg));
              counts = [Pure_u8 (rk_nInputs inp), Pure_u8 (rk_nOutputs inp), Pure_u8 (rk_nPublic inp), Pure_bytes (rk_vkHash inp)] in
          js_bind (sharedObject vks (ac_verifyingKeyRegistryInitialSharedVersion cfg) True) (\<lambda>registry.
            Inr (case rk_rawVerifyingKey inp of
                   Some raw \<Rightarrow> \<lparr> mc_target = ac_packageId cfg @ ''::verifier::register_raw_key'', mc_args = [cap, registry] @ counts @ [Pure_bytes raw] \<rparr>
                 | None \<Rightarrow> \<lparr> mc_target = ac_packageId cfg @ ''::verifier::register_prepared_key'',
                     mc_args = [cap, registry] @ counts @ [Pure_bytes (rk_vkGammaAbcG1Bytes inp), Pure_bytes (rk_alphaG1BetaG2Bytes inp),
                       Pure_bytes (rk_gammaG2NegPcBytes inp), Pure_bytes (rk_deltaG2NegPcBytes inp)] \<rparr>,
                 ''Sui register prepared verifying key PTB'', [capId, vks])))))"

definition buildPtb :: "(move_call \<Rightarrow> bytes result) \<Rightarrow> UTXOpiaSuiAdapterConfig \<Rightarrow> ptb result \<Rightarrow> SuiUnsignedTransaction result" where
  "buildPtb tx_build cfg p =
     js_bind p (\<lambda>(call, description, objectIds).
     js_bind (tx_build call) (\<lambda>bs.
       Inr \<lparr> su_bytes = bs, su_description = description, su_packageId = ac_packageId cfg, su_objectIds = objectIds \<rparr>))"

definition buildShieldTransaction :: "SuiUnsignedTransaction result" where
  "buildShieldTransaction =
     Inl (Error ''Sui generic shield PTBs are disabled; use buildBtcDepositTransaction with a verified BTC deposit object'')"

definition buildBtcDepositTransaction where
  "buildBtcDepositTransaction tx_build cfg depositId version digest = buildPtb tx_build cfg (deposit_call cfg depositId version digest)"

definition buildTransactTransaction where
  "buildTransactTransaction tx_build cfg inp = buildPtb tx_build cfg (transact_call cfg inp)"

definition buildRedemptionTransaction where
  "buildRedemptionTransaction tx_build cfg inp = buildPtb tx_build cfg (redemption_call cfg inp)"

definition buildIkaApprovalTransaction where
  "buildIkaApprovalTransaction tx_build cfg redemptionId sighash = buildPtb tx_build cfg (ika_approval_call cfg redemptionId sighash)"

definition buildCompleteRedemptionTransaction where
  "buildCompleteRedemptionTransaction tx_build cfg redemptionId btcTxid = buildPtb tx_build cfg (complete_redemption_call cfg redemptionId btcTxid)"

definition buildRegisterVerifyingKeyTransaction where
  "buildRegisterVerifyingKeyTransaction tx_build cfg inp = buildPtb tx_build cfg (register_key_call cfg inp)"

definition getNotes :: "UTXOpiaSuiAdapterConfig \<Rightarrow> 'a list result" where
  "getNotes cfg =
     (if \<not> configured (ac_indexerUrl cfg) then Inr []
      else Inl (Error ''Sui note scanning requires the Sui indexer API implementation''))"

section \<open>Properties\<close>

lemmas call_args = arg_u8_def arg_u64_def arg_bool_def arg_bytes_def arg_bytes_list_def use_cap_def borrow_shared_mut_def borrow_shared_def take_verified_def

lemma sharedObject_Inr: "sharedObject a v m = Inr arg \<longleftrightarrow> (\<exists>x. v = Some x \<and> arg = Shared_ref a x m)"
  by (cases v) (auto simp: sharedObject_def)

lemma exec_transact_call:
  assumes "transact_call cfg inp = Inr (c, descr, ids)" "l_pools L (ac_poolObjectId cfg) = Some p"
    "l_nullifiers L (the (ac_nullifierRegistryObjectId cfg)) = Some spent" "l_keys L (the (ac_verifyingKeyRegistryObjectId cfg)) = Some keys"
    "length (ti_inputNullifiers inp) < 256" "ti_outputs inp < 256"
  shows "run_call G H (ac_packageId cfg) sender new c L =
    js_bind (transact G H p spent keys (length (ti_inputNullifiers inp)) (ti_outputs inp) (the (ti_vkHash inp)) (the (ti_publicInputs inp))
        (the (ti_proofPoints inp)) (transact_nullifiers inp) (the (ti_commitmentsOut inp)))
      (\<lambda>(p', spent', evs). Inr (emit evs (L\<lparr> l_pools := (l_pools L)(ac_poolObjectId cfg \<mapsto> p'),
         l_nullifiers := (l_nullifiers L)(the (ac_nullifierRegistryObjectId cfg) \<mapsto> spent') \<rparr>)))"
proof -
  obtain x y z where c: "c = \<lparr> mc_target = ac_packageId cfg @ ''::transact::transact'',
      mc_args = [Shared_ref (ac_poolObjectId cfg) x True, Shared_ref (the (ac_nullifierRegistryObjectId cfg)) y True,
        Shared_ref (the (ac_verifyingKeyRegistryObjectId cfg)) z False, Pure_u8 (length (ti_inputNullifiers inp)), Pure_u8 (ti_outputs inp),
        Pure_bytes (the (ti_vkHash inp)), Pure_bytes (the (ti_publicInputs inp)), Pure_bytes (the (ti_proofPoints inp)),
        Pure_bytes_list (transact_nullifiers inp), Pure_bytes_list (the (ti_commitmentsOut inp))] \<rparr>"
    using assms(1) unfolding transact_call_def
    by (auto simp: js_bind_Inr_iff sharedObject_Inr Let_def split: if_split_asm option.split_asm)
  show ?thesis unfolding c using assms(2-) by (simp add: run_call_def call_transact_def call_args)
qed

lemma exec_deposit_call:
  assumes "deposit_call cfg dep ver dig = Inr (c, descr, ids)" "l_pools L (ac_poolObjectId cfg) = Some p"
    "l_claims L (the (ac_btcDepositRegistryObjectId cfg)) = Some claimed" "l_verified L dep = Some (sender, d)"
  shows "run_call G H (ac_packageId cfg) sender new c L =
    js_bind (complete_verified_deposit p claimed d)
      (\<lambda>(p', claimed', evs). Inr (emit evs (L\<lparr> l_pools := (l_pools L)(ac_poolObjectId cfg \<mapsto> p'),
         l_claims := (l_claims L)(the (ac_btcDepositRegistryObjectId cfg) \<mapsto> claimed'), l_verified := (l_verified L)(dep := None) \<rparr>)))"
proof -
  obtain x y where c: "c = \<lparr> mc_target = ac_packageId cfg @ ''::btc_deposit::complete_verified_deposit'',
      mc_args = [Shared_ref (ac_poolObjectId cfg) x True, Shared_ref (the (ac_btcDepositRegistryObjectId cfg)) y True, Obj_ref dep ver dig] \<rparr>"
    using assms(1) unfolding deposit_call_def by (auto simp: js_bind_Inr_iff sharedObject_Inr Let_def split: if_split_asm)
  show ?thesis unfolding c using assms(2-) by (simp add: run_call_def call_complete_deposit_def call_args)
qed

lemma redemption_cap_Inr:
  "redemption_cap cfg msg = Inr (capId, cap) \<Longrightarrow> capId = the (ac_redemptionCapObjectId cfg) \<and> (\<exists>x y. cap = Obj_ref capId x y)"
  by (auto simp: redemption_cap_def split: if_split_asm)

lemma exec_redemption_call:
  assumes "redemption_call cfg inp = Inr (c, descr, ids)" "l_pools L (ac_poolObjectId cfg) = Some p"
    "l_queues L (the (ac_redemptionQueueObjectId cfg)) = Some requests" "l_redemption_caps L (the (ac_redemptionCapObjectId cfg)) = Some sender"
    "0 \<le> ri_amountSats inp" "ri_amountSats inp < 2 ^ 64" "0 \<le> ri_maxFeeSats inp" "ri_maxFeeSats inp < 2 ^ 64"
  shows "run_call G H (ac_packageId cfg) sender new c L =
    js_bind (request_redemption p requests (bytesFromHexOrUtf8 (ri_btcAddress inp)) (ri_amountSats inp) (ri_maxFeeSats inp))
      (\<lambda>(p', requests', evs). Inr (emit evs (L\<lparr> l_pools := (l_pools L)(ac_poolObjectId cfg \<mapsto> p'),
         l_queues := (l_queues L)(the (ac_redemptionQueueObjectId cfg) \<mapsto> requests') \<rparr>)))"
proof -
  obtain u v x y where c: "c = \<lparr> mc_target = ac_packageId cfg @ ''::redemption::request_redemption'',
      mc_args = [Obj_ref (the (ac_redemptionCapObjectId cfg)) u v, Shared_ref (ac_poolObjectId cfg) x True,
        Shared_ref (the (ac_redemptionQueueObjectId cfg)) y True, Pure_bytes (bytesFromHexOrUtf8 (ri_btcAddress inp)),
        Pure_u64 (ri_amountSats inp), Pure_u64 (ri_maxFeeSats inp)] \<rparr>"
    using assms(1) unfolding redemption_call_def
    by (auto simp: js_bind_Inr_iff sharedObject_Inr Let_def dest!: redemption_cap_Inr split: if_split_asm)
  show ?thesis unfolding c using assms(2-) by (simp add: run_call_def call_request_redemption_def call_args)
qed

lemma exec_approval_call:
  assumes "ika_approval_call cfg rid sighash = Inr (c, descr, ids)" "l_pools L (ac_poolObjectId cfg) = Some p"
    "l_queues L (the (ac_redemptionQueueObjectId cfg)) = Some requests" "0 \<le> rid" "rid < 2 ^ 64"
  shows "run_call G H (ac_packageId cfg) sender new c L = js_bind (approve_signing p requests rid sighash) (\<lambda>evs. Inr (emit evs L))"
proof -
  obtain x y where c: "c = \<lparr> mc_target = ac_packageId cfg @ ''::ika_policy::approve_signing'',
      mc_args = [Shared_ref (ac_poolObjectId cfg) x False, Shared_ref (the (ac_redemptionQueueObjectId cfg)) y False, Pure_u64 rid, Pure_bytes sighash] \<rparr>"
    using assms(1) unfolding ika_approval_call_def by (auto simp: js_bind_Inr_iff sharedObject_Inr Let_def split: if_split_asm)
  show ?thesis unfolding c using assms(2-) by (simp add: run_call_def call_approve_signing_def call_args)
qed

lemma exec_completion_call:
  assumes "complete_redemption_call cfg rid txid = Inr (c, descr, ids)" "l_pools L (ac_poolObjectId cfg) = Some p"
    "l_queues L (the (ac_redemptionQueueObjectId cfg)) = Some requests" "l_redemption_caps L (the (ac_redemptionCapObjectId cfg)) = Some sender"
    "0 \<le> rid" "rid < 2 ^ 64"
  shows "run_call G H (ac_packageId cfg) sender new c L =
    js_bind (complete_redemption p requests rid txid)
      (\<lambda>(requests', evs). Inr (emit evs (L\<lparr> l_queues := (l_queues L)(the (ac_redemptionQueueObjectId cfg) \<mapsto> requests') \<rparr>)))"
proof -
  obtain u v x y where c: "c = \<lparr> mc_target = ac_packageId cfg @ ''::redemption::complete_redemption'',
      mc_args = [Obj_ref (the (ac_redemptionCapObjectId cfg)) u v, Shared_ref (ac_poolObjectId cfg) x False,
        Shared_ref (the (ac_redemptionQueueObjectId cfg)) y True, Pure_u64 rid, Pure_bytes txid] \<rparr>"
    using assms(1) unfolding complete_redemption_call_def
    by (auto simp: js_bind_Inr_iff sharedObject_Inr Let_def dest!: redemption_cap_Inr split: if_split_asm)
  show ?thesis unfolding c using assms(2-) by (simp add: run_call_def call_complete_redemption_def call_args)
qed

text \<open>The request that a redemption adds, and its completion.\<close>

definition new_request :: "Pool \<Rightarrow> RedemptionInput \<Rightarrow> RedemptionRequest" where
  "new_request p inp = \<lparr> r_id = p_next_redemption_id p, r_btc_address_hash = bytesFromHexOrUtf8 (ri_btcAddress inp),
     r_amount_sats = ri_amountSats inp, r_max_fee_sats = ri_maxFeeSats inp, r_completed = False \<rparr>"

lemma find_new: "\<forall>r \<in> set requests. r_id r \<noteq> rid \<Longrightarrow> r_id new = rid \<Longrightarrow> borrow_request (requests @ [new]) rid = Inr new"
  by (induction requests) (auto simp: borrow_request_def)

lemma complete_new: "\<forall>r \<in> set requests. r_id r \<noteq> rid \<Longrightarrow> r_id new = rid \<Longrightarrow>
    set_completed (requests @ [new]) rid = requests @ [new\<lparr> r_completed := True \<rparr>]"
  by (induction requests) auto


text \<open>A configuration that names every object of a deployment.\<close>

definition complete_config :: "UTXOpiaSuiAdapterConfig \<Rightarrow> bool" where
  "complete_config cfg \<longleftrightarrow> ac_poolInitialSharedVersion cfg \<noteq> None \<and>
     configured (ac_verifyingKeyRegistryObjectId cfg) \<and> ac_verifyingKeyRegistryInitialSharedVersion cfg \<noteq> None \<and>
     configured (ac_nullifierRegistryObjectId cfg) \<and> ac_nullifierRegistryInitialSharedVersion cfg \<noteq> None \<and>
     configured (ac_redemptionQueueObjectId cfg) \<and> ac_redemptionQueueInitialSharedVersion cfg \<noteq> None \<and>
     configured (ac_redemptionCapObjectId cfg) \<and> configured (ac_redemptionCapVersion cfg) \<and> configured (ac_redemptionCapDigest cfg)"

lemma transact_call_built:
  assumes "complete_config cfg" "ti_vkHash inp = Some vkHash" "ti_publicInputs inp = Some inputs" "ti_proofPoints inp = Some points"
    "ti_commitmentsOut inp = Some cs"
  shows "\<exists>c descr ids. transact_call cfg inp = Inr (c, descr, ids)"
  using assms by (auto simp: transact_call_def complete_config_def sharedObject_def Let_def)

lemma redemption_calls_built:
  assumes "complete_config cfg"
  shows "\<exists>c descr ids. redemption_call cfg inp = Inr (c, descr, ids)" "\<exists>c descr ids. ika_approval_call cfg rid sighash = Inr (c, descr, ids)"
    "\<exists>c descr ids. complete_redemption_call cfg rid txid = Inr (c, descr, ids)"
  using assms
  by (auto simp: redemption_call_def ika_approval_call_def complete_redemption_call_def complete_config_def sharedObject_def redemption_cap_def Let_def)

text \<open>
  (C7) A private transfer on Sui, from the adapter through the Move package: with a registered key that verifies the proof, an unpaused pool, and
  public inputs made of the current root, the bound parameters, fresh nullifiers and the commitments, the transaction is built and
  accepted, spends the nullifiers and inserts the commitments; sent a second time, it is refused.
\<close>

theorem sui_transfer_end_to_end:
  assumes "sha_ok H" "complete_config cfg" "ti_vkHash inp = Some vkHash" "ti_publicInputs inp = Some inputs" "ti_proofPoints inp = Some points"
    "ti_commitmentsOut inp = Some cs" "length (ti_inputNullifiers inp) < 256" "ti_outputs inp < 256"
    "l_pools L (ac_poolObjectId cfg) = Some p" "\<not> p_paused p" "length (p_latest_root p) = 32"
    "l_nullifiers L (the (ac_nullifierRegistryObjectId cfg)) = Some spent" "l_keys L (the (ac_verifyingKeyRegistryObjectId cfg)) = Some keys"
    "transact_nullifiers inp = ns" "length ns = length (ti_inputNullifiers inp)" "length cs = ti_outputs inp" "ns \<noteq> []"
    "\<forall>x \<in> set (ns @ cs). length x = 32" "length bound = 32" "inputs = p_latest_root p @ bound @ concat ns @ concat cs"
    "verify_join_split G keys (length ns) (length cs) vkHash inputs points = Inr True" "distinct ns" "set ns \<inter> set spent = {}"
    "p_next_leaf_index p + int (length cs) < 2 ^ 64" "p_latest_root_index p + int (length cs) < 2 ^ 64"
  shows "\<exists>c descr ids L'. transact_call cfg inp = Inr (c, descr, ids) \<and> run_call G H (ac_packageId cfg) sender new c L = Inr L' \<and>
    l_nullifiers L' (the (ac_nullifierRegistryObjectId cfg)) = Some (spent @ ns) \<and>
    l_pools L' (ac_poolObjectId cfg) = Some (p\<lparr> p_next_leaf_index := p_next_leaf_index p + int (length cs),
      p_latest_root_index := p_latest_root_index p + int (length cs), p_latest_root := root_chain H (p_latest_root p) cs \<rparr>) \<and>
    (\<forall>anyone new'. \<exists>e. run_call G H (ac_packageId cfg) anyone new' c L' = Inl e)"
proof -
  obtain c descr ids where c: "transact_call cfg inp = Inr (c, descr, ids)" using transact_call_built [OF assms(2-6)] by blast
  let ?p = "p\<lparr> p_next_leaf_index := p_next_leaf_index p + int (length cs), p_latest_root_index := p_latest_root_index p + int (length cs),
      p_latest_root := root_chain H (p_latest_root p) cs \<rparr>"
  obtain evs where t: "transact G H p spent keys (length ns) (length cs) vkHash inputs points ns cs = Inr (?p, spent @ ns, evs)"
    using transact_iff [OF assms(1,11), of G spent keys "length ns" "length cs" vkHash inputs points ns cs ?p "spent @ ns"] assms(10,18-25) by auto
  let ?L = "emit evs (L\<lparr> l_pools := (l_pools L)(ac_poolObjectId cfg \<mapsto> ?p),
      l_nullifiers := (l_nullifiers L)(the (ac_nullifierRegistryObjectId cfg) \<mapsto> spent @ ns) \<rparr>)"
  have x: "run_call G H (ac_packageId cfg) sender new c L = Inr ?L"
    unfolding exec_transact_call [OF c assms(9,12,13,7,8)] using t assms(3-6,14-16) by simp
  have "\<exists>e. run_call G H (ac_packageId cfg) anyone new' c ?L = Inl e" for anyone new'
  proof -
    obtain e where "transact G H ?p (spent @ ns) keys (length ns) (length cs) vkHash inputs points ns cs = Inl e"
      using assms(17) by (cases "transact G H ?p (spent @ ns) keys (length ns) (length cs) vkHash inputs points ns cs")
        (auto dest!: transact_spent simp: neq_Nil_conv)
    then show ?thesis
      using exec_transact_call [OF c, of ?L ?p "spent @ ns" keys G H anyone new'] assms(3-8,13-16) by (auto simp: emit_def)
  qed
  with c x show ?thesis by (intro exI [of _ c] exI [of _ descr] exI [of _ ids] exI [of _ ?L]) (simp add: emit_def)
qed



section \<open>Witnesses\<close>

definition sample_adapter :: UTXOpiaSuiAdapterConfig where
  "sample_adapter = \<lparr> ac_packageId = ''0x2'', ac_poolObjectId = ''0x5'', ac_poolInitialSharedVersion = Some ''1'',
     ac_btcDepositRegistryObjectId = None, ac_btcDepositRegistryInitialSharedVersion = None, ac_adminCapObjectId = None, ac_adminCapVersion = None,
     ac_adminCapDigest = None, ac_verifyingKeyRegistryObjectId = Some ''0x6'', ac_verifyingKeyRegistryInitialSharedVersion = Some ''1'',
     ac_nullifierRegistryObjectId = Some ''0x9'', ac_nullifierRegistryInitialSharedVersion = Some ''1'', ac_redemptionQueueObjectId = Some ''0x7'',
     ac_redemptionQueueInitialSharedVersion = Some ''1'', ac_redemptionCapObjectId = Some ''0xc'', ac_redemptionCapVersion = Some ''1'',
     ac_redemptionCapDigest = Some ''d'', ac_indexerUrl = None \<rparr>"

definition sample_transfer :: TransactInput where
  "sample_transfer = \<lparr> ti_inputNullifiers = [None], ti_outputs = 1, ti_vkHash = Some (replicate 32 3),
     ti_publicInputs = Some (replicate 32 0 @ replicate 32 7 @ replicate 32 8 @ replicate 32 9), ti_proofPoints = Some [],
     ti_nullifiers = Some [replicate 32 8], ti_commitmentsOut = Some [replicate 32 9] \<rparr>"

definition sample_vks :: "unit VerifyingKeyEntry list" where
  "sample_vks = [\<lparr> k_n_inputs = 1, k_n_outputs = 1, k_n_public = 4, k_vk_hash = replicate 32 3, k_prepared_vk = () \<rparr>]"

definition adapter_ledger :: "unit sui_ledger" where
  "adapter_ledger = sample_sui_ledger\<lparr> l_nullifiers := [''0x9'' \<mapsto> []], l_keys := [''0x6'' \<mapsto> sample_vks], l_redemption_caps := [''0xc'' \<mapsto> ''me''] \<rparr>"

lemma sample_adapter_complete: "complete_config sample_adapter"
  by (simp add: complete_config_def configured_def sample_adapter_def)

theorem sui_transfer_end_to_end_witness:
  "\<exists>c L'. map_sum id fst (transact_call sample_adapter sample_transfer) = Inr c \<and>
     run_call sample_groth16 (\<lambda>_. replicate 32 1) ''0x2'' ''me'' (''x'', ''y'') c adapter_ledger = Inr L' \<and> l_nullifiers L' ''0x9'' = Some [replicate 32 8]"
proof -
  let ?ins = "replicate 32 0 @ replicate 32 7 @ replicate 32 8 @ replicate 32 9 :: 8 word list"
  have v: "verify_join_split sample_groth16 sample_vks 1 1 (replicate 32 3) ?ins [] = Inr True"
    by (simp add: verify_join_split_def find_key_def key_matches_def sample_groth16_def move_assert_def sample_vks_def)
  have i: "ti_vkHash sample_transfer = Some (replicate 32 3)" "ti_publicInputs sample_transfer = Some ?ins" "ti_proofPoints sample_transfer = Some []"
    "ti_commitmentsOut sample_transfer = Some [replicate 32 9]" "length (ti_inputNullifiers sample_transfer) < 256" "ti_outputs sample_transfer < 256"
    "transact_nullifiers sample_transfer = [replicate 32 8]" "length [replicate 32 8 :: 8 word list] = length (ti_inputNullifiers sample_transfer)"
    "length [replicate 32 9 :: 8 word list] = ti_outputs sample_transfer"
    by (simp_all add: sample_transfer_def transact_nullifiers_def)
  have l: "l_pools adapter_ledger (ac_poolObjectId sample_adapter) = Some sample_pool"
    "l_nullifiers adapter_ledger (the (ac_nullifierRegistryObjectId sample_adapter)) = Some []"
    "l_keys adapter_ledger (the (ac_verifyingKeyRegistryObjectId sample_adapter)) = Some sample_vks"
    by (simp_all add: adapter_ledger_def sample_sui_ledger_def sample_adapter_def)
  have p: "\<not> p_paused sample_pool" "length (p_latest_root sample_pool) = 32" by (simp_all add: sample_pool_def)
  have b: "[replicate 32 8 :: 8 word list] \<noteq> []" "\<forall>x \<in> set ([replicate 32 8] @ [replicate 32 9 :: 8 word list]). length x = 32"
    "length (replicate 32 7 :: 8 word list) = 32"
    "?ins = p_latest_root sample_pool @ replicate 32 7 @ concat [replicate 32 8] @ concat [replicate 32 9]"
    "verify_join_split sample_groth16 sample_vks (length [replicate 32 8 :: 8 word list]) (length [replicate 32 9 :: 8 word list]) (replicate 32 3) ?ins [] = Inr True"
    "distinct [replicate 32 8 :: 8 word list]" "set [replicate 32 8 :: 8 word list] \<inter> set [] = {}"
    "p_next_leaf_index sample_pool + int (length [replicate 32 9 :: 8 word list]) < 2 ^ 64"
    "p_latest_root_index sample_pool + int (length [replicate 32 9 :: 8 word list]) < 2 ^ 64" using v by (simp_all add: sample_pool_def)
  have pk: "ac_packageId sample_adapter = ''0x2''" "the (ac_nullifierRegistryObjectId sample_adapter) = ''0x9''" by (simp_all add: sample_adapter_def)
  obtain c descr ids L' where k: "transact_call sample_adapter sample_transfer = Inr (c, descr, ids)"
    "run_call sample_groth16 (\<lambda>_. replicate 32 1) ''0x2'' ''me'' (''x'', ''y'') c adapter_ledger = Inr L'"
    "l_nullifiers L' ''0x9'' = Some ([] @ [replicate 32 8])"
    using sui_transfer_end_to_end [OF const_sha_ok sample_adapter_complete i(1-6) l(1) p l(2,3) i(7-9) b, of "''me''" "(''x'', ''y'')", unfolded pk] by blast
  show ?thesis by (rule exI [of _ c], rule exI [of _ L']) (simp add: k)
qed


end
