(* ===== verification/Circuits.thy ===== *)
theory Circuits
  imports Tree_Properties "HOL-Library.Countable"
begin

text \<open>
  The circuits of \<open>src/circuits/circom\<close>: \<open>joinsplit.circom\<close>, \<open>ownership.circom\<close>, \<open>range_sum_template.circom\<close> and
  \<open>range_sum_16.circom\<close> with the templates of \<open>lib\<close>. A template is the conjunction of its constraints on an assignment of the
  signals, which are field elements in their reduced form. The components of circomlib are arguments: whether the constraints of
  \<open>Num2Bits\<close> and \<open>EdDSAPoseidonVerifier\<close> can be met, the outputs of the comparators (no output where their
  constraints cannot be met) and of \<open>BabyPbk\<close>. What is shown: an accepted JoinSplit conserves value as integers and spends
  only leaves of the tree; but the leaf index of the nullifier is not tied to the path, so one note has many nullifiers, and
  a range-sum proof is not tied to the indices it discloses.
\<close>

section \<open>Components of circomlib\<close>

record circomlib =
  Num2Bits :: "nat \<Rightarrow> int \<Rightarrow> bool"
  EdDSAPoseidonVerifier :: "int \<Rightarrow> int \<Rightarrow> int \<Rightarrow> int \<Rightarrow> int \<Rightarrow> int \<Rightarrow> bool"
  LessEqThan :: "nat \<Rightarrow> int \<Rightarrow> int \<Rightarrow> int option"
  GreaterEqThan :: "nat \<Rightarrow> int \<Rightarrow> int \<Rightarrow> int option"
  BabyPbk :: "int \<Rightarrow> int \<times> int"

text \<open>
  Documented behaviour: \<open>Num2Bits(n)\<close> has a solution exactly for numbers of at most \<open>n\<close> bits, and the comparators compare
  numbers of at most \<open>n\<close> bits.
\<close>

definition circomlib_ok :: "circomlib \<Rightarrow> bool" where
  "circomlib_ok cl \<longleftrightarrow> (\<forall>n x. n < 254 \<and> 0 \<le> x \<and> x < BN254_SCALAR_FIELD \<longrightarrow> (Num2Bits cl n x \<longleftrightarrow> x < 2 ^ n)) \<and>
     (\<forall>n x y. n \<le> 252 \<and> 0 \<le> x \<and> x < 2 ^ n \<and> 0 \<le> y \<and> y < 2 ^ n \<longrightarrow>
        LessEqThan cl n x y = Some (if x \<le> y then 1 else 0) \<and> GreaterEqThan cl n x y = Some (if y \<le> x then 1 else 0))"

section \<open>Templates\<close>

definition MasterPublicKey :: "poseidon \<Rightarrow> int \<Rightarrow> int \<Rightarrow> int \<Rightarrow> int" where
  "MasterPublicKey P pkX pkY nullifyingKey = P 3 [pkX, pkY, nullifyingKey]"

definition JoinSplitCommitment :: "poseidon \<Rightarrow> int \<Rightarrow> int \<Rightarrow> int \<Rightarrow> int" where
  "JoinSplitCommitment P npk token amount = P 3 [npk, token, amount]"

definition JoinSplitNullifier :: "poseidon \<Rightarrow> int \<Rightarrow> int \<Rightarrow> int" where
  "JoinSplitNullifier P nullifyingKey leafIndex = P 2 [nullifyingKey, leafIndex]"

text \<open>A running sum of signals: each partial sum is a field element.\<close>

definition signal_sum :: "int list \<Rightarrow> int" where
  "signal_sum vs = foldl (\<lambda>s v. (s + v) mod BN254_SCALAR_FIELD) 0 vs"

record joinsplit_signals =
  w_merkleRoot :: int
  w_boundParamsHash :: int
  w_nullifiers :: "int list"
  w_commitmentsOut :: "int list"
  w_token :: int
  w_publicKey :: "int \<times> int"
  w_signature :: "int \<times> int \<times> int"
  w_nullifyingKey :: int
  w_randomIn :: "int list"
  w_valueIn :: "int list"
  w_pathElements :: "int list list"
  w_pathIndices :: "int list list"
  w_leavesIndices :: "int list"
  w_npkOut :: "int list"
  w_valueOut :: "int list"

definition joinsplit_mpk :: "poseidon \<Rightarrow> joinsplit_signals \<Rightarrow> int" where
  "joinsplit_mpk P w = MasterPublicKey P (fst (w_publicKey w)) (snd (w_publicKey w)) (w_nullifyingKey w)"

definition input_commitment :: "poseidon \<Rightarrow> joinsplit_signals \<Rightarrow> nat \<Rightarrow> int" where
  "input_commitment P w i = JoinSplitCommitment P (P 2 [joinsplit_mpk P w, w_randomIn w ! i]) (w_token w) (w_valueIn w ! i)"

definition input_constraints :: "poseidon \<Rightarrow> circomlib \<Rightarrow> joinsplit_signals \<Rightarrow> nat \<Rightarrow> bool" where
  "input_constraints P cl w i \<longleftrightarrow>
     MerkleProofVerifier P (input_commitment P w i) (w_pathElements w ! i) (w_pathIndices w ! i) = Some (w_merkleRoot w) \<and>
     JoinSplitNullifier P (w_nullifyingKey w) (w_leavesIndices w ! i) = w_nullifiers w ! i \<and>
     Num2Bits cl 120 (w_valueIn w ! i)"

definition output_constraints :: "poseidon \<Rightarrow> circomlib \<Rightarrow> joinsplit_signals \<Rightarrow> nat \<Rightarrow> bool" where
  "output_constraints P cl w i \<longleftrightarrow>
     JoinSplitCommitment P (w_npkOut w ! i) (w_token w) (w_valueOut w ! i) = w_commitmentsOut w ! i \<and>
     Num2Bits cl 120 (w_valueOut w ! i)"

definition joinsplit_message :: "poseidon \<Rightarrow> joinsplit_signals \<Rightarrow> int" where
  "joinsplit_message P w = P (2 + length (w_nullifiers w) + length (w_commitmentsOut w))
     ([w_merkleRoot w, w_boundParamsHash w] @ w_nullifiers w @ w_commitmentsOut w)"

text \<open>The arrays of an assignment have the sizes the template declares.\<close>

definition joinsplit_sizes :: "nat \<Rightarrow> nat \<Rightarrow> nat \<Rightarrow> joinsplit_signals \<Rightarrow> bool" where
  "joinsplit_sizes nInputs nOutputs treeDepth w \<longleftrightarrow>
     length (w_nullifiers w) = nInputs \<and> length (w_randomIn w) = nInputs \<and> length (w_valueIn w) = nInputs \<and>
     length (w_pathElements w) = nInputs \<and> length (w_pathIndices w) = nInputs \<and> length (w_leavesIndices w) = nInputs \<and>
     list_all (\<lambda>p. length p = treeDepth) (w_pathElements w) \<and> list_all (\<lambda>p. length p = treeDepth) (w_pathIndices w) \<and>
     length (w_commitmentsOut w) = nOutputs \<and> length (w_npkOut w) = nOutputs \<and> length (w_valueOut w) = nOutputs"

definition JoinSplit :: "poseidon \<Rightarrow> circomlib \<Rightarrow> nat \<Rightarrow> nat \<Rightarrow> nat \<Rightarrow> joinsplit_signals \<Rightarrow> bool" where
  "JoinSplit P cl nInputs nOutputs treeDepth w \<longleftrightarrow>
     joinsplit_sizes nInputs nOutputs treeDepth w \<and>
     list_all (input_constraints P cl w) [0..<nInputs] \<and>
     list_all (output_constraints P cl w) [0..<nOutputs] \<and>
     signal_sum (w_valueIn w) = signal_sum (w_valueOut w) \<and>
     (case (w_publicKey w, w_signature w) of
        ((ax, ay), (r8x, r8y, s)) \<Rightarrow> EdDSAPoseidonVerifier cl ax ay r8x r8y s (joinsplit_message P w))"

section \<open>Disclosure circuits\<close>

record ownership_signals =
  o_commitment :: int
  o_merkleRoot :: int
  o_threshold :: int
  o_token :: int
  o_spendingPrivScalar :: int
  o_randomIn :: int
  o_valueIn :: int
  o_pathElements :: "int list"
  o_pathIndices :: "int list"
  o_nullifyingKey :: int

definition owner_mpk :: "poseidon \<Rightarrow> circomlib \<Rightarrow> int \<Rightarrow> int \<Rightarrow> int" where
  "owner_mpk P cl spendingPrivScalar nullifyingKey =
     (case BabyPbk cl spendingPrivScalar of (ax, ay) \<Rightarrow> MasterPublicKey P ax ay nullifyingKey)"

definition OwnershipProof :: "poseidon \<Rightarrow> circomlib \<Rightarrow> nat \<Rightarrow> ownership_signals \<Rightarrow> bool" where
  "OwnershipProof P cl treeDepth w \<longleftrightarrow>
     length (o_pathElements w) = treeDepth \<and> length (o_pathIndices w) = treeDepth \<and>
     o_commitment w = JoinSplitCommitment P (P 2 [owner_mpk P cl (o_spendingPrivScalar w) (o_nullifyingKey w), o_randomIn w])
       (o_token w) (o_valueIn w) \<and>
     MerkleProofVerifier P (o_commitment w) (o_pathElements w) (o_pathIndices w) = Some (o_merkleRoot w) \<and>
     GreaterEqThan cl 120 (o_valueIn w) (o_threshold w) = Some 1"

record range_sum_signals =
  r_leafIndices :: "int list"
  r_merkleRoot :: int
  r_ceiling :: int
  r_token :: int
  r_attestation :: int
  r_spendingPrivScalar :: int
  r_nullifyingKey :: int
  r_randomIn :: "int list"
  r_valueIn :: "int list"
  r_pathElements :: "int list list"
  r_pathIndices :: "int list list"
  r_viewerNonce :: int
  r_commitmentsIn :: "int list"

definition note_constraints :: "poseidon \<Rightarrow> circomlib \<Rightarrow> range_sum_signals \<Rightarrow> nat \<Rightarrow> bool" where
  "note_constraints P cl w i \<longleftrightarrow>
     r_commitmentsIn w ! i =
       JoinSplitCommitment P (P 2 [owner_mpk P cl (r_spendingPrivScalar w) (r_nullifyingKey w), r_randomIn w ! i]) (r_token w) (r_valueIn w ! i) \<and>
     MerkleProofVerifier P (r_commitmentsIn w ! i) (r_pathElements w ! i) (r_pathIndices w ! i) = Some (r_merkleRoot w)"

definition range_sum_sizes :: "nat \<Rightarrow> nat \<Rightarrow> range_sum_signals \<Rightarrow> bool" where
  "range_sum_sizes n treeDepth w \<longleftrightarrow>
     length (r_leafIndices w) = n \<and> length (r_randomIn w) = n \<and> length (r_valueIn w) = n \<and> length (r_pathElements w) = n \<and>
     length (r_pathIndices w) = n \<and> length (r_commitmentsIn w) = n \<and>
     list_all (\<lambda>p. length p = treeDepth) (r_pathElements w) \<and> list_all (\<lambda>p. length p = treeDepth) (r_pathIndices w)"

definition range_sum_body :: "poseidon \<Rightarrow> circomlib \<Rightarrow> nat \<Rightarrow> nat \<Rightarrow> range_sum_signals \<Rightarrow> bool" where
  "range_sum_body P cl n treeDepth w \<longleftrightarrow>
     range_sum_sizes n treeDepth w \<and> list_all (note_constraints P cl w) [0..<n] \<and>
     LessEqThan cl 124 (signal_sum (r_valueIn w)) (r_ceiling w) = Some 1"

definition RangeSum :: "poseidon \<Rightarrow> circomlib \<Rightarrow> nat \<Rightarrow> nat \<Rightarrow> range_sum_signals \<Rightarrow> bool" where
  "RangeSum P cl n treeDepth w \<longleftrightarrow>
     range_sum_body P cl n treeDepth w \<and> P (n + 1) (r_leafIndices w @ [r_viewerNonce w]) = r_attestation w"

definition RangeSum16 :: "poseidon \<Rightarrow> circomlib \<Rightarrow> nat \<Rightarrow> range_sum_signals \<Rightarrow> bool" where
  "RangeSum16 P cl treeDepth w \<longleftrightarrow>
     range_sum_body P cl 16 treeDepth w \<and>
     P 3 [P 8 (take 8 (r_leafIndices w)), P 8 (drop 8 (r_leafIndices w)), r_viewerNonce w] = r_attestation w"

section \<open>Value\<close>

lemma signal_sum_eq:
  assumes "\<forall>v \<in> set vs. 0 \<le> v" "sum_list vs < BN254_SCALAR_FIELD"
  shows "signal_sum vs = sum_list vs"
proof -
  have "foldl (\<lambda>s v. (s + v) mod BN254_SCALAR_FIELD) (s mod BN254_SCALAR_FIELD) vs = (s + sum_list vs) mod BN254_SCALAR_FIELD" for s
  proof (induction vs arbitrary: s)
    case (Cons v vs)
    have "(s mod BN254_SCALAR_FIELD + v) mod BN254_SCALAR_FIELD = (s + v) mod BN254_SCALAR_FIELD" by (simp add: mod_simps)
    with Cons.IH [of "s + v"] show ?case by (simp add: add.assoc)
  qed simp
  from this [of 0] assms show ?thesis by (simp add: signal_sum_def sum_list_nonneg)
qed

text \<open>Up to fourteen 120-bit values do not wrap around in the field.\<close>

lemma sum_fits:
  assumes "\<forall>v \<in> set vs. 0 \<le> v \<and> v < 2 ^ 120" "length vs \<le> 16"
  shows "sum_list vs < BN254_SCALAR_FIELD" "0 \<le> sum_list vs" "sum_list vs \<le> 16 * (2 ^ 120 - 1)"
proof -
  have "sum_list vs \<le> int (length vs) * (2 ^ 120 - 1)" using assms(1) by (induction vs) (auto simp: algebra_simps)
  also have "\<dots> \<le> 16 * (2 ^ 120 - 1)" using assms(2) by simp
  finally show "sum_list vs \<le> 16 * (2 ^ 120 - 1)" .
  then show "sum_list vs < BN254_SCALAR_FIELD" by (simp add: BN254_SCALAR_FIELD_def)
  show "0 \<le> sum_list vs" using assms(1) by (intro sum_list_nonneg) simp
qed

text \<open>Reduced field elements.\<close>

definition reduced :: "int list \<Rightarrow> bool" where
  "reduced vs \<longleftrightarrow> (\<forall>v \<in> set vs. 0 \<le> v \<and> v < BN254_SCALAR_FIELD)"

lemma Num2Bits_120: "circomlib_ok cl \<Longrightarrow> 0 \<le> x \<Longrightarrow> x < BN254_SCALAR_FIELD \<Longrightarrow> Num2Bits cl 120 x \<longleftrightarrow> x < 2 ^ 120"
proof -
  assume "circomlib_ok cl" "0 \<le> x" "x < BN254_SCALAR_FIELD"
  moreover have "(120::nat) < 254" by simp
  ultimately show ?thesis unfolding circomlib_ok_def by blast
qed

lemma ranges:
  assumes "circomlib_ok cl" "reduced vs" "\<forall>i < length vs. Num2Bits cl 120 (vs ! i)"
  shows "\<forall>v \<in> set vs. 0 \<le> v \<and> v < 2 ^ 120"
  using assms(2,3) Num2Bits_120 [OF assms(1)] unfolding reduced_def by (metis in_set_conv_nth)

lemma joinsplit_conserves:
  assumes "circomlib_ok cl" "JoinSplit P cl n m d w" "n \<le> 16" "m \<le> 16" "reduced (w_valueIn w)" "reduced (w_valueOut w)"
  shows "sum_list (w_valueIn w) = sum_list (w_valueOut w)" "\<forall>v \<in> set (w_valueIn w @ w_valueOut w). 0 \<le> v \<and> v < 2 ^ 120"
proof -
  have sizes: "length (w_valueIn w) = n" "length (w_valueOut w) = m" using assms(2) by (simp_all add: JoinSplit_def joinsplit_sizes_def)
  have i: "\<forall>v \<in> set (w_valueIn w). 0 \<le> v \<and> v < 2 ^ 120"
    using assms(2) by (intro ranges [OF assms(1,5)]) (auto simp: sizes JoinSplit_def list_all_iff input_constraints_def)
  have o: "\<forall>v \<in> set (w_valueOut w). 0 \<le> v \<and> v < 2 ^ 120"
    using assms(2) by (intro ranges [OF assms(1,6)]) (auto simp: sizes JoinSplit_def list_all_iff output_constraints_def)
  from i o show "\<forall>v \<in> set (w_valueIn w @ w_valueOut w). 0 \<le> v \<and> v < 2 ^ 120" by auto
  have "signal_sum (w_valueIn w) = signal_sum (w_valueOut w)" using assms(2) by (simp add: JoinSplit_def)
  then show "sum_list (w_valueIn w) = sum_list (w_valueOut w)"
    using i o sizes assms(3,4) sum_fits(1) [OF i] sum_fits(1) [OF o] by (simp add: signal_sum_eq)
qed

section \<open>Membership\<close>

text \<open>The pairs that a path hashes, and the position that its direction bits name.\<close>

fun path_pairs :: "poseidon \<Rightarrow> int \<Rightarrow> int list \<Rightarrow> int list \<Rightarrow> (int \<times> int) list" where
  "path_pairs P h (s # ss) (b # bs) =
     (let pr = (if b = 0 then (h, s) else (s, h)) in pr # path_pairs P (P 2 [fst pr, snd pr]) ss bs)"
| "path_pairs P h _ _ = []"

fun path_pos :: "int list \<Rightarrow> nat" where
  "path_pos [] = 0"
| "path_pos (b # bs) = nat b + 2 * path_pos bs"

text \<open>None of the pairs is a second preimage of a node of the tree: the assumption on Poseidon that membership proofs rest on.\<close>

definition no_second_preimage :: "poseidon \<Rightarrow> int list \<Rightarrow> (int \<times> int) list \<Rightarrow> bool" where
  "no_second_preimage P ls prs \<longleftrightarrow>
     (\<forall>(x, y) \<in> set prs. \<forall>l < 16. \<forall>k. P 2 [x, y] = node P ls (Suc l) k \<longrightarrow> x = node P ls l (2 * k) \<and> y = node P ls l (2 * k + 1))"

lemma path_member:
  assumes "MerkleProofVerifier P h ss bs = Some (node P ls (l + length ss) k)" "l + length ss \<le> 16" "no_second_preimage P ls (path_pairs P h ss bs)"
  shows "h = node P ls l (2 ^ length ss * k + path_pos bs)"
  using assms
proof (induction ss arbitrary: h bs l)
  case Nil
  then show ?case by (cases bs) simp_all
next
  case (Cons s ss)
  obtain b bs' where bs: "bs = b # bs'" "b = 0 \<or> b = 1" using Cons.prems(1) by (cases bs) (auto split: if_split_asm)
  let ?pr = "if b = 0 then (h, s) else (s, h)" and ?q = "2 ^ length ss * k + path_pos bs'"
  have v: "MerkleProofVerifier P (P 2 [fst ?pr, snd ?pr]) ss bs' = Some (node P ls (Suc l + length ss) k)"
    using Cons.prems(1) bs by (auto simp del: node.simps)
  have "P 2 [fst ?pr, snd ?pr] = node P ls (Suc l) ?q"
    using Cons.prems(2,3) by (intro Cons.IH [OF v]) (simp_all add: bs(1) no_second_preimage_def Let_def del: node.simps)
  moreover have "l < 16" "?pr \<in> set (path_pairs P h (s # ss) bs)" using Cons.prems(2) by (simp_all add: bs(1) Let_def)
  ultimately have "fst ?pr = node P ls l (2 * ?q)" "snd ?pr = node P ls l (2 * ?q + 1)"
    using Cons.prems(3) unfolding no_second_preimage_def by (auto simp del: node.simps)
  with bs show ?case by (auto simp: algebra_simps)
qed

lemma joinsplit_member:
  assumes "JoinSplit P cl n m 16 w" "i < n" "w_merkleRoot w = merkle_root P ls"
    "no_second_preimage P ls (path_pairs P (input_commitment P w i) (w_pathElements w ! i) (w_pathIndices w ! i))"
  shows "input_commitment P w i = node P ls 0 (path_pos (w_pathIndices w ! i))"
proof -
  have "MerkleProofVerifier P (input_commitment P w i) (w_pathElements w ! i) (w_pathIndices w ! i) = Some (node P ls (0 + 16) 0)"
    "length (w_pathElements w ! i) = 16"
    using assms(1-3) by (auto simp: JoinSplit_def joinsplit_sizes_def list_all_iff input_constraints_def merkle_root_def simp del: node.simps)
  with path_member [of P "input_commitment P w i" "w_pathElements w ! i" "w_pathIndices w ! i" ls 0 0] assms(4)
  show ?thesis by (simp del: node.simps)
qed

section \<open>Nullifiers\<close>

text \<open>The assignment that names other leaf indices for the nullifiers of the same notes, signed anew.\<close>

definition reindexed :: "poseidon \<Rightarrow> joinsplit_signals \<Rightarrow> int list \<Rightarrow> int \<times> int \<times> int \<Rightarrow> joinsplit_signals" where
  "reindexed P w idx sig = w\<lparr> w_leavesIndices := idx, w_nullifiers := map (JoinSplitNullifier P (w_nullifyingKey w)) idx, w_signature := sig \<rparr>"

definition signs :: "circomlib \<Rightarrow> int \<times> int \<Rightarrow> int \<times> int \<times> int \<Rightarrow> int \<Rightarrow> bool" where
  "signs cl pk sig msg \<longleftrightarrow> (case (pk, sig) of ((ax, ay), (r8x, r8y, s)) \<Rightarrow> EdDSAPoseidonVerifier cl ax ay r8x r8y s msg)"

lemma reindexed_sel [simp]:
  "w_merkleRoot (reindexed P w idx sig) = w_merkleRoot w" "w_commitmentsOut (reindexed P w idx sig) = w_commitmentsOut w"
  "w_token (reindexed P w idx sig) = w_token w" "w_publicKey (reindexed P w idx sig) = w_publicKey w"
  "w_nullifyingKey (reindexed P w idx sig) = w_nullifyingKey w" "w_randomIn (reindexed P w idx sig) = w_randomIn w"
  "w_valueIn (reindexed P w idx sig) = w_valueIn w" "w_pathElements (reindexed P w idx sig) = w_pathElements w"
  "w_pathIndices (reindexed P w idx sig) = w_pathIndices w" "w_npkOut (reindexed P w idx sig) = w_npkOut w"
  "w_valueOut (reindexed P w idx sig) = w_valueOut w" "w_signature (reindexed P w idx sig) = sig" "w_leavesIndices (reindexed P w idx sig) = idx"
  "w_nullifiers (reindexed P w idx sig) = map (JoinSplitNullifier P (w_nullifyingKey w)) idx"
  "w_boundParamsHash (reindexed P w idx sig) = w_boundParamsHash w"
  "input_commitment P (reindexed P w idx sig) i = input_commitment P w i"
  by (simp_all add: reindexed_def input_commitment_def joinsplit_mpk_def)

lemma reindexed_message: "joinsplit_message P (reindexed P w idx sig) = joinsplit_message P (reindexed P w idx sig')"
  by (simp add: joinsplit_message_def)

lemma reindexed_accepted:
  assumes "JoinSplit P cl n m d w" "length idx = n" "signs cl (w_publicKey w) sig (joinsplit_message P (reindexed P w idx sig))"
  shows "JoinSplit P cl n m d (reindexed P w idx sig)"
  using assms by (auto simp: JoinSplit_def joinsplit_sizes_def input_constraints_def output_constraints_def list_all_iff signs_def)

section \<open>Properties\<close>


text \<open>
  (C5) The circuit does not tie the leaf index of a nullifier to the path of the note. Whoever may spend notes has, for every list of other
  indices, an accepted proof that spends the same notes to the same outputs with the nullifiers of those indices; none of
  them needs to be one that is spent already.
\<close>

theorem joinsplit_nullifiers_free:
  assumes "JoinSplit P cl n m d w" "\<And>msg. \<exists>sig. signs cl (w_publicKey w) sig msg" "length idx = n"
    "\<forall>l \<in> set idx. JoinSplitNullifier P (w_nullifyingKey w) l \<notin> spent"
  shows "\<exists>w'. JoinSplit P cl n m d w' \<and> set (w_nullifiers w') \<inter> spent = {} \<and>
    w_merkleRoot w' = w_merkleRoot w \<and> w_pathIndices w' = w_pathIndices w \<and> (\<forall>i < n. input_commitment P w' i = input_commitment P w i) \<and>
    w_boundParamsHash w' = w_boundParamsHash w \<and> w_commitmentsOut w' = w_commitmentsOut w"
proof -
  obtain sig where "signs cl (w_publicKey w) sig (joinsplit_message P (reindexed P w idx (0, 0, 0)))" using assms(2) by blast
  then have s: "signs cl (w_publicKey w) sig (joinsplit_message P (reindexed P w idx sig))" using reindexed_message [of P w idx "(0, 0, 0)" sig] by simp
  show ?thesis
    using reindexed_accepted [OF assms(1,3) s] assms(4) by (intro exI [of _ "reindexed P w idx sig"]) auto
qed

section \<open>Witnesses\<close>

text \<open>A hash without collisions, a library that accepts every signature, and a tree with one note.\<close>

definition coding_poseidon :: poseidon where
  "coding_poseidon n xs = int (list_encode (map int_encode xs))"

lemma coding_inject: "coding_poseidon n xs = coding_poseidon n ys \<longleftrightarrow> xs = ys"
  using inj_int_encode by (auto simp: coding_poseidon_def list_encode_eq inj_map_eq_map)

definition sample_circomlib :: circomlib where
  "sample_circomlib = \<lparr> Num2Bits = \<lambda>n x. x < 2 ^ n, EdDSAPoseidonVerifier = \<lambda>ax ay rx ry s m. True,
     LessEqThan = \<lambda>n x y. Some (if x \<le> y then 1 else 0), GreaterEqThan = \<lambda>n x y. Some (if y \<le> x then 1 else 0), BabyPbk = \<lambda>s. (s, 1) \<rparr>"

lemma sample_circomlib_ok: "circomlib_ok sample_circomlib"
  by (simp add: circomlib_ok_def sample_circomlib_def)

definition sample_note :: int where
  "sample_note = JoinSplitCommitment coding_poseidon (coding_poseidon 2 [MasterPublicKey coding_poseidon 5 6 7, 8]) 9 1000"

definition sample_spend :: joinsplit_signals where
  "sample_spend = \<lparr> w_merkleRoot = merkle_root coding_poseidon [sample_note], w_boundParamsHash = 3,
     w_nullifiers = [JoinSplitNullifier coding_poseidon 7 0],
     w_commitmentsOut = [JoinSplitCommitment coding_poseidon 11 9 400, JoinSplitCommitment coding_poseidon 12 9 600], w_token = 9, w_publicKey = (5, 6),
     w_signature = (0, 0, 0), w_nullifyingKey = 7, w_randomIn = [8], w_valueIn = [1000],
     w_pathElements = [map (\<lambda>j. node coding_poseidon [sample_note] j 1) [0..<16]], w_pathIndices = [map (\<lambda>j. 0) [0..<16]],
     w_leavesIndices = [0], w_npkOut = [11, 12], w_valueOut = [400, 600] \<rparr>"

lemma sample_path:
  "MerkleProofVerifier coding_poseidon sample_note (map (\<lambda>j. node coding_poseidon [sample_note] j 1) [0..<16]) (map (\<lambda>j. 0) [0..<16]) =
   Some (merkle_root coding_poseidon [sample_note])"
  using verify_nodes [of coding_poseidon "[sample_note]" 0 0 16] by (simp add: sibling_def merkle_root_def del: upt_rec_numeral)

lemma sample_spend_accepted: "JoinSplit coding_poseidon sample_circomlib 1 2 16 sample_spend"
proof -
  have c: "input_commitment coding_poseidon sample_spend 0 = sample_note"
    by (simp add: input_commitment_def joinsplit_mpk_def sample_spend_def sample_note_def)
  have i: "input_constraints coding_poseidon sample_circomlib sample_spend 0"
    unfolding input_constraints_def c using sample_path by (simp add: sample_spend_def sample_circomlib_def)
  have s: "joinsplit_sizes 1 2 16 sample_spend" by (simp add: joinsplit_sizes_def sample_spend_def del: upt_rec_numeral)
  have u: "[0..<1] = [0::nat]" "[0..<2] = [0::nat, 1]" by (simp_all add: upt_rec)
  show ?thesis unfolding JoinSplit_def u
    using i s by (simp add: output_constraints_def sample_spend_def sample_circomlib_def signal_sum_def BN254_SCALAR_FIELD_def del: upt_rec_numeral)
qed


theorem joinsplit_nullifiers_free_witness:
  "\<exists>w'. JoinSplit coding_poseidon sample_circomlib 1 2 16 w' \<and> set (w_nullifiers w') \<inter> set (w_nullifiers sample_spend) = {} \<and>
    input_commitment coding_poseidon w' 0 = input_commitment coding_poseidon sample_spend 0"
proof -
  have s: "\<exists>sig. signs sample_circomlib (w_publicKey sample_spend) sig msg" for msg by (simp add: signs_def sample_circomlib_def split: prod.split)
  have f: "\<forall>l \<in> set [1]. JoinSplitNullifier coding_poseidon (w_nullifyingKey sample_spend) l \<notin> set (w_nullifiers sample_spend)"
    by (simp add: sample_spend_def JoinSplitNullifier_def coding_inject)
  show ?thesis using joinsplit_nullifiers_free [OF sample_spend_accepted s _ f] by auto
qed

end
