(* ===== verification/Prover.thy ===== *)
theory Prover
  imports Circuits
begin

text \<open>
  \<open>src/sdk/src/prover/web.ts\<close>: the checks and the input map of a JoinSplit proof, the cache of artifact paths, the serialisation of a
  proof and the instruction data of a verification. The prover itself (\<open>snarkjs.groth16.fullProve\<close>, in the process or in a
  child process) is an argument; \<open>snarkjs_ok\<close> says that it finds a proof for inputs that satisfy the circuit and returns the
  public signals in the order in which the circuit declares them.
\<close>

section \<open>Checks\<close>

definition MAX_SATOSHIS :: int where
  "MAX_SATOSHIS = 21000000 * 100000000"

definition validateFieldInputs :: "(string \<times> int) list \<Rightarrow> unit result" where
  "validateFieldInputs flds =
     js_fold (\<lambda>(name, v) _.
       if v < 0 then Inl (Error (''Invalid proof input: '' @ name @ '' is negative''))
       else if v \<ge> BN254_FIELD_PRIME then Inl (Error (''Invalid proof input: '' @ name @ '' exceeds BN254 field prime''))
       else Inr ()) flds ()"

definition validateAmount :: "int \<Rightarrow> string \<Rightarrow> unit result" where
  "validateAmount amount label =
     (if amount \<le> 0 then Inl (Error (''Invalid proof input: '' @ label @ '' must be positive''))
      else if amount > MAX_SATOSHIS then Inl (Error (''Invalid proof input: '' @ label @ '' exceeds total BTC supply''))
      else Inr ())"

section \<open>Artifacts\<close>

record prover_state =
  circuitBasePath :: string
  circuitCache :: "string \<rightharpoonup> string \<times> string"

definition setCircuitPath :: "string \<Rightarrow> prover_state \<Rightarrow> prover_state" where
  "setCircuitPath path st = st\<lparr> circuitBasePath := path \<rparr>"

definition getCircuitPath :: "prover_state \<Rightarrow> string" where
  "getCircuitPath st = circuitBasePath st"

definition artifact_paths :: "string \<Rightarrow> string \<Rightarrow> string \<times> string" where
  "artifact_paths base name =
     (base @ ''/'' @ name @ ''/'' @ name @ ''_js/'' @ name @ ''.wasm'', base @ ''/'' @ name @ ''/'' @ name @ ''.zkey'')"

definition getCircuitArtifactPaths :: "string \<Rightarrow> prover_state \<Rightarrow> (string \<times> string) \<times> prover_state" where
  "getCircuitArtifactPaths circuitType st =
     (case circuitCache st circuitType of
        Some artifact \<Rightarrow> (artifact, st)
      | None \<Rightarrow>
          (let artifact = artifact_paths (circuitBasePath st) circuitType
           in (artifact, st\<lparr> circuitCache := (circuitCache st)(circuitType \<mapsto> artifact) \<rparr>)))"

definition cleanup :: "prover_state \<Rightarrow> prover_state" where
  "cleanup st = st\<lparr> circuitCache := Map.empty \<rparr>"

section \<open>Proofs\<close>

text \<open>The input of a circuit: strings in decimal and path bits, by name.\<close>

datatype input_value =
    Str string
  | Strs "string list"
  | Nums "int list"
  | Strss "string list list"
  | Numss "int list list"

type_synonym InputMap = "(string \<times> input_value) list"

record groth_proof =
  pi_a :: "string \<times> string"
  pi_b :: "(string \<times> string) \<times> (string \<times> string)"
  pi_c :: "string \<times> string"

type_synonym fullProve = "InputMap \<Rightarrow> string \<Rightarrow> string \<Rightarrow> (groth_proof \<times> string list) result"

record ProofData =
  pd_proof :: bytes
  pd_publicInputs :: "string list"

fun writeBigIntBE :: "bytes \<Rightarrow> nat \<Rightarrow> int \<Rightarrow> nat \<Rightarrow> bytes" where
  "writeBigIntBE buf off v 0 = buf"
| "writeBigIntBE buf off v (Suc i) = writeBigIntBE (js_put buf (off + i) (v AND 0xFF)) off (drop_bit 8 v) i"

definition serializeProof :: "groth_proof \<Rightarrow> bytes result" where
  "serializeProof pf =
     (case (pi_a pf, pi_b pf, pi_c pf) of ((a0, a1), ((b00, b01), (b10, b11)), (c0, c1)) \<Rightarrow>
      js_fold (\<lambda>(off, s) buf. js_bind (js_BigInt s) (\<lambda>v. Inr (writeBigIntBE buf off v 32)))
        [(0, a0), (32, a1), (64, b01), (96, b00), (128, b11), (160, b10), (192, c0), (224, c1)] (replicate 256 0))"

definition generateProof :: "fullProve \<Rightarrow> string \<Rightarrow> InputMap \<Rightarrow> prover_state \<Rightarrow> ProofData result \<times> prover_state" where
  "generateProof fullProve circuitType inputs st =
     (let ((wasmPath, zkeyPath), st') = getCircuitArtifactPaths circuitType st in
      (js_bind (fullProve inputs wasmPath zkeyPath) (\<lambda>(pf, publicSignals).
       js_bind (serializeProof pf) (\<lambda>proofBytes.
         Inr \<lparr> pd_proof = proofBytes, pd_publicInputs = publicSignals \<rparr>)), st'))"

definition generateGenericGroth16Proof :: "fullProve \<Rightarrow> string \<Rightarrow> InputMap \<Rightarrow> prover_state \<Rightarrow> ProofData result" where
  "generateGenericGroth16Proof fullProve circuitName inputs st =
     (let (wasmPath, zkeyPath) = artifact_paths (circuitBasePath st) circuitName in
      js_bind (fullProve inputs wasmPath zkeyPath) (\<lambda>(pf, publicSignals).
      js_bind (serializeProof pf) (\<lambda>proofBytes.
        Inr \<lparr> pd_proof = proofBytes, pd_publicInputs = publicSignals \<rparr>)))"

definition proofToBytes :: "ProofData \<Rightarrow> bytes" where
  "proofToBytes pd = pd_proof pd"

section \<open>JoinSplit\<close>

record joinsplit_input =
  in_random :: int
  in_value :: int
  in_leafIndex :: int
  in_siblings :: "int list"
  in_indices :: "int list"

record JoinSplitProofInputs =
  jp_nInputs :: int
  jp_nOutputs :: int
  jp_merkleRoot :: int
  jp_boundParamsHash :: int
  jp_token :: int
  jp_publicKey :: "int \<times> int"
  jp_signature :: "int \<times> int \<times> int"
  jp_nullifyingKey :: int
  jp_inputs :: "joinsplit_input list"
  jp_outputs :: "(int \<times> int) list"

definition dec :: "int \<Rightarrow> string" where
  "dec v = js_toString 10 v"

definition check_input :: "nat \<times> joinsplit_input \<Rightarrow> int \<Rightarrow> int result" where
  "check_input = (\<lambda>(i, inp) totalIn.
     let label = ''input['' @ dec (int i) @ '']'' in
     js_bind (validateAmount (in_value inp) (label @ ''.value'')) (\<lambda>_.
     js_bind (validateFieldInputs [(label @ ''.random'', in_random inp)]) (\<lambda>_.
     if length (in_siblings inp) \<noteq> TREE_DEPTH
     then Inl (Error (label @ ''.merkleProof: expected 16 siblings, got '' @ dec (int (length (in_siblings inp)))))
     else if length (in_indices inp) \<noteq> TREE_DEPTH
     then Inl (Error (label @ ''.merkleProof: expected 16 indices, got '' @ dec (int (length (in_indices inp)))))
     else Inr (totalIn + in_value inp))))"

definition check_output :: "nat \<times> (int \<times> int) \<Rightarrow> int \<Rightarrow> int result" where
  "check_output = (\<lambda>(i, (npk, v)) totalOut.
     let label = ''output['' @ dec (int i) @ '']'' in
     js_bind (validateAmount v (label @ ''.value'')) (\<lambda>_.
     js_bind (validateFieldInputs [(label @ ''.npk'', npk)]) (\<lambda>_. Inr (totalOut + v))))"

definition joinsplit_input_map :: "poseidon \<Rightarrow> JoinSplitProofInputs \<Rightarrow> InputMap" where
  "joinsplit_input_map P inp =
     [(''merkleRoot'', Str (dec (jp_merkleRoot inp))),
      (''boundParamsHash'', Str (dec (jp_boundParamsHash inp))),
      (''nullifiers'', Strs (map (\<lambda>i. dec (computeJoinSplitNullifierSync P (jp_nullifyingKey inp) (in_leafIndex i))) (jp_inputs inp))),
      (''commitmentsOut'', Strs (map (\<lambda>(npk, v). dec (computeJoinSplitCommitmentSync P npk (jp_token inp) v)) (jp_outputs inp))),
      (''token'', Str (dec (jp_token inp))),
      (''publicKey'', Strs [dec (fst (jp_publicKey inp)), dec (snd (jp_publicKey inp))]),
      (''signature'', Strs (case jp_signature inp of (rx, ry, s) \<Rightarrow> [dec rx, dec ry, dec s])),
      (''nullifyingKey'', Str (dec (jp_nullifyingKey inp))),
      (''randomIn'', Strs (map (\<lambda>i. dec (in_random i)) (jp_inputs inp))),
      (''valueIn'', Strs (map (\<lambda>i. dec (in_value i)) (jp_inputs inp))),
      (''leavesIndices'', Strs (map (\<lambda>i. dec (in_leafIndex i)) (jp_inputs inp))),
      (''npkOut'', Strs (map (\<lambda>(npk, v). dec npk) (jp_outputs inp))),
      (''valueOut'', Strs (map (\<lambda>(npk, v). dec v) (jp_outputs inp))),
      (''pathElements'', Strss (map (\<lambda>i. map dec (in_siblings i)) (jp_inputs inp))),
      (''pathIndices'', Numss (map in_indices (jp_inputs inp)))]"

definition joinsplit_checks :: "poseidon \<Rightarrow> JoinSplitProofInputs \<Rightarrow> unit result" where
  "joinsplit_checks P inp =
     (let nInputs = jp_nInputs inp; nOutputs = jp_nOutputs inp in
      if nInputs < 1 \<or> nOutputs < 1 \<or> nInputs + nOutputs > 14
      then Inl (Error (''Invalid JoinSplit dimensions: '' @ dec nInputs @ ''x'' @ dec nOutputs @ '' (N+M must be 2..14)''))
      else if int (length (jp_inputs inp)) \<noteq> nInputs
      then Inl (Error (''Expected '' @ dec nInputs @ '' inputs, got '' @ dec (int (length (jp_inputs inp)))))
      else if int (length (jp_outputs inp)) \<noteq> nOutputs
      then Inl (Error (''Expected '' @ dec nOutputs @ '' outputs, got '' @ dec (int (length (jp_outputs inp)))))
      else
        js_bind (validateFieldInputs
          [(''merkleRoot'', jp_merkleRoot inp), (''boundParamsHash'', jp_boundParamsHash inp), (''token'', jp_token inp),
           (''publicKeyX'', fst (jp_publicKey inp)), (''publicKeyY'', snd (jp_publicKey inp)), (''nullifyingKey'', jp_nullifyingKey inp)]) (\<lambda>_.
        js_bind (js_fold check_input (enumerate 0 (jp_inputs inp)) 0) (\<lambda>totalIn.
        js_bind (js_fold check_output (enumerate 0 (jp_outputs inp)) 0) (\<lambda>totalOut.
        if totalIn \<noteq> totalOut
        then Inl (Error (''Value mismatch: inputs sum to '' @ dec totalIn @ '' sats but outputs sum to '' @ dec totalOut @ '' sats''))
        else
          js_bind (poseidonHashSync P ([jp_merkleRoot inp, jp_boundParamsHash inp] @
              map (\<lambda>i. computeJoinSplitNullifierSync P (jp_nullifyingKey inp) (in_leafIndex i)) (jp_inputs inp) @
              map (\<lambda>(npk, v). computeJoinSplitCommitmentSync P npk (jp_token inp) v) (jp_outputs inp))) (\<lambda>_. Inr ())))))"

definition generateJoinSplitProof ::
  "poseidon \<Rightarrow> fullProve \<Rightarrow> JoinSplitProofInputs \<Rightarrow> prover_state \<Rightarrow> ProofData result \<times> prover_state" where
  "generateJoinSplitProof P fullProve inp st =
     (case joinsplit_checks P inp of
        Inl e \<Rightarrow> (Inl e, st)
      | Inr _ \<Rightarrow>
          generateProof fullProve (''joinsplit_'' @ dec (jp_nInputs inp) @ ''x'' @ dec (jp_nOutputs inp)) (joinsplit_input_map P inp) st)"

section \<open>Verification data\<close>

definition public_signal_bytes :: "string \<Rightarrow> bytes result" where
  "public_signal_bytes s = js_bind (js_BigInt s) (\<lambda>v. Inr (map (\<lambda>i. word_of_int (drop_bit ((31 - i) * 8) v AND 0xFF)) [0..<32]))"

definition buildVerifyInstructionData :: "bytes \<Rightarrow> string list \<Rightarrow> string \<Rightarrow> bytes result" where
  "buildVerifyInstructionData prf publicSignals vkHash =
     js_bind (js_mapM public_signal_bytes publicSignals) (\<lambda>signals.
     let piBytes = concat signals; vkHashBytes = hexToBytes vkHash; piCount = int (length publicSignals) in
     build (length prf + 4 + length piBytes + 32)
       [PutBytes prf (length prf), PutByte (piCount AND 0xff), PutByte (drop_bit 8 piCount AND 0xff), PutByte (drop_bit 16 piCount AND 0xff),
        PutByte (drop_bit 24 piCount AND 0xff), PutBytes piBytes (length piBytes), PutBytes vkHashBytes 32])"

section \<open>Specification\<close>

text \<open>What the prover makes of the input map: every entry is flattened and reduced, and together they assign the signals of the circuit.\<close>

fun flat_input :: "input_value \<Rightarrow> int list result" where
  "flat_input (Str s) = js_mapM js_BigInt [s]"
| "flat_input (Strs ss) = js_mapM js_BigInt ss"
| "flat_input (Nums ns) = Inr ns"
| "flat_input (Strss sss) = js_mapM js_BigInt (concat sss)"
| "flat_input (Numss nss) = Inr (concat nss)"

definition input_signals :: "InputMap \<Rightarrow> string \<Rightarrow> int list option" where
  "input_signals inputs name =
     (case map_of inputs name of
        None \<Rightarrow> None
      | Some v \<Rightarrow> (case flat_input v of Inl _ \<Rightarrow> None | Inr xs \<Rightarrow> Some (map (\<lambda>x. x mod BN254_SCALAR_FIELD) xs)))"

definition assigns :: "InputMap \<Rightarrow> joinsplit_signals \<Rightarrow> bool" where
  "assigns inputs w \<longleftrightarrow>
     input_signals inputs ''merkleRoot'' = Some [w_merkleRoot w] \<and> input_signals inputs ''boundParamsHash'' = Some [w_boundParamsHash w] \<and>
     input_signals inputs ''nullifiers'' = Some (w_nullifiers w) \<and> input_signals inputs ''commitmentsOut'' = Some (w_commitmentsOut w) \<and>
     input_signals inputs ''token'' = Some [w_token w] \<and> input_signals inputs ''publicKey'' = Some [fst (w_publicKey w), snd (w_publicKey w)] \<and>
     input_signals inputs ''signature'' = Some [fst (w_signature w), fst (snd (w_signature w)), snd (snd (w_signature w))] \<and>
     input_signals inputs ''nullifyingKey'' = Some [w_nullifyingKey w] \<and> input_signals inputs ''randomIn'' = Some (w_randomIn w) \<and>
     input_signals inputs ''valueIn'' = Some (w_valueIn w) \<and> input_signals inputs ''leavesIndices'' = Some (w_leavesIndices w) \<and>
     input_signals inputs ''npkOut'' = Some (w_npkOut w) \<and> input_signals inputs ''valueOut'' = Some (w_valueOut w) \<and>
     input_signals inputs ''pathElements'' = Some (concat (w_pathElements w)) \<and> input_signals inputs ''pathIndices'' = Some (concat (w_pathIndices w))"

text \<open>A proof has the coordinates of its points in decimal.\<close>

definition proof_coords :: "groth_proof \<Rightarrow> int list \<Rightarrow> bool" where
  "proof_coords pf cs \<longleftrightarrow> length cs = 8 \<and> (\<forall>c \<in> set cs. fits 32 c) \<and>
     pi_a pf = (dec (cs ! 0), dec (cs ! 1)) \<and> pi_b pf = ((dec (cs ! 3), dec (cs ! 2)), (dec (cs ! 5), dec (cs ! 4))) \<and> pi_c pf = (dec (cs ! 6), dec (cs ! 7))"

definition public_signals :: "joinsplit_signals \<Rightarrow> int list" where
  "public_signals w = [w_merkleRoot w, w_boundParamsHash w] @ w_nullifiers w @ w_commitmentsOut w"

definition snarkjs_ok :: "poseidon \<Rightarrow> circomlib \<Rightarrow> fullProve \<Rightarrow> string \<Rightarrow> bool" where
  "snarkjs_ok P cl fullProve base \<longleftrightarrow>
     (\<forall>n m inputs w. assigns inputs w \<and> JoinSplit P cl n m 16 w \<longrightarrow>
        (\<exists>pf cs. proof_coords pf cs \<and>
           (let artifact = artifact_paths base (''joinsplit_'' @ dec (int n) @ ''x'' @ dec (int m)) in
            fullProve inputs (fst artifact) (snd artifact) = Inr (pf, map dec (public_signals w)))))"

definition cache_ok :: "prover_state \<Rightarrow> bool" where
  "cache_ok st \<longleftrightarrow> (\<forall>name a. circuitCache st name = Some a \<longrightarrow> a = artifact_paths (circuitBasePath st) name)"

text \<open>What the checks accept.\<close>

definition request_ok :: "JoinSplitProofInputs \<Rightarrow> bool" where
  "request_ok inp \<longleftrightarrow>
     jp_nInputs inp = int (length (jp_inputs inp)) \<and> jp_nOutputs inp = int (length (jp_outputs inp)) \<and>
     1 \<le> jp_nInputs inp \<and> 1 \<le> jp_nOutputs inp \<and> jp_nInputs inp + jp_nOutputs inp \<le> 14 \<and>
     reduced [jp_merkleRoot inp, jp_boundParamsHash inp, jp_token inp, fst (jp_publicKey inp), snd (jp_publicKey inp), jp_nullifyingKey inp] \<and>
     (\<forall>i \<in> set (jp_inputs inp). 0 < in_value i \<and> in_value i \<le> MAX_SATOSHIS \<and> reduced [in_random i] \<and>
        length (in_siblings i) = 16 \<and> length (in_indices i) = 16) \<and>
     (\<forall>(npk, v) \<in> set (jp_outputs inp). 0 < v \<and> v \<le> MAX_SATOSHIS \<and> reduced [npk]) \<and>
     sum_list (map in_value (jp_inputs inp)) = sum_list (map snd (jp_outputs inp))"

section \<open>The checks\<close>

lemma validateFieldInputs_iff: "validateFieldInputs flds = Inr u \<longleftrightarrow> reduced (map snd flds)"
  unfolding validateFieldInputs_def
proof (induction flds)
  case (Cons f flds)
  then show ?case by (cases f) (auto simp: reduced_def BN254_FIELD_PRIME_def BN254_SCALAR_FIELD_def)
qed (simp add: reduced_def)

lemma validateAmount_iff: "validateAmount v label = Inr u \<longleftrightarrow> 0 < v \<and> v \<le> MAX_SATOSHIS"
  by (auto simp: validateAmount_def)

lemma check_input_iff:
  "check_input (k, i) tot = Inr r \<longleftrightarrow> 0 < in_value i \<and> in_value i \<le> MAX_SATOSHIS \<and> reduced [in_random i] \<and>
     length (in_siblings i) = 16 \<and> length (in_indices i) = 16 \<and> r = tot + in_value i"
  by (auto simp: check_input_def js_bind_Inr_iff validateAmount_iff validateFieldInputs_iff Let_def split: if_split_asm)

lemma check_inputs_iff:
  "js_fold check_input (enumerate k xs) tot = Inr r \<longleftrightarrow>
   (\<forall>i \<in> set xs. 0 < in_value i \<and> in_value i \<le> MAX_SATOSHIS \<and> reduced [in_random i] \<and> length (in_siblings i) = 16 \<and> length (in_indices i) = 16) \<and>
   r = tot + sum_list (map in_value xs)"
  by (induction xs arbitrary: k tot) (auto simp: js_bind_Inr_iff check_input_iff)

lemma check_output_iff: "check_output (k, npk, v) tot = Inr r \<longleftrightarrow> 0 < v \<and> v \<le> MAX_SATOSHIS \<and> reduced [npk] \<and> r = tot + v"
  by (auto simp: check_output_def js_bind_Inr_iff validateAmount_iff validateFieldInputs_iff Let_def)

lemma check_outputs_iff:
  "js_fold check_output (enumerate k xs) tot = Inr r \<longleftrightarrow>
   (\<forall>(npk, v) \<in> set xs. 0 < v \<and> v \<le> MAX_SATOSHIS \<and> reduced [npk]) \<and> r = tot + sum_list (map snd xs)"
proof (induction xs arbitrary: k tot)
  case (Cons x xs)
  then show ?case by (cases x) (auto simp: js_bind_Inr_iff check_output_iff)
qed auto

lemma joinsplit_checks_iff: "joinsplit_checks P inp = Inr u \<longleftrightarrow> request_ok inp"
  by (auto simp: joinsplit_checks_def request_ok_def js_bind_Inr_iff Let_def check_inputs_iff check_outputs_iff validateFieldInputs_iff
      poseidonHashSync_def split: if_split_asm)

lemma generate_eq:
  "request_ok inp \<Longrightarrow> generateJoinSplitProof P fullProve inp st =
     generateProof fullProve (''joinsplit_'' @ dec (jp_nInputs inp) @ ''x'' @ dec (jp_nOutputs inp)) (joinsplit_input_map P inp) st"
  using joinsplit_checks_iff [of P inp "()"] by (simp add: generateJoinSplitProof_def)

lemma generate_refused: "\<not> request_ok inp \<Longrightarrow> \<exists>e. generateJoinSplitProof P fullProve inp st = (Inl e, st)"
  using joinsplit_checks_iff [of P inp] by (auto simp: generateJoinSplitProof_def split: sum.split)

section \<open>Bytes of a proof\<close>

lemma writeBigIntBE_mid: "length mid = n \<Longrightarrow> writeBigIntBE (pre @ mid @ post) (length pre) v n = pre @ be_bytes n v @ post"
proof (induction n arbitrary: mid post v)
  case (Suc n)
  then obtain m x where m: "mid = m @ [x]" "length m = n" by (metis length_Suc_conv_rev)
  have "writeBigIntBE (pre @ mid @ post) (length pre) v (Suc n) = writeBigIntBE (pre @ m @ word_of_int v # post) (length pre) (drop_bit 8 v) n"
    using m by (simp add: js_put_def word_of_int_and_255 list_update_append)
  also have "\<dots> = pre @ be_bytes n (v div 256) @ word_of_int v # post" using Suc.IH [OF m(2)] by (simp add: drop_bit_8)
  finally show ?case by (simp add: be_bytes_def)
qed (simp add: be_bytes_def)

lemma serializeProof_coords:
  assumes "proof_coords pf cs"
  shows "serializeProof pf = Inr (concat (map (be_bytes 32) cs))"
proof -
  obtain c0 c1 c2 c3 c4 c5 c6 c7 where cs: "cs = [c0, c1, c2, c3, c4, c5, c6, c7]"
    using assms by (auto simp: proof_coords_def length_Suc_conv numeral_eq_Suc)
  let ?w = "\<lambda>k v buf. writeBigIntBE buf k v 32"
  have w: "?w (length pre) v (pre @ replicate (32 + n) 0) = (pre @ be_bytes 32 v) @ replicate n 0" for pre v n
    using writeBigIntBE_mid [of "replicate 32 0" 32 pre "replicate n 0" v] by (simp add: replicate_add)
  have "?w 224 c7 (?w 192 c6 (?w 160 c5 (?w 128 c4 (?w 96 c3 (?w 64 c2 (?w 32 c1 (?w 0 c0 (replicate 256 0)))))))) = concat (map (be_bytes 32) cs)"
    using w [of "[]" 224 c0] w [of "be_bytes 32 c0" 192 c1] w [of "be_bytes 32 c0 @ be_bytes 32 c1" 160 c2]
      w [of "be_bytes 32 c0 @ be_bytes 32 c1 @ be_bytes 32 c2" 128 c3] w [of "be_bytes 32 c0 @ be_bytes 32 c1 @ be_bytes 32 c2 @ be_bytes 32 c3" 96 c4]
      w [of "be_bytes 32 c0 @ be_bytes 32 c1 @ be_bytes 32 c2 @ be_bytes 32 c3 @ be_bytes 32 c4" 64 c5]
      w [of "be_bytes 32 c0 @ be_bytes 32 c1 @ be_bytes 32 c2 @ be_bytes 32 c3 @ be_bytes 32 c4 @ be_bytes 32 c5" 32 c6]
      w [of "be_bytes 32 c0 @ be_bytes 32 c1 @ be_bytes 32 c2 @ be_bytes 32 c3 @ be_bytes 32 c4 @ be_bytes 32 c5 @ be_bytes 32 c6" 0 c7]
    by (simp add: cs)
  moreover have "pi_a pf = (dec c0, dec c1)" "pi_b pf = ((dec c3, dec c2), (dec c5, dec c4))" "pi_c pf = (dec c6, dec c7)"
    using assms by (simp_all add: proof_coords_def cs)
  ultimately show ?thesis by (simp add: serializeProof_def dec_def BigInt_toString10)
qed

section \<open>Assignment\<close>

text \<open>Poseidon returns field elements.\<close>

definition poseidon_field :: "poseidon \<Rightarrow> bool" where
  "poseidon_field P \<longleftrightarrow> (\<forall>n xs. 0 \<le> P n xs \<and> P n xs < BN254_SCALAR_FIELD)"

definition joinsplit_witness :: "poseidon \<Rightarrow> JoinSplitProofInputs \<Rightarrow> joinsplit_signals" where
  "joinsplit_witness P inp =
     \<lparr> w_merkleRoot = jp_merkleRoot inp, w_boundParamsHash = jp_boundParamsHash inp,
       w_nullifiers = map (\<lambda>i. P 2 [jp_nullifyingKey inp, in_leafIndex i]) (jp_inputs inp),
       w_commitmentsOut = map (\<lambda>out. P 3 [fst out, jp_token inp, snd out]) (jp_outputs inp),
       w_token = jp_token inp, w_publicKey = jp_publicKey inp, w_signature = jp_signature inp, w_nullifyingKey = jp_nullifyingKey inp,
       w_randomIn = map in_random (jp_inputs inp), w_valueIn = map in_value (jp_inputs inp),
       w_pathElements = map in_siblings (jp_inputs inp), w_pathIndices = map in_indices (jp_inputs inp),
       w_leavesIndices = map in_leafIndex (jp_inputs inp), w_npkOut = map fst (jp_outputs inp), w_valueOut = map snd (jp_outputs inp) \<rparr>"

lemma mapM_dec: "js_mapM js_BigInt (map (\<lambda>x. dec (f x)) xs) = Inr (map f xs)"
  by (induction xs) (simp_all add: dec_def BigInt_toString10)

lemma mapM_dec_concat: "js_mapM js_BigInt (concat (map (\<lambda>x. map dec (f x)) xs)) = Inr (concat (map f xs))"
  using mapM_dec [of "\<lambda>x. x" "concat (map f xs)"] by (simp add: map_concat comp_def)

lemma reduced_mod: "reduced xs \<Longrightarrow> map (\<lambda>x. x mod BN254_SCALAR_FIELD) xs = xs"
  by (induction xs) (simp_all add: reduced_def)

lemma reduced_append [simp]: "reduced (xs @ ys) \<longleftrightarrow> reduced xs \<and> reduced ys"
  by (auto simp: reduced_def)

lemma fixed_hashes:
  "computeJoinSplitNullifierSync P k l = P 2 [k, l]" "computeJoinSplitCommitmentSync P npk t v = P 3 [npk, t, v]"
  by (simp_all add: computeJoinSplitNullifierSync_def computeJoinSplitCommitmentSync_def poseidon_fixed_eq numeral_eq_Suc)

lemma input_lookup:
  "map_of (joinsplit_input_map P inp) ''merkleRoot'' = Some (Str (dec (jp_merkleRoot inp)))"
  "map_of (joinsplit_input_map P inp) ''boundParamsHash'' = Some (Str (dec (jp_boundParamsHash inp)))"
  "map_of (joinsplit_input_map P inp) ''nullifiers'' = Some (Strs (map (\<lambda>i. dec (P 2 [jp_nullifyingKey inp, in_leafIndex i])) (jp_inputs inp)))"
  "map_of (joinsplit_input_map P inp) ''commitmentsOut'' = Some (Strs (map (\<lambda>x. dec (P 3 [fst x, jp_token inp, snd x])) (jp_outputs inp)))"
  "map_of (joinsplit_input_map P inp) ''token'' = Some (Str (dec (jp_token inp)))"
  "map_of (joinsplit_input_map P inp) ''publicKey'' = Some (Strs [dec (fst (jp_publicKey inp)), dec (snd (jp_publicKey inp))])"
  "map_of (joinsplit_input_map P inp) ''signature'' = Some (Strs (case jp_signature inp of (rx, ry, s) \<Rightarrow> [dec rx, dec ry, dec s]))"
  "map_of (joinsplit_input_map P inp) ''nullifyingKey'' = Some (Str (dec (jp_nullifyingKey inp)))"
  "map_of (joinsplit_input_map P inp) ''randomIn'' = Some (Strs (map (\<lambda>i. dec (in_random i)) (jp_inputs inp)))"
  "map_of (joinsplit_input_map P inp) ''valueIn'' = Some (Strs (map (\<lambda>i. dec (in_value i)) (jp_inputs inp)))"
  "map_of (joinsplit_input_map P inp) ''leavesIndices'' = Some (Strs (map (\<lambda>i. dec (in_leafIndex i)) (jp_inputs inp)))"
  "map_of (joinsplit_input_map P inp) ''npkOut'' = Some (Strs (map (\<lambda>x. dec (fst x)) (jp_outputs inp)))"
  "map_of (joinsplit_input_map P inp) ''valueOut'' = Some (Strs (map (\<lambda>x. dec (snd x)) (jp_outputs inp)))"
  "map_of (joinsplit_input_map P inp) ''pathElements'' = Some (Strss (map (\<lambda>i. map dec (in_siblings i)) (jp_inputs inp)))"
  "map_of (joinsplit_input_map P inp) ''pathIndices'' = Some (Numss (map in_indices (jp_inputs inp)))"
  by (simp_all add: joinsplit_input_map_def fixed_hashes split_def)

lemma witness_assigned:
  assumes "poseidon_field P" "request_ok inp" "reduced (map in_leafIndex (jp_inputs inp))"
    "reduced (case jp_signature inp of (rx, ry, s) \<Rightarrow> [rx, ry, s])"
    "\<forall>i \<in> set (jp_inputs inp). reduced (in_siblings i) \<and> reduced (in_indices i)"
  shows "assigns (joinsplit_input_map P inp) (joinsplit_witness P inp)"
proof -
  let ?m = "joinsplit_input_map P inp" and ?w = "joinsplit_witness P inp"
  have sig: "input_signals ?m name = Some xs" if "map_of ?m name = Some v" "flat_input v = Inr xs" "reduced xs" for name v xs
    using that by (simp add: input_signals_def reduced_mod)
  have p3: "(0::int) < MAX_SATOSHIS" "MAX_SATOSHIS < BN254_SCALAR_FIELD" by (simp_all add: MAX_SATOSHIS_def BN254_SCALAR_FIELD_def)
  have vals: "reduced (map in_random (jp_inputs inp))" "reduced (map in_value (jp_inputs inp))" "reduced (map fst (jp_outputs inp))" "reduced (map snd (jp_outputs inp))"
    using assms(2) p3 by (fastforce simp: request_ok_def reduced_def)+
  have hashes: "reduced (map (\<lambda>i. P 2 [jp_nullifyingKey inp, in_leafIndex i]) (jp_inputs inp))"
    "reduced (map (\<lambda>out. P 3 [fst out, jp_token inp, snd out]) (jp_outputs inp))"
    using assms(1) by (auto simp: poseidon_field_def reduced_def)
  have paths: "reduced (concat (map in_siblings (jp_inputs inp)))" "reduced (concat (map in_indices (jp_inputs inp)))"
    using assms(5) by (fastforce simp: reduced_def)+
  have one: "reduced [jp_merkleRoot inp]" "reduced [jp_boundParamsHash inp]" "reduced [jp_token inp]" "reduced [jp_nullifyingKey inp]"
    "reduced [fst (jp_publicKey inp), snd (jp_publicKey inp)]" using assms(2) by (simp_all add: request_ok_def reduced_def)
  obtain rx ry sg where s: "jp_signature inp = (rx, ry, sg)" by (cases "jp_signature inp")
  note d = BigInt_toString10 [folded dec_def] and L = input_lookup [of P inp]
  have "input_signals ?m ''merkleRoot'' = Some [jp_merkleRoot inp]" by (rule sig [OF L(1)]) (simp_all add: d one)
  moreover have "input_signals ?m ''boundParamsHash'' = Some [jp_boundParamsHash inp]" by (rule sig [OF L(2)]) (simp_all add: d one)
  moreover have "input_signals ?m ''nullifiers'' = Some (w_nullifiers ?w)"
    by (rule sig [OF L(3)]) (simp_all add: mapM_dec hashes joinsplit_witness_def)
  moreover have "input_signals ?m ''commitmentsOut'' = Some (w_commitmentsOut ?w)"
    by (rule sig [OF L(4)]) (simp_all add: mapM_dec hashes joinsplit_witness_def)
  moreover have "input_signals ?m ''token'' = Some [jp_token inp]" by (rule sig [OF L(5)]) (simp_all add: d one)
  moreover have "input_signals ?m ''publicKey'' = Some [fst (jp_publicKey inp), snd (jp_publicKey inp)]" by (rule sig [OF L(6)]) (simp_all add: d one)
  moreover have "input_signals ?m ''signature'' = Some [rx, ry, sg]" by (rule sig [OF L(7)]) (use assms(4) s in \<open>simp_all add: d\<close>)
  moreover have "input_signals ?m ''nullifyingKey'' = Some [jp_nullifyingKey inp]" by (rule sig [OF L(8)]) (simp_all add: d one)
  moreover have "input_signals ?m ''randomIn'' = Some (w_randomIn ?w)" by (rule sig [OF L(9)]) (simp_all add: mapM_dec vals joinsplit_witness_def)
  moreover have "input_signals ?m ''valueIn'' = Some (w_valueIn ?w)" by (rule sig [OF L(10)]) (simp_all add: mapM_dec vals joinsplit_witness_def)
  moreover have "input_signals ?m ''leavesIndices'' = Some (w_leavesIndices ?w)"
    by (rule sig [OF L(11)]) (simp_all add: mapM_dec assms(3) joinsplit_witness_def)
  moreover have "input_signals ?m ''npkOut'' = Some (w_npkOut ?w)" by (rule sig [OF L(12)]) (simp_all add: mapM_dec vals joinsplit_witness_def)
  moreover have "input_signals ?m ''valueOut'' = Some (w_valueOut ?w)" by (rule sig [OF L(13)]) (simp_all add: mapM_dec vals joinsplit_witness_def)
  moreover have "input_signals ?m ''pathElements'' = Some (concat (w_pathElements ?w))"
    by (rule sig [OF L(14)]) (simp_all add: mapM_dec_concat paths joinsplit_witness_def)
  moreover have "input_signals ?m ''pathIndices'' = Some (concat (w_pathIndices ?w))"
    by (rule sig [OF L(15)]) (simp_all add: paths joinsplit_witness_def)
  ultimately show ?thesis using s by (simp add: assigns_def joinsplit_witness_def)
qed

text \<open>The note that an input of the request opens.\<close>

definition note_commitment :: "poseidon \<Rightarrow> JoinSplitProofInputs \<Rightarrow> joinsplit_input \<Rightarrow> int" where
  "note_commitment P inp i =
     computeJoinSplitCommitmentSync P
       (computeNPKSync P (computeMPKSync P (fst (jp_publicKey inp)) (snd (jp_publicKey inp)) (jp_nullifyingKey inp)) (in_random i))
       (jp_token inp) (in_value i)"

lemma note_commitment_eq:
  "note_commitment P inp i = P 3 [P 2 [P 3 [fst (jp_publicKey inp), snd (jp_publicKey inp), jp_nullifyingKey inp], in_random i], jp_token inp, in_value i]"
  by (simp add: note_commitment_def computeJoinSplitCommitmentSync_def computeNPKSync_def computeMPKSync_def poseidon_fixed_eq numeral_eq_Suc)

lemma witness_accepted:
  assumes "circomlib_ok cl" "request_ok inp" "signs cl (jp_publicKey inp) (jp_signature inp) (joinsplit_message P (joinsplit_witness P inp))"
    "\<forall>i \<in> set (jp_inputs inp). MerkleProofVerifier P (note_commitment P inp i) (in_siblings i) (in_indices i) = Some (jp_merkleRoot inp)"
  shows "JoinSplit P cl (length (jp_inputs inp)) (length (jp_outputs inp)) 16 (joinsplit_witness P inp)"
proof -
  let ?w = "joinsplit_witness P inp"
  have r: "\<And>i. i \<in> set (jp_inputs inp) \<Longrightarrow> 0 < in_value i \<and> in_value i \<le> MAX_SATOSHIS \<and> length (in_siblings i) = 16 \<and> length (in_indices i) = 16"
    "\<And>out. out \<in> set (jp_outputs inp) \<Longrightarrow> 0 < snd out \<and> snd out \<le> MAX_SATOSHIS"
    "length (jp_inputs inp) \<le> 16" "length (jp_outputs inp) \<le> 16" "sum_list (map in_value (jp_inputs inp)) = sum_list (map snd (jp_outputs inp))"
    using assms(2) by (auto simp: request_ok_def)
  have m: "MAX_SATOSHIS < 2 ^ 120" "(2::int) ^ 120 < BN254_SCALAR_FIELD" by (simp_all add: MAX_SATOSHIS_def BN254_SCALAR_FIELD_def)
  have n: "Num2Bits cl 120 v" if "0 < v" "v \<le> MAX_SATOSHIS" for v
    using Num2Bits_120 [OF assms(1), of v] that m by simp
  have "input_constraints P cl ?w k" if "k < length (jp_inputs inp)" for k
    using that assms(4) nth_mem [OF that] r(1) [OF nth_mem [OF that]] n
    by (simp add: input_constraints_def input_commitment_def joinsplit_mpk_def joinsplit_witness_def JoinSplitNullifier_def JoinSplitCommitment_def
        MasterPublicKey_def note_commitment_eq)
  moreover have "output_constraints P cl ?w k" if "k < length (jp_outputs inp)" for k
    using that r(2) [OF nth_mem [OF that]] n by (simp add: output_constraints_def joinsplit_witness_def JoinSplitCommitment_def)
  moreover have "joinsplit_sizes (length (jp_inputs inp)) (length (jp_outputs inp)) 16 ?w"
    using r(1) by (auto simp: joinsplit_sizes_def joinsplit_witness_def list_all_iff)
  moreover have "signal_sum (w_valueIn ?w) = signal_sum (w_valueOut ?w)"
  proof -
    have "\<forall>v \<in> set (map in_value (jp_inputs inp)). 0 \<le> v \<and> v < 2 ^ 120" "\<forall>v \<in> set (map snd (jp_outputs inp)). 0 \<le> v \<and> v < 2 ^ 120"
      using r(1,2) m(1) by fastforce+
    from sum_fits(1) [OF this(1)] sum_fits(1) [OF this(2)] this r(3-5) show ?thesis by (simp add: signal_sum_eq joinsplit_witness_def)
  qed
  ultimately show ?thesis using assms(3) by (simp add: JoinSplit_def list_all_iff signs_def) (simp add: joinsplit_witness_def)
qed

section \<open>Properties\<close>

lemma artifact_cached:
  assumes "cache_ok st"
  shows "\<exists>st'. getCircuitArtifactPaths name st = (artifact_paths (circuitBasePath st) name, st') \<and> cache_ok st'"
proof (cases "circuitCache st name")
  case None
  with assms show ?thesis by (auto simp: getCircuitArtifactPaths_def cache_ok_def Let_def)
next
  case (Some a)
  with assms have "a = artifact_paths (circuitBasePath st) name" unfolding cache_ok_def by blast
  with Some assms show ?thesis by (simp add: getCircuitArtifactPaths_def)
qed

text \<open>A change of the path does not reach artifacts that are in the cache.\<close>

lemma stale_artifact:
  "getCircuitArtifactPaths name st = (a, st') \<Longrightarrow> fst (getCircuitArtifactPaths name (setCircuitPath path st')) = a"
  by (auto simp: getCircuitArtifactPaths_def setCircuitPath_def Let_def split: option.split_asm)

lemma generateProof_eq:
  "getCircuitArtifactPaths name st = (a, st') \<Longrightarrow> fullProve inputs (fst a) (snd a) = Inr (pf, signals) \<Longrightarrow> serializeProof pf = Inr bs \<Longrightarrow>
   generateProof fullProve name inputs st = (Inr \<lparr> pd_proof = bs, pd_publicInputs = signals \<rparr>, st')"
  by (cases a) (simp add: generateProof_def)

lemma node_reduced: "poseidon_field P \<Longrightarrow> reduced ls \<Longrightarrow> 0 \<le> node P ls l k \<and> node P ls l k < BN254_SCALAR_FIELD"
  by (cases l) (auto simp: poseidon_field_def reduced_def BN254_SCALAR_FIELD_def)

lemma index_proof_reduced:
  assumes "zero_ok P" "poseidon_field P" "tree_inv P t" "reduced (ct_leaves t)" "getMerkleProof P t c = Some pr"
  shows "reduced (tp_siblings pr)" "reduced (tp_indices pr)" "reduced [tp_leafIndex pr]" "length (tp_indices pr) = 16"
proof -
  obtain i where i: "i < length (ct_leaves t)" "tp_leafIndex pr = int i"
    "tp_siblings pr = fst (computeMerkleProof P t i)" "tp_indices pr = snd (computeMerkleProof P t i)"
    using getMerkleProof_cases [OF assms(3,5)] by metis
  have "i < 65536" using i(1) assms(3) by (simp add: tree_inv_def)
  then show "reduced [tp_leafIndex pr]" by (simp add: i(2) reduced_def BN254_SCALAR_FIELD_def)
  have "int (k mod 2) < BN254_SCALAR_FIELD" for k
    by (rule order_less_trans [of _ 2]) (simp_all add: BN254_SCALAR_FIELD_def zmod_int)
  then show "reduced (tp_siblings pr)" "reduced (tp_indices pr)" "length (tp_indices pr) = 16"
    using node_reduced [OF assms(2,4)] by (auto simp: i computeMerkleProof_nodes [OF assms(1)] reduced_def simp del: node.simps)
qed

lemma proof_generated:
  assumes "zero_ok P" "poseidon_field P" "circomlib_ok cl" "snarkjs_ok P cl fullProve (circuitBasePath st)" "cache_ok st"
    "js_fold (insert_pair P) es new_CommitmentTreeIndex = Inr t" "reduced (map fst es)" "jp_merkleRoot inp = getRoot t"
    "\<forall>i \<in> set (jp_inputs inp). \<exists>pr. getMerkleProof P t (note_commitment P inp i) = Some pr \<and>
       in_siblings i = tp_siblings pr \<and> in_indices i = tp_indices pr \<and> in_leafIndex i = tp_leafIndex pr"
    "signs cl (jp_publicKey inp) (jp_signature inp) (joinsplit_message P (joinsplit_witness P inp))"
    "reduced (case jp_signature inp of (rx, ry, s) \<Rightarrow> [rx, ry, s])"
  shows "(\<not> request_ok inp \<longrightarrow> (\<exists>e. generateJoinSplitProof P fullProve inp st = (Inl e, st))) \<and>
    (request_ok inp \<longrightarrow> JoinSplit P cl (length (jp_inputs inp)) (length (jp_outputs inp)) 16 (joinsplit_witness P inp) \<and>
      (\<exists>pf cs pd st'. generateJoinSplitProof P fullProve inp st = (Inr pd, st') \<and> cache_ok st' \<and>
        (case artifact_paths (circuitBasePath st) (''joinsplit_'' @ dec (jp_nInputs inp) @ ''x'' @ dec (jp_nOutputs inp)) of
           (wasmPath, zkeyPath) \<Rightarrow> fullProve (joinsplit_input_map P inp) wasmPath zkeyPath = Inr (pf, pd_publicInputs pd)) \<and>
        proof_coords pf cs \<and> proofToBytes pd = concat (map (be_bytes 32) cs) \<and> length (proofToBytes pd) = 256 \<and>
        pd_publicInputs pd = map dec ([jp_merkleRoot inp, jp_boundParamsHash inp] @
          map (\<lambda>i. computeJoinSplitNullifierSync P (jp_nullifyingKey inp) (in_leafIndex i)) (jp_inputs inp) @
          map (\<lambda>(npk, v). computeJoinSplitCommitmentSync P npk (jp_token inp) v) (jp_outputs inp))))"
proof (intro conjI allI impI)
  assume "\<not> request_ok inp"
  then show "\<exists>e. generateJoinSplitProof P fullProve inp st = (Inl e, st)" by (rule generate_refused)
next
  assume ok: "request_ok inp"
  note t = built_inv [OF assms(1,6)]
  have leaves: "reduced (ct_leaves t)" using t(2) assms(7) by simp
  have pr: "MerkleProofVerifier P (note_commitment P inp i) (in_siblings i) (in_indices i) = Some (jp_merkleRoot inp)"
    "reduced (in_siblings i)" "reduced (in_indices i)" "reduced [in_leafIndex i]" if i: "i \<in> set (jp_inputs inp)" for i
  proof -
    obtain pr where p: "getMerkleProof P t (note_commitment P inp i) = Some pr" "in_siblings i = tp_siblings pr" "in_indices i = tp_indices pr"
      "in_leafIndex i = tp_leafIndex pr" using assms(9) i by blast
    have "0 \<le> note_commitment P inp i" using assms(2) by (simp add: note_commitment_eq poseidon_field_def)
    from proof_sound(5) [OF assms(1) t(1) _ this p(1)] leaves assms(8)
    show "MerkleProofVerifier P (note_commitment P inp i) (in_siblings i) (in_indices i) = Some (jp_merkleRoot inp)" by (simp add: p reduced_def)
    show "reduced (in_siblings i)" "reduced (in_indices i)" "reduced [in_leafIndex i]"
      using index_proof_reduced [OF assms(1,2) t(1) leaves p(1)] by (simp_all add: p)
  qed
  show acc: "JoinSplit P cl (length (jp_inputs inp)) (length (jp_outputs inp)) 16 (joinsplit_witness P inp)"
    using witness_accepted [OF assms(3) ok assms(10)] pr(1) by blast
  have "assigns (joinsplit_input_map P inp) (joinsplit_witness P inp)"
    using pr by (intro witness_assigned [OF assms(2) ok _ assms(11)]) (auto simp: reduced_def)
  let ?name = "''joinsplit_'' @ dec (jp_nInputs inp) @ ''x'' @ dec (jp_nOutputs inp)"
  have n: "jp_nInputs inp = int (length (jp_inputs inp))" "jp_nOutputs inp = int (length (jp_outputs inp))" using ok by (simp_all add: request_ok_def)
  obtain pf cs where pf: "proof_coords pf cs"
    "fullProve (joinsplit_input_map P inp) (fst (artifact_paths (circuitBasePath st) ?name)) (snd (artifact_paths (circuitBasePath st) ?name)) =
       Inr (pf, map dec (public_signals (joinsplit_witness P inp)))"
    using assms(4) \<open>assigns _ _\<close> acc unfolding snarkjs_ok_def n Let_def by blast
  obtain st' where st: "getCircuitArtifactPaths ?name st = (artifact_paths (circuitBasePath st) ?name, st')" "cache_ok st'"
    using artifact_cached [OF assms(5)] by blast
  have len: "length (concat (map (be_bytes 32) cs)) = 256" using pf(1) by (simp add: proof_coords_def length_concat comp_def sum_list_triv)
  have "generateJoinSplitProof P fullProve inp st =
      (Inr \<lparr> pd_proof = concat (map (be_bytes 32) cs), pd_publicInputs = map dec (public_signals (joinsplit_witness P inp)) \<rparr>, st')"
    unfolding generate_eq [OF ok] using generateProof_eq [where fullProve = fullProve and inputs = "joinsplit_input_map P inp", OF st(1) pf(2) serializeProof_coords [OF pf(1)]] by blast
  then show "\<exists>pf cs pd st'. generateJoinSplitProof P fullProve inp st = (Inr pd, st') \<and> cache_ok st' \<and>
        (case artifact_paths (circuitBasePath st) (''joinsplit_'' @ dec (jp_nInputs inp) @ ''x'' @ dec (jp_nOutputs inp)) of
           (wasmPath, zkeyPath) \<Rightarrow> fullProve (joinsplit_input_map P inp) wasmPath zkeyPath = Inr (pf, pd_publicInputs pd)) \<and>
        proof_coords pf cs \<and> proofToBytes pd = concat (map (be_bytes 32) cs) \<and> length (proofToBytes pd) = 256 \<and>
        pd_publicInputs pd = map dec ([jp_merkleRoot inp, jp_boundParamsHash inp] @
          map (\<lambda>i. computeJoinSplitNullifierSync P (jp_nullifyingKey inp) (in_leafIndex i)) (jp_inputs inp) @
          map (\<lambda>(npk, v). computeJoinSplitCommitmentSync P npk (jp_token inp) v) (jp_outputs inp))"
    using st(2) len pf
    by (intro exI [of _ pf] exI [of _ cs] exI [of _ "\<lparr> pd_proof = concat (map (be_bytes 32) cs), pd_publicInputs = map dec (public_signals (joinsplit_witness P inp)) \<rparr>"]
        exI [of _ st']) (simp add: proofToBytes_def public_signals_def joinsplit_witness_def fixed_hashes split_def)
qed


section \<open>Witnesses\<close>

text \<open>A prover that returns a fixed proof with the public inputs of the map.\<close>

definition sample_prove :: fullProve where
  "sample_prove inputs wasmPath zkeyPath =
     Inr (\<lparr> pi_a = (dec 0, dec 0), pi_b = ((dec 0, dec 0), (dec 0, dec 0)), pi_c = (dec 0, dec 0) \<rparr>,
       map dec (concat (map (\<lambda>name. case input_signals inputs name of None \<Rightarrow> [] | Some xs \<Rightarrow> xs)
         [''merkleRoot'', ''boundParamsHash'', ''nullifiers'', ''commitmentsOut''])))"

lemma sample_prove_ok: "snarkjs_ok P cl sample_prove base"
  unfolding snarkjs_ok_def
proof (intro allI impI)
  fix n m inputs w
  assume "assigns inputs w \<and> JoinSplit P cl n m 16 w"
  then show "\<exists>pf cs. proof_coords pf cs \<and> (let artifact = artifact_paths base (''joinsplit_'' @ dec (int n) @ ''x'' @ dec (int m)) in
            sample_prove inputs (fst artifact) (snd artifact) = Inr (pf, map dec (public_signals w)))"
    by (intro exI [of _ "\<lparr> pi_a = (dec 0, dec 0), pi_b = ((dec 0, dec 0), (dec 0, dec 0)), pi_c = (dec 0, dec 0) \<rparr>"] exI [of _ "replicate 8 0"])
      (simp add: sample_prove_def proof_coords_def fits_def assigns_def public_signals_def)
qed

definition sample_opening :: int where
  "sample_opening = sample_poseidon 3 [sample_poseidon 2 [sample_poseidon 3 [5, 6, 7], 8], 9, 1000]"

definition sample_request :: "CommitmentTreeIndex \<Rightarrow> tree_proof \<Rightarrow> JoinSplitProofInputs" where
  "sample_request t pr = \<lparr> jp_nInputs = 1, jp_nOutputs = 2, jp_merkleRoot = getRoot t, jp_boundParamsHash = 3, jp_token = 9, jp_publicKey = (5, 6),
     jp_signature = (0, 0, 0), jp_nullifyingKey = 7,
     jp_inputs = [\<lparr> in_random = 8, in_value = 1000, in_leafIndex = tp_leafIndex pr, in_siblings = tp_siblings pr, in_indices = tp_indices pr \<rparr>],
     jp_outputs = [(11, 400), (12, 600)] \<rparr>"

lemma sample_poseidon_field: "poseidon_field sample_poseidon"
  by (simp add: poseidon_field_def sample_poseidon_def BN254_SCALAR_FIELD_def)


end
