(* ===== verification/Disclosure.thy ===== *)
theory Disclosure
  imports Prover
begin

text \<open>
  \<open>src/sdk/src/selective-disclosure.ts\<close>: proofs about notes that reveal one fact without spending. The variants of the range-sum circuit,
  the attestation over the disclosed indices, and the inputs of both proofs. The prover is the one of \<open>Prover\<close>; the hash of
  circomlibjs is the Poseidon of the circuits, for one to sixteen inputs.
\<close>

section \<open>Ownership\<close>

record OwnershipProofInputs =
  op_spendingPrivScalar :: int
  op_nullifyingKey :: int
  op_randomIn :: int
  op_valueIn :: int
  op_pathElements :: "int list"
  op_pathIndices :: "int list"
  op_commitment :: int
  op_merkleRoot :: int
  op_threshold :: int
  op_tokenId :: int

definition ownership_input_map :: "OwnershipProofInputs \<Rightarrow> InputMap" where
  "ownership_input_map inp =
     [(''commitment'', Str (dec (op_commitment inp))), (''merkleRoot'', Str (dec (op_merkleRoot inp))), (''threshold'', Str (dec (op_threshold inp))),
      (''token'', Str (dec (op_tokenId inp))), (''spendingPrivScalar'', Str (dec (op_spendingPrivScalar inp))), (''randomIn'', Str (dec (op_randomIn inp))),
      (''valueIn'', Str (dec (op_valueIn inp))), (''pathElements'', Strs (map dec (op_pathElements inp))), (''pathIndices'', Nums (op_pathIndices inp)),
      (''nullifyingKey'', Str (dec (op_nullifyingKey inp)))]"

definition generateOwnershipProof :: "fullProve \<Rightarrow> OwnershipProofInputs \<Rightarrow> prover_state \<Rightarrow> ProofData result" where
  "generateOwnershipProof fullProve inp st = generateGenericGroth16Proof fullProve ''ownership'' (ownership_input_map inp) st"

section \<open>Range sums\<close>

record range_note =
  rn_randomIn :: int
  rn_valueIn :: int
  rn_pathElements :: "int list"
  rn_pathIndices :: "int list"
  rn_commitment :: int
  rn_leafIndex :: int

record RangeSumProofInputs =
  rs_notes :: "range_note list"
  rs_spendingPrivScalar :: int
  rs_nullifyingKey :: int
  rs_merkleRoot :: int
  rs_ceiling :: int
  rs_tokenId :: int
  rs_viewerNonce :: int
  rs_attestation :: int

datatype RangeSumAttestationStyle = Flat | Chunked

record range_sum_variant =
  v_n :: nat
  v_circuit :: string
  v_attestation :: RangeSumAttestationStyle

definition RANGE_SUM_VARIANTS :: "range_sum_variant list" where
  "RANGE_SUM_VARIANTS =
     [\<lparr> v_n = 4, v_circuit = ''range_sum_4'', v_attestation = Flat \<rparr>, \<lparr> v_n = 8, v_circuit = ''range_sum'', v_attestation = Flat \<rparr>,
      \<lparr> v_n = 16, v_circuit = ''range_sum_16'', v_attestation = Chunked \<rparr>]"

definition RANGE_SUM_SIZES :: "nat list" where
  "RANGE_SUM_SIZES = map v_n RANGE_SUM_VARIANTS"

definition RANGE_SUM_N :: nat where
  "RANGE_SUM_N = 8"

definition pickRangeSumVariant :: "nat \<Rightarrow> range_sum_variant result" where
  "pickRangeSumVariant n =
     (case find (\<lambda>x. v_n x = n) RANGE_SUM_VARIANTS of
        Some v \<Rightarrow> Inr v
      | None \<Rightarrow> Inl (Error (''range_sum has no compiled variant for N='' @ dec (int n) @ ''. Compiled variants: 4, 8, 16. Pad with zero-value notes or compile a new variant (see circuits/scripts/build-aux.sh).'')))"

text \<open>The hash of circomlibjs on field elements: \<open>F.e\<close> reduces, and the arity is asserted.\<close>

definition circom_poseidon :: "poseidon \<Rightarrow> int list \<Rightarrow> int result" where
  "circom_poseidon P xs = (if xs = [] \<or> length xs > 16 then Inl (Error ''Assertion failed'') else Inr (P (length xs) xs))"

definition computeRangeSumAttestation :: "poseidon \<Rightarrow> int list \<Rightarrow> int \<Rightarrow> RangeSumAttestationStyle option \<Rightarrow> int result" where
  "computeRangeSumAttestation P leafIndices viewerNonce style =
     js_bind (case style of Some s \<Rightarrow> Inr s | None \<Rightarrow> js_bind (pickRangeSumVariant (length leafIndices)) (\<lambda>v. Inr (v_attestation v))) (\<lambda>resolvedStyle.
     let indicesAsField = map (\<lambda>i. i mod BN254_SCALAR_FIELD) leafIndices; nonce = viewerNonce mod BN254_SCALAR_FIELD in
     if resolvedStyle = Flat then circom_poseidon P (indicesAsField @ [nonce])
     else if odd (length leafIndices) then Inl (Error (''chunked attestation requires an even cardinality; got N='' @ dec (int (length leafIndices))))
     else
       (let half = length leafIndices div 2 in
        js_bind (circom_poseidon P (take half indicesAsField)) (\<lambda>chunk1.
        js_bind (circom_poseidon P (drop half indicesAsField)) (\<lambda>chunk2.
        circom_poseidon P [chunk1, chunk2, nonce]))))"

definition range_sum_input_map :: "RangeSumProofInputs \<Rightarrow> InputMap" where
  "range_sum_input_map inp =
     [(''leafIndices'', Nums (map rn_leafIndex (rs_notes inp))), (''merkleRoot'', Str (dec (rs_merkleRoot inp))), (''ceiling'', Str (dec (rs_ceiling inp))),
      (''token'', Str (dec (rs_tokenId inp))), (''attestation'', Str (dec (rs_attestation inp))),
      (''spendingPrivScalar'', Str (dec (rs_spendingPrivScalar inp))), (''nullifyingKey'', Str (dec (rs_nullifyingKey inp))),
      (''randomIn'', Strs (map (\<lambda>n. dec (rn_randomIn n)) (rs_notes inp))), (''valueIn'', Strs (map (\<lambda>n. dec (rn_valueIn n)) (rs_notes inp))),
      (''pathElements'', Strss (map (\<lambda>n. map dec (rn_pathElements n)) (rs_notes inp))), (''pathIndices'', Numss (map rn_pathIndices (rs_notes inp))),
      (''viewerNonce'', Str (dec (rs_viewerNonce inp))), (''commitmentsIn'', Strs (map (\<lambda>n. dec (rn_commitment n)) (rs_notes inp)))]"

definition generateRangeSumProof :: "fullProve \<Rightarrow> RangeSumProofInputs \<Rightarrow> prover_state \<Rightarrow> ProofData result" where
  "generateRangeSumProof fullProve inp st =
     js_bind (pickRangeSumVariant (length (rs_notes inp))) (\<lambda>variant.
       generateGenericGroth16Proof fullProve (v_circuit variant) (range_sum_input_map inp) st)"

section \<open>Specification\<close>

definition range_sum_assigns :: "InputMap \<Rightarrow> range_sum_signals \<Rightarrow> bool" where
  "range_sum_assigns m w \<longleftrightarrow>
     input_signals m ''leafIndices'' = Some (r_leafIndices w) \<and> input_signals m ''merkleRoot'' = Some [r_merkleRoot w] \<and>
     input_signals m ''ceiling'' = Some [r_ceiling w] \<and> input_signals m ''token'' = Some [r_token w] \<and>
     input_signals m ''attestation'' = Some [r_attestation w] \<and> input_signals m ''spendingPrivScalar'' = Some [r_spendingPrivScalar w] \<and>
     input_signals m ''nullifyingKey'' = Some [r_nullifyingKey w] \<and> input_signals m ''randomIn'' = Some (r_randomIn w) \<and>
     input_signals m ''valueIn'' = Some (r_valueIn w) \<and> input_signals m ''pathElements'' = Some (concat (r_pathElements w)) \<and>
     input_signals m ''pathIndices'' = Some (concat (r_pathIndices w)) \<and> input_signals m ''viewerNonce'' = Some [r_viewerNonce w] \<and>
     input_signals m ''commitmentsIn'' = Some (r_commitmentsIn w)"

text \<open>The circuit that is compiled under a name.\<close>

definition range_sum_circuit :: "poseidon \<Rightarrow> circomlib \<Rightarrow> string \<Rightarrow> range_sum_signals \<Rightarrow> bool" where
  "range_sum_circuit P cl name w \<longleftrightarrow>
     (if name = ''range_sum_4'' then RangeSum P cl 4 16 w else if name = ''range_sum'' then RangeSum P cl 8 16 w
      else name = ''range_sum_16'' \<and> RangeSum16 P cl 16 w)"

definition range_sum_public :: "range_sum_signals \<Rightarrow> int list" where
  "range_sum_public w = r_leafIndices w @ [r_merkleRoot w, r_ceiling w, r_token w, r_attestation w]"

definition range_prover_ok :: "poseidon \<Rightarrow> circomlib \<Rightarrow> fullProve \<Rightarrow> string \<Rightarrow> bool" where
  "range_prover_ok P cl fullProve base \<longleftrightarrow>
     (\<forall>name m w. range_sum_assigns m w \<and> range_sum_circuit P cl name w \<longrightarrow>
        (\<exists>pf cs. proof_coords pf cs \<and>
           fullProve m (fst (artifact_paths base name)) (snd (artifact_paths base name)) = Inr (pf, map dec (range_sum_public w))))"

definition range_sum_witness :: "RangeSumProofInputs \<Rightarrow> range_sum_signals" where
  "range_sum_witness inp =
     \<lparr> r_leafIndices = map rn_leafIndex (rs_notes inp), r_merkleRoot = rs_merkleRoot inp, r_ceiling = rs_ceiling inp, r_token = rs_tokenId inp,
       r_attestation = rs_attestation inp, r_spendingPrivScalar = rs_spendingPrivScalar inp, r_nullifyingKey = rs_nullifyingKey inp,
       r_randomIn = map rn_randomIn (rs_notes inp), r_valueIn = map rn_valueIn (rs_notes inp), r_pathElements = map rn_pathElements (rs_notes inp),
       r_pathIndices = map rn_pathIndices (rs_notes inp), r_viewerNonce = rs_viewerNonce inp, r_commitmentsIn = map rn_commitment (rs_notes inp) \<rparr>"

lemma pick_iff:
  "pickRangeSumVariant n = Inr v \<longleftrightarrow> v \<in> set RANGE_SUM_VARIANTS \<and> v_n v = n"
  by (auto simp: pickRangeSumVariant_def RANGE_SUM_VARIANTS_def split: if_split_asm)

lemma attestation_flat:
  "n + 1 \<le> 16 \<Longrightarrow> length idx = n \<Longrightarrow> reduced idx \<Longrightarrow> reduced [nonce] \<Longrightarrow>
   computeRangeSumAttestation P idx nonce (Some Flat) = Inr (P (n + 1) (idx @ [nonce]))"
  by (simp add: computeRangeSumAttestation_def circom_poseidon_def reduced_mod) (simp add: reduced_def)

lemma attestation_chunked:
  "length idx = 16 \<Longrightarrow> reduced idx \<Longrightarrow> reduced [nonce] \<Longrightarrow>
   computeRangeSumAttestation P idx nonce (Some Chunked) = Inr (P 3 [P 8 (take 8 idx), P 8 (drop 8 idx), nonce])"
  by (simp add: computeRangeSumAttestation_def circom_poseidon_def reduced_mod numeral_3_eq_3) (auto simp: reduced_def)

lemma circom_reduced: "poseidon_field P \<Longrightarrow> circom_poseidon P xs = Inr x \<Longrightarrow> reduced [x]"
  by (auto simp: circom_poseidon_def poseidon_field_def reduced_def split: if_split_asm)

lemma attestation_reduced: "poseidon_field P \<Longrightarrow> computeRangeSumAttestation P idx nonce style = Inr x \<Longrightarrow> reduced [x]"
  by (auto simp: computeRangeSumAttestation_def js_bind_Inr_iff Let_def split: if_split_asm dest: circom_reduced)

lemma attestation_default:
  "pickRangeSumVariant (length idx) = Inr v \<Longrightarrow>
   computeRangeSumAttestation P idx nonce None = computeRangeSumAttestation P idx nonce (Some (v_attestation v))"
  by (simp add: computeRangeSumAttestation_def)

lemma attestation_matches:
  assumes "v \<in> set RANGE_SUM_VARIANTS" "length (r_leafIndices w) = v_n v" "reduced (r_leafIndices w)" "reduced [r_viewerNonce w]"
  shows "computeRangeSumAttestation P (r_leafIndices w) (r_viewerNonce w) None = Inr (r_attestation w) \<and> range_sum_body P cl (v_n v) 16 w \<longleftrightarrow>
    range_sum_circuit P cl (v_circuit v) w"
    "\<exists>x. computeRangeSumAttestation P (r_leafIndices w) (r_viewerNonce w) None = Inr x"
proof -
  have "pickRangeSumVariant (length (r_leafIndices w)) = Inr v" using assms(1,2) by (simp add: pick_iff)
  note att = attestation_default [OF this] attestation_flat [OF _ refl assms(3,4)] attestation_chunked [OF _ assms(3,4)]
  from assms(1) have "v_n v = 4 \<and> v_attestation v = Flat \<and> v_circuit v = ''range_sum_4'' \<or> v_n v = 8 \<and> v_attestation v = Flat \<and> v_circuit v = ''range_sum'' \<or>
      v_n v = 16 \<and> v_attestation v = Chunked \<and> v_circuit v = ''range_sum_16''" by (auto simp: RANGE_SUM_VARIANTS_def)
  then show "computeRangeSumAttestation P (r_leafIndices w) (r_viewerNonce w) None = Inr (r_attestation w) \<and> range_sum_body P cl (v_n v) 16 w \<longleftrightarrow>
    range_sum_circuit P cl (v_circuit v) w"
    "\<exists>x. computeRangeSumAttestation P (r_leafIndices w) (r_viewerNonce w) None = Inr x"
    using assms(2) by (auto simp: att range_sum_circuit_def RangeSum_def RangeSum16_def)
qed

lemma range_lookup:
  "map_of (range_sum_input_map inp) ''leafIndices'' = Some (Nums (map rn_leafIndex (rs_notes inp)))"
  "map_of (range_sum_input_map inp) ''merkleRoot'' = Some (Str (dec (rs_merkleRoot inp)))"
  "map_of (range_sum_input_map inp) ''ceiling'' = Some (Str (dec (rs_ceiling inp)))"
  "map_of (range_sum_input_map inp) ''token'' = Some (Str (dec (rs_tokenId inp)))"
  "map_of (range_sum_input_map inp) ''attestation'' = Some (Str (dec (rs_attestation inp)))"
  "map_of (range_sum_input_map inp) ''spendingPrivScalar'' = Some (Str (dec (rs_spendingPrivScalar inp)))"
  "map_of (range_sum_input_map inp) ''nullifyingKey'' = Some (Str (dec (rs_nullifyingKey inp)))"
  "map_of (range_sum_input_map inp) ''randomIn'' = Some (Strs (map (\<lambda>n. dec (rn_randomIn n)) (rs_notes inp)))"
  "map_of (range_sum_input_map inp) ''valueIn'' = Some (Strs (map (\<lambda>n. dec (rn_valueIn n)) (rs_notes inp)))"
  "map_of (range_sum_input_map inp) ''pathElements'' = Some (Strss (map (\<lambda>n. map dec (rn_pathElements n)) (rs_notes inp)))"
  "map_of (range_sum_input_map inp) ''pathIndices'' = Some (Numss (map rn_pathIndices (rs_notes inp)))"
  "map_of (range_sum_input_map inp) ''viewerNonce'' = Some (Str (dec (rs_viewerNonce inp)))"
  "map_of (range_sum_input_map inp) ''commitmentsIn'' = Some (Strs (map (\<lambda>n. dec (rn_commitment n)) (rs_notes inp)))"
  by (simp_all add: range_sum_input_map_def)

lemma input_signals_intro:
  "map_of m name = Some v \<Longrightarrow> flat_input v = Inr xs \<Longrightarrow> reduced xs \<Longrightarrow> input_signals m name = Some xs"
  by (simp add: input_signals_def reduced_mod)

definition range_reduced :: "RangeSumProofInputs \<Rightarrow> bool" where
  "range_reduced inp \<longleftrightarrow> reduced [rs_merkleRoot inp, rs_ceiling inp, rs_tokenId inp, rs_attestation inp, rs_spendingPrivScalar inp, rs_nullifyingKey inp,
       rs_viewerNonce inp] \<and>
     (\<forall>n \<in> set (rs_notes inp). reduced [rn_randomIn n, rn_valueIn n, rn_commitment n, rn_leafIndex n] \<and> reduced (rn_pathElements n) \<and> reduced (rn_pathIndices n))"

lemma range_assigned:
  assumes "range_reduced inp"
  shows "range_sum_assigns (range_sum_input_map inp) (range_sum_witness inp)"
proof -
  note d = BigInt_toString10 [folded dec_def] and L = range_lookup [of inp] and S = input_signals_intro
  have one: "reduced [rs_merkleRoot inp]" "reduced [rs_ceiling inp]" "reduced [rs_tokenId inp]" "reduced [rs_attestation inp]"
    "reduced [rs_spendingPrivScalar inp]" "reduced [rs_nullifyingKey inp]" "reduced [rs_viewerNonce inp]"
    using assms by (simp_all add: range_reduced_def reduced_def)
  have many: "reduced (map rn_leafIndex (rs_notes inp))" "reduced (map rn_randomIn (rs_notes inp))" "reduced (map rn_valueIn (rs_notes inp))"
    "reduced (map rn_commitment (rs_notes inp))" "reduced (concat (map rn_pathElements (rs_notes inp)))" "reduced (concat (map rn_pathIndices (rs_notes inp)))"
    using assms by (fastforce simp: range_reduced_def reduced_def)+
  show ?thesis
    unfolding range_sum_assigns_def range_sum_witness_def range_sum_signals.simps
    using S [OF L(1) _ many(1)] S [OF L(2) _ one(1)] S [OF L(3) _ one(2)] S [OF L(4) _ one(3)] S [OF L(5) _ one(4)] S [OF L(6) _ one(5)]
      S [OF L(7) _ one(6)] S [OF L(8) _ many(2)] S [OF L(9) _ many(3)] S [OF L(10) _ many(5)] S [OF L(11) _ many(6)] S [OF L(12) _ one(7)] S [OF L(13) _ many(4)]
    by (simp add: d mapM_dec mapM_dec_concat)
qed

lemma generic_proof:
  assumes "fullProve m (fst (artifact_paths (circuitBasePath st) name)) (snd (artifact_paths (circuitBasePath st) name)) = Inr (pf, signals)" "proof_coords pf cs"
  shows "\<exists>pd. generateGenericGroth16Proof fullProve name m st = Inr pd \<and> length (pd_proof pd) = 256 \<and> pd_publicInputs pd = signals"
  using assms(1) serializeProof_coords [OF assms(2)] assms(2)
  by (auto simp: generateGenericGroth16Proof_def proof_coords_def length_concat comp_def sum_list_triv split: prod.split)

text \<open>The notes of a request, as an index has them.\<close>

definition range_note_ok :: "poseidon \<Rightarrow> circomlib \<Rightarrow> CommitmentTreeIndex \<Rightarrow> RangeSumProofInputs \<Rightarrow> range_note \<Rightarrow> bool" where
  "range_note_ok P cl t inp n \<longleftrightarrow>
     rn_commitment n = computeJoinSplitCommitmentSync P
       (computeNPKSync P (owner_mpk P cl (rs_spendingPrivScalar inp) (rs_nullifyingKey inp)) (rn_randomIn n)) (rs_tokenId inp) (rn_valueIn n) \<and>
     (case getMerkleProof P t (rn_commitment n) of
        None \<Rightarrow> False
      | Some pr \<Rightarrow> rn_pathElements n = tp_siblings pr \<and> rn_pathIndices n = tp_indices pr \<and> rn_leafIndex n = tp_leafIndex pr)"

lemma note_path:
  assumes "zero_ok P" "poseidon_field P" "tree_inv P t" "reduced (ct_leaves t)" "range_note_ok P cl t inp n"
  shows "MerkleProofVerifier P (rn_commitment n) (rn_pathElements n) (rn_pathIndices n) = Some (getRoot t)"
    "length (rn_pathElements n) = 16" "length (rn_pathIndices n) = 16" "reduced (rn_pathElements n)" "reduced (rn_pathIndices n)" "reduced [rn_leafIndex n]"
    "reduced [rn_commitment n]"
proof -
  obtain pr where pr: "getMerkleProof P t (rn_commitment n) = Some pr" "rn_pathElements n = tp_siblings pr" "rn_pathIndices n = tp_indices pr"
    "rn_leafIndex n = tp_leafIndex pr" using assms(5) by (auto simp: range_note_ok_def split: option.split_asm)
  show r: "reduced [rn_commitment n]"
    using assms(2,5) by (simp add: range_note_ok_def fixed_hashes poseidon_field_def reduced_def)
  have "0 \<le> rn_commitment n" "\<forall>x \<in> set (ct_leaves t). 0 \<le> x" using r assms(4) by (simp_all add: reduced_def)
  from proof_sound(4,5) [OF assms(1,3) this(2,1) pr(1)] index_proof_reduced [OF assms(1-4) pr(1)]
  show "MerkleProofVerifier P (rn_commitment n) (rn_pathElements n) (rn_pathIndices n) = Some (getRoot t)"
    "length (rn_pathElements n) = 16" "length (rn_pathIndices n) = 16" "reduced (rn_pathElements n)" "reduced (rn_pathIndices n)" "reduced [rn_leafIndex n]"
    by (simp_all add: pr)
qed

lemma range_sum_value:
  assumes "circomlib_ok cl" "\<forall>v \<in> set vs. 0 \<le> v \<and> v < 2 ^ 120" "length vs \<le> 16" "0 \<le> c" "c < 2 ^ 124"
  shows "LessEqThan cl 124 (signal_sum vs) c = Some 1 \<longleftrightarrow> sum_list vs \<le> c"
proof -
  note f = sum_fits [OF assms(2,3)]
  have "signal_sum vs = sum_list vs" using f(1) assms(2) by (simp add: signal_sum_eq)
  moreover have "sum_list vs < 2 ^ 124" using f(3) by simp
  moreover have "(124::nat) \<le> 252" by simp
  ultimately have "LessEqThan cl 124 (signal_sum vs) c = Some (if sum_list vs \<le> c then 1 else 0)"
    using assms(1,4,5) f(2) unfolding circomlib_ok_def by presburger
  then show ?thesis by simp
qed

text \<open>An accepted ownership proof is about a note of its owner in the tree, of at least the threshold.\<close>

lemma ownership_sound:
  assumes "circomlib_ok cl" "OwnershipProof P cl 16 w" "0 \<le> o_valueIn w" "o_valueIn w < 2 ^ 120" "0 \<le> o_threshold w" "o_threshold w < 2 ^ 120"
    "o_merkleRoot w = merkle_root P ls" "no_second_preimage P ls (path_pairs P (o_commitment w) (o_pathElements w) (o_pathIndices w))"
  shows "o_threshold w \<le> o_valueIn w" "o_commitment w = node P ls 0 (path_pos (o_pathIndices w))"
proof -
  have "(120::nat) \<le> 252" by simp
  then have "GreaterEqThan cl 120 (o_valueIn w) (o_threshold w) = Some (if o_threshold w \<le> o_valueIn w then 1 else 0)"
    using assms(1,3-6) unfolding circomlib_ok_def by blast
  with assms(2) show "o_threshold w \<le> o_valueIn w" by (auto simp: OwnershipProof_def split: if_split_asm)
  show "o_commitment w = node P ls 0 (path_pos (o_pathIndices w))"
  proof -
    have "MerkleProofVerifier P (o_commitment w) (o_pathElements w) (o_pathIndices w) = Some (o_merkleRoot w)" "length (o_pathElements w) = 16"
      using assms(2) unfolding OwnershipProof_def by blast+
    then have "MerkleProofVerifier P (o_commitment w) (o_pathElements w) (o_pathIndices w) = Some (node P ls (0 + 16) 0)" "length (o_pathElements w) = 16"
      unfolding assms(7) merkle_root_def by (simp_all only: add_0)
    with path_member [of P "o_commitment w" "o_pathElements w" "o_pathIndices w" ls 0 0] assms(8) show ?thesis by (simp del: node.simps)
  qed
qed

section \<open>Properties\<close>


text \<open>
  (C26) The disclosed indices are not tied to the notes: a proof about some notes is as good for any other list of indices of that length, with the
  attestation that a verifier computes for them.
\<close>

theorem range_sum_indices_free:
  assumes "range_sum_circuit P cl name w" "length idx = length (r_leafIndices w)" "reduced idx" "reduced [r_viewerNonce w]"
  shows "\<exists>x. computeRangeSumAttestation P idx (r_viewerNonce w) None = Inr x \<and>
    range_sum_circuit P cl name (w\<lparr> r_leafIndices := idx, r_attestation := x \<rparr>)"
proof -
  have "\<exists>v \<in> set RANGE_SUM_VARIANTS. name = v_circuit v \<and> range_sum_body P cl (v_n v) 16 w"
    using assms(1) by (auto simp: range_sum_circuit_def RANGE_SUM_VARIANTS_def RangeSum_def RangeSum16_def split: if_split_asm)
  then obtain v where v: "v \<in> set RANGE_SUM_VARIANTS" "name = v_circuit v" "range_sum_body P cl (v_n v) 16 w" by blast
  have n: "length idx = v_n v" using v(3) assms(2) by (simp add: range_sum_body_def range_sum_sizes_def)
  obtain x where x: "computeRangeSumAttestation P idx (r_viewerNonce w) None = Inr x"
    using attestation_matches(2) [OF v(1), of "w\<lparr> r_leafIndices := idx \<rparr>" P] n assms(3,4) by auto
  let ?w = "w\<lparr> r_leafIndices := idx, r_attestation := x \<rparr>"
  have "range_sum_body P cl (v_n v) 16 ?w"
    using v(3) n by (auto simp: range_sum_body_def range_sum_sizes_def note_constraints_def list_all_iff)
  then have "range_sum_circuit P cl (v_circuit v) ?w"
    using attestation_matches(1) [OF v(1), of ?w P cl] n assms(3,4) x by simp
  with x v(2) show ?thesis by blast
qed

section \<open>Witnesses\<close>

definition sample_range_prove :: fullProve where
  "sample_range_prove m wasmPath zkeyPath =
     Inr (\<lparr> pi_a = (dec 0, dec 0), pi_b = ((dec 0, dec 0), (dec 0, dec 0)), pi_c = (dec 0, dec 0) \<rparr>,
       map dec (concat (map (\<lambda>name. case input_signals m name of None \<Rightarrow> [] | Some xs \<Rightarrow> xs)
         [''leafIndices'', ''merkleRoot'', ''ceiling'', ''token'', ''attestation''])))"

lemma sample_range_prove_ok: "range_prover_ok P cl sample_range_prove base"
  unfolding range_prover_ok_def
proof (intro allI impI)
  fix name m w
  assume "range_sum_assigns m w \<and> range_sum_circuit P cl name w"
  then show "\<exists>pf cs. proof_coords pf cs \<and>
      sample_range_prove m (fst (artifact_paths base name)) (snd (artifact_paths base name)) = Inr (pf, map dec (range_sum_public w))"
    by (intro exI [of _ "\<lparr> pi_a = (dec 0, dec 0), pi_b = ((dec 0, dec 0), (dec 0, dec 0)), pi_c = (dec 0, dec 0) \<rparr>"] exI [of _ "replicate 8 0"])
      (simp add: sample_range_prove_def proof_coords_def fits_def range_sum_assigns_def range_sum_public_def)
qed

text \<open>Four proofs about the one note of a tree.\<close>

definition sample_range_note :: "tree_proof \<Rightarrow> range_note" where
  "sample_range_note pr = \<lparr> rn_randomIn = 8, rn_valueIn = 1000, rn_pathElements = tp_siblings pr, rn_pathIndices = tp_indices pr,
     rn_commitment = sample_poseidon 3 [sample_poseidon 2 [sample_poseidon 3 [5, 1, 7], 8], 9, 1000], rn_leafIndex = tp_leafIndex pr \<rparr>"

definition sample_range :: "CommitmentTreeIndex \<Rightarrow> tree_proof \<Rightarrow> int \<Rightarrow> RangeSumProofInputs" where
  "sample_range t pr x = \<lparr> rs_notes = replicate 4 (sample_range_note pr), rs_spendingPrivScalar = 5, rs_nullifyingKey = 7, rs_merkleRoot = getRoot t,
     rs_ceiling = 5000, rs_tokenId = 9, rs_viewerNonce = 3, rs_attestation = x \<rparr>"

lemma sample_range_setup:
  obtains t pr x where "js_fold (insert_pair sample_poseidon) [(rn_commitment (sample_range_note pr), 1000)] new_CommitmentTreeIndex = Inr t"
    "\<forall>n \<in> set (rs_notes (sample_range t pr x)). range_note_ok sample_poseidon sample_circomlib t (sample_range t pr x) n"
    "reduced [rn_leafIndex (sample_range_note pr)]"
    "computeRangeSumAttestation sample_poseidon (map rn_leafIndex (rs_notes (sample_range t pr x))) 3 None = Inr x"
proof -
  let ?P = sample_poseidon
  let ?c = "?P 3 [?P 2 [?P 3 [5, 1, 7], 8], 9, 1000]"
  obtain t where t: "js_fold (insert_pair ?P) [(?c, 1000)] new_CommitmentTreeIndex = Inr t"
    using sdk.build_root [of ?P "[(?c, 1000)]"] sample_zero_ok by auto
  note inv = built_inv [OF sample_zero_ok t]
  have leaves: "reduced (ct_leaves t)" using inv(2) sample_poseidon_field by (simp add: reduced_def poseidon_field_def)
  obtain pr where pr: "getMerkleProof ?P t ?c = Some pr" using proof_exists [OF inv(1), of ?c] inv(2) by auto
  note red = index_proof_reduced(3) [OF sample_zero_ok sample_poseidon_field inv(1) leaves pr]
  let ?idx = "replicate 4 (tp_leafIndex pr)"
  obtain v where "pickRangeSumVariant (length ?idx) = Inr v" "v_attestation v = Flat" by (simp add: pickRangeSumVariant_def RANGE_SUM_VARIANTS_def)
  then obtain x where x: "computeRangeSumAttestation ?P ?idx 3 None = Inr x"
    using attestation_default [of ?idx v ?P 3] attestation_flat [of 4 ?idx 3 ?P] red by (simp add: reduced_def BN254_SCALAR_FIELD_def)
  have mk: "owner_mpk ?P sample_circomlib 5 7 = ?P 3 [5, 1, 7]" by (simp add: owner_mpk_def sample_circomlib_def MasterPublicKey_def)
  show thesis
  proof (rule that [of pr t x])
    show "js_fold (insert_pair ?P) [(rn_commitment (sample_range_note pr), 1000)] new_CommitmentTreeIndex = Inr t" using t by (simp add: sample_range_note_def)
    show "\<forall>n \<in> set (rs_notes (sample_range t pr x)). range_note_ok ?P sample_circomlib t (sample_range t pr x) n"
      using pr by (simp add: sample_range_def sample_range_note_def range_note_ok_def mk fixed_hashes computeNPKSync_def poseidon_fixed_eq)
    show "reduced [rn_leafIndex (sample_range_note pr)]" using red by (simp add: sample_range_note_def)
    show "computeRangeSumAttestation ?P (map rn_leafIndex (rs_notes (sample_range t pr x))) 3 None = Inr x"
      using x by (simp add: sample_range_def sample_range_note_def)
  qed
qed


text \<open>Four notes in the tree of the spending example.\<close>

definition sample_owned :: int where
  "sample_owned = coding_poseidon 3 [coding_poseidon 2 [coding_poseidon 3 [5, 1, 7], 8], 9, 1000]"

definition sample_range_signals :: range_sum_signals where
  "sample_range_signals = \<lparr> r_leafIndices = replicate 4 0, r_merkleRoot = merkle_root coding_poseidon [sample_owned], r_ceiling = 5000, r_token = 9,
     r_attestation = coding_poseidon 5 (replicate 4 0 @ [3]), r_spendingPrivScalar = 5, r_nullifyingKey = 7, r_randomIn = replicate 4 8,
     r_valueIn = replicate 4 1000, r_pathElements = replicate 4 (map (\<lambda>j. node coding_poseidon [sample_owned] j 1) [0..<16]),
     r_pathIndices = replicate 4 (map (\<lambda>j. 0) [0..<16]), r_viewerNonce = 3, r_commitmentsIn = replicate 4 sample_owned \<rparr>"

lemma sample_range_accepted: "range_sum_circuit coding_poseidon sample_circomlib ''range_sum_4'' sample_range_signals"
proof -
  have path: "MerkleProofVerifier coding_poseidon sample_owned (map (\<lambda>j. node coding_poseidon [sample_owned] j 1) [0..<16]) (map (\<lambda>j. 0) [0..<16]) =
      Some (merkle_root coding_poseidon [sample_owned])"
    using verify_nodes [of coding_poseidon "[sample_owned]" 0 0 16] by (simp add: sibling_def merkle_root_def del: upt_rec_numeral)
  have sel: "r_commitmentsIn sample_range_signals = replicate 4 sample_owned" "r_randomIn sample_range_signals = replicate 4 8"
    "r_valueIn sample_range_signals = replicate 4 1000" "r_pathIndices sample_range_signals = replicate 4 (map (\<lambda>j. 0) [0..<16])"
    "r_pathElements sample_range_signals = replicate 4 (map (\<lambda>j. node coding_poseidon [sample_owned] j 1) [0..<16])"
    "r_leafIndices sample_range_signals = replicate 4 0" "r_token sample_range_signals = 9" "r_spendingPrivScalar sample_range_signals = 5"
    "r_nullifyingKey sample_range_signals = 7" "r_merkleRoot sample_range_signals = merkle_root coding_poseidon [sample_owned]"
    by (simp_all add: sample_range_signals_def del: upt_rec_numeral)
  have "note_constraints coding_poseidon sample_circomlib sample_range_signals k" if "k < 4" for k
    using that path by (simp add: note_constraints_def sel owner_mpk_def sample_circomlib_def MasterPublicKey_def JoinSplitCommitment_def sample_owned_def del: upt_rec_numeral)
  moreover have "range_sum_sizes 4 16 sample_range_signals" by (simp add: range_sum_sizes_def sel list_all_iff del: upt_rec_numeral)
  moreover have "LessEqThan sample_circomlib 124 (signal_sum (r_valueIn sample_range_signals)) (r_ceiling sample_range_signals) = Some 1"
    using range_sum_value [OF sample_circomlib_ok, of "replicate 4 1000" 5000] by (simp add: sel sum_list_replicate) (simp add: sample_range_signals_def)
  ultimately have "range_sum_body coding_poseidon sample_circomlib 4 16 sample_range_signals" by (simp add: range_sum_body_def list_all_iff)
  then show ?thesis by (simp add: range_sum_circuit_def RangeSum_def) (simp add: sample_range_signals_def)
qed

theorem range_sum_indices_free_witness:
  "\<exists>x. range_sum_circuit coding_poseidon sample_circomlib ''range_sum_4''
     (sample_range_signals\<lparr> r_leafIndices := [70, 71, 72, 73], r_attestation := x \<rparr>)"
  using range_sum_indices_free [OF sample_range_accepted, of "[70, 71, 72, 73]"]
  by (auto simp: sample_range_signals_def reduced_def BN254_SCALAR_FIELD_def)

end
