(* ===== verification/Spec2Isabelle.thy ===== *)
theory Spec2Isabelle
  imports Tree_Properties Bound_Params Merkle_Proof Note Stealth_Properties Sender_Memo Events Instruction_Properties Transact_Properties
    Chadbuffer Delegation Auditor Audit_Report Taproot Btc_Deposit Legacy_Deposit Psbt Sui_Indexer Sui_Adapter Disclosure
begin

text \<open>
  A verification library for UTXOpia, a shielded pool for Bitcoin and SPL tokens on Solana. The TypeScript SDK
  (\<open>src/sdk/src\<close>) creates notes, finds them, proves their ownership and builds the instructions
  that the on-chain program (\<open>src/contracts/programs/utxopia/src\<close>, in Rust) executes. The two sides
  are written independently and have to agree byte by byte; most properties of this library say
  that they do.

  \<^bold>\<open>The program and its parts.\<close> A note is a Poseidon commitment to an owner key, a token and an amount.
  The program keeps the commitments in an incremental Merkle tree of depth 16 and the spent notes
  as nullifier records, one account each. A sender derives a one-time key for the recipient's
  meta-address by X25519, puts the commitment on chain and announces the ephemeral key with the
  encrypted amount. The recipient scans the announcements, which the program writes to its log.
  To spend, the client takes the tree from the chain, makes a Merkle proof, computes nullifiers
  and the hash of the bound parameters, and sends a JoinSplit instruction.

  \<^bold>\<open>Theories.\<close>
  \<^item> \<open>Prelude\<close>, \<open>JsBuffer\<close>, \<open>JsString\<close>: what the sources use of their languages. Exceptions are a sum type
    (\<open>js_error\<close>, \<open>result\<close>), with the bind \<open>js_bind\<close> and the loops \<open>js_fold\<close>, \<open>js_mapM\<close>; typed arrays are byte
    lists, with \<open>set\<close>, \<open>slice\<close> and \<open>DataView\<close> accesses that throw \<open>RangeError\<close>; a program that fills a
    buffer with a running offset is a list of \<open>wop\<close> commands, and \<open>build_layout\<close> turns it into the
    concatenation of its fields. Little- and big-endian codecs are instances of one codec locale.
    Strings are character lists with the hexadecimal and decimal conversions of the sources.
  \<^item> \<open>Crypto\<close>: \<open>crypto.ts\<close>, \<open>poseidon.ts\<close>. SHA-256 and Poseidon are functions given as arguments, with
    \<open>sha_ok\<close> (32 bytes) and \<open>zero_ok\<close> (the table of zero hashes is the table of that Poseidon).
  \<^item> \<open>Merkle_Spec\<close>: the abstract tree, a complete binary tree of depth 16 padded with zeros, and the
    accumulator locale with the lemmas that every implementation of it shares.
  \<^item> \<open>Commitment_Tree\<close>, \<open>Tree_Sync\<close>: \<open>commitment-tree.ts\<close>, the class \<open>CommitmentTreeIndex\<close> as a record,
    every method as a definition, the parser of the account, persistence, and building from an
    indexer. The class interprets the accumulator locale.
  \<^item> \<open>Onchain_Field\<close>, \<open>Onchain_Tree\<close>: \<open>utils/crypto.rs\<close>, \<open>state/commitment_tree.rs\<close>, with the bytes of the
    account. The account interprets the same locale, so both have the same roots.
  \<^item> \<open>Samples\<close>: concrete functions for the parameters, used by the witnesses.
  \<^item> \<open>Tree_Properties\<close>: the properties of the tree on both sides.
  \<^item> \<open>Bound_Params\<close>: \<open>bound-params.ts\<close> and the hashes that the program recomputes.
  \<^item> \<open>Ed25519\<close>, \<open>BabyJub\<close>: \<open>crypto-ed25519.ts\<close> on a curve given as an argument (\<open>curve_ok\<close>: the two sides of a
    key exchange agree), and \<open>crypto-babyjub.ts\<close> in full, with field inversion, curve law, ladder,
    square roots and compression.
  \<^item> \<open>Merkle_Proof\<close>, \<open>Note\<close>, \<open>Keys\<close>: \<open>merkle.ts\<close>, \<open>note.ts\<close>, \<open>keys.ts\<close>.
  \<^item> \<open>Stealth\<close>, \<open>Stealth_Properties\<close>: \<open>stealth.ts\<close>, deposits, outputs, the three scanners, claims, view-only
    keys.
  \<^item> \<open>Sender_Memo\<close>: \<open>sender-memo.ts\<close>, on an authenticated cipher given as an argument (\<open>opens_to\<close>).
  \<^item> \<open>Events\<close>: \<open>events.ts\<close>, the parser of program logs with its base64, and every emitter of
    \<open>utils/events.rs\<close>; the log line of the runtime is an argument (\<open>log_ok\<close>).
  \<^item> \<open>Instructions\<close>: \<open>instructions.ts\<close>, every builder with its accounts. \<open>Onchain_Instructions\<close>: how the handlers of
    the program read their data. \<open>Instruction_Properties\<close>: they agree.
  \<^item> \<open>Onchain_Transact\<close>: \<open>instructions/transact.rs\<close>, the whole handler on a ledger (a map from addresses to
    owner and data), with the account checks, and the histories of the ledger as an inductive
    relation. \<open>Transact_Properties\<close>: nullifiers are spent once; and a transaction goes from the SDK through
    the program and its log back to the SDK.

  \<^item> \<open>Chadbuffer\<close>: \<open>chadbuffer.ts\<close>, the upload of a proof or transaction in pieces to a buffer account, with
    the readers of \<open>utils/chadbuffer.rs\<close>; the buffer program is an argument (\<open>chad_ok\<close>).
  \<^item> \<open>Delegation\<close>, \<open>Auditor\<close>, \<open>Audit_Report\<close>: delegated viewing keys of \<open>keys.ts\<close> and their encrypted export, and
    \<open>auditor.ts\<close>, which composes delegation, scanners and memos.
  \<^item> \<open>Bitcoin\<close>: the transaction parser of the program (\<open>utils/bitcoin.rs\<close>) with a reference format. \<open>Taproot\<close>: \<open>taproot.ts\<close> and
    \<open>bitcoin/ika.ts\<close>, addresses and scripts of deposits, with the script-path rule of BIP-341 as specification.
  \<^item> \<open>Btc_Deposit\<close>: the deposit functions of \<open>stealth.ts\<close>, the reader of the indexer (\<open>btc-client/src/op-return.ts\<close>) and the
    part of \<open>complete_deposit.rs\<close> that computes the credited note. \<open>Legacy_Deposit\<close>: \<open>stealth-deposit.ts\<close>. \<open>Psbt\<close>: \<open>psbt.ts\<close>.

  \<^bold>\<open>What the lemmas show.\<close>
  \<^item> Composition: a transaction built by the SDK is accepted under stated conditions, extends the tree by its
    commitments in order and is read back from the log with the right leaf indices; in no history
    is a nullifier spent twice.
  \<^item> Tree: roots, proofs, capacity, agreement of SDK and account, validity of the last hundred
    roots, import, export and building from indexer data.
  \<^item> Payments: what is sent to a meta-address is found by its owner and by the view key, and the claim
    inputs open the announced commitment; packing and view-only keys.
  \<^item> Encodings: bound parameters (agreement and injectivity), instructions, events, memos, notes, keys,
    proofs, addresses in base58.
  \<^item> Delegation: a scan stays within the permissions, expiry, slots and tokens it was given and accounts for every
    announcement; it sees the owner's payments, but attributes a transfer of unknown token to the first token asked
    for; the report reads back; the export of a delegated key is restored by its password.
  \<^item> Bitcoin: a deposit prepared by the SDK is credited by the program from the raw transaction and found by its owner; the
    refund path is spendable under the rules of Bitcoin; the deposit output is read alike everywhere; a deposit transaction
    conserves value and the selection of its inputs is the shortest; the older completion call is refused by the program.
  \<^item> Buffers: an upload fits the transaction limit and leaves exactly the data in the buffer.
  \<^item> Curve: the inversion loop ends with the inverse, addition stays on the curve where the denominators are
    invertible, the ladder is repeated addition, compression is injective on y and the parity of x.

  \<^bold>\<open>Bounds and termination.\<close> Functions are total. Loops whose end is not structural carry a measure (the
  inversion loop, the base58 and hexadecimal loops, the removal of factors of two); the loops of the modular square
  root, which end only for a suitable modulus, are partial functions with the value \<open>None\<close> where they do
  not return, and no theorem assumes that they do. Integers that wrap in the source (\<open>u64::to_le_bytes\<close>, byte
  stores, 32-bit shifts, the 16-bit borrow) wrap here; hypotheses \<open>fits n v\<close> say where a value has
  its width.

  \<^bold>\<open>Parameters.\<close> SHA-256, Poseidon and its syscall, X25519 and Ed25519, the AEAD cipher, PBKDF2 and AES-GCM, the buffer program, secp256k1, bech32 and the PSBT library, randomness and clock, the log
  of the runtime, program addresses, account creation, and the Groth16 verifier with its pairing
  calls. Their hypotheses state documented behaviour, and each has a concrete instance.

  \<^bold>\<open>Not modelled.\<close> Network clients, wallet prompts, the user interface and the deployment scripts (input and output); address
  derivation, disclosure packages, the Sui packages and the backend; the effects of the handlers other than
  \<open>transact\<close>. The group law of Baby Jubjub (associativity) and the primality of its field are not
  proved; theorems that need invertible denominators say so.

  \<^bold>\<open>Plan.\<close> The handlers \<open>shield\<close>, \<open>unshield\<close> and \<open>redeem\<close> on the same ledger with token balances; claim links and disclosure packages; the Sui adapter.
\<close>

end
